(* ===== verification/Prelude.thy ===== *)
theory Prelude
  imports Main "HOL-Library.AList" "HOL-Library.Sublist" "HOL-Library.Code_Target_Nat"
begin

text \<open>
  Shared vocabulary of the development.

  A Rust \<open>str\<close> is modelled by its UTF-8 bytes, a \<^typ>\<open>string\<close> whose \<^typ>\<open>char\<close>s are
  the bytes.  \<open>len\<close>, \<open>as_bytes\<close>, indexing and the ASCII case conversions are then the list
  operations themselves; the operations that look at Unicode scalar values (\<open>trim\<close>,
  \<open>split_whitespace\<close>, \<open>char::is_control\<close>) match the UTF-8 encodings of the scalars they
  care about.  On valid UTF-8 an encoding can only be matched at a scalar boundary, from
  either end, because its first byte is a leading byte that fixes its length.

  The theory also holds decimal printing and parsing of machine integers, the wrap-around
  casts, association lists as hash maps, and the locale of machines with an invariant that
  the stateful components interpret.
\<close>

named_theorems rstr_defs \<open>definitions of byte and string classes\<close>

type_synonym rstr = string
type_synonym ('e, 'a) result = "'e + 'a"

abbreviation byte :: "char \<Rightarrow> nat" where
  "byte c \<equiv> of_char c"

section \<open>Byte classes and ASCII case\<close>

definition is_ascii_digit :: "char \<Rightarrow> bool" where
  [rstr_defs]: "is_ascii_digit c \<longleftrightarrow> 48 \<le> byte c \<and> byte c \<le> 57"

definition is_ascii_upper :: "char \<Rightarrow> bool" where
  [rstr_defs]: "is_ascii_upper c \<longleftrightarrow> 65 \<le> byte c \<and> byte c \<le> 90"

definition is_ascii_lower :: "char \<Rightarrow> bool" where
  [rstr_defs]: "is_ascii_lower c \<longleftrightarrow> 97 \<le> byte c \<and> byte c \<le> 122"

definition is_ascii_alphanumeric :: "char \<Rightarrow> bool" where
  [rstr_defs]: "is_ascii_alphanumeric c \<longleftrightarrow>
     is_ascii_digit c \<or> is_ascii_upper c \<or> is_ascii_lower c"

definition is_ascii_whitespace :: "char \<Rightarrow> bool" where
  [rstr_defs]: "is_ascii_whitespace c \<longleftrightarrow>
     byte c = 9 \<or> byte c = 10 \<or> byte c = 12 \<or> byte c = 13 \<or> byte c = 32"

definition ascii_lower :: "char \<Rightarrow> char" where
  "ascii_lower c = (if is_ascii_upper c then char_of (byte c + 32) else c)"

definition ascii_upper :: "char \<Rightarrow> char" where
  "ascii_upper c = (if is_ascii_lower c then char_of (byte c - 32) else c)"

definition to_ascii_lowercase :: "rstr \<Rightarrow> rstr" where
  "to_ascii_lowercase = map ascii_lower"

definition to_ascii_uppercase :: "rstr \<Rightarrow> rstr" where
  "to_ascii_uppercase = map ascii_upper"

definition eq_ignore_ascii_case :: "rstr \<Rightarrow> rstr \<Rightarrow> bool" where
  "eq_ignore_ascii_case a b \<longleftrightarrow> to_ascii_lowercase a = to_ascii_lowercase b"

lemma byte_ascii_lower:
  "byte (ascii_lower c) = (if 65 \<le> byte c \<and> byte c \<le> 90 then byte c + 32 else byte c)"
  by (simp add: ascii_lower_def is_ascii_upper_def)

lemma byte_ascii_upper:
  "byte (ascii_upper c) = (if 97 \<le> byte c \<and> byte c \<le> 122 then byte c - 32 else byte c)"
  by (auto simp: ascii_upper_def is_ascii_lower_def)

lemma length_to_ascii_case [simp]:
  "length (to_ascii_lowercase s) = length s"
  "length (to_ascii_uppercase s) = length s"
  by (simp_all add: to_ascii_lowercase_def to_ascii_uppercase_def)

lemma ascii_lower_idem [simp]: "ascii_lower (ascii_lower c) = ascii_lower c"
proof -
  have "byte (ascii_lower (ascii_lower c)) = byte (ascii_lower c)"
    by (simp add: byte_ascii_lower)
  then show ?thesis by simp
qed

lemma to_ascii_lowercase_idem [simp]:
  "to_ascii_lowercase (to_ascii_lowercase s) = to_ascii_lowercase s"
  by (simp add: to_ascii_lowercase_def)

section \<open>Searching, splitting and trimming\<close>

abbreviation starts_with :: "'a list \<Rightarrow> 'a list \<Rightarrow> bool" where
  "starts_with s p \<equiv> prefix p s"

fun contains_str :: "'a list \<Rightarrow> 'a list \<Rightarrow> bool" where
  "contains_str pat [] \<longleftrightarrow> pat = []"
| "contains_str pat (c # cs) \<longleftrightarrow> prefix pat (c # cs) \<or> contains_str pat cs"

lemma contains_str_sublist: "contains_str pat s \<longleftrightarrow> sublist pat s"
  by (induction s) (auto simp: sublist_Cons_right)

text \<open>\<open>str::split(char)\<close>: always at least one part; \<open>split_once\<close> cuts at the first match.\<close>

fun split_on :: "'a \<Rightarrow> 'a list \<Rightarrow> 'a list list" where
  "split_on d [] = [[]]"
| "split_on d (x # xs) =
     (if x = d then [] # split_on d xs
      else (case split_on d xs of [] \<Rightarrow> [[x]] | y # ys \<Rightarrow> (x # y) # ys))"

lemma split_on_not_Nil [simp]: "split_on d xs \<noteq> []"
  by (cases xs) (auto split: list.splits)

lemma split_on_no_sep: "seg \<in> set (split_on d xs) \<Longrightarrow> d \<notin> set seg"
  by (induction xs arbitrary: seg) (auto split: list.splits if_splits)

lemma split_on_append_sep:
  "split_on d (xs @ d # ys) = split_on d xs @ split_on d ys"
  by (induction xs) (auto split: list.splits)

lemma split_on_id: "d \<notin> set xs \<Longrightarrow> split_on d xs = [xs]"
  by (induction xs) auto

lemma set_split_on: "(\<Union>seg\<in>set (split_on d xs). set seg) = set xs - {d}"
proof (induction xs)
  case Nil
  then show ?case by simp
next
  case (Cons x xs)
  obtain y ys where "split_on d xs = y # ys"
    by (cases "split_on d xs") auto
  with Cons show ?case by auto
qed

definition split_once :: "'a \<Rightarrow> 'a list \<Rightarrow> ('a list \<times> 'a list) option" where
  "split_once d xs =
     (if d \<in> set xs
      then Some (takeWhile (\<lambda>x. x \<noteq> d) xs, tl (dropWhile (\<lambda>x. x \<noteq> d) xs))
      else None)"

lemma split_once_Some:
  assumes "split_once d xs = Some (a, b)"
  shows "xs = a @ d # b" and "d \<notin> set a"
proof -
  from assms have d: "d \<in> set xs" and ab: "a = takeWhile (\<lambda>x. x \<noteq> d) xs"
    "b = tl (dropWhile (\<lambda>x. x \<noteq> d) xs)"
    by (auto simp: split_once_def split: if_splits)
  from d have ne: "dropWhile (\<lambda>x. x \<noteq> d) xs \<noteq> []" by (auto simp: dropWhile_eq_Nil_conv)
  then have "hd (dropWhile (\<lambda>x. x \<noteq> d) xs) = d" by (metis (full_types) hd_dropWhile)
  with ne ab have "dropWhile (\<lambda>x. x \<noteq> d) xs = d # b" by (metis list.collapse)
  with ab show "xs = a @ d # b" by (metis takeWhile_dropWhile_id)
  show "d \<notin> set a" unfolding ab by (auto dest: set_takeWhileD)
qed

lemma split_once_append [simp]: "d \<notin> set a \<Longrightarrow> split_once d (a @ d # b) = Some (a, b)"
  by (auto simp: split_once_def takeWhile_append dropWhile_append)

text \<open>\<open>str::trim_matches(char)\<close>.\<close>

definition trim_matches :: "'a \<Rightarrow> 'a list \<Rightarrow> 'a list" where
  "trim_matches d s = rev (dropWhile (\<lambda>c. c = d) (rev (dropWhile (\<lambda>c. c = d) s)))"

lemma trim_matches_sublist: "\<exists>p q. s = p @ trim_matches d s @ q"
proof -
  let ?t = "dropWhile (\<lambda>c. c = d) s"
  have "rev ?t = takeWhile (\<lambda>c. c = d) (rev ?t) @ dropWhile (\<lambda>c. c = d) (rev ?t)" by simp
  then have "?t = trim_matches d s @ rev (takeWhile (\<lambda>c. c = d) (rev ?t))"
    unfolding trim_matches_def by (metis rev_append rev_rev_ident)
  then show ?thesis by (metis takeWhile_dropWhile_id)
qed

lemma trim_matches_ends:
  assumes "trim_matches d s \<noteq> []"
  shows "hd (trim_matches d s) \<noteq> d \<and> last (trim_matches d s) \<noteq> d"
proof -
  let ?t = "dropWhile (\<lambda>c. c = d) s"
  have ne: "dropWhile (\<lambda>c. c = d) (rev ?t) \<noteq> []" using assms by (simp add: trim_matches_def)
  then have l: "last (trim_matches d s) \<noteq> d"
    using hd_dropWhile [OF ne] by (simp add: trim_matches_def last_rev)
  have "?t = trim_matches d s @ rev (takeWhile (\<lambda>c. c = d) (rev ?t))"
    unfolding trim_matches_def by (metis rev_append rev_rev_ident takeWhile_dropWhile_id)
  then have "hd ?t = hd (trim_matches d s)" "?t \<noteq> []" using assms by (metis hd_append2, metis append_is_Nil_conv)
  then show ?thesis using l hd_dropWhile [of "\<lambda>c. c = d" s] by simp
qed

lemma trim_matches_id: "s = [] \<or> hd s \<noteq> d \<and> last s \<noteq> d \<Longrightarrow> trim_matches d s = s"
proof -
  assume ends: "s = [] \<or> hd s \<noteq> d \<and> last s \<noteq> d"
  then have "dropWhile (\<lambda>c. c = d) s = s" "dropWhile (\<lambda>c. c = d) (rev s) = rev s"
    by (auto simp: dropWhile_eq_self_iff hd_rev)
  then show ?thesis by (simp add: trim_matches_def)
qed

subsection \<open>Unicode white space\<close>

text \<open>The UTF-8 encodings of the scalars with the White\_Space property.\<close>

definition ws_seqs :: "rstr list" where
  "ws_seqs =
     [[CHR 0x09], [CHR 0x0A], [CHR 0x0B], [CHR 0x0C], [CHR 0x0D], [CHR 0x20],
      [CHR 0xC2, CHR 0x85], [CHR 0xC2, CHR 0xA0],
      [CHR 0xE1, CHR 0x9A, CHR 0x80],
      [CHR 0xE2, CHR 0x80, CHR 0x80], [CHR 0xE2, CHR 0x80, CHR 0x81],
      [CHR 0xE2, CHR 0x80, CHR 0x82], [CHR 0xE2, CHR 0x80, CHR 0x83],
      [CHR 0xE2, CHR 0x80, CHR 0x84], [CHR 0xE2, CHR 0x80, CHR 0x85],
      [CHR 0xE2, CHR 0x80, CHR 0x86], [CHR 0xE2, CHR 0x80, CHR 0x87],
      [CHR 0xE2, CHR 0x80, CHR 0x88], [CHR 0xE2, CHR 0x80, CHR 0x89],
      [CHR 0xE2, CHR 0x80, CHR 0x8A], [CHR 0xE2, CHR 0x80, CHR 0xA8],
      [CHR 0xE2, CHR 0x80, CHR 0xA9], [CHR 0xE2, CHR 0x80, CHR 0xAF],
      [CHR 0xE2, CHR 0x81, CHR 0x9F], [CHR 0xE3, CHR 0x80, CHR 0x80]]"

text \<open>The rest of the input after the first pattern of the list that it starts with.\<close>

fun strip_one :: "'a list list \<Rightarrow> 'a list \<Rightarrow> 'a list option" where
  "strip_one [] s = None"
| "strip_one (p # ps) s =
     (if p \<noteq> [] \<and> prefix p s then Some (drop (length p) s) else strip_one ps s)"

lemma strip_one_None:
  "strip_one ps s = None \<longleftrightarrow> (\<forall>p\<in>set ps. p \<noteq> [] \<longrightarrow> \<not> prefix p s)"
  by (induction ps) auto

lemma strip_one_Some:
  "strip_one ps s = Some r \<Longrightarrow> \<exists>p\<in>set ps. p \<noteq> [] \<and> s = p @ r"
  by (induction ps) (auto simp: prefix_def split: if_splits)

lemma strip_one_length: "strip_one ps s = Some r \<Longrightarrow> length r < length s"
  by (auto dest!: strip_one_Some)

function strip_all :: "'a list list \<Rightarrow> 'a list \<Rightarrow> 'a list" where
  "strip_all ps s = (case strip_one ps s of None \<Rightarrow> s | Some r \<Rightarrow> strip_all ps r)"
  by pat_completeness auto
termination
  by (relation "measure (\<lambda>(ps, s). length s)") (auto dest: strip_one_length)

declare strip_all.simps [simp del]

lemma strip_all_suffix: "suffix (strip_all ps s) s"
proof (induction ps s rule: strip_all.induct)
  case (1 ps s)
  show ?case
  proof (cases "strip_one ps s")
    case None
    then show ?thesis by (simp add: strip_all.simps [of ps s])
  next
    case (Some r)
    with 1 have "suffix (strip_all ps r) r" by simp
    moreover have "suffix r s" using strip_one_Some [OF Some] by (auto simp: suffix_def)
    ultimately show ?thesis
      using Some by (simp add: strip_all.simps [of ps s] suffix_order.trans)
  qed
qed

lemma strip_all_done: "strip_one ps (strip_all ps s) = None"
proof (induction ps s rule: strip_all.induct)
  case (1 ps s)
  then show ?case
    by (cases "strip_one ps s") (simp_all add: strip_all.simps [of ps s])
qed

lemma strip_all_id: "strip_one ps s = None \<Longrightarrow> strip_all ps s = s"
  by (subst strip_all.simps) simp

definition trim_start :: "rstr \<Rightarrow> rstr" where
  "trim_start = strip_all ws_seqs"

definition trim_end :: "rstr \<Rightarrow> rstr" where
  "trim_end s = rev (strip_all (map rev ws_seqs) (rev s))"

definition trim :: "rstr \<Rightarrow> rstr" where
  "trim s = trim_end (trim_start s)"

abbreviation is_blank :: "rstr \<Rightarrow> bool" where
  "is_blank s \<equiv> trim s = []"

lemma trim_end_prefix: "prefix (trim_end s) s"
  using strip_all_suffix [of "map rev ws_seqs" "rev s"]
  by (simp add: trim_end_def suffix_to_prefix)

lemma trim_start_suffix: "suffix (trim_start s) s"
  by (simp add: trim_start_def strip_all_suffix)

lemma trim_sublist: "sublist (trim s) s"
proof -
  obtain a where "s = a @ trim_start s"
    using trim_start_suffix [of s] by (auto simp: suffix_def)
  moreover obtain b where "trim_start s = trim s @ b"
    using trim_end_prefix [of "trim_start s"] by (auto simp: trim_def prefix_def)
  ultimately show ?thesis by (metis sublist_appendI)
qed

lemma set_trim: "set (trim s) \<subseteq> set s"
  using trim_sublist set_mono_sublist by blast

lemma length_trim: "length (trim s) \<le> length s"
  using trim_sublist sublist_length_le by blast

lemma trim_start_done: "strip_one ws_seqs (trim s) = None"
proof -
  have "strip_one ws_seqs (trim_start s) = None"
    by (simp add: trim_start_def strip_all_done)
  moreover have "prefix (trim s) (trim_start s)"
    by (simp add: trim_def trim_end_prefix)
  ultimately show ?thesis
    by (auto simp: strip_one_None dest: prefix_order.trans)
qed

lemma trim_end_done: "strip_one (map rev ws_seqs) (rev (trim s)) = None"
  by (simp add: trim_def trim_end_def strip_all_done)

lemma trim_idem [simp]: "trim (trim s) = trim s"
  using trim_start_done [of s] trim_end_done [of s]
  by (simp add: trim_def [of "trim s"] trim_start_def trim_end_def strip_all_id)

lemma trim_Nil [simp]: "trim [] = []"
  using length_trim [of "[]"] by simp

text \<open>A string that starts and ends with a visible ASCII byte is its own trim.\<close>

definition is_visible_ascii :: "char \<Rightarrow> bool" where
  "is_visible_ascii c \<longleftrightarrow> 33 \<le> byte c \<and> byte c \<le> 126"

lemma ws_seqs_invisible:
  "p \<in> set ws_seqs \<Longrightarrow> p \<noteq> [] \<and> \<not> is_visible_ascii (hd p) \<and> \<not> is_visible_ascii (last p)"
  unfolding ws_seqs_def is_visible_ascii_def by simp (elim disjE; simp)

lemma trim_visible:
  assumes "s \<noteq> []" and "is_visible_ascii (hd s)" and "is_visible_ascii (last s)"
  shows "trim s = s"
proof -
  have "\<not> prefix p s" if "p \<in> set ws_seqs" for p
    using ws_seqs_invisible [OF that] assms(2) by (auto simp: prefix_def)
  then have "strip_one ws_seqs s = None" by (simp add: strip_one_None)
  moreover have "\<not> prefix (rev p) (rev s)" if "p \<in> set ws_seqs" for p
    using ws_seqs_invisible [OF that] assms(3) by (auto simp: suffix_to_prefix [symmetric] suffix_def)
  then have "strip_one (map rev ws_seqs) (rev s) = None" by (simp add: strip_one_None)
  ultimately show ?thesis
    by (simp add: trim_def trim_start_def trim_end_def strip_all_id)
qed

text \<open>\<open>str::split_whitespace\<close>: the maximal runs without White\_Space.\<close>

function split_ws :: "rstr \<Rightarrow> rstr \<Rightarrow> rstr list" where
  "split_ws cur [] = (if cur = [] then [] else [rev cur])"
| "split_ws cur (c # cs) =
     (case strip_one ws_seqs (c # cs) of
        Some rest \<Rightarrow> (if cur = [] then [] else [rev cur]) @ split_ws [] rest
      | None \<Rightarrow> split_ws (c # cur) cs)"
  by pat_completeness auto
termination
  by (relation "measure (\<lambda>(cur, s). length s)") (auto dest: strip_one_length)

definition split_whitespace :: "rstr \<Rightarrow> rstr list" where
  "split_whitespace s = split_ws [] s"

lemma split_ws_nonempty: "w \<in> set (split_ws cur s) \<Longrightarrow> w \<noteq> []"
  by (induction cur s rule: split_ws.induct) (auto split: option.splits if_splits)

text \<open>\<open>str::chars\<close>: a scalar is a lead byte with its continuation bytes.\<close>

function utf8_chars :: "rstr \<Rightarrow> rstr list" where
  "utf8_chars [] = []"
| "utf8_chars (b # bs) =
     (b # takeWhile (\<lambda>c. 0x80 \<le> byte c \<and> byte c < 0xC0) bs)
       # utf8_chars (dropWhile (\<lambda>c. 0x80 \<le> byte c \<and> byte c < 0xC0) bs)"
  by pat_completeness auto
termination
  by (relation "measure length") (auto simp: less_Suc_eq_le length_dropWhile_le)

lemma concat_utf8_chars [simp]: "concat (utf8_chars s) = s"
  by (induction s rule: utf8_chars.induct) auto

lemma utf8_chars_nonempty: "[] \<notin> set (utf8_chars s)"
  by (induction s rule: utf8_chars.induct) auto

text \<open>What follows the first occurrence of a string, as \<open>str::find\<close> and \<open>split_once\<close> read it.\<close>

fun after_str :: "'a list \<Rightarrow> 'a list \<Rightarrow> 'a list option" where
  "after_str p [] = (if p = [] then Some [] else None)"
| "after_str p (c # cs) = (if prefix p (c # cs) then Some (drop (length p) (c # cs)) else after_str p cs)"

text \<open>Whether some scalar is a control character (general category Cc).\<close>

fun has_control :: "rstr \<Rightarrow> bool" where
  "has_control [] \<longleftrightarrow> False"
| "has_control (c # cs) \<longleftrightarrow>
     byte c < 32 \<or> byte c = 127
     \<or> (byte c = 0xC2 \<and> (case cs of [] \<Rightarrow> False | d # _ \<Rightarrow> 0x80 \<le> byte d \<and> byte d \<le> 0x9F))
     \<or> has_control cs"

text \<open>\<open>String::push(char::from(b))\<close>: a byte read as a Latin-1 scalar, in UTF-8.\<close>

definition push_latin1 :: "nat \<Rightarrow> rstr" where
  "push_latin1 b =
     (if b < 128 then [char_of b] else [char_of (192 + b div 64), char_of (128 + b mod 64)])"

lemma push_latin1_ascii: "byte c < 128 \<Longrightarrow> push_latin1 (byte c) = [c]"
  by (simp add: push_latin1_def)

lemma push_latin1_not_Nil [simp]: "push_latin1 b \<noteq> []"
  by (simp add: push_latin1_def)

section \<open>Machine integers\<close>

text \<open>The cast \<open>as i64\<close> and release-profile \<open>i64\<close> subtraction wrap around.\<close>

definition wrap_i64 :: "int \<Rightarrow> int" where
  "wrap_i64 x = (x + 2 ^ 63) mod 2 ^ 64 - 2 ^ 63"

definition as_i64 :: "nat \<Rightarrow> int" where
  "as_i64 n = wrap_i64 (int n)"

definition i64_sub :: "int \<Rightarrow> int \<Rightarrow> int" where
  "i64_sub a b = wrap_i64 (a - b)"

lemma wrap_i64_id: "- (2 ^ 63) \<le> x \<Longrightarrow> x < 2 ^ 63 \<Longrightarrow> wrap_i64 x = x"
  by (simp add: wrap_i64_def)

lemma as_i64_id: "n < 2 ^ 63 \<Longrightarrow> as_i64 n = int n"
  unfolding as_i64_def by (rule wrap_i64_id) (auto simp: of_nat_less_numeral_power_cancel_iff)

definition saturating_add :: "nat \<Rightarrow> nat \<Rightarrow> nat \<Rightarrow> nat" where
  "saturating_add upper a b = min (a + b) upper"

abbreviation u32_max :: nat where "u32_max \<equiv> 4294967295"
abbreviation u64_max :: nat where "u64_max \<equiv> 18446744073709551615"

subsection \<open>Decimal text\<close>

text \<open>\<open>Display\<close> and \<open>FromStr\<close> of an unsigned integer; parsing accepts one leading plus sign.\<close>

function show_nat :: "nat \<Rightarrow> rstr" where
  "show_nat n = (if n < 10 then [char_of (48 + n)] else show_nat (n div 10) @ [char_of (48 + n mod 10)])"
  by pat_completeness auto
termination
  by (relation "measure id") auto

declare show_nat.simps [simp del]

definition digits_value :: "rstr \<Rightarrow> nat" where
  "digits_value = foldl (\<lambda>acc c. acc * 10 + (byte c - 48)) 0"

definition strip_plus :: "rstr \<Rightarrow> rstr" where
  "strip_plus s = (case s of c # cs \<Rightarrow> if c = CHR ''+'' then cs else s | [] \<Rightarrow> [])"

definition parse_uint :: "nat \<Rightarrow> rstr \<Rightarrow> nat option" where
  "parse_uint upper s =
     (let ds = strip_plus s in
      if ds = [] \<or> \<not> list_all is_ascii_digit ds then None
      else if digits_value ds \<le> upper then Some (digits_value ds) else None)"

lemma digits_value_append: "digits_value (ds @ [c]) = digits_value ds * 10 + (byte c - 48)"
  by (simp add: digits_value_def)

lemma show_nat_digits: "list_all is_ascii_digit (show_nat n) \<and> show_nat n \<noteq> []"
proof (induction n rule: show_nat.induct)
  case (1 n)
  then show ?case
    by (cases "n < 10") (simp_all add: show_nat.simps [of n] is_ascii_digit_def)
qed

lemma digits_value_show_nat [simp]: "digits_value (show_nat n) = n"
proof (induction n rule: show_nat.induct)
  case (1 n)
  show ?case
  proof (cases "n < 10")
    case True
    then show ?thesis by (simp add: show_nat.simps [of n] digits_value_def)
  next
    case False
    with 1 show ?thesis by (simp add: show_nat.simps [of n] digits_value_append)
  qed
qed

lemma digit_not_plus: "is_ascii_digit c \<Longrightarrow> c \<noteq> CHR ''+''"
  by (auto simp: is_ascii_digit_def)

lemma strip_plus_digits: "list_all is_ascii_digit s \<Longrightarrow> strip_plus s = s"
  by (cases s) (auto simp: strip_plus_def dest: digit_not_plus)

lemma parse_show_nat [simp]: "n \<le> upper \<Longrightarrow> parse_uint upper (show_nat n) = Some n"
  using show_nat_digits [of n] by (simp add: parse_uint_def strip_plus_digits)

lemma show_nat_inject [simp]: "show_nat m = show_nat n \<longleftrightarrow> m = n"
  by (metis digits_value_show_nat)

lemma parse_uint_bound: "parse_uint upper s = Some n \<Longrightarrow> n \<le> upper"
  by (auto simp: parse_uint_def Let_def split: if_splits)

text \<open>
  Instants and durations count milliseconds; an instant holds its seconds in a signed 64-bit number.
\<close>

definition instant_checked_add :: "nat \<Rightarrow> nat \<Rightarrow> nat option" where
  "instant_checked_add t d = (if t + d < 2 ^ 63 * 1000 then Some (t + d) else None)"

section \<open>Results\<close>

text \<open>The \<open>?\<close> operator: continue with the value or return the error.\<close>

definition and_then :: "('e, 'a) result \<Rightarrow> ('a \<Rightarrow> ('e, 'b) result) \<Rightarrow> ('e, 'b) result" where
  "and_then r f = (case r of Inl e \<Rightarrow> Inl e | Inr x \<Rightarrow> f x)"

lemma and_then_simps [simp]: "and_then (Inl e) f = Inl e" "and_then (Inr x) f = f x"
  by (simp_all add: and_then_def)

lemma and_then_Inr [simp]: "and_then r f = Inr y \<longleftrightarrow> (\<exists>x. r = Inr x \<and> f x = Inr y)"
  by (cases r) auto

lemma and_then_Inl [simp]: "and_then r f = Inl e \<longleftrightarrow> r = Inl e \<or> (\<exists>x. r = Inr x \<and> f x = Inl e)"
  by (cases r) auto

section \<open>Association lists\<close>

lemma set_alist_update: "set (AList.update k v al) \<subseteq> insert (k, v) (set al)"
  by (induction al) auto

lemma length_update_le: "length (AList.update k v al) \<le> Suc (length al)"
  by (induction al) auto

section \<open>Machines with an invariant\<close>

text \<open>
  The stateful components are machines: a predicate for the initial states, one function per
  operation, and an invariant.  What holds initially and is kept by every operation holds
  after every sequence of operations.
\<close>

locale invariant_machine =
  fixes start :: "'s \<Rightarrow> bool"
    and step :: "'op \<Rightarrow> 's \<Rightarrow> 's"
    and inv :: "'s \<Rightarrow> bool"
  assumes start_inv: "start s \<Longrightarrow> inv s"
    and step_inv: "inv s \<Longrightarrow> inv (step op s)"
begin

lemma fold_inv: "inv s \<Longrightarrow> inv (fold step ops s)"
  by (induction ops arbitrary: s) (auto intro: step_inv)

lemma run_inv: "start s \<Longrightarrow> inv (fold step ops s)"
  by (rule fold_inv [OF start_inv])

text \<open>Every intermediate state of a run satisfies the invariant too.\<close>

lemma run_prefix_inv: "start s \<Longrightarrow> inv (fold step (take n ops) s)"
  by (rule run_inv)

end

end
