(* ===== verification/Policy_Decision.thy ===== *)
theory Policy_Decision
  imports Prelude
begin

text \<open>
  The decision envelope of \<open>mcp-toolkit-policy-core\<close> (\<open>decision.rs\<close>), the boundary limits
  (\<open>boundary.rs\<close>) and the three small pure gates built on them: break-glass
  (\<open>break_glass.rs\<close>), no-mutation proof (\<open>no_mutation_proof.rs\<close>) and sensitive read
  (\<open>sensitive_read.rs\<close>).  The two limits come from a generated file (\<open>pk_boundary.rs\<close>), so
  they are a parameter, the record \<open>boundary\<close>.
  The locale \<open>decision_gate\<close> is the contract every gate of the policy core meets: an allow
  carries no code and no reason, a deny carries a code of the catalog and no scopes.
\<close>

section \<open>Decision codes\<close>

datatype decision_code =
    MissingToken | MissingScopes | MissingRoles | IssuerMismatch | AudienceMismatch
  | AzpNotAllowed | InvalidPath | MissingRealm | SystemTokenForbidden | AllowlistDenied
  | CapabilityMissing | CapabilityMismatch | QuorumMissing | QuorumStale | EmptySql
  | UnterminatedToken | MultipleStatements | NotReadOnlyPrefix | ForbiddenKeyword
  | ForbiddenFunction | ExplainNotReadOnly | ClassifierUnavailable
  | SparkRuntimeUnavailable | InvalidInput

definition DECISION_CODE_CATALOG :: "decision_code list" where
  "DECISION_CODE_CATALOG =
    [MissingToken, MissingScopes, MissingRoles, IssuerMismatch, AudienceMismatch,
     AzpNotAllowed, InvalidPath, MissingRealm, SystemTokenForbidden, AllowlistDenied,
     CapabilityMissing, CapabilityMismatch, QuorumMissing, QuorumStale, EmptySql,
     UnterminatedToken, MultipleStatements, NotReadOnlyPrefix, ForbiddenKeyword,
     ForbiddenFunction, ExplainNotReadOnly, ClassifierUnavailable,
     SparkRuntimeUnavailable, InvalidInput]"

fun code_as_str :: "decision_code \<Rightarrow> rstr" where
  "code_as_str MissingToken = ''MISSING_TOKEN''"
| "code_as_str MissingScopes = ''MISSING_SCOPES''"
| "code_as_str MissingRoles = ''MISSING_ROLES''"
| "code_as_str IssuerMismatch = ''ISSUER_MISMATCH''"
| "code_as_str AudienceMismatch = ''AUDIENCE_MISMATCH''"
| "code_as_str AzpNotAllowed = ''AZP_NOT_ALLOWED''"
| "code_as_str InvalidPath = ''INVALID_PATH''"
| "code_as_str MissingRealm = ''MISSING_REALM''"
| "code_as_str SystemTokenForbidden = ''SYSTEM_TOKEN_FORBIDDEN''"
| "code_as_str AllowlistDenied = ''ALLOWLIST_DENIED''"
| "code_as_str CapabilityMissing = ''CAPABILITY_MISSING''"
| "code_as_str CapabilityMismatch = ''CAPABILITY_MISMATCH''"
| "code_as_str QuorumMissing = ''QUORUM_MISSING''"
| "code_as_str QuorumStale = ''QUORUM_STALE''"
| "code_as_str EmptySql = ''EMPTY_SQL''"
| "code_as_str UnterminatedToken = ''UNTERMINATED_TOKEN''"
| "code_as_str MultipleStatements = ''MULTIPLE_STATEMENTS''"
| "code_as_str NotReadOnlyPrefix = ''NOT_READ_ONLY_PREFIX''"
| "code_as_str ForbiddenKeyword = ''FORBIDDEN_KEYWORD''"
| "code_as_str ForbiddenFunction = ''FORBIDDEN_FUNCTION''"
| "code_as_str ExplainNotReadOnly = ''EXPLAIN_NOT_READ_ONLY''"
| "code_as_str ClassifierUnavailable = ''CLASSIFIER_UNAVAILABLE''"
| "code_as_str SparkRuntimeUnavailable = ''SPARK_RUNTIME_UNAVAILABLE''"
| "code_as_str InvalidInput = ''INVALID_INPUT''"

definition code_parse :: "rstr \<Rightarrow> decision_code option" where
  "code_parse value = map_of
    [(''MISSING_TOKEN'', MissingToken), (''MISSING_SCOPES'', MissingScopes),
     (''MISSING_ROLES'', MissingRoles), (''ISSUER_MISMATCH'', IssuerMismatch),
     (''AUDIENCE_MISMATCH'', AudienceMismatch), (''AZP_NOT_ALLOWED'', AzpNotAllowed),
     (''INVALID_PATH'', InvalidPath), (''MISSING_REALM'', MissingRealm),
     (''SYSTEM_TOKEN_FORBIDDEN'', SystemTokenForbidden),
     (''ALLOWLIST_DENIED'', AllowlistDenied), (''CAPABILITY_MISSING'', CapabilityMissing),
     (''CAPABILITY_MISMATCH'', CapabilityMismatch), (''QUORUM_MISSING'', QuorumMissing),
     (''QUORUM_STALE'', QuorumStale), (''EMPTY_SQL'', EmptySql),
     (''UNTERMINATED_TOKEN'', UnterminatedToken),
     (''MULTIPLE_STATEMENTS'', MultipleStatements),
     (''NOT_READ_ONLY_PREFIX'', NotReadOnlyPrefix),
     (''FORBIDDEN_KEYWORD'', ForbiddenKeyword), (''FORBIDDEN_FUNCTION'', ForbiddenFunction),
     (''EXPLAIN_NOT_READ_ONLY'', ExplainNotReadOnly),
     (''CLASSIFIER_UNAVAILABLE'', ClassifierUnavailable),
     (''SPARK_RUNTIME_UNAVAILABLE'', SparkRuntimeUnavailable),
     (''INVALID_INPUT'', InvalidInput)] value"

definition decision_code_catalog :: "rstr list" where
  "decision_code_catalog = map code_as_str DECISION_CODE_CATALOG"

lemma code_parse_as_str [simp]: "code_parse (code_as_str c) = Some c"
  by (cases c) (simp_all add: code_parse_def)

lemma code_parse_Some: "code_parse s = Some c \<Longrightarrow> code_as_str c = s"
  unfolding code_parse_def by (drule map_of_SomeD) auto

lemma code_as_str_not_Nil [simp]: "code_as_str c \<noteq> []"
  by (cases c) simp_all

lemma catalog_complete: "set DECISION_CODE_CATALOG = UNIV"
proof -
  have "c \<in> set DECISION_CODE_CATALOG" for c
    by (cases c) (simp_all add: DECISION_CODE_CATALOG_def)
  then show ?thesis by blast
qed

section \<open>The decision envelope\<close>

record decision =
  d_allow :: bool
  d_code :: "rstr option"
  d_reason :: "rstr option"
  d_required_scopes :: "rstr list option"

record decision_wire_v1 =
  w_allow :: bool
  w_code :: rstr
  w_reason :: rstr
  w_required_scopes :: "rstr list option"

record decision_deny_error =
  e_code :: "rstr option"
  e_reason :: "rstr option"

definition deny_error_display :: "decision_deny_error \<Rightarrow> rstr" where
  "deny_error_display e =
     (case (e_code e, e_reason e) of
        (Some code, Some reason) \<Rightarrow> ''policy denied: '' @ code @ '' ('' @ reason @ '')''
      | (Some code, None) \<Rightarrow> ''policy denied: '' @ code
      | (None, Some reason) \<Rightarrow> ''policy denied: '' @ reason
      | (None, None) \<Rightarrow> ''policy denied'')"

definition decision_allow :: decision where
  "decision_allow =
     \<lparr>d_allow = True, d_code = None, d_reason = None, d_required_scopes = None\<rparr>"

definition decision_deny :: "decision_code \<Rightarrow> rstr option \<Rightarrow> decision" where
  "decision_deny code reason =
     \<lparr>d_allow = False, d_code = Some (code_as_str code), d_reason = reason,
      d_required_scopes = None\<rparr>"

definition decision_deny_raw :: "rstr \<Rightarrow> rstr option \<Rightarrow> decision" where
  "decision_deny_raw code reason =
     (case code_parse code of
        Some typed \<Rightarrow> decision_deny typed reason
      | None \<Rightarrow> \<lparr>d_allow = False, d_code = Some code, d_reason = reason,
                 d_required_scopes = None\<rparr>)"

definition with_required_scopes :: "decision \<Rightarrow> rstr list \<Rightarrow> decision" where
  "with_required_scopes d scopes = d\<lparr>d_required_scopes := Some scopes\<rparr>"

definition ensure_allowed :: "decision \<Rightarrow> (decision_deny_error, decision) result" where
  "ensure_allowed d =
     (if d_allow d then Inr d else Inl \<lparr>e_code = d_code d, e_reason = d_reason d\<rparr>)"

definition to_wire_v1 :: "decision \<Rightarrow> decision_wire_v1" where
  "to_wire_v1 d =
     (if d_allow d
      then \<lparr>w_allow = True, w_code = ''ALLOW'', w_reason = ''allowed'',
            w_required_scopes = d_required_scopes d\<rparr>
      else \<lparr>w_allow = False,
            w_code = (case d_code d of Some c \<Rightarrow> c | None \<Rightarrow> ''DENY''),
            w_reason = (case d_reason d of Some r \<Rightarrow> r | None \<Rightarrow> ''denied''),
            w_required_scopes = d_required_scopes d\<rparr>)"

definition non_empty :: "rstr \<Rightarrow> rstr option" where
  "non_empty s = (if s = [] then None else Some s)"

definition from_wire_v1 :: "decision_wire_v1 \<Rightarrow> decision" where
  "from_wire_v1 v =
     (if w_allow v
      then \<lparr>d_allow = True, d_code = None, d_reason = None,
            d_required_scopes = w_required_scopes v\<rparr>
      else \<lparr>d_allow = False, d_code = non_empty (w_code v), d_reason = non_empty (w_reason v),
            d_required_scopes = w_required_scopes v\<rparr>)"

lemmas decision_defs = decision_allow_def decision_deny_def with_required_scopes_def

lemma decision_allow_simps [simp]:
  "d_allow decision_allow" "d_allow (with_required_scopes d ss) = d_allow d"
  "\<not> d_allow (decision_deny c r)"
  by (simp_all add: decision_defs)

lemma decision_deny_neq_allow [simp]:
  "decision_deny c r \<noteq> decision_allow" "decision_allow \<noteq> decision_deny c r"
  by (simp_all add: decision_defs)

lemma decision_deny_inject [simp]:
  "decision_deny c r = decision_deny c' r' \<longleftrightarrow> c = c' \<and> r = r'"
  by (auto simp: decision_deny_def) (metis code_parse_as_str option.inject)

section \<open>The contract of a gate\<close>

definition decision_wf :: "decision \<Rightarrow> bool" where
  "decision_wf d \<longleftrightarrow>
     (if d_allow d then d_code d = None \<and> d_reason d = None
      else d_code d \<in> Some ` code_as_str ` set DECISION_CODE_CATALOG \<and> d_reason d \<noteq> Some []
           \<and> d_required_scopes d = None)"

lemma decision_wf_allow [simp]:
  "decision_wf decision_allow" "decision_wf (with_required_scopes decision_allow ss)"
  by (simp_all add: decision_wf_def decision_defs)

lemma decision_wf_deny [simp]: "decision_wf (decision_deny c r) \<longleftrightarrow> r \<noteq> Some []"
  by (auto simp: decision_wf_def decision_defs catalog_complete)

lemma wire_roundtrip_wf:
  assumes "decision_wf d"
  shows "from_wire_v1 (to_wire_v1 d)
         = (if d_allow d \<or> d_reason d \<noteq> None then d else d\<lparr>d_reason := Some ''denied''\<rparr>)"
  using assms
  by (cases d) (auto simp: decision_wf_def to_wire_v1_def from_wire_v1_def non_empty_def)

locale decision_gate =
  fixes gate :: "'i \<Rightarrow> decision"
  assumes gate_wf: "decision_wf (gate i)"
begin

lemma deny_code_in_catalog:
  "\<not> d_allow (gate i) \<Longrightarrow> d_code (gate i) \<in> Some ` set decision_code_catalog"
  using gate_wf [of i] by (simp add: decision_wf_def decision_code_catalog_def)

lemma deny_without_scopes: "\<not> d_allow (gate i) \<Longrightarrow> d_required_scopes (gate i) = None"
  using gate_wf [of i] by (simp add: decision_wf_def)

lemma ensure_allowed_error:
  assumes "ensure_allowed (gate i) = Inl e"
  obtains c where "e_code e = Some (code_as_str c)" and "e_reason e = d_reason (gate i)"
  using gate_wf [of i] assms
  by (auto simp: decision_wf_def ensure_allowed_def split: if_splits)

lemma wire_keeps_verdict:
  "d_allow (from_wire_v1 (to_wire_v1 (gate i))) = d_allow (gate i)"
  "d_code (from_wire_v1 (to_wire_v1 (gate i))) = d_code (gate i)"
  "d_required_scopes (from_wire_v1 (to_wire_v1 (gate i))) = d_required_scopes (gate i)"
  by (simp_all add: wire_roundtrip_wf [OF gate_wf])

end

section \<open>Boundary limits\<close>

record boundary =
  max_string_length :: nat
  max_list_length :: nat

definition string_within_boundary_limit :: "boundary \<Rightarrow> rstr \<Rightarrow> bool" where
  "string_within_boundary_limit lim value \<longleftrightarrow> length value \<le> max_string_length lim"

definition optional_string_within_boundary_limit :: "boundary \<Rightarrow> rstr option \<Rightarrow> bool" where
  "optional_string_within_boundary_limit lim value =
     (case value of None \<Rightarrow> True | Some v \<Rightarrow> string_within_boundary_limit lim v)"

definition list_within_boundary_limits :: "boundary \<Rightarrow> rstr list \<Rightarrow> bool" where
  "list_within_boundary_limits lim values \<longleftrightarrow>
     length values \<le> max_list_length lim
     \<and> list_all (string_within_boundary_limit lim) values"

lemmas boundary_defs = string_within_boundary_limit_def
  optional_string_within_boundary_limit_def list_within_boundary_limits_def

definition fallback_boundary :: boundary where
  "fallback_boundary = \<lparr>max_string_length = 2048, max_list_length = 128\<rparr>"

section \<open>The small gates\<close>

record break_glass_allowlist_policy =
  production_mode :: bool
  break_glass_enabled :: bool
  break_glass_reason :: "rstr option"
  break_glass_ttl_s :: "nat option"
  allowlist_configured :: bool
  reason_required_error :: rstr
  ttl_required_error :: rstr
  production_allowlist_error :: rstr

definition validate_break_glass_allowlist_policy ::
  "break_glass_allowlist_policy \<Rightarrow> (rstr, unit) result" where
  "validate_break_glass_allowlist_policy p =
     (if break_glass_enabled p
         \<and> (case break_glass_reason p of Some v \<Rightarrow> trim v = [] | None \<Rightarrow> True)
      then Inl (reason_required_error p)
      else if break_glass_enabled p
         \<and> (case break_glass_ttl_s p of Some t \<Rightarrow> t | None \<Rightarrow> 0) = 0
      then Inl (ttl_required_error p)
      else if production_mode p \<and> \<not> break_glass_enabled p \<and> \<not> allowlist_configured p
      then Inl (production_allowlist_error p)
      else Inr ())"

definition no_mutation_proof_policy_decision ::
  "boundary \<Rightarrow> bool \<Rightarrow> bool \<Rightarrow> bool \<Rightarrow> rstr list \<Rightarrow> decision" where
  "no_mutation_proof_policy_decision lim proof_performed mutation_performed
       production_action_authorized evidence_notes =
     (if mutation_performed then decision_deny InvalidInput (Some ''mutation_performed'')
      else if production_action_authorized
      then decision_deny InvalidInput (Some ''production_action_authorized'')
      else if \<not> proof_performed then decision_deny InvalidInput (Some ''proof_not_performed'')
      else if evidence_notes = [] then decision_deny InvalidInput (Some ''evidence_required'')
      else if \<not> list_within_boundary_limits lim evidence_notes
      then decision_deny InvalidInput (Some ''boundary_limit_exceeded'')
      else decision_allow)"

definition sensitive_read_policy_decision ::
  "boundary \<Rightarrow> bool \<Rightarrow> bool \<Rightarrow> rstr list \<Rightarrow> decision" where
  "sensitive_read_policy_decision lim runtime_enabled acknowledged_sensitive_output
       requested_fields =
     (if \<not> runtime_enabled
      then decision_deny CapabilityMissing (Some ''sensitive_read_runtime_disabled'')
      else if \<not> acknowledged_sensitive_output
      then decision_deny InvalidInput (Some ''sensitive_output_acknowledgement_required'')
      else if requested_fields = [] then decision_deny InvalidInput (Some ''fields_required'')
      else if \<not> list_within_boundary_limits lim requested_fields
      then decision_deny InvalidInput (Some ''boundary_limit_exceeded'')
      else decision_allow)"

interpretation no_mutation_gate: decision_gate
  "\<lambda>(p, m, a, notes). no_mutation_proof_policy_decision lim p m a notes" for lim
  by unfold_locales (auto simp: no_mutation_proof_policy_decision_def)

interpretation sensitive_read_gate: decision_gate
  "\<lambda>(e, a, fields). sensitive_read_policy_decision lim e a fields" for lim
  by unfold_locales (auto simp: sensitive_read_policy_decision_def)

section \<open>Properties\<close>

text \<open>
  Decision codes print and parse back: a string parses to a code exactly when it is the
  printed form of that code, and the published catalog lists every code once.
\<close>

lemma decision_code_roundtrip:
  "(code_parse s = Some c \<longleftrightarrow> s = code_as_str c)
   \<and> distinct decision_code_catalog \<and> set decision_code_catalog = range code_as_str"
proof -
  have "inj code_as_str" by (metis code_parse_as_str injI option.inject)
  moreover have "distinct DECISION_CODE_CATALOG" by (simp add: DECISION_CODE_CATALOG_def)
  ultimately have "distinct decision_code_catalog"
    by (simp add: decision_code_catalog_def distinct_map catalog_complete)
  moreover have "set decision_code_catalog = range code_as_str"
    by (simp add: decision_code_catalog_def catalog_complete)
  ultimately show ?thesis by (auto dest: code_parse_Some)
qed

text \<open>
  Sending a well-formed decision through the V1 wire envelope and back changes nothing
  but a missing deny reason, which becomes \<open>denied\<close>; the verdict, code and scopes survive.
\<close>

lemma decision_wire_roundtrip:
  assumes "decision_wf d"
  shows "from_wire_v1 (to_wire_v1 d)
         = (if d_allow d \<or> d_reason d \<noteq> None then d else d\<lparr>d_reason := Some ''denied''\<rparr>)
       \<and> to_wire_v1 (from_wire_v1 (to_wire_v1 d)) = to_wire_v1 d"
  using wire_roundtrip_wf [OF assms] by (auto simp: to_wire_v1_def)

text \<open>
  The break-glass check passes exactly when an enabled override has a non-blank reason
  and a positive time to live, and production without an override has an allowlist; the
  error it returns otherwise is the first of the three that applies.
\<close>

lemma break_glass_iff:
  "(validate_break_glass_allowlist_policy p = Inr () \<longleftrightarrow>
      (if break_glass_enabled p
       then (\<exists>r t. break_glass_reason p = Some r \<and> trim r \<noteq> []
                  \<and> break_glass_ttl_s p = Some t \<and> 0 < t)
       else production_mode p \<le> allowlist_configured p))
   \<and> validate_break_glass_allowlist_policy p \<in>
       {Inr (), Inl (reason_required_error p), Inl (ttl_required_error p),
        Inl (production_allowlist_error p)}"
  by (auto simp: validate_break_glass_allowlist_policy_def split: option.splits)

end
