(* ===== verification/Json.thy ===== *)
theory Json
  imports Prelude
begin

text \<open>
  JSON values as \<open>serde_json::Value\<close> holds them.  A number keeps serde's three
  representations; floating-point numbers are opaque.  An object is the list of its entries
  in iteration order with distinct keys, looked up with \<open>map_of\<close>.
\<close>

datatype json_number = PosInt nat | NegInt int | Float rstr

datatype json =
    JNull
  | JBool bool
  | JNumber json_number
  | JString rstr
  | JArray "json list"
  | JObject "(rstr \<times> json) list"

type_synonym json_map = "(rstr \<times> json) list"

fun as_str :: "json \<Rightarrow> rstr option" where
  "as_str (JString s) = Some s"
| "as_str _ = None"

fun as_object :: "json \<Rightarrow> json_map option" where
  "as_object (JObject m) = Some m"
| "as_object _ = None"

fun as_array :: "json \<Rightarrow> json list option" where
  "as_array (JArray xs) = Some xs"
| "as_array _ = None"

fun as_bool :: "json \<Rightarrow> bool option" where
  "as_bool (JBool b) = Some b"
| "as_bool _ = None"

definition is_string :: "json \<Rightarrow> bool" where
  "is_string v \<longleftrightarrow> as_str v \<noteq> None"

definition get_str :: "json_map \<Rightarrow> rstr \<Rightarrow> rstr option" where
  "get_str m k = Option.bind (map_of m k) as_str"

lemma is_string_simps [simp]:
  "is_string (JString s)" "\<not> is_string JNull" "\<not> is_string (JBool b)"
  "\<not> is_string (JNumber n)" "\<not> is_string (JArray xs)" "\<not> is_string (JObject m)"
  by (simp_all add: is_string_def)

lemma is_string_iff: "is_string v \<longleftrightarrow> (\<exists>s. v = JString s)"
  by (cases v) auto

lemma as_str_Some [simp]: "as_str v = Some s \<longleftrightarrow> v = JString s"
  by (cases v) auto

text \<open>\<open>Option::filter\<close>.\<close>

definition opt_filter :: "('a \<Rightarrow> bool) \<Rightarrow> 'a option \<Rightarrow> 'a option" where
  "opt_filter P x = (case x of Some v \<Rightarrow> if P v then Some v else None | None \<Rightarrow> None)"

lemma opt_filter_Some [simp]: "opt_filter P x = Some v \<longleftrightarrow> x = Some v \<and> P v"
  by (auto simp: opt_filter_def split: option.splits)

definition trimmed_non_empty :: "rstr option \<Rightarrow> rstr option" where
  "trimmed_non_empty x = opt_filter (\<lambda>v. v \<noteq> []) (map_option trim x)"

end
