(* ===== verification/Claims.thy ===== *)
theory Claims
  imports Policy_Decision Json
begin

text \<open>
  Bearer-header and OIDC-claim checks of \<open>claims.rs\<close> (crate \<open>mcp-toolkit-policy-core\<close>).
  \<open>claims_admitted\<close> is the abstract reading of the configured expectations, and
  \<open>enforce_claims\<close> is shown to decide exactly that.
\<close>

record claims_cfg =
  expected_issuer :: "rstr option"
  expected_audience :: "rstr option"
  allowed_azp :: "rstr list"

section \<open>Bearer header\<close>

definition validate_bearer_header :: "boundary \<Rightarrow> rstr \<Rightarrow> decision" where
  "validate_bearer_header lim raw =
     (if \<not> string_within_boundary_limit lim raw
      then decision_deny InvalidInput (Some ''boundary_limits'')
      else if trim raw \<noteq> raw \<or> has_control raw \<or> count_list raw (CHR '' '') \<noteq> 1
      then decision_deny MissingToken (Some ''invalid_bearer'')
      else (case split_once (CHR '' '') raw of
              None \<Rightarrow> decision_deny MissingToken (Some ''invalid_bearer'')
            | Some (scheme, token) \<Rightarrow>
                if \<not> eq_ignore_ascii_case scheme ''bearer'' \<or> token = []
                then decision_deny MissingToken (Some ''invalid_bearer'')
                else decision_allow))"

section \<open>Claims\<close>

definition claims_have_valid_types :: "json_map \<Rightarrow> bool" where
  "claims_have_valid_types claims \<longleftrightarrow>
     list_all (\<lambda>key. case map_of claims key of None \<Rightarrow> True | Some v \<Rightarrow> is_string v)
       [''iss'', ''azp'', ''client_id'']
     \<and> (case map_of claims ''aud'' of
          None \<Rightarrow> True
        | Some (JString _) \<Rightarrow> True
        | Some (JArray values) \<Rightarrow> list_all is_string values
        | _ \<Rightarrow> False)"

definition extract_audiences :: "json_map \<Rightarrow> rstr list" where
  "extract_audiences claims =
     (case map_of claims ''aud'' of
        Some (JString value) \<Rightarrow> filter (\<lambda>part. part \<noteq> []) (split_whitespace value)
      | Some (JArray values) \<Rightarrow> List.map_filter as_str values
      | _ \<Rightarrow> [])"

definition normalized_claim_string_within_limits :: "boundary \<Rightarrow> json_map \<Rightarrow> rstr \<Rightarrow> bool" where
  "normalized_claim_string_within_limits lim claims key =
     optional_string_within_boundary_limit lim (trimmed_non_empty (get_str claims key))"

fun audience_values_within_limits :: "boundary \<Rightarrow> nat \<Rightarrow> json list \<Rightarrow> bool" where
  "audience_values_within_limits lim count [] = True"
| "audience_values_within_limits lim count (value # values) =
     (case as_str value of
        None \<Rightarrow> audience_values_within_limits lim count values
      | Some aud \<Rightarrow>
          (let aud = trim aud in
           if aud = [] then audience_values_within_limits lim count values
           else if count + 1 > max_list_length lim \<or> \<not> string_within_boundary_limit lim aud
           then False
           else audience_values_within_limits lim (count + 1) values))"

definition normalized_claim_audience_within_limits :: "boundary \<Rightarrow> json_map \<Rightarrow> bool" where
  "normalized_claim_audience_within_limits lim claims =
     (case map_of claims ''aud'' of
        None \<Rightarrow> True
      | Some (JString value) \<Rightarrow>
          (let audiences = filter (\<lambda>segment. segment \<noteq> []) (split_whitespace value) in
           length audiences \<le> max_list_length lim
           \<and> list_all (string_within_boundary_limit lim) audiences)
      | Some (JArray values) \<Rightarrow> audience_values_within_limits lim 0 values
      | _ \<Rightarrow> True)"

definition claims_cfg_within_boundary_limits :: "boundary \<Rightarrow> claims_cfg \<Rightarrow> bool" where
  "claims_cfg_within_boundary_limits lim cfg \<longleftrightarrow>
     optional_string_within_boundary_limit lim (expected_issuer cfg)
     \<and> optional_string_within_boundary_limit lim (expected_audience cfg)
     \<and> list_within_boundary_limits lim (allowed_azp cfg)"

definition claims_input_within_boundary_limits ::
  "boundary \<Rightarrow> claims_cfg \<Rightarrow> json_map \<Rightarrow> bool" where
  "claims_input_within_boundary_limits lim cfg claims \<longleftrightarrow>
     claims_cfg_within_boundary_limits lim cfg
     \<and> normalized_claim_string_within_limits lim claims ''iss''
     \<and> normalized_claim_string_within_limits lim claims ''azp''
     \<and> normalized_claim_string_within_limits lim claims ''client_id''
     \<and> normalized_claim_audience_within_limits lim claims"

definition issuer_ok :: "claims_cfg \<Rightarrow> json_map \<Rightarrow> bool" where
  "issuer_ok cfg claims =
     (case expected_issuer cfg of
        None \<Rightarrow> True
      | Some expected \<Rightarrow> trimmed_non_empty (get_str claims ''iss'') = Some expected)"

definition audience_ok :: "claims_cfg \<Rightarrow> json_map \<Rightarrow> bool" where
  "audience_ok cfg claims =
     (case expected_audience cfg of
        None \<Rightarrow> True
      | Some expected \<Rightarrow>
          (let audiences = extract_audiences claims in
           \<not> (audiences = [] \<or> \<not> list_ex (\<lambda>aud. aud = expected) audiences)))"

definition authorized_party :: "json_map \<Rightarrow> rstr option" where
  "authorized_party claims =
     trimmed_non_empty
       (case get_str claims ''azp'' of
          Some v \<Rightarrow> Some v
        | None \<Rightarrow> get_str claims ''client_id'')"

definition azp_ok :: "claims_cfg \<Rightarrow> json_map \<Rightarrow> bool" where
  "azp_ok cfg claims \<longleftrightarrow>
     allowed_azp cfg = []
     \<or> (case authorized_party claims of
          Some value \<Rightarrow> list_ex (\<lambda>allowed. allowed = value) (allowed_azp cfg)
        | None \<Rightarrow> False)"

definition enforce_claims :: "boundary \<Rightarrow> claims_cfg \<Rightarrow> json_map \<Rightarrow> decision" where
  "enforce_claims lim cfg claims =
     (if \<not> claims_input_within_boundary_limits lim cfg claims
      then decision_deny InvalidInput (Some ''boundary_limits'')
      else if \<not> claims_have_valid_types claims
      then decision_deny InvalidInput (Some ''malformed_claims'')
      else if \<not> issuer_ok cfg claims then decision_deny IssuerMismatch None
      else if \<not> audience_ok cfg claims then decision_deny AudienceMismatch None
      else if \<not> azp_ok cfg claims then decision_deny AzpNotAllowed None
      else decision_allow)"

interpretation bearer_gate: decision_gate "validate_bearer_header lim" for lim
  by unfold_locales (auto simp: validate_bearer_header_def split: option.splits prod.splits)

interpretation claims_gate: decision_gate "\<lambda>(cfg, claims). enforce_claims lim cfg claims" for lim
  by unfold_locales (auto simp: enforce_claims_def)

section \<open>The abstract reading of the expectations\<close>

text \<open>
  A string claim matches an expectation when it is present, is a string, and equals the
  expectation once surrounding white space is removed.  A string audience is a white-space
  separated list, an array audience is a list of strings.
\<close>

definition claim_matches :: "json_map \<Rightarrow> rstr \<Rightarrow> rstr \<Rightarrow> bool" where
  "claim_matches claims key expected \<longleftrightarrow>
     expected \<noteq> [] \<and> (\<exists>s. map_of claims key = Some (JString s) \<and> trim s = expected)"

definition audience_matches :: "json_map \<Rightarrow> rstr \<Rightarrow> bool" where
  "audience_matches claims expected \<longleftrightarrow>
     (\<exists>s. map_of claims ''aud'' = Some (JString s) \<and> expected \<in> set (split_whitespace s))
     \<or> (\<exists>vs. map_of claims ''aud'' = Some (JArray vs) \<and> JString expected \<in> set vs)"

definition claims_admitted :: "claims_cfg \<Rightarrow> json_map \<Rightarrow> bool" where
  "claims_admitted cfg claims \<longleftrightarrow>
     (\<forall>i. expected_issuer cfg = Some i \<longrightarrow> claim_matches claims ''iss'' i)
     \<and> (\<forall>a. expected_audience cfg = Some a \<longrightarrow> audience_matches claims a)
     \<and> (allowed_azp cfg \<noteq> [] \<longrightarrow>
          (\<exists>p\<in>set (allowed_azp cfg).
             claim_matches claims ''azp'' p
             \<or> (map_of claims ''azp'' = None \<and> claim_matches claims ''client_id'' p)))"

lemma trimmed_non_empty_Some:
  "trimmed_non_empty (get_str claims key) = Some v \<longleftrightarrow> claim_matches claims key v"
  by (auto simp: trimmed_non_empty_def get_str_def claim_matches_def
           split: option.splits) (auto simp: bind_eq_Some_conv)

lemma issuer_ok_iff:
  "issuer_ok cfg claims \<longleftrightarrow> (\<forall>i. expected_issuer cfg = Some i \<longrightarrow> claim_matches claims ''iss'' i)"
  by (auto simp: issuer_ok_def trimmed_non_empty_Some split: option.splits)

lemma mem_extract_audiences: "a \<in> set (extract_audiences claims) \<longleftrightarrow> audience_matches claims a"
proof (cases "map_of claims ''aud''")
  case None
  then show ?thesis by (simp add: extract_audiences_def audience_matches_def)
next
  case (Some v)
  then show ?thesis
    by (cases v)
       (auto simp: extract_audiences_def audience_matches_def split_whitespace_def
          map_filter_def image_iff dest: split_ws_nonempty)
qed

lemma audience_ok_iff:
  "audience_ok cfg claims \<longleftrightarrow>
     (\<forall>a. expected_audience cfg = Some a \<longrightarrow> audience_matches claims a)"
  by (auto simp: audience_ok_def Let_def list_ex_iff mem_extract_audiences [symmetric]
           split: option.splits)

lemma authorized_party_Some:
  assumes "claims_have_valid_types claims"
  shows "authorized_party claims = Some p \<longleftrightarrow>
     claim_matches claims ''azp'' p
     \<or> (map_of claims ''azp'' = None \<and> claim_matches claims ''client_id'' p)"
proof (cases "map_of claims ''azp''")
  case None
  then show ?thesis
    by (simp add: authorized_party_def get_str_def [of claims "''azp''"] trimmed_non_empty_Some)
       (simp add: claim_matches_def)
next
  case (Some v)
  with assms obtain s where "v = JString s"
    by (auto simp: claims_have_valid_types_def is_string_iff)
  with Some have "get_str claims ''azp'' = Some s" by (simp add: get_str_def)
  then have "authorized_party claims = trimmed_non_empty (get_str claims ''azp'')"
    by (simp add: authorized_party_def)
  with Some show ?thesis by (simp add: trimmed_non_empty_Some)
qed

lemma azp_ok_iff:
  assumes "claims_have_valid_types claims"
  shows "azp_ok cfg claims \<longleftrightarrow>
     (allowed_azp cfg \<noteq> [] \<longrightarrow>
          (\<exists>p\<in>set (allowed_azp cfg).
             claim_matches claims ''azp'' p
             \<or> (map_of claims ''azp'' = None \<and> claim_matches claims ''client_id'' p)))"
  unfolding authorized_party_Some [OF assms, symmetric]
  by (auto simp: azp_ok_def list_ex_iff split: option.splits)

lemma enforce_claims_allow_iff:
  "d_allow (enforce_claims lim cfg claims) \<longleftrightarrow>
     claims_input_within_boundary_limits lim cfg claims
     \<and> claims_have_valid_types claims \<and> claims_admitted cfg claims"
  unfolding enforce_claims_def claims_admitted_def
  by (auto simp: issuer_ok_iff audience_ok_iff azp_ok_iff)

section \<open>Bearer grammar\<close>

lemma count_list_one_split:
  "count_list xs d = 1 \<Longrightarrow> split_once d xs = Some (a, b) \<Longrightarrow> d \<notin> set b"
  by (metis add_left_cancel count_list.simps(2) count_list_append count_list_0_iff
      add.commute add_0 split_once_Some)

lemma has_control_append: "has_control b \<Longrightarrow> has_control (a @ b)"
  by (induction a) auto

lemma has_control_byte: "c \<in> set s \<Longrightarrow> byte c < 32 \<or> byte c = 127 \<Longrightarrow> has_control s"
  by (induction s) auto

section \<open>Properties\<close>

text \<open>
  \<open>enforce_claims\<close> allows a claim set exactly when the input is within the boundary
  limits, the inspected claims have the documented types, and every configured expectation
  (issuer, audience, authorized party) is met by the claims.
\<close>

theorem enforce_claims_iff:
  "(d_allow (enforce_claims lim cfg claims) \<longleftrightarrow>
      claims_input_within_boundary_limits lim cfg claims
      \<and> claims_have_valid_types claims \<and> claims_admitted cfg claims)
   \<and> d_code (enforce_claims lim cfg claims) \<in>
        (if d_allow (enforce_claims lim cfg claims) then {None}
         else Some ` code_as_str ` {InvalidInput, IssuerMismatch, AudienceMismatch, AzpNotAllowed})"
  using enforce_claims_allow_iff [of lim cfg claims]
  by (auto simp: enforce_claims_def decision_deny_def decision_allow_def split: if_splits)

text \<open>
  An accepted bearer header splits in exactly one way into the scheme \<open>bearer\<close> (in any
  ASCII case), one space and a token; the token is non-empty and holds no space, no tab, no
  line break and no other ASCII control byte.
\<close>

lemma bearer_header_grammar:
  assumes "d_allow (validate_bearer_header lim raw)"
  shows "\<exists>!(scheme, token). raw = scheme @ CHR '' '' # token
           \<and> eq_ignore_ascii_case scheme ''bearer'' \<and> token \<noteq> []
           \<and> (\<forall>c\<in>set token. 32 < byte c \<and> byte c \<noteq> 127)"
proof -
  from assms obtain scheme token where
    nc: "\<not> has_control raw" and one: "count_list raw (CHR '' '') = 1"
    and sp: "split_once (CHR '' '') raw = Some (scheme, token)"
    and ok: "eq_ignore_ascii_case scheme ''bearer''" "token \<noteq> []"
    by (auto simp: validate_bearer_header_def split: if_splits option.splits)
  note raw = split_once_Some [OF sp]
  have nsp: "CHR '' '' \<notin> set token" by (rule count_list_one_split [OF one sp])
  have tok: "32 < byte c \<and> byte c \<noteq> 127" if c: "c \<in> set token" for c
  proof -
    have "c \<in> set raw" using c raw(1) by simp
    with nc has_control_byte have "\<not> byte c < 32" "byte c \<noteq> 127" by blast+
    moreover have "byte c \<noteq> byte (CHR '' '')" using c nsp by (metis of_char_eq_iff)
    ultimately show ?thesis by simp
  qed
  have uniq: "s' = scheme \<and> t' = token"
    if "raw = s' @ CHR '' '' # t'" and "\<forall>c\<in>set t'. 32 < byte c \<and> byte c \<noteq> 127" for s' t'
  proof -
    have "CHR '' '' \<notin> set t'" using that(2) by force
    then have "count_list t' (CHR '' '') = 0" by (simp add: count_list_0_iff)
    then have "count_list s' (CHR '' '') = 0" using one that(1) by simp
    then have "CHR '' '' \<notin> set s'" by (simp add: count_list_0_iff)
    with sp that(1) show ?thesis by simp
  qed
  show ?thesis
  proof (rule ex1I [of _ "(scheme, token)"])
    show "case (scheme, token) of (scheme, token) \<Rightarrow> raw = scheme @ CHR '' '' # token
           \<and> eq_ignore_ascii_case scheme ''bearer'' \<and> token \<noteq> []
           \<and> (\<forall>c\<in>set token. 32 < byte c \<and> byte c \<noteq> 127)"
      unfolding prod.case by (intro conjI raw(1) ok ballI tok)
  next
    fix y :: "rstr \<times> rstr"
    assume "case y of (scheme, token) \<Rightarrow> raw = scheme @ CHR '' '' # token
           \<and> eq_ignore_ascii_case scheme ''bearer'' \<and> token \<noteq> []
           \<and> (\<forall>c\<in>set token. 32 < byte c \<and> byte c \<noteq> 127)"
    then have h: "raw = fst y @ CHR '' '' # snd y
           \<and> eq_ignore_ascii_case (fst y) ''bearer'' \<and> snd y \<noteq> []
           \<and> (\<forall>c\<in>set (snd y). 32 < byte c \<and> byte c \<noteq> 127)"
      unfolding case_prod_beta .
    from uniq [OF h [THEN conjunct1] h [THEN conjunct2, THEN conjunct2, THEN conjunct2]]
    show "y = (scheme, token)" by (simp add: prod_eq_iff)
  qed
qed

end
