(* ===== verification/Http_Path.thy ===== *)
theory Http_Path
  imports Policy_Decision
begin

text \<open>
  The request-path hardening of \<open>http_path.rs\<close> and the header-forwarding classes of
  \<open>http_headers.rs\<close> (crate \<open>mcp-toolkit-policy-core\<close>).  The byte loops of the source are
  recursions on the byte list.  The main results say that an accepted path has the same
  segments before and after percent-decoding, that none of them is a dot segment, and that
  no delimiter can appear by decoding once or twice.
\<close>

section \<open>Percent encoding\<close>

definition hex_value :: "char \<Rightarrow> nat option" where
  "hex_value c =
     (if 48 \<le> byte c \<and> byte c \<le> 57 then Some (byte c - 48)
      else if 97 \<le> byte c \<and> byte c \<le> 102 then Some (byte c - 97 + 10)
      else if 65 \<le> byte c \<and> byte c \<le> 70 then Some (byte c - 65 + 10)
      else None)"

fun has_malformed_percent_encoding :: "rstr \<Rightarrow> bool" where
  "has_malformed_percent_encoding [] = False"
| "has_malformed_percent_encoding (c # cs) =
     (if c = CHR ''%''
      then (case cs of
              h # l # rest \<Rightarrow>
                if hex_value h = None \<or> hex_value l = None then True
                else has_malformed_percent_encoding rest
            | _ \<Rightarrow> True)
      else has_malformed_percent_encoding cs)"

fun percent_decode_once :: "rstr \<Rightarrow> rstr option" where
  "percent_decode_once [] = Some []"
| "percent_decode_once (c # cs) =
     (if c = CHR ''%''
      then (case cs of
              h # l # rest \<Rightarrow>
                (case hex_value h of
                   None \<Rightarrow> None
                 | Some hi \<Rightarrow>
                    (case hex_value l of
                       None \<Rightarrow> None
                     | Some lo \<Rightarrow>
                        map_option (\<lambda>d. push_latin1 (hi * 16 + lo) @ d) (percent_decode_once rest)))
            | _ \<Rightarrow> None)
      else map_option (\<lambda>d. push_latin1 (byte c) @ d) (percent_decode_once cs))"

lemma malformed_iff_undecodable:
  "has_malformed_percent_encoding p \<longleftrightarrow> percent_decode_once p = None"
  by (induction p rule: has_malformed_percent_encoding.induct)
     (auto split: list.splits option.splits)

section \<open>The path checks\<close>

fun contains_matrix_params :: "rstr \<Rightarrow> bool" where
  "contains_matrix_params [] = False"
| "contains_matrix_params (c # cs) =
     (if c = CHR '';'' then True
      else if c = CHR ''%''
        \<and> (case cs of
              d # e # _ \<Rightarrow> ascii_lower d = ascii_lower (CHR ''3'') \<and> ascii_lower e = ascii_lower (CHR ''b'')
            | _ \<Rightarrow> False)
      then True
      else contains_matrix_params cs)"

definition contains_encoded_delimiter :: "rstr \<Rightarrow> bool" where
  "contains_encoded_delimiter path =
     (let lower = to_ascii_lowercase path in
      contains_str ''%2f'' lower \<or> contains_str ''%3b'' lower \<or> contains_str ''%3f'' lower
      \<or> contains_str ''%23'' lower \<or> contains_str ''%2e'' lower \<or> contains_str ''%5c'' lower)"

definition has_dot_segment :: "rstr \<Rightarrow> bool" where
  "has_dot_segment path =
     list_ex (\<lambda>segment. segment = ''.'' \<or> segment = ''..'')
       (split_on (CHR ''/'') (trim_matches (CHR ''/'') path))"

definition contains_path_confusion :: "rstr \<Rightarrow> bool" where
  "contains_path_confusion path \<longleftrightarrow>
     CHR 0x5C \<in> set path
     \<or> contains_encoded_delimiter path
     \<or> has_malformed_percent_encoding path
     \<or> has_dot_segment path
     \<or> (case percent_decode_once path of
          Some decoded \<Rightarrow>
            CHR 0x5C \<in> set decoded \<or> CHR '';'' \<in> set decoded \<or> CHR ''?'' \<in> set decoded
            \<or> CHR ''#'' \<in> set decoded
            \<or> contains_encoded_delimiter decoded
            \<or> has_dot_segment decoded
        | None \<Rightarrow> True)"

definition has_path_segment :: "rstr \<Rightarrow> bool" where
  "has_path_segment path =
     list_ex (\<lambda>segment. segment \<noteq> []) (split_on (CHR ''/'') (trim_matches (CHR ''/'') path))"

definition validate_http_path :: "boundary \<Rightarrow> rstr \<Rightarrow> decision" where
  "validate_http_path lim path =
     (if \<not> string_within_boundary_limit lim path
      then decision_deny InvalidInput (Some ''boundary_limits'')
      else if contains_matrix_params path \<or> CHR ''?'' \<in> set path \<or> CHR ''#'' \<in> set path
      then decision_deny InvalidPath None
      else if contains_path_confusion path then decision_deny InvalidPath None
      else decision_allow)"

definition evaluate_http_path :: "boundary \<Rightarrow> rstr \<Rightarrow> decision" where
  "evaluate_http_path lim path = validate_http_path lim path"

interpretation http_path_gate: decision_gate "validate_http_path lim" for lim
  by unfold_locales (auto simp: validate_http_path_def)

section \<open>Matrix parameters\<close>

lemma ascii_lower_fixed [simp]:
  "\<not> is_ascii_upper c \<Longrightarrow> ascii_lower c = c"
  by (simp add: ascii_lower_def)

lemma ascii_lower_eq_nonletter:
  "\<not> is_ascii_lower d \<Longrightarrow> ascii_lower c = d \<longleftrightarrow> c = d \<and> \<not> is_ascii_upper d"
  by (auto simp: ascii_lower_def is_ascii_upper_def is_ascii_lower_def)

lemma matrix_params_reference:
  "contains_matrix_params p \<longleftrightarrow>
     CHR '';'' \<in> set p \<or> contains_str ''%3b'' (to_ascii_lowercase p)"
proof (induction p rule: contains_matrix_params.induct)
  case 1
  then show ?case by (simp add: to_ascii_lowercase_def)
next
  case (2 c cs)
  have lp: "CHR ''%'' = ascii_lower c \<longleftrightarrow> c = CHR ''%''"
    using ascii_lower_eq_nonletter [of "CHR ''%''" c]
    by (auto simp: is_ascii_lower_def is_ascii_upper_def)
  have "prefix ''%3b'' (to_ascii_lowercase (c # cs)) \<longleftrightarrow>
      c = CHR ''%'' \<and> (case cs of d # e # _ \<Rightarrow>
             ascii_lower d = ascii_lower (CHR ''3'') \<and> ascii_lower e = ascii_lower (CHR ''b'')
           | _ \<Rightarrow> False)"
    by (auto simp: to_ascii_lowercase_def lp is_ascii_upper_def split: list.splits)
  moreover have "contains_str ''%3b'' (to_ascii_lowercase (c # cs)) \<longleftrightarrow>
      prefix ''%3b'' (to_ascii_lowercase (c # cs)) \<or> contains_str ''%3b'' (to_ascii_lowercase cs)"
    by (simp add: to_ascii_lowercase_def)
  ultimately show ?case using 2 by auto
qed

section \<open>Segments\<close>

lemma trim_matches_decomp:
  obtains m n where "s = replicate m d @ trim_matches d s @ replicate n d"
proof -
  have lead: "\<exists>m. xs = replicate m d @ dropWhile (\<lambda>c. c = d) xs" for xs
  proof (induction xs)
    case (Cons x xs)
    then obtain m where "xs = replicate m d @ dropWhile (\<lambda>c. c = d) xs" by blast
    then have "x = d \<Longrightarrow> x # xs = replicate (Suc m) d @ dropWhile (\<lambda>c. c = d) xs" by simp
    then show ?case
      by (cases "x = d") (auto intro: exI [of _ "Suc m"] exI [of _ 0])
  qed simp
  obtain m where m: "s = replicate m d @ dropWhile (\<lambda>c. c = d) s" using lead by blast
  obtain n where "rev (dropWhile (\<lambda>c. c = d) s) = replicate n d @ rev (trim_matches d s)"
    using lead [of "rev (dropWhile (\<lambda>c. c = d) s)"] by (auto simp: trim_matches_def)
  then have "rev (rev (dropWhile (\<lambda>c. c = d) s)) = rev (replicate n d @ rev (trim_matches d s))"
    by (rule arg_cong)
  then have eq: "dropWhile (\<lambda>c. c = d) s = trim_matches d s @ replicate n d" by simp
  show ?thesis by (rule that [OF m [unfolded eq]])
qed

lemma split_on_replicate_left:
  "split_on d (replicate m d @ t) = replicate m [] @ split_on d t"
  by (induction m) auto

lemma split_on_replicate_right:
  "split_on d (t @ replicate n d) = split_on d t @ replicate n []"
proof (induction n)
  case (Suc n)
  have "split_on d (t @ replicate (Suc n) d) = split_on d ((t @ replicate n d) @ [d])"
    by (metis append.assoc replicate_Suc replicate_append_same)
  also have "\<dots> = split_on d (t @ replicate n d) @ [[]]"
    using split_on_append_sep [of d "t @ replicate n d" "[]"] by simp
  finally show ?case
    using Suc by (simp add: replicate_append_same)
qed simp

lemma split_on_trim_matches:
  assumes "seg \<in> set (split_on d s)"
  shows "seg = [] \<or> seg \<in> set (split_on d (trim_matches d s))"
proof -
  obtain m n where s: "s = replicate m d @ trim_matches d s @ replicate n d"
    by (rule trim_matches_decomp)
  have "split_on d s = replicate m [] @ split_on d (trim_matches d s) @ replicate n []"
    by (subst s) (simp add: split_on_replicate_left split_on_replicate_right)
  with assms show ?thesis by auto
qed

lemma no_dot_segment:
  "\<not> has_dot_segment p \<Longrightarrow> seg \<in> set (split_on (CHR ''/'') p) \<Longrightarrow> seg \<noteq> ''.'' \<and> seg \<noteq> ''..''"
  using split_on_trim_matches [of seg "CHR ''/''" p] by (auto simp: has_dot_segment_def list_ex_iff)

section \<open>Decoding commutes with segmentation\<close>

lemma hex_value_bound: "hex_value c = Some v \<Longrightarrow> v < 16"
  by (auto simp: hex_value_def split: if_splits)

lemma hex_value_lower:
  "hex_value c = Some v \<Longrightarrow>
     byte (ascii_lower c) = (if v < 10 then 48 + v else 87 + v)"
  by (auto simp: hex_value_def byte_ascii_lower split: if_splits)

lemma slash_in_push_latin1: "b < 256 \<Longrightarrow> CHR ''/'' \<in> set (push_latin1 b) \<longleftrightarrow> b = 47"
  by (auto simp: push_latin1_def of_char_eq_iff [where 'a = nat, symmetric]
           simp del: of_char_eq_iff)

lemma encoded_slash:
  assumes "hex_value h = Some hi" and "hex_value l = Some lo" and "hi * 16 + lo = 47"
  shows "prefix ''%2f'' (to_ascii_lowercase (CHR ''%'' # h # l # rest))"
proof -
  have "hi < 16" and "lo < 16" using assms hex_value_bound by auto
  with assms(3) have "hi = 2" and "lo = 15" by presburger+
  with hex_value_lower [OF assms(1)] hex_value_lower [OF assms(2)]
  have "byte (ascii_lower h) = 50" and "byte (ascii_lower l) = 102" by simp_all
  then have "ascii_lower h = CHR ''2''" and "ascii_lower l = CHR ''f''"
    by (simp_all flip: of_char_eq_iff [where 'a = nat])
  then show ?thesis by (simp add: to_ascii_lowercase_def is_ascii_upper_def)
qed

lemma split_on_append_no_sep:
  "d \<notin> set u \<Longrightarrow> split_on d (u @ xs) = (u @ hd (split_on d xs)) # tl (split_on d xs)"
proof (induction u)
  case Nil
  then show ?case by simp
next
  case (Cons x u)
  then show ?case by auto
qed

lemma contains_slash_drop:
  "\<not> contains_str pat (to_ascii_lowercase (xs @ ys)) \<Longrightarrow> \<not> contains_str pat (to_ascii_lowercase ys)"
  by (auto simp: contains_str_sublist to_ascii_lowercase_def sublist_append)

text \<open>One decoded unit in front: the byte's raw form extends the first raw segment.\<close>

lemma decode_split_step:
  assumes "CHR ''/'' \<notin> set u" and "CHR ''/'' \<notin> set v"
    and "\<And>s. percent_decode_once (u @ s) = map_option (\<lambda>d. v @ d) (percent_decode_once s)"
    and "split_on (CHR ''/'') d = map (\<lambda>s. the (percent_decode_once s)) (split_on (CHR ''/'') p)"
    and "\<forall>s\<in>set (split_on (CHR ''/'') p). percent_decode_once s \<noteq> None"
  shows "split_on (CHR ''/'') (v @ d)
         = map (\<lambda>s. the (percent_decode_once s)) (split_on (CHR ''/'') (u @ p))"
    and "\<forall>s\<in>set (split_on (CHR ''/'') (u @ p)). percent_decode_once s \<noteq> None"
proof -
  obtain q qs where q: "split_on (CHR ''/'') p = q # qs"
    by (cases "split_on (CHR ''/'') p") auto
  with assms(5) obtain r where "percent_decode_once q = Some r" by auto
  with assms q show "split_on (CHR ''/'') (v @ d)
         = map (\<lambda>s. the (percent_decode_once s)) (split_on (CHR ''/'') (u @ p))"
    and "\<forall>s\<in>set (split_on (CHR ''/'') (u @ p)). percent_decode_once s \<noteq> None"
    by (auto simp: split_on_append_no_sep)
qed

lemma decode_split:
  assumes "percent_decode_once p = Some d"
    and "\<not> contains_str ''%2f'' (to_ascii_lowercase p)"
  shows "split_on (CHR ''/'') d = map (\<lambda>s. the (percent_decode_once s)) (split_on (CHR ''/'') p)
         \<and> (\<forall>s\<in>set (split_on (CHR ''/'') p). percent_decode_once s \<noteq> None)"
  using assms
proof (induction p arbitrary: d rule: percent_decode_once.induct)
  case 1
  then show ?case by simp
next
  case (2 c cs)
  show ?case
  proof (cases "c = CHR ''%''")
    case True
    with "2.prems"(1) obtain h l rest hi lo d' where
      cs: "cs = h # l # rest" and hex: "hex_value h = Some hi" "hex_value l = Some lo"
      and d': "percent_decode_once rest = Some d'" and d: "d = push_latin1 (hi * 16 + lo) @ d'"
      by (auto split: list.splits option.splits)
    have "\<not> contains_str ''%2f'' (to_ascii_lowercase rest)"
      using "2.prems"(2) contains_slash_drop [of _ "[c, h, l]" rest] by (simp add: cs)
    then have IH: "split_on (CHR ''/'') d' = map (\<lambda>s. the (percent_decode_once s)) (split_on (CHR ''/'') rest)"
      "\<forall>s\<in>set (split_on (CHR ''/'') rest). percent_decode_once s \<noteq> None"
      using "2.IH"(1) [OF True cs refl hex d'] by auto
    have "hi * 16 + lo \<noteq> 47"
      using encoded_slash [OF hex] "2.prems"(2) True by (auto simp: cs to_ascii_lowercase_def)
    moreover have "hi * 16 + lo < 256" using hex_value_bound [OF hex(1)] hex_value_bound [OF hex(2)] by simp
    ultimately have ns: "CHR ''/'' \<notin> set (push_latin1 (hi * 16 + lo))" by (simp add: slash_in_push_latin1)
    have nh: "CHR ''/'' \<notin> set [c, h, l]" using True hex by (auto simp: hex_value_def split: if_splits)
    have dec: "percent_decode_once ([c, h, l] @ s) = map_option (\<lambda>d. push_latin1 (hi * 16 + lo) @ d) (percent_decode_once s)" for s
      using True hex by simp
    have eq: "[c, h, l] @ rest = c # cs" by (simp only: cs append_Cons append_Nil)
    show ?thesis using decode_split_step [OF nh ns dec IH] unfolding eq d by (rule conjI)
  next
    case False
    with "2.prems"(1) obtain d' where d': "percent_decode_once cs = Some d'"
      and d: "d = push_latin1 (byte c) @ d'" by auto
    have "\<not> contains_str ''%2f'' (to_ascii_lowercase cs)"
      using "2.prems"(2) by (auto simp: to_ascii_lowercase_def)
    then have IH: "split_on (CHR ''/'') d' = map (\<lambda>s. the (percent_decode_once s)) (split_on (CHR ''/'') cs)"
      "\<forall>s\<in>set (split_on (CHR ''/'') cs). percent_decode_once s \<noteq> None"
      using "2.IH"(2) [OF False d'] by auto
    show ?thesis
    proof (cases "c = CHR ''/''")
      case True
      then have "byte c < 128" by simp
      note this [THEN push_latin1_ascii]
      then have "d = c # d'" using d by (simp only: append_Cons append_Nil)
      then have "d = CHR ''/'' # d'" using True by (simp only:)
      then have "split_on (CHR ''/'') d = [] # split_on (CHR ''/'') d'" by simp
      moreover have "split_on (CHR ''/'') (c # cs) = [] # split_on (CHR ''/'') cs" using True by simp
      ultimately show ?thesis unfolding IH(1) using IH(2) by simp
    next
      case ns: False
      have "byte c \<noteq> 47"
      proof
        assume "byte c = 47"
        then have "byte c = byte (CHR ''/'')" by simp
        with ns show False by (simp only: of_char_eq_iff)
      qed
      then have np: "CHR ''/'' \<notin> set (push_latin1 (byte c))"
        using slash_in_push_latin1 [of "byte c"] by simp
      have nc: "CHR ''/'' \<notin> set [c]" using ns by simp
      have dec: "percent_decode_once ([c] @ s) = map_option (\<lambda>d. push_latin1 (byte c) @ d) (percent_decode_once s)" for s
        using False by simp
      have eq: "[c] @ cs = c # cs" by simp
      show ?thesis using decode_split_step [OF nc np dec IH] unfolding eq d by (rule conjI)
    qed
  qed
qed

section \<open>Header forwarding\<close>

definition transport_hop_headers :: "rstr list" where
  "transport_hop_headers =
     [''connection'', ''keep-alive'', ''proxy-authenticate'', ''proxy-authorization'',
      ''proxy-connection'', ''te'', ''trailer'', ''transfer-encoding'', ''upgrade'']"

definition is_transport_hop_header :: "rstr \<Rightarrow> bool" where
  "is_transport_hop_header name =
     List.member transport_hop_headers (to_ascii_lowercase (trim name))"

definition should_forward_request_header :: "rstr \<Rightarrow> bool" where
  "should_forward_request_header name =
     (let normalized = to_ascii_lowercase (trim name) in
      if is_transport_hop_header normalized then False
      else \<not> (normalized = ''authorization'' \<or> normalized = ''host''
              \<or> normalized = ''content-length''))"

definition should_forward_response_header :: "rstr \<Rightarrow> bool" where
  "should_forward_response_header name =
     (let normalized = to_ascii_lowercase (trim name) in
      if is_transport_hop_header normalized then False
      else normalized \<noteq> ''content-length'')"

section \<open>Properties\<close>

text \<open>
  C5: A path that \<open>validate_http_path\<close> accepts percent-decodes, and decoding commutes with
  cutting it into segments: the segments of the decoded path are exactly the decoded segments
  of the raw one.  No segment is a dot segment, before or after decoding, and the decoded
  path holds no backslash, matrix-parameter, query or fragment delimiter, and no
  percent-encoded delimiter that a second decoding could release.
\<close>

theorem validate_http_path_sound:
  assumes "d_allow (validate_http_path lim p)"
  shows "\<exists>d. percent_decode_once p = Some d
         \<and> split_on (CHR ''/'') d = map (\<lambda>s. the (percent_decode_once s)) (split_on (CHR ''/'') p)
         \<and> (\<forall>seg \<in> set (split_on (CHR ''/'') p) \<union> set (split_on (CHR ''/'') d). seg \<noteq> ''.'' \<and> seg \<noteq> ''..'')
         \<and> set d \<inter> {CHR 0x5C, CHR '';'', CHR ''?'', CHR ''#''} = {}
         \<and> \<not> contains_encoded_delimiter d"
proof -
  from assms have nc: "\<not> contains_path_confusion p"
    by (auto simp: validate_http_path_def split: if_splits)
  then obtain d where d: "percent_decode_once p = Some d"
    by (auto simp: contains_path_confusion_def split: option.splits)
  from nc d have raw: "\<not> contains_encoded_delimiter p" "\<not> has_dot_segment p"
    and dec: "\<not> has_dot_segment d" "\<not> contains_encoded_delimiter d"
      "set d \<inter> {CHR 0x5C, CHR '';'', CHR ''?'', CHR ''#''} = {}"
    by (auto simp: contains_path_confusion_def)
  from raw have "\<not> contains_str ''%2f'' (to_ascii_lowercase p)"
    by (simp add: contains_encoded_delimiter_def Let_def)
  note segments = decode_split [OF d this, THEN conjunct1]
  have "\<forall>seg \<in> set (split_on (CHR ''/'') p) \<union> set (split_on (CHR ''/'') d). seg \<noteq> ''.'' \<and> seg \<noteq> ''..''"
    using no_dot_segment [OF raw(2)] no_dot_segment [OF dec(1)] by (meson UnE)
  with d segments dec show ?thesis by (intro exI [of _ d] conjI)
qed

theorem validate_http_path_sound_witness:
  "d_allow (validate_http_path fallback_boundary ''/api/v%31/users'')
   \<and> (\<exists>d. percent_decode_once ''/api/v%31/users'' = Some d \<and> \<not> contains_encoded_delimiter d)"
proof -
  have a: "d_allow (validate_http_path fallback_boundary ''/api/v%31/users'')" by code_simp
  from validate_http_path_sound [OF a] a show ?thesis by blast
qed

end
