(* ===== verification/Embed.thy ===== *)
theory Embed
  imports Claims Http_Path
begin

text \<open>
  The embedded policy kernel of \<open>embed.rs\<close> (crate \<open>mcp-toolkit-policy-core\<close>): builders, the
  route-to-scope table and the request authorizer that composes the claim, path, method and
  scope gates.  \<open>route_spec\<close> is the abstract reading of the table (the longest matching
  prefix) and \<open>route_for_path\<close> is shown to implement it on every table the builder makes.
\<close>

section \<open>Builders\<close>

record claims_cfg_builder =
  b_expected_issuer :: "rstr option"
  b_expected_audience :: "rstr option"
  b_allowed_azp :: "rstr list"

definition claims_cfg_builder_default :: claims_cfg_builder where
  "claims_cfg_builder_default =
     \<lparr>b_expected_issuer = None, b_expected_audience = None, b_allowed_azp = []\<rparr>"

definition builder_expected_issuer :: "rstr \<Rightarrow> claims_cfg_builder \<Rightarrow> claims_cfg_builder" where
  "builder_expected_issuer issuer b = b\<lparr>b_expected_issuer := Some issuer\<rparr>"

definition builder_expected_audience :: "rstr \<Rightarrow> claims_cfg_builder \<Rightarrow> claims_cfg_builder" where
  "builder_expected_audience audience b = b\<lparr>b_expected_audience := Some audience\<rparr>"

definition builder_allow_azp :: "rstr \<Rightarrow> claims_cfg_builder \<Rightarrow> claims_cfg_builder" where
  "builder_allow_azp azp b = b\<lparr>b_allowed_azp := b_allowed_azp b @ [azp]\<rparr>"

definition claims_cfg_build :: "claims_cfg_builder \<Rightarrow> claims_cfg" where
  "claims_cfg_build b =
     \<lparr>expected_issuer = b_expected_issuer b, expected_audience = b_expected_audience b,
      allowed_azp = b_allowed_azp b\<rparr>"

section \<open>Path normalisation\<close>

text \<open>The character loop: \<open>prev\<close> is \<open>previous_was_slash\<close>; the result is what is pushed.\<close>

fun push_normalized_path_chars :: "bool \<Rightarrow> rstr \<Rightarrow> rstr" where
  "push_normalized_path_chars prev [] = []"
| "push_normalized_path_chars prev (ch # chs) =
     (if ch = CHR ''/''
      then (if \<not> prev then [ch] else []) @ push_normalized_path_chars True chs
      else ch # push_normalized_path_chars False chs)"

definition normalize_prefix :: "rstr \<Rightarrow> rstr" where
  "normalize_prefix p =
     (let core = trim_matches (CHR ''/'') (trim p) in
      if core = [] then ''/'' else CHR ''/'' # push_normalized_path_chars False core)"

definition normalize_path :: "rstr \<Rightarrow> rstr" where
  "normalize_path path =
     (let trimmed = trim path;
          normalized = (if \<not> starts_with trimmed ''/'' then ''/'' else [])
                       @ push_normalized_path_chars False trimmed
      in if normalized = [] then ''/'' else normalized)"

section \<open>Routes and scopes\<close>

record scope_route =
  r_prefix :: rstr
  r_read_scope :: rstr
  r_write_scope :: rstr

definition scope_route_new :: "rstr \<Rightarrow> rstr \<Rightarrow> rstr \<Rightarrow> scope_route" where
  "scope_route_new p read_scope write_scope =
     \<lparr>r_prefix = normalize_prefix p, r_read_scope = read_scope, r_write_scope = write_scope\<rparr>"

record route_policy =
  default_read_scope :: rstr
  default_write_scope :: rstr
  routes :: "scope_route list"

definition route_policy_default :: route_policy where
  "route_policy_default =
     \<lparr>default_read_scope = ''mcp:read'', default_write_scope = ''mcp:write'', routes = []\<rparr>"

definition with_default_scopes :: "rstr \<Rightarrow> rstr \<Rightarrow> route_policy \<Rightarrow> route_policy" where
  "with_default_scopes read_scope write_scope rp =
     rp\<lparr>default_read_scope := read_scope, default_write_scope := write_scope\<rparr>"

definition with_route :: "rstr \<Rightarrow> rstr \<Rightarrow> rstr \<Rightarrow> route_policy \<Rightarrow> route_policy" where
  "with_route p read_scope write_scope rp =
     rp\<lparr>routes := sort_key (\<lambda>route. - int (length (r_prefix route)))
                   (routes rp @ [scope_route_new p read_scope write_scope])\<rparr>"

datatype method_policy = MRead | MWrite | MDeny

definition classify_method :: "rstr \<Rightarrow> method_policy" where
  "classify_method method =
     (let normalized = to_ascii_uppercase (trim method) in
      if normalized = ''GET'' \<or> normalized = ''HEAD'' \<or> normalized = ''OPTIONS'' then MRead
      else if normalized = ''TRACE'' \<or> normalized = ''CONNECT'' then MDeny
      else MWrite)"

definition is_read_method :: "rstr \<Rightarrow> bool" where
  "is_read_method method \<longleftrightarrow> classify_method method = MRead"

definition route_matches :: "rstr \<Rightarrow> scope_route \<Rightarrow> bool" where
  "route_matches normalized route \<longleftrightarrow>
     (if r_prefix route = ''/'' then True
      else normalized = r_prefix route
           \<or> (starts_with normalized (r_prefix route)
              \<and> starts_with (drop (length (r_prefix route)) normalized) ''/''))"

definition route_for_path :: "route_policy \<Rightarrow> rstr \<Rightarrow> scope_route option" where
  "route_for_path rp path = List.find (route_matches (normalize_path path)) (routes rp)"

definition required_scopes :: "route_policy \<Rightarrow> rstr \<Rightarrow> rstr \<Rightarrow> rstr list" where
  "required_scopes rp method path =
     [case route_for_path rp path of
        Some route \<Rightarrow> if is_read_method method then r_read_scope route else r_write_scope route
      | None \<Rightarrow> if is_read_method method then default_read_scope rp else default_write_scope rp]"

section \<open>Requests and the kernel\<close>

record generic_policy_request =
  rq_method :: rstr
  rq_path :: rstr
  rq_token_scopes :: "rstr list"
  rq_claims :: json_map

datatype claims_shape_error = NonObjectClaims

definition request_new :: "rstr \<Rightarrow> rstr \<Rightarrow> generic_policy_request" where
  "request_new method path =
     \<lparr>rq_method = method, rq_path = path, rq_token_scopes = [], rq_claims = []\<rparr>"

definition with_token_scopes :: "rstr list \<Rightarrow> generic_policy_request \<Rightarrow> generic_policy_request" where
  "with_token_scopes scopes r = r\<lparr>rq_token_scopes := scopes\<rparr>"

definition with_claims_value ::
  "json \<Rightarrow> generic_policy_request \<Rightarrow> (claims_shape_error, generic_policy_request) result" where
  "with_claims_value claims r =
     (case as_object claims of
        None \<Rightarrow> Inl NonObjectClaims
      | Some object \<Rightarrow> Inr (r\<lparr>rq_claims := object\<rparr>))"

definition request_within_boundary_limits :: "boundary \<Rightarrow> generic_policy_request \<Rightarrow> bool" where
  "request_within_boundary_limits lim r \<longleftrightarrow>
     string_within_boundary_limit lim (trim (rq_method r))
     \<and> string_within_boundary_limit lim (rq_path r)
     \<and> list_within_boundary_limits lim (rq_token_scopes r)"

record embedded_policy_kernel =
  k_claims_cfg :: claims_cfg
  k_route_policy :: route_policy

record embedded_policy_kernel_builder =
  kb_claims_cfg :: claims_cfg_builder
  kb_route_policy :: route_policy

definition kernel_builder_default :: embedded_policy_kernel_builder where
  "kernel_builder_default =
     \<lparr>kb_claims_cfg = claims_cfg_builder_default, kb_route_policy = route_policy_default\<rparr>"

datatype kernel_option =
    OptIssuer rstr
  | OptAudience rstr
  | OptAzp rstr
  | OptDefaultScopes rstr rstr
  | OptRoute rstr rstr rstr

text \<open>One fluent builder call; a builder expression is a list of them.\<close>

fun kernel_builder_step ::
  "kernel_option \<Rightarrow> embedded_policy_kernel_builder \<Rightarrow> embedded_policy_kernel_builder" where
  "kernel_builder_step (OptIssuer i) b =
     b\<lparr>kb_claims_cfg := builder_expected_issuer i (kb_claims_cfg b)\<rparr>"
| "kernel_builder_step (OptAudience a) b =
     b\<lparr>kb_claims_cfg := builder_expected_audience a (kb_claims_cfg b)\<rparr>"
| "kernel_builder_step (OptAzp a) b =
     b\<lparr>kb_claims_cfg := builder_allow_azp a (kb_claims_cfg b)\<rparr>"
| "kernel_builder_step (OptDefaultScopes r w) b =
     b\<lparr>kb_route_policy := with_default_scopes r w (kb_route_policy b)\<rparr>"
| "kernel_builder_step (OptRoute p r w) b =
     b\<lparr>kb_route_policy := with_route p r w (kb_route_policy b)\<rparr>"

definition kernel_build :: "embedded_policy_kernel_builder \<Rightarrow> embedded_policy_kernel" where
  "kernel_build b =
     \<lparr>k_claims_cfg = claims_cfg_build (kb_claims_cfg b), k_route_policy = kb_route_policy b\<rparr>"

definition kernel_of :: "kernel_option list \<Rightarrow> embedded_policy_kernel" where
  "kernel_of opts = kernel_build (fold kernel_builder_step opts kernel_builder_default)"

definition authorize :: "boundary \<Rightarrow> embedded_policy_kernel \<Rightarrow> generic_policy_request \<Rightarrow> decision" where
  "authorize lim k request =
     (if \<not> request_within_boundary_limits lim request
      then decision_deny InvalidInput (Some ''boundary_limits'')
      else let claims_decision = enforce_claims lim (k_claims_cfg k) (rq_claims request) in
      if \<not> d_allow claims_decision then claims_decision
      else let path_decision = validate_http_path lim (rq_path request) in
      if \<not> d_allow path_decision then path_decision
      else if \<not> has_path_segment (rq_path request) then decision_deny MissingRealm None
      else if classify_method (rq_method request) = MDeny
      then decision_deny MissingScopes (Some ''unsupported_method'')
      else let required = required_scopes (k_route_policy k) (rq_method request) (rq_path request) in
      if \<not> list_within_boundary_limits lim required
      then decision_deny InvalidInput (Some ''boundary_limits'')
      else if list_ex (\<lambda>scope. \<not> list_ex (\<lambda>actual. actual = scope) (rq_token_scopes request)) required
      then decision_deny MissingScopes None
      else with_required_scopes decision_allow required)"

definition authorize_value_claims ::
  "boundary \<Rightarrow> embedded_policy_kernel \<Rightarrow> rstr \<Rightarrow> rstr \<Rightarrow> rstr list \<Rightarrow> json
     \<Rightarrow> (claims_shape_error, decision) result" where
  "authorize_value_claims lim k method path token_scopes claims =
     (case with_claims_value claims (with_token_scopes token_scopes (request_new method path)) of
        Inl e \<Rightarrow> Inl e
      | Inr request \<Rightarrow> Inr (authorize lim k request))"

section \<open>Routes: the longest matching prefix\<close>

definition routes_sorted :: "route_policy \<Rightarrow> bool" where
  "routes_sorted rp \<longleftrightarrow> sorted_wrt (\<lambda>a b. length (r_prefix b) \<le> length (r_prefix a)) (routes rp)"

definition route_spec :: "scope_route list \<Rightarrow> rstr \<Rightarrow> scope_route option \<Rightarrow> bool" where
  "route_spec rs path res =
     (case res of
        None \<Rightarrow> \<forall>r\<in>set rs. \<not> route_matches (normalize_path path) r
      | Some r \<Rightarrow> r \<in> set rs \<and> route_matches (normalize_path path) r
          \<and> (\<forall>r'\<in>set rs. route_matches (normalize_path path) r'
               \<longrightarrow> length (r_prefix r') \<le> length (r_prefix r)))"

lemma sorted_wrt_sort_key_neg:
  "sorted_wrt (\<lambda>a b. f b \<le> f a) (sort_key (\<lambda>r. - int (f r)) xs)"
proof -
  have "sorted (map (\<lambda>r. - int (f r)) (sort_key (\<lambda>r. - int (f r)) xs))" by simp
  then show ?thesis by (simp add: sorted_wrt_map)
qed

lemma find_sorted:
  assumes "sorted_wrt R xs" and "List.find P xs = Some x" and "\<And>y. R y y"
  shows "x \<in> set xs \<and> P x \<and> (\<forall>y\<in>set xs. P y \<longrightarrow> R x y)"
  using assms by (induction xs) (auto split: if_splits)

lemma route_for_path_spec:
  assumes "routes_sorted rp"
  shows "route_spec (routes rp) path (route_for_path rp path)"
proof (cases "route_for_path rp path")
  case None
  then have "\<forall>r\<in>set (routes rp). \<not> route_matches (normalize_path path) r"
    by (auto simp: route_for_path_def find_None_iff)
  with None show ?thesis by (simp add: route_spec_def)
next
  case (Some r)
  then have "List.find (route_matches (normalize_path path)) (routes rp) = Some r"
    by (simp add: route_for_path_def)
  from find_sorted [OF assms [unfolded routes_sorted_def] this] Some show ?thesis
    by (simp add: route_spec_def)
qed

lemma with_route_sorted: "routes_sorted (with_route p r w rp)"
  by (simp add: routes_sorted_def with_route_def sorted_wrt_sort_key_neg)

lemma with_default_scopes_sorted [simp]:
  "routes_sorted (with_default_scopes r w rp) = routes_sorted rp"
  by (simp add: routes_sorted_def with_default_scopes_def)

lemma with_route_set:
  "set (routes (with_route p r w rp)) = insert (scope_route_new p r w) (set (routes rp))"
  by (simp add: with_route_def)

interpretation kernel_builder: invariant_machine
  "\<lambda>b. b = kernel_builder_default" kernel_builder_step "\<lambda>b. routes_sorted (kb_route_policy b)"
proof unfold_locales
  fix b assume "b = kernel_builder_default"
  then show "routes_sorted (kb_route_policy b)"
    by (simp add: kernel_builder_default_def route_policy_default_def routes_sorted_def)
next
  fix b :: embedded_policy_kernel_builder and opt
  assume "routes_sorted (kb_route_policy b)"
  then show "routes_sorted (kb_route_policy (kernel_builder_step opt b))"
    by (cases opt) (simp_all add: with_route_sorted)
qed

lemma kernel_of_sorted: "routes_sorted (k_route_policy (kernel_of opts))"
  unfolding kernel_of_def kernel_build_def using kernel_builder.run_inv by simp

fun route_of_option :: "kernel_option \<Rightarrow> scope_route list" where
  "route_of_option (OptRoute p r w) = [scope_route_new p r w]"
| "route_of_option _ = []"

lemma kernel_step_routes:
  "set (routes (kb_route_policy (kernel_builder_step opt b)))
   = set (route_of_option opt) \<union> set (routes (kb_route_policy b))"
  by (cases opt) (auto simp: with_route_set with_default_scopes_def)

lemma kernel_fold_routes:
  "set (routes (kb_route_policy (fold kernel_builder_step opts b)))
   = set (concat (map route_of_option opts)) \<union> set (routes (kb_route_policy b))"
  by (induction opts arbitrary: b) (auto simp: kernel_step_routes)

section \<open>Normalised paths\<close>

fun no_double_slash :: "rstr \<Rightarrow> bool" where
  "no_double_slash (a # b # s) \<longleftrightarrow> \<not> (a = CHR ''/'' \<and> b = CHR ''/'') \<and> no_double_slash (b # s)"
| "no_double_slash _ \<longleftrightarrow> True"

lemma push_no_double_slash:
  "no_double_slash (push_normalized_path_chars prev s)
   \<and> (prev \<longrightarrow> \<not> starts_with (push_normalized_path_chars prev s) ''/'')"
proof (induction prev s rule: push_normalized_path_chars.induct)
  case 1
  then show ?case by simp
next
  case (2 prev ch chs)
  have cons: "no_double_slash (c # t) \<longleftrightarrow> no_double_slash t \<and> \<not> (c = CHR ''/'' \<and> starts_with t ''/'')"
    for c t by (cases t) auto
  show ?case
  proof (cases "ch = CHR ''/''")
    case True
    with "2.IH"(1) show ?thesis by (cases prev) (auto simp: cons)
  next
    case False
    with "2.IH"(2) show ?thesis by (auto simp: cons)
  qed
qed

lemma push_head:
  "push_normalized_path_chars False (c # s) = c # push_normalized_path_chars (c = CHR ''/'') s"
  by simp

lemma normalize_path_shape:
  "starts_with (normalize_path p) ''/'' \<and> no_double_slash (normalize_path p)"
proof (cases "starts_with (trim p) ''/''")
  case True
  then obtain s where s: "trim p = CHR ''/'' # s" by (auto simp: prefix_def)
  have "normalize_path p = push_normalized_path_chars False (trim p)"
    using True by (simp add: normalize_path_def Let_def s)
  then show ?thesis using push_no_double_slash [of False "trim p"] by (simp add: s)
next
  case False
  have eq: "normalize_path p = CHR ''/'' # push_normalized_path_chars False (trim p)"
    using False by (simp add: normalize_path_def Let_def)
  have "no_double_slash (CHR ''/'' # push_normalized_path_chars False (trim p))"
  proof (cases "trim p")
    case (Cons c s)
    with False have "c \<noteq> CHR ''/''" by auto
    then show ?thesis using push_no_double_slash [of False "trim p"] by (simp add: Cons)
  qed simp
  then show ?thesis unfolding eq by simp
qed

section \<open>The kernel as a gate\<close>

lemma required_scopes_single: "\<exists>s. required_scopes rp m p = [s]"
  by (simp add: required_scopes_def)

interpretation kernel_gate: decision_gate "authorize lim k" for lim k
proof unfold_locales
  fix r
  show "decision_wf (authorize lim k r)"
    using claims_gate.gate_wf [of lim "(k_claims_cfg k, rq_claims r)"]
      http_path_gate.gate_wf [of lim "rq_path r"]
    by (simp add: authorize_def Let_def)
qed

lemma authorize_allow_iff:
  "d_allow (authorize lim k r) \<longleftrightarrow>
     request_within_boundary_limits lim r
     \<and> d_allow (enforce_claims lim (k_claims_cfg k) (rq_claims r))
     \<and> d_allow (validate_http_path lim (rq_path r)) \<and> has_path_segment (rq_path r)
     \<and> classify_method (rq_method r) \<noteq> MDeny
     \<and> list_within_boundary_limits lim (required_scopes (k_route_policy k) (rq_method r) (rq_path r))
     \<and> set (required_scopes (k_route_policy k) (rq_method r) (rq_path r)) \<subseteq> set (rq_token_scopes r)"
  by (auto simp: authorize_def Let_def list_ex_iff)

section \<open>Properties\<close>

text \<open>
  On every kernel that the builder can make, the scope table implements its abstract
  reading: the route chosen for a path is one that was added, matches the normalised path on
  a segment boundary, and has the longest prefix of all added routes that match; no route is
  chosen only if none matches.
\<close>

lemma route_for_path_longest_prefix:
  "route_spec (concat (map route_of_option opts)) path
     (route_for_path (k_route_policy (kernel_of opts)) path)"
proof -
  have "set (routes (k_route_policy (kernel_of opts))) = set (concat (map route_of_option opts))"
    unfolding kernel_of_def kernel_build_def
    using kernel_fold_routes [of opts kernel_builder_default]
    by (simp add: kernel_builder_default_def route_policy_default_def)
  moreover have "route_spec (routes (k_route_policy (kernel_of opts))) path
      (route_for_path (k_route_policy (kernel_of opts)) path)"
    by (rule route_for_path_spec [OF kernel_of_sorted])
  ultimately show ?thesis by (simp add: route_spec_def split: option.splits)
qed

text \<open>
  C2: The kernel allows a request exactly when every gate passes (limits, claims, path,
  realm, method) and the token holds the one scope that the route table asks for; the
  decision then reports that scope, and every deny carries a catalog code and no scope.
\<close>

theorem authorize_complete_mediation:
  "(d_allow (authorize lim k r) \<longleftrightarrow>
      request_within_boundary_limits lim r
      \<and> claims_input_within_boundary_limits lim (k_claims_cfg k) (rq_claims r)
      \<and> claims_have_valid_types (rq_claims r) \<and> claims_admitted (k_claims_cfg k) (rq_claims r)
      \<and> d_allow (validate_http_path lim (rq_path r)) \<and> has_path_segment (rq_path r)
      \<and> classify_method (rq_method r) \<noteq> MDeny
      \<and> list_within_boundary_limits lim (required_scopes (k_route_policy k) (rq_method r) (rq_path r))
      \<and> (\<exists>scope. required_scopes (k_route_policy k) (rq_method r) (rq_path r) = [scope]
            \<and> scope \<in> set (rq_token_scopes r)))
   \<and> (if d_allow (authorize lim k r)
      then authorize lim k r = with_required_scopes decision_allow
             (required_scopes (k_route_policy k) (rq_method r) (rq_path r))
      else d_code (authorize lim k r) \<in> Some ` set decision_code_catalog
           \<and> d_required_scopes (authorize lim k r) = None)"
proof -
  obtain s where s: "required_scopes (k_route_policy k) (rq_method r) (rq_path r) = [s]"
    using required_scopes_single by blast
  have allow: "authorize lim k r = with_required_scopes decision_allow [s]" if "d_allow (authorize lim k r)"
    using that s by (auto simp: authorize_def Let_def split: if_splits)
  have deny: "d_code (authorize lim k r) \<in> Some ` set decision_code_catalog
      \<and> d_required_scopes (authorize lim k r) = None" if "\<not> d_allow (authorize lim k r)"
    by (intro conjI kernel_gate.deny_code_in_catalog kernel_gate.deny_without_scopes that)
  show ?thesis
    using allow deny unfolding authorize_allow_iff enforce_claims_allow_iff s by auto
qed

text \<open>
  Percent-encoded letters are not decoded before the scope table is consulted.  With the
  route \<open>/admin\<close> bound to the scope \<open>admin:read\<close>, a token that holds only the default read
  scope is denied on \<open>/admin/users\<close> but allowed on \<open>/%61dmin/users\<close>, whose decoded form
  is the same path.
\<close>

lemma encoded_path_skips_route_scope:
  "let k = kernel_of [OptRoute ''/admin'' ''admin:read'' ''admin:write''];
       req = (\<lambda>p. with_token_scopes [''mcp:read''] (request_new ''GET'' p))
   in percent_decode_once ''/%61dmin/users'' = Some ''/admin/users''
      \<and> \<not> d_allow (authorize fallback_boundary k (req ''/admin/users''))
      \<and> d_allow (authorize fallback_boundary k (req ''/%61dmin/users''))"
  by code_simp

end
