(* ===== verification/Sql_Lexer.thy ===== *)
theory Sql_Lexer
  imports Policy_Decision
begin

text \<open>
  The lexical surface of \<open>sql_read_only.rs\<close> (crate \<open>mcp-toolkit-policy-core\<close>): a byte state
  machine that blanks string literals, comments and dollar-quoted bodies and keeps the rest.
  The \<open>while\<close> loop over the index is a recursion on the remaining bytes, with the state and
  the open dollar tag as arguments; \<open>None\<close> is the \<open>UnterminatedToken\<close> error.  The comment
  depth is a \<open>u32\<close> in the source; it is at most half the input length, so it cannot wrap on
  an input of fewer than eight gigabytes and is a natural number here.
\<close>

section \<open>Masking\<close>

definition mask_byte :: "char \<Rightarrow> char" where
  "mask_byte b =
     (if byte b = 10 \<or> byte b = 13 \<or> byte b = 9 then b
      else if is_ascii_alphanumeric b \<or> b \<in> set ''_ ,.();'' then b
      else CHR '' '')"

definition mask_hidden_byte :: "char \<Rightarrow> char" where
  "mask_hidden_byte b = (if byte b = 10 \<or> byte b = 13 \<or> byte b = 9 then b else CHR '' '')"

text \<open>The position after the closing dollar of an opening tag, if the input starts with one.\<close>

fun dollar_tag_loop :: "nat \<Rightarrow> rstr \<Rightarrow> nat option" where
  "dollar_tag_loop idx [] = None"
| "dollar_tag_loop idx (b # bs) =
     (if b = CHR ''$'' then Some (idx + 1)
      else if \<not> is_ascii_alphanumeric b \<and> b \<noteq> CHR ''_'' then None
      else dollar_tag_loop (idx + 1) bs)"

fun parse_dollar_tag :: "rstr \<Rightarrow> nat option" where
  "parse_dollar_tag [] = None"
| "parse_dollar_tag (b # bs) = (if b \<noteq> CHR ''$'' then None else dollar_tag_loop 1 bs)"

lemma dollar_tag_loop_bounds:
  "dollar_tag_loop idx bs = Some n \<Longrightarrow> idx < n \<and> n \<le> idx + length bs"
  by (induction idx bs rule: dollar_tag_loop.induct) (auto split: if_splits)

lemma parse_dollar_tag_bounds: "parse_dollar_tag bs = Some n \<Longrightarrow> 2 \<le> n \<and> n \<le> length bs"
  by (cases bs) (auto split: if_splits dest: dollar_tag_loop_bounds)

section \<open>The state machine\<close>

datatype lex_state = Normal | SingleQuote | DoubleQuote | LineComment | BlockComment nat

definition blanks :: "nat \<Rightarrow> rstr" where
  "blanks n = replicate n (CHR '' '')"

lemma blanks_simps [simp]:
  "blanks 2 = [CHR '' '', CHR '' '']" "blanks 1 = [CHR '' '']" "blanks (Suc 0) = [CHR '' '']"
  by (simp_all add: blanks_def numeral_2_eq_2)

definition emit :: "rstr \<Rightarrow> rstr option \<Rightarrow> rstr option" where
  "emit out r = map_option (\<lambda>rest. out @ rest) r"

fun unterminated :: "rstr option \<Rightarrow> lex_state \<Rightarrow> bool" where
  "unterminated dollar_tag state \<longleftrightarrow>
     dollar_tag \<noteq> None
     \<or> (case state of SingleQuote \<Rightarrow> True | DoubleQuote \<Rightarrow> True | BlockComment _ \<Rightarrow> True | _ \<Rightarrow> False)"

definition quote_mark :: "bool \<Rightarrow> char" where
  "quote_mark mask_double_quoted = (if mask_double_quoted then CHR '' '' else CHR 0x22)"

text \<open>
  One iteration of the loop on a non-empty rest: what it pushes, the next state, the next
  open tag, and how many bytes it consumes.
\<close>

fun lex_step :: "bool \<Rightarrow> rstr option \<Rightarrow> lex_state \<Rightarrow> rstr \<Rightarrow> rstr \<times> rstr option \<times> lex_state \<times> nat" where
  "lex_step mdq (Some tag) state bytes =
     (if starts_with bytes tag then (blanks (length tag), None, state, length tag)
      else ([mask_hidden_byte (hd bytes)], Some tag, state, 1))"
| "lex_step mdq None Normal bytes =
     (if starts_with bytes ''--'' then (blanks 2, None, LineComment, 2)
      else if starts_with bytes ''/*'' then (blanks 2, None, BlockComment 1, 2)
      else if hd bytes = CHR 0x27 then (blanks 1, None, SingleQuote, 1)
      else if hd bytes = CHR 0x22 then ([quote_mark mdq], None, DoubleQuote, 1)
      else (case parse_dollar_tag bytes of
              Some tag_len \<Rightarrow> (blanks tag_len, Some (take tag_len bytes), Normal, tag_len)
            | None \<Rightarrow> ([mask_byte (hd bytes)], None, Normal, 1)))"
| "lex_step mdq None SingleQuote bytes =
     (if hd bytes = CHR 0x27
      then (if starts_with (tl bytes) [CHR 0x27] then (blanks 2, None, SingleQuote, 2)
            else (blanks 1, None, Normal, 1))
      else ([mask_hidden_byte (hd bytes)], None, SingleQuote, 1))"
| "lex_step mdq None DoubleQuote bytes =
     (if hd bytes = CHR 0x22
      then (if starts_with (tl bytes) [CHR 0x22]
            then ([quote_mark mdq, quote_mark mdq], None, DoubleQuote, 2)
            else ([quote_mark mdq], None, Normal, 1))
      else ([if mdq then mask_hidden_byte (hd bytes) else mask_byte (hd bytes)], None, DoubleQuote, 1))"
| "lex_step mdq None LineComment bytes =
     (if byte (hd bytes) = 10 \<or> byte (hd bytes) = 13 then ([hd bytes], None, Normal, 1)
      else (blanks 1, None, LineComment, 1))"
| "lex_step mdq None (BlockComment depth) bytes =
     (if starts_with bytes ''/*'' then (blanks 2, None, BlockComment (depth + 1), 2)
      else if starts_with bytes ''*/''
      then (blanks 2, None, if depth = 1 then Normal else BlockComment (depth - 1), 2)
      else ([mask_hidden_byte (hd bytes)], None, BlockComment depth, 1))"

text \<open>
  The loop.  Every step consumes at least one byte (an open tag has at least two), so
  the recursion ends; the \<open>max 1\<close> only makes that evident for tags no run produces.
\<close>

function lex :: "bool \<Rightarrow> rstr option \<Rightarrow> lex_state \<Rightarrow> rstr \<Rightarrow> rstr option" where
  "lex mdq tag state [] = (if unterminated tag state then None else Some [])"
| "lex mdq tag state (b # bs) =
     (case lex_step mdq tag state (b # bs) of
        (out, tag', state', n) \<Rightarrow> emit out (lex mdq tag' state' (drop (max 1 n) (b # bs))))"
  by pat_completeness auto
termination
  by (relation "measure (\<lambda>(mdq, tag, state, bytes). length bytes)") auto

declare lex.simps(2) [simp del]

definition lexical_surface :: "rstr \<Rightarrow> bool \<Rightarrow> rstr option" where
  "lexical_surface sql mask_double_quoted = lex mask_double_quoted None Normal sql"

section \<open>Shape of the surface\<close>

definition tag_ok :: "rstr option \<Rightarrow> bool" where
  "tag_ok tag \<longleftrightarrow> (case tag of None \<Rightarrow> True | Some t \<Rightarrow> 2 \<le> length t)"

text \<open>What a surface byte may be, given the input byte at its position.\<close>

definition masks :: "bool \<Rightarrow> char \<Rightarrow> char \<Rightarrow> bool" where
  "masks mdq b c \<longleftrightarrow>
     c = CHR '' ''
     \<or> c = b \<and> (byte b = 9 \<or> byte b = 10 \<or> byte b = 13 \<or> is_ascii_alphanumeric b
                \<or> b \<in> set ''_,.();'' \<or> (\<not> mdq \<and> b = CHR 0x22))"

lemma masks_blank [simp]: "masks mdq b (CHR '' '')"
  by (simp add: masks_def)

lemma masks_mask_byte [simp]: "masks mdq b (mask_byte b)"
  by (auto simp: masks_def mask_byte_def)

lemma masks_mask_hidden_byte [simp]: "masks mdq b (mask_hidden_byte b)"
  by (auto simp: masks_def mask_hidden_byte_def)

lemma masks_quote [simp]: "masks mdq (CHR 0x22) (quote_mark mdq)"
  by (simp add: masks_def quote_mark_def)

lemma masks_blanks: "n \<le> length bs \<Longrightarrow> list_all2 (masks mdq) (take n bs) (blanks n)"
  by (simp add: blanks_def list_all2_conv_all_nth)

lemma lex_step_shape:
  assumes "lex_step mdq tag state (b # bs) = (out, tag', state', n)" and "tag_ok tag"
  shows "1 \<le> n \<and> n \<le> length (b # bs) \<and> tag_ok tag'
         \<and> list_all2 (masks mdq) (take n (b # bs)) out"
proof (cases tag)
  case (Some t)
  show ?thesis
  proof (cases "starts_with (b # bs) t")
    case True
    then have "length t \<le> length (b # bs)" by (rule prefix_length_le)
    with True assms Some show ?thesis using masks_blanks [of "length t" "b # bs"]
      by (auto simp: tag_ok_def)
  next
    case False
    with assms Some show ?thesis by auto
  qed
next
  case None
  show ?thesis
  proof (cases state)
    case Normal
    show ?thesis
    proof (cases "parse_dollar_tag (b # bs)")
      case (Some m)
      with assms None Normal masks_blanks [of m "b # bs" mdq] parse_dollar_tag_bounds [OF Some]
      show ?thesis
        by (cases bs) (auto simp: tag_ok_def split: if_splits simp del: parse_dollar_tag.simps)
    next
      case p: None
      with assms None Normal show ?thesis
        by (cases bs) (auto simp: tag_ok_def split: if_splits simp del: parse_dollar_tag.simps)
    qed
  next
    case SingleQuote
    with assms None show ?thesis
      by (cases bs) (auto simp: tag_ok_def split: if_splits)
  next
    case DoubleQuote
    with assms None show ?thesis
      by (cases bs) (auto simp: tag_ok_def split: if_splits)
  next
    case LineComment
    with assms None show ?thesis
      by (auto simp: tag_ok_def masks_def split: if_splits)
  next
    case (BlockComment d)
    with assms None show ?thesis
      by (cases bs) (auto simp: tag_ok_def split: if_splits)
  qed
qed

lemma emit_Some [simp]: "emit out r = Some t \<longleftrightarrow> (\<exists>rest. r = Some rest \<and> t = out @ rest)"
  by (auto simp: emit_def)

text \<open>
  A lexer that masks bytes in place: a step emits one byte per byte it consumes, each related to the
  input byte at its position.  Then so does the whole run.  The policy core and the scratchpad each have
  such a lexer.
\<close>

locale masking_lexer =
  fixes step :: "rstr option \<Rightarrow> lex_state \<Rightarrow> rstr \<Rightarrow> rstr \<times> rstr option \<times> lex_state \<times> nat"
    and run :: "rstr option \<Rightarrow> lex_state \<Rightarrow> rstr \<Rightarrow> rstr option"
    and ok :: "char \<Rightarrow> char \<Rightarrow> bool"
  assumes run_end: "run tag state [] = (if unterminated tag state then None else Some [])"
    and run_step: "run tag state (b # bs) =
      (case step tag state (b # bs) of
         (out, tag', state', n) \<Rightarrow> emit out (run tag' state' (drop (max 1 n) (b # bs))))"
    and step_shape: "step tag state (b # bs) = (out, tag', state', n) \<Longrightarrow> tag_ok tag \<Longrightarrow>
      1 \<le> n \<and> n \<le> length (b # bs) \<and> tag_ok tag' \<and> list_all2 ok (take n (b # bs)) out"
begin

lemma run_shape:
  "run tag state bytes = Some out \<Longrightarrow> tag_ok tag \<Longrightarrow> list_all2 ok bytes out"
proof (induction bytes arbitrary: tag state out rule: length_induct)
  case (1 bytes)
  show ?case
  proof (cases bytes)
    case Nil
    then show ?thesis using "1.prems" by (auto simp: run_end split: if_splits)
  next
    case (Cons b bs)
    obtain o1 tag' state' n where st: "step tag state (b # bs) = (o1, tag', state', n)"
      by (metis prod_cases4)
    note shape = step_shape [OF st "1.prems"(2)]
    from "1.prems"(1) Cons st obtain o2 where
      o2: "run tag' state' (drop (max 1 n) (b # bs)) = Some o2" and out: "out = o1 @ o2"
      by (auto simp: run_step)
    have "length (drop (max 1 n) (b # bs)) < length bytes" using Cons by simp
    then have "list_all2 ok (drop (max 1 n) (b # bs)) o2" using "1.IH" o2 shape by blast
    moreover have "max 1 n = n" using shape by simp
    ultimately have "list_all2 ok (take n (b # bs) @ drop n (b # bs)) (o1 @ o2)"
      using shape by (intro list_all2_appendI) auto
    then show ?thesis by (simp add: out Cons)
  qed
qed

end

interpretation core_lexer: masking_lexer "lex_step mdq" "lex mdq" "masks mdq" for mdq
  by unfold_locales (simp_all only: lex.simps lex_step_shape simp_thms)

lemmas lex_shape = core_lexer.run_shape

end
