(* ===== verification/Sql_Policy.thy ===== *)
theory Sql_Policy
  imports Sql_Lexer
begin

text \<open>
  The restricted-SQL classifier and decision of \<open>sql_read_only.rs\<close> (crate
  \<open>mcp-toolkit-policy-core\<close>).  The regular expressions are run by the \<open>regex\<close> crate, which is
  a parameter: the record \<open>regex_crate\<close> says whether a pattern compiles, whether it matches
  a text and where.  \<open>regex_documented\<close> states what the crate documents for the three patterns
  of this module on ASCII text, in terms of word scanners; \<open>scanner_regex\<close> is a concrete
  crate that meets it, used by the witnesses.
\<close>

section \<open>The regular-expression crate\<close>

record regex_crate =
  regex_new :: "rstr \<Rightarrow> bool"
  regex_is_match :: "rstr \<Rightarrow> rstr \<Rightarrow> bool"
  regex_find_iter :: "rstr \<Rightarrow> rstr \<Rightarrow> (nat \<times> nat) list"

abbreviation bslash :: rstr where
  "bslash \<equiv> [CHR 0x5C]"

definition FORBIDDEN_KEYWORD_PATTERN :: rstr where
  "FORBIDDEN_KEYWORD_PATTERN =
     ''(?i)'' @ bslash @ ''b(INSERT|UPDATE|DELETE|ALTER|DROP|TRUNCATE|GRANT|REVOKE|COPY|CALL|DO|MERGE|REINDEX|CLUSTER|COMMENT|SECURITY''
     @ bslash @ ''s+LABEL|CREATE|DISCARD|RESET|SET|LOCK|REFRESH)'' @ bslash @ ''b''"

definition EXPLAIN_FORBIDDEN_PATTERN :: rstr where
  "EXPLAIN_FORBIDDEN_PATTERN =
     ''(?i)'' @ bslash @ ''b(INSERT|UPDATE|DELETE|MERGE|ALTER|DROP|TRUNCATE|CREATE|GRANT|REVOKE|COPY|CALL|DO|LOCK|FOR''
     @ bslash @ ''s+UPDATE)'' @ bslash @ ''b''"

definition FORBIDDEN_FUNCTION_PATTERN :: rstr where
  "FORBIDDEN_FUNCTION_PATTERN =
     ''(?i)'' @ bslash @ ''b(pg_sleep|pg_terminate_backend|pg_cancel_backend|pg_reload_conf|pg_rotate_logfile|pg_log_backend_memory_contexts|pg_read_file|pg_read_binary_file|pg_ls_dir|pg_stat_file|pg_write_file|set_config|dblink_connect|dblink_exec|dblink_send_query|lo_import|lo_export|pg_advisory_lock|pg_advisory_lock_shared|pg_advisory_xact_lock|pg_advisory_xact_lock_shared)''
     @ bslash @ ''b(?:'' @ bslash @ ''s*'' @ [CHR 0x22] @ bslash @ ''s*)?'' @ bslash @ ''(''"

section \<open>Errors\<close>

datatype restricted_sql_error_code =
    SqlEmptySql | SqlUnterminatedToken | SqlMultipleStatements | SqlNotReadOnlyPrefix
  | SqlForbiddenKeyword | SqlForbiddenFunction | SqlExplainNotReadOnly
  | SqlClassifierUnavailable

fun sql_code_as_str :: "restricted_sql_error_code \<Rightarrow> rstr" where
  "sql_code_as_str SqlEmptySql = ''EMPTY_SQL''"
| "sql_code_as_str SqlUnterminatedToken = ''UNTERMINATED_TOKEN''"
| "sql_code_as_str SqlMultipleStatements = ''MULTIPLE_STATEMENTS''"
| "sql_code_as_str SqlNotReadOnlyPrefix = ''NOT_READ_ONLY_PREFIX''"
| "sql_code_as_str SqlForbiddenKeyword = ''FORBIDDEN_KEYWORD''"
| "sql_code_as_str SqlForbiddenFunction = ''FORBIDDEN_FUNCTION''"
| "sql_code_as_str SqlExplainNotReadOnly = ''EXPLAIN_NOT_READ_ONLY''"
| "sql_code_as_str SqlClassifierUnavailable = ''CLASSIFIER_UNAVAILABLE''"

fun sql_decision_code :: "restricted_sql_error_code \<Rightarrow> decision_code" where
  "sql_decision_code SqlEmptySql = EmptySql"
| "sql_decision_code SqlUnterminatedToken = UnterminatedToken"
| "sql_decision_code SqlMultipleStatements = MultipleStatements"
| "sql_decision_code SqlNotReadOnlyPrefix = NotReadOnlyPrefix"
| "sql_decision_code SqlForbiddenKeyword = ForbiddenKeyword"
| "sql_decision_code SqlForbiddenFunction = ForbiddenFunction"
| "sql_decision_code SqlExplainNotReadOnly = ExplainNotReadOnly"
| "sql_decision_code SqlClassifierUnavailable = ClassifierUnavailable"

record restricted_sql_error =
  sql_code :: restricted_sql_error_code
  sql_message :: rstr

definition sql_error :: "restricted_sql_error_code \<Rightarrow> rstr \<Rightarrow> restricted_sql_error" where
  "sql_error c m = \<lparr>sql_code = c, sql_message = m\<rparr>"

text \<open>The three lazily compiled expressions; a pattern that does not compile is an error.\<close>

definition compiled :: "regex_crate \<Rightarrow> rstr \<Rightarrow> (restricted_sql_error, rstr) result" where
  "compiled re pattern =
     (if regex_new re pattern then Inr pattern
      else Inl (sql_error SqlClassifierUnavailable ''restricted mode policy classifier unavailable''))"

definition forbidden_keyword_re :: "regex_crate \<Rightarrow> (restricted_sql_error, rstr) result" where
  "forbidden_keyword_re re = compiled re FORBIDDEN_KEYWORD_PATTERN"

definition explain_forbidden_re :: "regex_crate \<Rightarrow> (restricted_sql_error, rstr) result" where
  "explain_forbidden_re re = compiled re EXPLAIN_FORBIDDEN_PATTERN"

definition forbidden_function_re :: "regex_crate \<Rightarrow> (restricted_sql_error, rstr) result" where
  "forbidden_function_re re = compiled re FORBIDDEN_FUNCTION_PATTERN"

section \<open>Words around a match\<close>

definition is_word_byte :: "char \<Rightarrow> bool" where
  "is_word_byte b \<longleftrightarrow> is_ascii_alphanumeric b \<or> b = CHR ''_''"

definition previous_word_upper :: "rstr \<Rightarrow> nat \<Rightarrow> rstr option" where
  "previous_word_upper surface before =
     (if before = 0 \<or> before > length surface then None
      else let word = rev (takeWhile is_word_byte
                       (dropWhile is_ascii_whitespace (rev (take before surface))))
           in if word = [] then None else Some (to_ascii_uppercase word))"

definition next_word_upper :: "rstr \<Rightarrow> nat \<Rightarrow> rstr option" where
  "next_word_upper surface start =
     (if start \<ge> length surface then None
      else let word = takeWhile is_word_byte (dropWhile is_ascii_whitespace (drop start surface))
           in if word = [] then None else Some (to_ascii_uppercase word))"

definition saturating_add_u32 :: "nat \<Rightarrow> nat \<Rightarrow> nat" where
  "saturating_add_u32 a b = min (a + b) 4294967295"

fun close_paren_loop :: "nat \<Rightarrow> nat \<Rightarrow> rstr \<Rightarrow> nat option" where
  "close_paren_loop depth i [] = None"
| "close_paren_loop depth i (b # bs) =
     (if b = CHR ''('' then close_paren_loop (saturating_add_u32 depth 1) (i + 1) bs
      else if b = CHR '')''
      then (if depth = 0 then None
            else if depth - 1 = 0 then Some i
            else close_paren_loop (depth - 1) (i + 1) bs)
      else close_paren_loop depth (i + 1) bs)"

definition matching_close_paren :: "rstr \<Rightarrow> nat \<Rightarrow> nat option" where
  "matching_close_paren bytes open_paren =
     (if open_paren \<ge> length bytes \<or> bytes ! open_paren \<noteq> CHR ''('' then None
      else close_paren_loop 1 (open_paren + 1) (drop (open_paren + 1) bytes))"

definition is_cte_header_forbidden_match :: "rstr \<Rightarrow> nat \<Rightarrow> nat \<Rightarrow> bool" where
  "is_cte_header_forbidden_match surface match_start open_paren =
     (let previous = previous_word_upper surface match_start in
      if previous \<noteq> Some ''WITH'' \<and> previous \<noteq> Some ''RECURSIVE'' then False
      else (case matching_close_paren surface open_paren of
              None \<Rightarrow> False
            | Some close_paren \<Rightarrow> next_word_upper surface (close_paren + 1) = Some ''AS''))"

definition contains_forbidden_function ::
  "regex_crate \<Rightarrow> rstr \<Rightarrow> (restricted_sql_error, bool) result" where
  "contains_forbidden_function re surface =
     (case forbidden_function_re re of
        Inl e \<Rightarrow> Inl e
      | Inr pattern \<Rightarrow>
          Inr (list_ex (\<lambda>(s, e). e \<noteq> 0 \<and> \<not> is_cte_header_forbidden_match surface s (e - 1))
                 (regex_find_iter re pattern surface)))"

section \<open>The classifier\<close>

definition allowed_prefixes :: "rstr list" where
  "allowed_prefixes =
     [''SELECT'', ''WITH'', ''EXPLAIN'', ''SHOW'', ''VALUES'', ''DECLARE'', ''FETCH'',
      ''CLOSE'', ''PREPARE'', ''DEALLOCATE'']"

definition statement_count :: "rstr \<Rightarrow> nat" where
  "statement_count trimmed = length (filter (\<lambda>part. trim part \<noteq> []) (split_on (CHR '';'') trimmed))"

text \<open>The keyword check: the \<open>EXPLAIN\<close> expression for \<open>EXPLAIN\<close>, the general one otherwise.\<close>

definition check_keywords :: "regex_crate \<Rightarrow> rstr \<Rightarrow> (restricted_sql_error, unit) result" where
  "check_keywords re trimmed =
     (if starts_with (to_ascii_uppercase trimmed) ''EXPLAIN''
      then (case explain_forbidden_re re of
              Inl e \<Rightarrow> Inl e
            | Inr p \<Rightarrow>
                if regex_is_match re p trimmed
                then Inl (sql_error SqlExplainNotReadOnly
                       ''restricted mode allows EXPLAIN only for read-only statements'')
                else Inr ())
      else (case forbidden_keyword_re re of
              Inl e \<Rightarrow> Inl e
            | Inr p \<Rightarrow>
                if regex_is_match re p trimmed
                then Inl (sql_error SqlForbiddenKeyword ''restricted mode rejected write/admin SQL'')
                else Inr ()))"

definition check_functions :: "regex_crate \<Rightarrow> rstr \<Rightarrow> (restricted_sql_error, unit) result" where
  "check_functions re function_surface =
     (case contains_forbidden_function re function_surface of
        Inl e \<Rightarrow> Inl e
      | Inr found \<Rightarrow>
          if found
          then Inl (sql_error SqlForbiddenFunction ''restricted mode rejected unsafe function call'')
          else Inr ())"

definition unterminated_error :: restricted_sql_error where
  "unterminated_error =
     sql_error SqlUnterminatedToken ''restricted mode could not parse SQL lexical surface''"

definition classify_restricted_sql ::
  "regex_crate \<Rightarrow> rstr \<Rightarrow> (restricted_sql_error, unit) result" where
  "classify_restricted_sql re sql =
     (case lexical_surface sql True of
        None \<Rightarrow> Inl unterminated_error
      | Some lexical \<Rightarrow>
     (case lexical_surface sql False of
        None \<Rightarrow> Inl unterminated_error
      | Some lexical_functions \<Rightarrow>
          (let trimmed = trim lexical; function_surface = trim lexical_functions in
           if trimmed = [] then Inl (sql_error SqlEmptySql ''sql must not be empty'')
           else if statement_count trimmed > 1
           then Inl (sql_error SqlMultipleStatements
                  ''restricted mode allows only a single SQL statement'')
           else if \<not> list_ex (\<lambda>p. starts_with (to_ascii_uppercase trimmed) p) allowed_prefixes
           then Inl (sql_error SqlNotReadOnlyPrefix
                  ''restricted mode allows only allowlisted SQL prefixes'')
           else (case check_keywords re trimmed of
                   Inl e \<Rightarrow> Inl e
                 | Inr _ \<Rightarrow> check_functions re function_surface))))"

definition validate_restricted_sql :: "regex_crate \<Rightarrow> rstr \<Rightarrow> (rstr, unit) result" where
  "validate_restricted_sql re sql =
     (case classify_restricted_sql re sql of Inl e \<Rightarrow> Inl (sql_message e) | Inr u \<Rightarrow> Inr u)"

record sql_restricted_policy_input =
  policy_contract_version :: rstr
  input_sql :: rstr

definition SQL_POLICY_CONTRACT_VERSION :: rstr where
  "SQL_POLICY_CONTRACT_VERSION = ''sql-restricted/v1''"

definition SQL_POLICY_REASON :: rstr where
  "SQL_POLICY_REASON = ''restricted_sql''"

definition sql_restricted_policy_decision ::
  "regex_crate \<Rightarrow> boundary \<Rightarrow> sql_restricted_policy_input \<Rightarrow> decision" where
  "sql_restricted_policy_decision re lim input =
     (if \<not> string_within_boundary_limit lim (policy_contract_version input)
         \<or> \<not> string_within_boundary_limit lim (input_sql input)
      then decision_deny InvalidInput (Some ''boundary_limits'')
      else if policy_contract_version input \<noteq> SQL_POLICY_CONTRACT_VERSION
      then decision_deny ClassifierUnavailable (Some SQL_POLICY_REASON)
      else (case classify_restricted_sql re (input_sql input) of
              Inr _ \<Rightarrow> decision_allow
            | Inl e \<Rightarrow> decision_deny (sql_decision_code (sql_code e)) (Some SQL_POLICY_REASON)))"

interpretation sql_gate: decision_gate "sql_restricted_policy_decision re lim" for re lim
  by unfold_locales
     (auto simp: sql_restricted_policy_decision_def SQL_POLICY_REASON_def split: sum.splits)

lemma sql_code_agrees: "code_as_str (sql_decision_code c) = sql_code_as_str c"
  by (cases c) simp_all

section \<open>What the patterns mean on ASCII text\<close>

definition re_space :: "char \<Rightarrow> bool" where
  "re_space c \<longleftrightarrow> (9 \<le> byte c \<and> byte c \<le> 13) \<or> byte c = 32"

definition match_word :: "rstr \<Rightarrow> rstr \<Rightarrow> rstr option" where
  "match_word w s =
     (if length w \<le> length s \<and> eq_ignore_ascii_case (take (length w) s) w
      then Some (drop (length w) s) else None)"

text \<open>The words of one alternative, separated by at least one white-space character.\<close>

fun match_words :: "rstr list \<Rightarrow> rstr \<Rightarrow> rstr option" where
  "match_words [] s = Some s"
| "match_words [w] s = match_word w s"
| "match_words (w # ws) s =
     (case match_word w s of
        None \<Rightarrow> None
      | Some r \<Rightarrow>
          if (case r of [] \<Rightarrow> False | c # _ \<Rightarrow> re_space c)
          then match_words ws (dropWhile re_space r) else None)"

definition ends_word :: "rstr \<Rightarrow> bool" where
  "ends_word rest \<longleftrightarrow> (case rest of [] \<Rightarrow> True | c # _ \<Rightarrow> \<not> is_word_byte c)"

text \<open>Does one of the alternatives occur, in any case, as whole words?\<close>

fun scan_words :: "rstr list list \<Rightarrow> bool \<Rightarrow> rstr \<Rightarrow> bool" where
  "scan_words alts prev [] = False"
| "scan_words alts prev (c # cs) \<longleftrightarrow>
     (\<not> prev \<and> list_ex (\<lambda>ws. case match_words ws (c # cs) of None \<Rightarrow> False | Some r \<Rightarrow> ends_word r) alts)
     \<or> scan_words alts (is_word_byte c) cs"

definition forbidden_keywords :: "rstr list list" where
  "forbidden_keywords =
     [[''INSERT''], [''UPDATE''], [''DELETE''], [''ALTER''], [''DROP''], [''TRUNCATE''], [''GRANT''],
      [''REVOKE''], [''COPY''], [''CALL''], [''DO''], [''MERGE''], [''REINDEX''], [''CLUSTER''],
      [''COMMENT''], [''SECURITY'', ''LABEL''], [''CREATE''], [''DISCARD''], [''RESET''], [''SET''],
      [''LOCK''], [''REFRESH'']]"

definition explain_forbidden_keywords :: "rstr list list" where
  "explain_forbidden_keywords =
     [[''INSERT''], [''UPDATE''], [''DELETE''], [''MERGE''], [''ALTER''], [''DROP''], [''TRUNCATE''],
      [''CREATE''], [''GRANT''], [''REVOKE''], [''COPY''], [''CALL''], [''DO''], [''LOCK''],
      [''FOR'', ''UPDATE'']]"

definition forbidden_functions :: "rstr list" where
  "forbidden_functions =
     [''pg_sleep'', ''pg_terminate_backend'', ''pg_cancel_backend'', ''pg_reload_conf'',
      ''pg_rotate_logfile'', ''pg_log_backend_memory_contexts'', ''pg_read_file'',
      ''pg_read_binary_file'', ''pg_ls_dir'', ''pg_stat_file'', ''pg_write_file'', ''set_config'',
      ''dblink_connect'', ''dblink_exec'', ''dblink_send_query'', ''lo_import'', ''lo_export'',
      ''pg_advisory_lock'', ''pg_advisory_lock_shared'', ''pg_advisory_xact_lock'',
      ''pg_advisory_xact_lock_shared'']"

text \<open>After the name: an optional quote with white space around it, then the parenthesis.\<close>

definition match_call_tail :: "rstr \<Rightarrow> rstr option" where
  "match_call_tail s =
     (case dropWhile re_space s of
        q # s' \<Rightarrow>
          if q = CHR 0x22
          then (case dropWhile re_space s' of
                  p # rest \<Rightarrow> if p = CHR ''('' then Some rest else None
                | [] \<Rightarrow> None)
          else (case s of p # rest \<Rightarrow> if p = CHR ''('' then Some rest else None | [] \<Rightarrow> None)
      | [] \<Rightarrow> None)"

definition match_call :: "rstr \<Rightarrow> rstr option" where
  "match_call s =
     (case List.find (\<lambda>f. case match_word f s of
                           None \<Rightarrow> False
                         | Some r \<Rightarrow> ends_word r \<and> match_call_tail r \<noteq> None) forbidden_functions of
        None \<Rightarrow> None
      | Some f \<Rightarrow> match_call_tail (drop (length f) s))"

function scan_calls :: "bool \<Rightarrow> nat \<Rightarrow> rstr \<Rightarrow> (nat \<times> nat) list" where
  "scan_calls prev i [] = []"
| "scan_calls prev i (c # cs) =
     (case (if prev then None else match_call (c # cs)) of
        None \<Rightarrow> scan_calls (is_word_byte c) (i + 1) cs
      | Some rest \<Rightarrow>
          let n = length (c # cs) - length rest
          in (i, i + n) # scan_calls False (i + n) (drop (length (c # cs) - length rest - 1) cs))"
  by pat_completeness auto
termination
  by (relation "measure (\<lambda>(prev, i, s). length s)") auto

definition is_ascii :: "rstr \<Rightarrow> bool" where
  "is_ascii s \<longleftrightarrow> list_all (\<lambda>c. byte c < 128) s"

definition regex_documented :: "regex_crate \<Rightarrow> bool" where
  "regex_documented re \<longleftrightarrow>
     regex_new re FORBIDDEN_KEYWORD_PATTERN \<and> regex_new re EXPLAIN_FORBIDDEN_PATTERN
     \<and> regex_new re FORBIDDEN_FUNCTION_PATTERN
     \<and> (\<forall>t. is_ascii t \<longrightarrow>
          regex_is_match re FORBIDDEN_KEYWORD_PATTERN t = scan_words forbidden_keywords False t
          \<and> regex_is_match re EXPLAIN_FORBIDDEN_PATTERN t
              = scan_words explain_forbidden_keywords False t
          \<and> regex_find_iter re FORBIDDEN_FUNCTION_PATTERN t = scan_calls False 0 t)"

definition scanner_regex :: regex_crate where
  "scanner_regex =
     \<lparr>regex_new = (\<lambda>p. True),
      regex_is_match = (\<lambda>p t. if p = FORBIDDEN_KEYWORD_PATTERN then scan_words forbidden_keywords False t
                              else scan_words explain_forbidden_keywords False t),
      regex_find_iter = (\<lambda>p t. scan_calls False 0 t)\<rparr>"

lemma scanner_regex_documented: "regex_documented scanner_regex"
proof -
  have "EXPLAIN_FORBIDDEN_PATTERN \<noteq> FORBIDDEN_KEYWORD_PATTERN"
    by (simp add: EXPLAIN_FORBIDDEN_PATTERN_def FORBIDDEN_KEYWORD_PATTERN_def)
  then show ?thesis by (simp add: regex_documented_def scanner_regex_def)
qed

section \<open>Plain text and literals in the lexer\<close>

definition plain_byte :: "char \<Rightarrow> bool" where
  "plain_byte b \<longleftrightarrow> byte b = 9 \<or> byte b = 10 \<or> byte b = 13 \<or> is_ascii_alphanumeric b \<or> b \<in> set ''_ ,.();''"

definition plain :: "rstr \<Rightarrow> bool" where
  "plain s \<longleftrightarrow> list_all plain_byte s"

lemma plain_byte_mask [simp]: "plain_byte b \<Longrightarrow> mask_byte b = b"
  by (auto simp: plain_byte_def mask_byte_def)

lemma plain_byte_not_special:
  assumes "plain_byte b"
  shows "b \<noteq> CHR ''-''" "b \<noteq> CHR ''/''" "b \<noteq> CHR 0x27" "b \<noteq> CHR 0x22" "b \<noteq> CHR ''$''"
  using assms by (auto simp: plain_byte_def rstr_defs)

lemma lex_step_plain:
  "plain_byte b \<Longrightarrow> lex_step mdq None Normal (b # s) = ([b], None, Normal, 1)"
  using plain_byte_not_special [of b] by simp

lemma emit_emit [simp]: "emit a (emit b r) = emit (a @ b) r"
  by (cases r) (simp_all add: emit_def)

lemma emit_Nil [simp]: "emit [] r = r"
  by (cases r) (simp_all add: emit_def)

lemma lex_plain: "plain pre \<Longrightarrow> lex mdq None Normal (pre @ s) = emit pre (lex mdq None Normal s)"
proof (induction pre)
  case (Cons b pre)
  then have "lex mdq None Normal (b # pre @ s) = emit [b] (lex mdq None Normal (pre @ s))"
    by (simp add: lex.simps(2) lex_step_plain plain_def del: lex_step.simps)
  with Cons show ?case by (simp add: plain_def)
qed simp

lemma lex_literal_body:
  "CHR 0x27 \<notin> set body \<Longrightarrow>
     lex mdq None SingleQuote (body @ s) = emit (map mask_hidden_byte body) (lex mdq None SingleQuote s)"
  by (induction body) (auto simp: lex.simps(2))

lemma lex_literal_close:
  "\<not> starts_with post [CHR 0x27] \<Longrightarrow>
     lex mdq None SingleQuote (CHR 0x27 # post) = emit '' '' (lex mdq None Normal post)"
  by (simp add: lex.simps(2))

lemma lex_literal:
  assumes "plain pre" and "CHR 0x27 \<notin> set body" and "\<not> starts_with post [CHR 0x27]"
  shows "lexical_surface (pre @ CHR 0x27 # body @ CHR 0x27 # post) mdq
         = emit (pre @ '' '' @ map mask_hidden_byte body @ '' '') (lexical_surface post mdq)"
proof -
  have "lex mdq None Normal (CHR 0x27 # body @ CHR 0x27 # post)
      = emit '' '' (lex mdq None SingleQuote (body @ CHR 0x27 # post))"
    by (simp add: lex.simps(2))
  then show ?thesis
    using assms by (simp add: lexical_surface_def lex_plain lex_literal_body lex_literal_close)
qed

lemma surface_masks: "lexical_surface sql mdq = Some out \<Longrightarrow> list_all2 (masks mdq) sql out"
  unfolding lexical_surface_def by (erule lex_shape) (simp add: tag_ok_def)

lemma masks_ascii: "masks mdq b c \<Longrightarrow> byte c < 128"
  by (auto simp: masks_def rstr_defs)

lemma masks_plain:
  "masks mdq b c \<Longrightarrow> c \<in> {c. plain_byte c} \<union> (if mdq then {} else {CHR 0x22})"
  by (auto simp: masks_def plain_byte_def)

lemma masks_blank_or_same: "masks mdq b c \<Longrightarrow> c = CHR '' '' \<or> c = b"
  by (auto simp: masks_def)

lemma is_ascii_sublist: "is_ascii s \<Longrightarrow> set t \<subseteq> set s \<Longrightarrow> is_ascii t"
  by (auto simp: is_ascii_def list_all_iff)

lemma surface_ascii:
  assumes "lexical_surface sql mdq = Some out"
  shows "is_ascii out"
proof -
  have "byte c < 128" if "c \<in> set out" for c
    using surface_masks [OF assms] that masks_ascii by (auto simp: list_all2_conv_all_nth in_set_conv_nth)
  then show ?thesis by (simp add: is_ascii_def list_all_iff)
qed

lemma surface_trim_ascii: "lexical_surface sql mdq = Some out \<Longrightarrow> is_ascii (trim out)"
  using surface_ascii is_ascii_sublist set_trim by blast

text \<open>The patterns a statement is checked against.\<close>

definition keyword_list_for :: "rstr \<Rightarrow> rstr list list" where
  "keyword_list_for trimmed =
     (if starts_with (to_ascii_uppercase trimmed) ''EXPLAIN'' then explain_forbidden_keywords
      else forbidden_keywords)"

definition unsafe_call :: "rstr \<Rightarrow> bool" where
  "unsafe_call surface =
     list_ex (\<lambda>(s, e). e \<noteq> 0 \<and> \<not> is_cte_header_forbidden_match surface s (e - 1))
       (scan_calls False 0 surface)"

lemma check_keywords_documented:
  assumes "regex_documented re" and "is_ascii t"
  shows "check_keywords re t = Inr () \<longleftrightarrow> \<not> scan_words (keyword_list_for t) False t"
  using assms
  by (auto simp: check_keywords_def explain_forbidden_re_def forbidden_keyword_re_def
        compiled_def regex_documented_def keyword_list_for_def split: if_splits)

lemma check_functions_documented:
  assumes "regex_documented re" and "is_ascii t"
  shows "check_functions re t = Inr () \<longleftrightarrow> \<not> unsafe_call t"
  using assms
  by (auto simp: check_functions_def contains_forbidden_function_def forbidden_function_re_def
        compiled_def regex_documented_def unsafe_call_def)

text \<open>The verdict on a pair of surfaces, and its agreement with the classifier.\<close>

definition surfaces_admitted :: "rstr \<Rightarrow> rstr \<Rightarrow> bool" where
  "surfaces_admitted trimmed function_surface \<longleftrightarrow>
     trimmed \<noteq> [] \<and> statement_count trimmed \<le> 1
     \<and> (\<exists>p\<in>set allowed_prefixes. starts_with (to_ascii_uppercase trimmed) p)
     \<and> \<not> scan_words (keyword_list_for trimmed) False trimmed
     \<and> \<not> unsafe_call function_surface"

lemma classify_iff_surfaces:
  assumes "regex_documented re"
  shows "classify_restricted_sql re sql = Inr () \<longleftrightarrow>
     (\<exists>a b. lexical_surface sql True = Some a \<and> lexical_surface sql False = Some b
            \<and> surfaces_admitted (trim a) (trim b))"
proof (cases "lexical_surface sql True")
  case None
  then show ?thesis by (simp add: classify_restricted_sql_def)
next
  case (Some a)
  note a = this
  show ?thesis
  proof (cases "lexical_surface sql False")
    case None
    with a show ?thesis by (simp add: classify_restricted_sql_def)
  next
    case (Some b)
    from assms a Some have "check_keywords re (trim a) = Inr () \<longleftrightarrow> \<not> scan_words (keyword_list_for (trim a)) False (trim a)"
      and "check_functions re (trim b) = Inr () \<longleftrightarrow> \<not> unsafe_call (trim b)"
      by (simp_all add: check_keywords_documented check_functions_documented surface_trim_ascii)
    with a Some show ?thesis
      by (auto simp: classify_restricted_sql_def Let_def surfaces_admitted_def list_ex_iff
            split: sum.splits)
  qed
qed

definition admitted_sql :: "rstr \<Rightarrow> bool" where
  "admitted_sql sql =
     (case lexical_surface sql True of
        None \<Rightarrow> False
      | Some a \<Rightarrow> (case lexical_surface sql False of
                     None \<Rightarrow> False
                   | Some b \<Rightarrow> surfaces_admitted (trim a) (trim b)))"

lemma classify_iff_admitted:
  "regex_documented re \<Longrightarrow> classify_restricted_sql re sql = Inr () \<longleftrightarrow> admitted_sql sql"
  by (simp add: classify_iff_surfaces admitted_sql_def split: option.splits)

lemmas classify_scanner_iff = classify_iff_admitted [OF scanner_regex_documented]

section \<open>Properties\<close>

text \<open>
  The lexical surface keeps positions: it has the length of the input, every byte of it
  is either a blank or the input byte at the same position, and it is pure ASCII made of
  letters, digits, white space and \<open>_ , . ( ) ;\<close> (and the double quote where those are kept).
\<close>

lemma surface_positions:
  assumes "lexical_surface sql mdq = Some out"
  shows "length out = length sql \<and> is_ascii out
         \<and> (\<forall>i < length sql. out ! i = CHR '' '' \<or> out ! i = sql ! i)
         \<and> set out \<subseteq> {c. plain_byte c} \<union> (if mdq then {} else {CHR 0x22})"
proof -
  note all2 = surface_masks [OF assms]
  have m: "masks mdq (sql ! i) (out ! i)" if "i < length sql" for i
    using list_all2_nthD [OF all2 that] .
  have len: "length out = length sql" using list_all2_lengthD [OF all2] by simp
  have "set out \<subseteq> {c. plain_byte c} \<union> (if mdq then {} else {CHR 0x22})"
  proof
    fix c assume "c \<in> set out"
    then obtain i where "i < length sql" and "c = out ! i" using len by (metis in_set_conv_nth)
    with m masks_plain show "c \<in> {c. plain_byte c} \<union> (if mdq then {} else {CHR 0x22})" by metis
  qed
  then show ?thesis
    using surface_ascii [OF assms] len m masks_blank_or_same by blast
qed



text \<open>
  C6: With a regular-expression crate that behaves as documented, the decision is allow
  exactly when the request is within the limits and names the supported contract version,
  both surfaces can be computed (no unterminated literal or comment), the masked surface is
  one non-blank statement that starts with an allowlisted word and holds none of the
  forbidden words, and the function surface holds no forbidden call outside a CTE header.
\<close>

theorem sql_decision_iff:
  assumes "regex_documented re"
  shows "d_allow (sql_restricted_policy_decision re lim input) \<longleftrightarrow>
     string_within_boundary_limit lim (policy_contract_version input)
     \<and> string_within_boundary_limit lim (input_sql input)
     \<and> policy_contract_version input = ''sql-restricted/v1''
     \<and> (\<exists>a b. lexical_surface (input_sql input) True = Some a
            \<and> lexical_surface (input_sql input) False = Some b
            \<and> surfaces_admitted (trim a) (trim b))"
  unfolding classify_iff_surfaces [OF assms, symmetric]
  by (auto simp: sql_restricted_policy_decision_def SQL_POLICY_CONTRACT_VERSION_def
        split: sum.splits)

theorem sql_decision_iff_witness:
  "regex_documented scanner_regex
   \<and> d_allow (sql_restricted_policy_decision scanner_regex fallback_boundary
        \<lparr>policy_contract_version = ''sql-restricted/v1'', input_sql = ''SELECT id FROM t''\<rparr>)"
proof -
  have "\<exists>a b. lexical_surface ''SELECT id FROM t'' True = Some a
            \<and> lexical_surface ''SELECT id FROM t'' False = Some b
            \<and> surfaces_admitted (trim a) (trim b)"
  proof (intro exI conjI)
    show "lexical_surface ''SELECT id FROM t'' True = Some ''SELECT id FROM t''" by code_simp
    show "lexical_surface ''SELECT id FROM t'' False = Some ''SELECT id FROM t''" by code_simp
    show "surfaces_admitted (trim ''SELECT id FROM t'') (trim ''SELECT id FROM t'')" by code_simp
  qed
  with sql_decision_iff [OF scanner_regex_documented, of fallback_boundary
      "\<lparr>policy_contract_version = ''sql-restricted/v1'', input_sql = ''SELECT id FROM t''\<rparr>"]
    scanner_regex_documented
  show ?thesis by (simp add: boundary_defs fallback_boundary_def)
qed

text \<open>
  On text with no quotes, comments or dollar signs the masking is the identity, so the
  classifier accepts exactly the statements whose own text is admitted: a keyword or a call
  cannot be hidden from it, and nothing is rejected for other reasons.
\<close>

lemma plain_sql_classified_as_is:
  assumes "regex_documented re" and "plain sql"
  shows "classify_restricted_sql re sql = Inr () \<longleftrightarrow> surfaces_admitted (trim sql) (trim sql)"
proof -
  have "lexical_surface sql mdq = Some sql" for mdq
    using lex_plain [OF assms(2), of mdq "[]"] by (simp add: lexical_surface_def emit_def)
  then show ?thesis by (simp add: classify_iff_surfaces [OF assms(1)])
qed

text \<open>
  Three statements that the classifier accepts although PostgreSQL runs a forbidden
  operation: a forbidden function called with a space before its parenthesis; a second
  statement after a backslash-escaped quote in an \<open>E''\<close> string; a second statement between two
  identifiers that contain dollar signs.  Each of the plain spellings is rejected.
\<close>

lemma classifier_accepts_disguised_statements:
  "classify_restricted_sql scanner_regex ''SELECT pg_sleep (5)'' = Inr ()
   \<and> classify_restricted_sql scanner_regex ''SELECT pg_sleep(5)'' \<noteq> Inr ()
   \<and> classify_restricted_sql scanner_regex
        (''SELECT E'' @ [CHR 0x27, CHR 0x5C, CHR 0x27, CHR 0x27] @ ''; DROP TABLE t; --'' @ [CHR 0x27]) = Inr ()
   \<and> classify_restricted_sql scanner_regex ''SELECT 1 a$b$; DROP TABLE t; SELECT 1 c$b$'' = Inr ()
   \<and> classify_restricted_sql scanner_regex ''SELECT 1 ab; DROP TABLE t; SELECT 1 cb'' \<noteq> Inr ()"
  unfolding classify_scanner_iff
proof (intro conjI)
  show "admitted_sql ''SELECT pg_sleep (5)''" by code_simp
  show "\<not> admitted_sql ''SELECT pg_sleep(5)''" by code_simp
  show "admitted_sql
        (''SELECT E'' @ [CHR 0x27, CHR 0x5C, CHR 0x27, CHR 0x27] @ ''; DROP TABLE t; --'' @ [CHR 0x27])"
    by code_simp
  show "admitted_sql ''SELECT 1 a$b$; DROP TABLE t; SELECT 1 c$b$''" by code_simp
  show "\<not> admitted_sql ''SELECT 1 ab; DROP TABLE t; SELECT 1 cb''" by code_simp
qed

end
