(* ===== verification/Event_Store.thy ===== *)
theory Event_Store
  imports Prelude
begin

text \<open>
  The in-memory SSE event store of \<open>session.rs\<close> (crate \<open>mcp-toolkit-http\<close>): event identifiers,
  stream keys, bounded queues with eviction of the least recently written stream, expiry and
  replay.  Hash maps are association lists whose order stands for the iteration order;
  no result below depends on it.  Each method reads the wall clock itself, so the readings
  are arguments.  JSON printing and parsing of messages belong to \<open>serde_json\<close> and are the
  parameters \<open>to_string\<close> and \<open>from_str\<close>.
\<close>

section \<open>Event identifiers and stream keys\<close>

record parsed_event_id =
  pe_index :: int
  pe_request :: "nat option"

definition parse_event_id :: "rstr \<Rightarrow> parsed_event_id option" where
  "parse_event_id raw =
     (let event_id = trim raw in
      if event_id = [] then None
      else let (index_raw, request_raw) =
                 (case split_once (CHR ''/'') event_id of
                    Some (index, request) \<Rightarrow> (index, Some request)
                  | None \<Rightarrow> (event_id, None))
      in case parse_uint u64_max index_raw of
           None \<Rightarrow> None
         | Some index \<Rightarrow>
             if index \<ge> 2 ^ 63 then None
             else (case request_raw of
                     None \<Rightarrow> Some \<lparr>pe_index = int index, pe_request = None\<rparr>
                   | Some raw \<Rightarrow>
                       if trim raw = [] then None
                       else (case parse_uint u64_max raw of
                               None \<Rightarrow> None
                             | Some r \<Rightarrow> Some \<lparr>pe_index = int index, pe_request = Some r\<rparr>)))"

definition stream_id :: "rstr \<Rightarrow> nat option \<Rightarrow> rstr" where
  "stream_id session_id http_request_id =
     (case http_request_id of
        Some req \<Rightarrow> session_id @ ''|req:'' @ show_nat req
      | None \<Rightarrow> session_id @ ''|common'')"

section \<open>State\<close>

record event_store_config =
  max_streams :: nat
  max_events :: nat
  ttl :: "nat option"

record 'm stored_event =
  ev_seq :: int
  ev_id :: rstr
  ev_message :: "'m option"
  ev_created_at :: int

record stored_row =
  row_event_id :: rstr
  row_payload :: "rstr option"

record 'm memory_state =
  streams :: "(rstr \<times> 'm stored_event list) list"
  order :: "rstr list"

definition memory_new :: "'m memory_state" where
  "memory_new = \<lparr>streams = [], order = []\<rparr>"

section \<open>Operations\<close>

definition touch_stream :: "rstr list \<Rightarrow> rstr \<Rightarrow> rstr list" where
  "touch_stream ord stream = remove1 stream ord @ [stream]"

fun trim_loop :: "nat \<Rightarrow> (rstr \<times> 'q) list \<Rightarrow> rstr list \<Rightarrow> (rstr \<times> 'q) list \<times> rstr list" where
  "trim_loop max_n ss [] = (ss, [])"
| "trim_loop max_n ss (evicted # ord) =
     (if length (evicted # ord) > max_n then trim_loop max_n (AList.delete evicted ss) ord
      else (ss, evicted # ord))"

definition trim_streams :: "'m memory_state \<Rightarrow> nat \<Rightarrow> 'm memory_state" where
  "trim_streams st max_n =
     (let (ss, ord) = trim_loop max_n (streams st) (order st) in st\<lparr>streams := ss, order := ord\<rparr>)"

fun retain_streams ::
  "('e \<Rightarrow> bool) \<Rightarrow> (rstr \<times> 'e list) list \<Rightarrow> rstr list \<Rightarrow> (rstr \<times> 'e list) list \<times> rstr list" where
  "retain_streams keep [] ord = ([], ord)"
| "retain_streams keep ((k, queue) # ss) ord =
     (let queue' = filter keep queue in
      if queue' = [] then retain_streams keep ss (remove1 k ord)
      else let (ss', ord') = retain_streams keep ss ord in ((k, queue') # ss', ord'))"

definition expiry_cutoff :: "nat \<Rightarrow> nat \<Rightarrow> int" where
  "expiry_cutoff now t = i64_sub (as_i64 now) (as_i64 t)"

definition prune_expired :: "nat \<Rightarrow> 'm memory_state \<Rightarrow> nat option \<Rightarrow> 'm memory_state" where
  "prune_expired now st t =
     (case t of
        None \<Rightarrow> st
      | Some t \<Rightarrow>
          let cutoff = expiry_cutoff now t;
              (ss, ord) = retain_streams (\<lambda>event. ev_created_at event \<ge> cutoff) (streams st) (order st)
          in st\<lparr>streams := ss, order := ord\<rparr>)"

definition push_event :: "nat \<Rightarrow> 'e list \<Rightarrow> 'e \<Rightarrow> 'e list" where
  "push_event max_n queue event = (if length queue \<ge> max_n then drop 1 queue else queue) @ [event]"

definition queue_of :: "'m memory_state \<Rightarrow> rstr \<Rightarrow> 'm stored_event list" where
  "queue_of st k = (case map_of (streams st) k of Some q \<Rightarrow> q | None \<Rightarrow> [])"

definition memory_store_event ::
  "event_store_config \<Rightarrow> nat \<Rightarrow> rstr \<Rightarrow> 'm stored_event \<Rightarrow> 'm memory_state \<Rightarrow> 'm memory_state" where
  "memory_store_event cfg now stream event st =
     (let queue = push_event (max_events cfg) (queue_of st stream) event;
          st1 = st\<lparr>streams := AList.update stream queue (streams st),
                   order := touch_stream (order st) stream\<rparr>
      in prune_expired now (trim_streams st1 (max_streams cfg)) (ttl cfg))"

definition memory_replay_after ::
  "event_store_config \<Rightarrow> ('m \<Rightarrow> rstr option) \<Rightarrow> nat \<Rightarrow> rstr \<Rightarrow> int \<Rightarrow> 'm memory_state
     \<Rightarrow> stored_row list \<times> 'm memory_state" where
  "memory_replay_after cfg to_string now stream last_seq st =
     (let st' = prune_expired now st (ttl cfg) in
      (case map_of (streams st') stream of
         None \<Rightarrow> []
       | Some queue \<Rightarrow>
           map (\<lambda>event. \<lparr>row_event_id = ev_id event,
                         row_payload = Option.bind (ev_message event) to_string\<rparr>)
             (filter (\<lambda>event. ev_seq event > last_seq) queue), st'))"

text \<open>\<open>EventStore::store_event\<close> and \<open>EventStore::replay_after\<close> on the memory variant.\<close>

definition store_event ::
  "event_store_config \<Rightarrow> nat \<Rightarrow> nat \<Rightarrow> rstr \<Rightarrow> rstr option \<Rightarrow> 'm option \<Rightarrow> 'm memory_state
     \<Rightarrow> 'm memory_state" where
  "store_event cfg created_now prune_now session_id event_id message st =
     (case event_id of
        None \<Rightarrow> st
      | Some event_id \<Rightarrow>
          (case parse_event_id event_id of
             None \<Rightarrow> st
           | Some parsed \<Rightarrow>
               memory_store_event cfg prune_now (stream_id session_id (pe_request parsed))
                 \<lparr>ev_seq = pe_index parsed, ev_id = event_id, ev_message = message,
                  ev_created_at = as_i64 created_now\<rparr> st))"

definition replay_after ::
  "event_store_config \<Rightarrow> ('m \<Rightarrow> rstr option) \<Rightarrow> (rstr \<Rightarrow> 'm option) \<Rightarrow> nat \<Rightarrow> rstr \<Rightarrow> rstr
     \<Rightarrow> 'm memory_state \<Rightarrow> (rstr \<times> 'm) list \<times> 'm memory_state" where
  "replay_after cfg to_string from_str now session_id last_event_id st =
     (case parse_event_id last_event_id of
        None \<Rightarrow> ([], st)
      | Some parsed \<Rightarrow>
          (let (rows, st') = memory_replay_after cfg to_string now
                               (stream_id session_id (pe_request parsed)) (pe_index parsed) st
           in (List.map_filter
                 (\<lambda>row. map_option (\<lambda>message. (row_event_id row, message))
                          (Option.bind (row_payload row) from_str)) rows, st')))"

datatype 'm event_op =
    StoreOp nat nat rstr "rstr option" "'m option"
  | ReplayOp nat rstr rstr

fun event_step :: "event_store_config \<Rightarrow> 'm event_op \<Rightarrow> 'm memory_state \<Rightarrow> 'm memory_state" where
  "event_step cfg (StoreOp t1 t2 session event_id message) st =
     store_event cfg t1 t2 session event_id message st"
| "event_step cfg (ReplayOp now session last_id) st =
     snd (replay_after cfg (\<lambda>_. None) (\<lambda>_. None) now session last_id st)"

section \<open>The retention invariant\<close>

definition queues_ok :: "event_store_config \<Rightarrow> (rstr \<times> 'e list) list \<Rightarrow> bool" where
  "queues_ok cfg ss \<longleftrightarrow>
     distinct (map fst ss)
     \<and> list_all (\<lambda>(k, q). q \<noteq> [] \<and> length q \<le> max 1 (max_events cfg)) ss"

definition keys_agree :: "(rstr \<times> 'e list) list \<Rightarrow> rstr list \<Rightarrow> bool" where
  "keys_agree ss ord \<longleftrightarrow> distinct ord \<and> set ord = fst ` set ss"

definition event_store_inv :: "event_store_config \<Rightarrow> 'm memory_state \<Rightarrow> bool" where
  "event_store_inv cfg st \<longleftrightarrow>
     queues_ok cfg (streams st) \<and> keys_agree (streams st) (order st)
     \<and> length (order st) \<le> max_streams cfg"

lemma queues_ok_delete: "queues_ok cfg ss \<Longrightarrow> queues_ok cfg (AList.delete k ss)"
  by (auto simp: queues_ok_def list_all_iff AList.delete_eq distinct_map_filter)

lemma keys_delete: "fst ` set (AList.delete k ss) = fst ` set ss - {k}"
  by (auto simp: AList.delete_eq image_iff)

lemma trim_loop_inv:
  assumes "trim_loop n ss ord = (ss', ord')" and "queues_ok cfg ss" and "keys_agree ss ord"
  shows "queues_ok cfg ss' \<and> keys_agree ss' ord' \<and> length ord' \<le> n \<and> suffix ord' ord
         \<and> (\<forall>k\<in>set ord'. map_of ss' k = map_of ss k)"
  using assms
proof (induction n ss ord arbitrary: ss' ord' rule: trim_loop.induct)
  case (1 n ss)
  then show ?case by auto
next
  case (2 n ss k ord)
  show ?case
  proof (cases "length (k # ord) > n")
    case True
    have "keys_agree (AList.delete k ss) ord"
      using "2.prems"(3) by (auto simp: keys_agree_def keys_delete)
    from "2.IH" [OF True _ queues_ok_delete [OF "2.prems"(2)] this] "2.prems"(1) True
    have IH: "queues_ok cfg ss' \<and> keys_agree ss' ord' \<and> length ord' \<le> n \<and> suffix ord' ord
         \<and> (\<forall>j\<in>set ord'. map_of ss' j = map_of (AList.delete k ss) j)" by simp
    moreover have "map_of (AList.delete k ss) j = map_of ss j" if "j \<in> set ord'" for j
    proof -
      have "j \<in> set ord" using IH that set_mono_suffix by blast
      then have "j \<noteq> k" using "2.prems"(3) by (auto simp: keys_agree_def)
      then show ?thesis by (simp add: delete_conv')
    qed
    ultimately show ?thesis by (auto intro: suffix_ConsI)
  next
    case False
    with "2.prems" show ?thesis by auto
  qed
qed

definition kept_queue :: "('e \<Rightarrow> bool) \<Rightarrow> 'e list option \<Rightarrow> 'e list option" where
  "kept_queue keep q =
     (case q of None \<Rightarrow> None | Some q \<Rightarrow> if filter keep q = [] then None else Some (filter keep q))"

lemma retain_streams_Cons:
  "retain_streams keep ((j, q) # ss) ord =
     (if filter keep q = [] then retain_streams keep ss (remove1 j ord)
      else ((j, filter keep q) # fst (retain_streams keep ss ord), snd (retain_streams keep ss ord)))"
  by (simp add: Let_def split: prod.splits)

lemma retain_streams_map_of:
  "distinct (map fst ss) \<Longrightarrow>
     map_of (fst (retain_streams keep ss ord)) k = kept_queue keep (map_of ss k)"
proof (induction ss arbitrary: ord)
  case (Cons e ss)
  obtain j q where e: "e = (j, q)" by (cases e)
  have "map_of ss j = None" using Cons.prems by (simp add: e map_of_eq_None_iff)
  with Cons show ?case
    by (auto simp: e retain_streams_Cons kept_queue_def simp del: retain_streams.simps)
qed (simp add: kept_queue_def)

lemma retain_streams_keys:
  "set (map fst (fst (retain_streams keep ss ord))) \<subseteq> set (map fst ss)"
proof (induction ss arbitrary: ord)
  case (Cons e ss)
  then show ?case
    by (cases e) (auto simp: retain_streams_Cons simp del: retain_streams.simps)
qed simp

lemma retain_streams_distinct:
  "distinct (map fst ss) \<Longrightarrow> distinct (map fst (fst (retain_streams keep ss ord)))"
proof (induction ss arbitrary: ord)
  case (Cons e ss)
  obtain j q where e: "e = (j, q)" by (cases e)
  have "j \<notin> set (map fst (fst (retain_streams keep ss ord)))"
    using Cons.prems retain_streams_keys [of keep ss ord] by (auto simp: e)
  with Cons show ?case
    by (simp add: e retain_streams_Cons del: retain_streams.simps)
qed simp

lemma retain_streams_queues:
  "(k, q') \<in> set (fst (retain_streams keep ss ord)) \<Longrightarrow>
     \<exists>q. (k, q) \<in> set ss \<and> q' = filter keep q \<and> q' \<noteq> []"
proof (induction ss arbitrary: ord)
  case (Cons e ss)
  obtain j q where e: "e = (j, q)" by (cases e)
  show ?case
  proof (cases "filter keep q = []")
    case True
    with Cons show ?thesis by (auto simp: e retain_streams_Cons simp del: retain_streams.simps)
  next
    case False
    with Cons.prems consider "k = j" "q' = filter keep q"
      | "(k, q') \<in> set (fst (retain_streams keep ss ord))"
      by (auto simp: e retain_streams_Cons simp del: retain_streams.simps)
    then show ?thesis
    proof cases
      case 1
      with False show ?thesis by (auto simp: e)
    next
      case 2
      with Cons.IH show ?thesis by (auto simp: e)
    qed
  qed
qed simp

lemma retain_streams_order:
  assumes "distinct (map fst ss)" and "distinct ord"
  shows "distinct (snd (retain_streams keep ss ord))
         \<and> length (snd (retain_streams keep ss ord)) \<le> length ord
         \<and> set (snd (retain_streams keep ss ord))
            = {k \<in> set ord. kept_queue keep (map_of ss k) \<noteq> None \<or> map_of ss k = None}"
  using assms
proof (induction ss arbitrary: ord)
  case Nil
  then show ?case by simp
next
  case (Cons e ss)
  obtain j q where e: "e = (j, q)" by (cases e)
  have nj: "map_of ss j = None" using Cons.prems by (simp add: e map_of_eq_None_iff)
  show ?case
  proof (cases "filter keep q = []")
    case True
    have "distinct (remove1 j ord)" using Cons.prems by simp
    with Cons have "distinct (snd (retain_streams keep ss (remove1 j ord)))
         \<and> length (snd (retain_streams keep ss (remove1 j ord))) \<le> length (remove1 j ord)
         \<and> set (snd (retain_streams keep ss (remove1 j ord)))
            = {k \<in> set (remove1 j ord). kept_queue keep (map_of ss k) \<noteq> None \<or> map_of ss k = None}"
      by simp
    moreover have "length (remove1 j ord) \<le> length ord" by (simp add: length_remove1)
    ultimately show ?thesis
      using True Cons.prems(2)
      by (auto simp: e retain_streams_Cons kept_queue_def simp del: retain_streams.simps)
  next
    case False
    with Cons nj show ?thesis
      by (auto simp: e retain_streams_Cons kept_queue_def simp del: retain_streams.simps)
  qed
qed

lemma retain_streams_inv:
  assumes "queues_ok cfg ss" and "keys_agree ss ord"
  shows "queues_ok cfg (fst (retain_streams keep ss ord))
         \<and> keys_agree (fst (retain_streams keep ss ord)) (snd (retain_streams keep ss ord))
         \<and> length (snd (retain_streams keep ss ord)) \<le> length ord"
proof -
  have d: "distinct (map fst ss)" "distinct ord" "set ord = fst ` set ss"
    using assms by (auto simp: queues_ok_def keys_agree_def)
  note K = retain_streams_map_of [OF d(1)] and O = retain_streams_order [OF d(1,2), of keep]
  have "q \<noteq> [] \<and> length q \<le> max 1 (max_events cfg)"
    if "(k, q) \<in> set (fst (retain_streams keep ss ord))" for k q
    using retain_streams_queues [OF that] assms(1)
    by (fastforce simp: queues_ok_def list_all_iff intro: order_trans [OF length_filter_le])
  then have "queues_ok cfg (fst (retain_streams keep ss ord))"
    using retain_streams_distinct [OF d(1)] by (auto simp: queues_ok_def list_all_iff)
  moreover have "set (snd (retain_streams keep ss ord)) = fst ` set (fst (retain_streams keep ss ord))"
  proof -
    have "k \<in> fst ` set (fst (retain_streams keep ss ord)) \<longleftrightarrow> kept_queue keep (map_of ss k) \<noteq> None" for k
      using K [of keep ord k] map_of_eq_None_iff [of "fst (retain_streams keep ss ord)" k] by auto
    moreover have "kept_queue keep (map_of ss k) \<noteq> None \<Longrightarrow> k \<in> set ord" for k
      unfolding d(3) by (auto simp: kept_queue_def dest!: map_of_SomeD split: option.splits intro: rev_image_eqI)
    moreover have "k \<in> set ord \<Longrightarrow> map_of ss k \<noteq> None" for k
      unfolding d(3) by (simp add: map_of_eq_None_iff)
    ultimately show ?thesis using O by blast
  qed
  ultimately show ?thesis using O by (simp add: keys_agree_def)
qed

lemma prune_expired_streams:
  "streams (prune_expired now st t) =
     (case t of None \<Rightarrow> streams st
      | Some t \<Rightarrow> fst (retain_streams (\<lambda>e. ev_created_at e \<ge> expiry_cutoff now t) (streams st) (order st)))"
  "order (prune_expired now st t) =
     (case t of None \<Rightarrow> order st
      | Some t \<Rightarrow> snd (retain_streams (\<lambda>e. ev_created_at e \<ge> expiry_cutoff now t) (streams st) (order st)))"
  by (simp_all add: prune_expired_def Let_def split: option.splits prod.splits)

lemma prune_expired_inv: "event_store_inv cfg st \<Longrightarrow> event_store_inv cfg (prune_expired now st t)"
  using retain_streams_inv [of cfg "streams st" "order st"]
  by (cases t) (auto simp: event_store_inv_def prune_expired_streams intro: order_trans)

lemma push_event_length:
  "length q \<le> max 1 n \<Longrightarrow> push_event n q e \<noteq> [] \<and> length (push_event n q e) \<le> max 1 n"
  by (auto simp: push_event_def)

lemma queue_of_length: "queues_ok cfg (streams st) \<Longrightarrow> length (queue_of st k) \<le> max 1 (max_events cfg)"
  by (auto simp: queue_of_def queues_ok_def list_all_iff split: option.splits dest!: map_of_SomeD)

lemma store_queues_ok:
  assumes "queues_ok cfg (streams st)"
  shows "queues_ok cfg (AList.update k (push_event (max_events cfg) (queue_of st k) e) (streams st))"
  using assms set_alist_update push_event_length [OF queue_of_length [OF assms], of k e]
  by (fastforce simp: queues_ok_def list_all_iff distinct_update)

lemma store_keys_agree:
  "keys_agree ss ord \<Longrightarrow> keys_agree (AList.update k q ss) (touch_stream ord k)"
  by (auto simp: keys_agree_def touch_stream_def dom_update)

lemma trim_streams_inv:
  assumes "queues_ok cfg (streams st)" and "keys_agree (streams st) (order st)"
  shows "event_store_inv cfg (trim_streams st (max_streams cfg))"
proof -
  obtain ss ord where t: "trim_loop (max_streams cfg) (streams st) (order st) = (ss, ord)"
    by (cases "trim_loop (max_streams cfg) (streams st) (order st)")
  from trim_loop_inv [OF t assms] show ?thesis
    by (simp add: event_store_inv_def trim_streams_def t)
qed

lemma memory_store_event_inv:
  "event_store_inv cfg st \<Longrightarrow> event_store_inv cfg (memory_store_event cfg now k e st)"
  unfolding memory_store_event_def Let_def
  by (intro prune_expired_inv trim_streams_inv)
     (auto simp: event_store_inv_def store_queues_ok store_keys_agree)

interpretation event_store: invariant_machine
  "\<lambda>st. st = memory_new" "event_step cfg" "event_store_inv cfg" for cfg
proof unfold_locales
  fix st :: "'a memory_state" assume "st = memory_new"
  then show "event_store_inv cfg st"
    by (simp add: memory_new_def event_store_inv_def queues_ok_def keys_agree_def)
next
  fix st :: "'a memory_state" and op
  assume "event_store_inv cfg st"
  then show "event_store_inv cfg (event_step cfg op st)"
    by (cases op)
       (auto simp: store_event_def replay_after_def memory_replay_after_def Let_def
          intro: memory_store_event_inv prune_expired_inv split: option.splits)
qed

section \<open>Stream keys are injective\<close>

lemma append_first_sep:
  "a @ c # d = a' @ c # d' \<Longrightarrow> c \<notin> set a \<Longrightarrow> c \<notin> set a' \<Longrightarrow> a = a' \<and> d = d'"
proof (induction a arbitrary: a')
  case Nil then show ?case by (cases a') auto
next
  case (Cons x a) then show ?case by (cases a') auto
qed

lemma append_last_sep:
  assumes "a @ c # d = a' @ c # d'" and "c \<notin> set d" and "c \<notin> set d'"
  shows "a = a' \<and> d = d'"
proof -
  have "rev d @ c # rev a = rev d' @ c # rev a'" using arg_cong [OF assms(1), of rev] by simp
  then show ?thesis using append_first_sep [of "rev d" c "rev a" "rev d'" "rev a'"] assms by simp
qed

lemma show_nat_no_sep: "CHR '':'' \<notin> set (show_nat n)" "last (show_nat n) \<noteq> CHR ''n''"
proof -
  have "is_ascii_digit c" if "c \<in> set (show_nat n)" for c
    using show_nat_digits [of n] that by (simp add: list_all_iff)
  moreover have "\<not> is_ascii_digit (CHR '':'')" "\<not> is_ascii_digit (CHR ''n'')"
    by (simp_all add: is_ascii_digit_def)
  moreover have "last (show_nat n) \<in> set (show_nat n)" using show_nat_digits [of n] by simp
  ultimately show "CHR '':'' \<notin> set (show_nat n)" "last (show_nat n) \<noteq> CHR ''n''" by metis+
qed

lemma stream_id_last:
  "last (stream_id s None) = CHR ''n''" "last (stream_id s (Some r)) = last (show_nat r)"
  using show_nat_digits [of r] by (simp_all add: stream_id_def)

lemma stream_id_eq_iff: "stream_id s r = stream_id s' r' \<longleftrightarrow> s = s' \<and> r = r'"
proof (cases r; cases r')
  fix n n' assume r: "r = Some n" "r' = Some n'"
  have "s = s' \<and> n = n'" if "s @ ''|req:'' @ show_nat n = s' @ ''|req:'' @ show_nat n'"
    using append_last_sep [of "s @ ''|req''" "CHR '':''" "show_nat n" "s' @ ''|req''" "show_nat n'"]
      that show_nat_no_sep by simp
  then show ?thesis by (auto simp: r stream_id_def)
next
  fix n assume "r = Some n" "r' = None"
  then show ?thesis using stream_id_last show_nat_no_sep(2) by metis
next
  fix n assume "r = None" "r' = Some n"
  then show ?thesis using stream_id_last show_nat_no_sep(2) by metis
qed (simp add: stream_id_def)

section \<open>Where the retained events come from\<close>

definition holds_event :: "'m memory_state \<Rightarrow> rstr \<Rightarrow> 'm stored_event \<Rightarrow> bool" where
  "holds_event st k e \<longleftrightarrow> (\<exists>q. (k, q) \<in> set (streams st) \<and> e \<in> set q)"

definition stored_by :: "'m event_op \<Rightarrow> rstr \<Rightarrow> 'm stored_event \<Rightarrow> bool" where
  "stored_by op k e \<longleftrightarrow>
     (case op of
        StoreOp t1 t2 session event_id message \<Rightarrow>
          event_id = Some (ev_id e) \<and> message = ev_message e
          \<and> (case parse_event_id (ev_id e) of
               None \<Rightarrow> False
             | Some p \<Rightarrow> k = stream_id session (pe_request p) \<and> ev_seq e = pe_index p)
      | ReplayOp _ _ _ \<Rightarrow> False)"

lemma stored_byE:
  assumes "stored_by op k e"
  obtains t1 t2 session p where "op = StoreOp t1 t2 session (Some (ev_id e)) (ev_message e)"
    "parse_event_id (ev_id e) = Some p" "k = stream_id session (pe_request p)" "ev_seq e = pe_index p"
  using assms by (cases op) (auto simp: stored_by_def split: option.splits)

lemma prune_holds: "holds_event (prune_expired now st t) k e \<Longrightarrow> holds_event st k e"
  by (cases t) (auto simp: holds_event_def prune_expired_streams dest!: retain_streams_queues)

lemma trim_loop_subset: "set (fst (trim_loop n ss ord)) \<subseteq> set ss"
proof (induction n ss ord rule: trim_loop.induct)
  case (2 n ss k ord)
  then show ?case by (auto simp: AList.delete_eq)
qed simp

lemma trim_holds: "holds_event (trim_streams st n) k e \<Longrightarrow> holds_event st k e"
  using trim_loop_subset [of n "streams st" "order st"]
  by (auto simp: holds_event_def trim_streams_def split: prod.splits)

lemma push_event_set: "set (push_event n q e) \<subseteq> insert e (set q)"
  by (auto simp: push_event_def dest: in_set_dropD)

lemma memory_store_holds:
  assumes "holds_event (memory_store_event cfg now j e st) k e'"
  shows "holds_event st k e' \<or> k = j \<and> e' = e"
proof -
  let ?q = "push_event (max_events cfg) (queue_of st j) e"
  have "holds_event (st\<lparr>streams := AList.update j ?q (streams st),
                       order := touch_stream (order st) j\<rparr>) k e'"
    by (rule trim_holds [OF prune_holds [OF assms [unfolded memory_store_event_def Let_def]]])
  then obtain q where "(k, q) \<in> insert (j, ?q) (set (streams st))" and e': "e' \<in> set q"
    using set_alist_update by (fastforce simp: holds_event_def)
  then consider "(k, q) \<in> set (streams st)" | "k = j" "q = ?q" by auto
  then show ?thesis
  proof cases
    case 1 then show ?thesis using e' by (auto simp: holds_event_def)
  next
    case 2
    with e' have "e' = e \<or> e' \<in> set (queue_of st j)" using push_event_set by fastforce
    moreover have "holds_event st j e'" if "e' \<in> set (queue_of st j)"
      using that by (cases "map_of (streams st) j")
                    (auto simp: holds_event_def queue_of_def dest: map_of_SomeD)
    ultimately show ?thesis using 2 by auto
  qed
qed

lemma event_step_holds:
  "holds_event (event_step cfg op st) k e \<Longrightarrow> holds_event st k e \<or> stored_by op k e"
  by (cases op)
     (auto simp: store_event_def replay_after_def memory_replay_after_def Let_def stored_by_def
       split: option.splits dest!: memory_store_holds dest: prune_holds)

lemma fold_holds:
  "holds_event (fold (event_step cfg) ops st) k e
   \<Longrightarrow> holds_event st k e \<or> (\<exists>op\<in>set ops. stored_by op k e)"
  by (induction ops arbitrary: st) (auto dest!: event_step_holds)

lemma reachable_holds:
  "holds_event (fold (event_step cfg) ops memory_new) k e \<Longrightarrow> \<exists>op\<in>set ops. stored_by op k e"
  by (drule fold_holds) (auto simp: holds_event_def memory_new_def)

section \<open>What a store leaves for the next replay\<close>

lemma trim_loop_order: "snd (trim_loop n ss ord) = drop (length ord - n) ord"
  by (induction n ss ord rule: trim_loop.induct) (auto simp: Suc_diff_le)

lemma trim_keeps_last:
  assumes "queues_ok cfg (streams st)" and "keys_agree (streams st) (order st)"
    and "order st = ord @ [k]" and "n \<ge> 1"
  shows "map_of (streams (trim_streams st n)) k = map_of (streams st) k"
proof -
  obtain ss' ord' where t: "trim_loop n (streams st) (order st) = (ss', ord')"
    by (cases "trim_loop n (streams st) (order st)")
  have "ord' = drop (length (order st) - n) (order st)"
    using trim_loop_order [of n "streams st" "order st"] t by simp
  then have "k \<in> set ord'" using assms(3,4) by simp
  then show ?thesis using trim_loop_inv [OF t assms(1,2)] by (simp add: trim_streams_def t)
qed

lemma prune_map_of:
  "queues_ok cfg (streams st) \<Longrightarrow>
     map_of (streams (prune_expired now st t)) k =
       (case t of
          None \<Rightarrow> map_of (streams st) k
        | Some t \<Rightarrow> kept_queue (\<lambda>e. ev_created_at e \<ge> expiry_cutoff now t) (map_of (streams st) k))"
  by (cases t) (auto simp: prune_expired_streams retain_streams_map_of queues_ok_def)

definition unexpired :: "event_store_config \<Rightarrow> nat \<Rightarrow> 'm stored_event \<Rightarrow> bool" where
  "unexpired cfg now e =
     (case ttl cfg of None \<Rightarrow> True | Some t \<Rightarrow> ev_created_at e \<ge> expiry_cutoff now t)"

definition ends_with_event :: "'m memory_state \<Rightarrow> rstr \<Rightarrow> 'm stored_event \<Rightarrow> bool" where
  "ends_with_event st k e \<longleftrightarrow> (\<exists>pre. map_of (streams st) k = Some (pre @ [e]))"

lemma prune_keeps_end:
  assumes "queues_ok cfg (streams st)" and "ends_with_event st k e" and "unexpired cfg now e"
  shows "ends_with_event (prune_expired now st (ttl cfg)) k e"
  using assms prune_map_of [OF assms(1), of now "ttl cfg" k]
  by (auto simp: ends_with_event_def unexpired_def kept_queue_def split: option.splits)

lemma memory_store_ends:
  assumes inv: "event_store_inv cfg st" and n: "max_streams cfg \<ge> 1" and e: "unexpired cfg now e"
  shows "ends_with_event (memory_store_event cfg now k e st) k e"
proof -
  define st1 where "st1 = st\<lparr>streams := AList.update k (push_event (max_events cfg) (queue_of st k) e) (streams st),
                              order := touch_stream (order st) k\<rparr>"
  have q: "queues_ok cfg (streams st1)" and a: "keys_agree (streams st1) (order st1)"
    using inv by (auto simp: st1_def event_store_inv_def store_queues_ok store_keys_agree)
  have "order st1 = remove1 k (order st) @ [k]" by (simp add: st1_def touch_stream_def)
  note keep = trim_keeps_last [OF q a this n]
  have "map_of (streams st1) k = Some (push_event (max_events cfg) (queue_of st k) e)"
    by (simp add: st1_def update_conv)
  with keep have "ends_with_event (trim_streams st1 (max_streams cfg)) k e"
    by (simp add: ends_with_event_def push_event_def)
  moreover have "queues_ok cfg (streams (trim_streams st1 (max_streams cfg)))"
    using trim_streams_inv [OF q a] by (simp add: event_store_inv_def)
  ultimately show ?thesis
    using prune_keeps_end e by (simp add: memory_store_event_def st1_def [symmetric])
qed

lemma replay_rows_elem:
  assumes "(i, m) \<in> set (fst (replay_after cfg to_string from_str now session last_id st))"
  obtains p e s where "parse_event_id last_id = Some p"
    "holds_event st (stream_id session (pe_request p)) e"
    "ev_seq e > pe_index p" "ev_id e = i" "Option.bind (ev_message e) to_string = Some s"
    "from_str s = Some m"
proof -
  obtain p where p: "parse_event_id last_id = Some p"
    using assms by (cases "parse_event_id last_id") (auto simp: replay_after_def)
  define st' where "st' = prune_expired now st (ttl cfg)"
  obtain q where q: "map_of (streams st') (stream_id session (pe_request p)) = Some q"
    using assms by (cases "map_of (streams st') (stream_id session (pe_request p))")
                   (auto simp: replay_after_def p memory_replay_after_def st'_def map_filter_def)
  obtain e s where e: "e \<in> set q" "ev_seq e > pe_index p" "ev_id e = i"
      "Option.bind (ev_message e) to_string = Some s" "from_str s = Some m"
    using assms by (auto simp: replay_after_def p memory_replay_after_def st'_def [symmetric] q
        map_filter_def bind_eq_Some_conv)
  have "holds_event st' (stream_id session (pe_request p)) e"
    using map_of_SomeD [OF q] e(1) by (auto simp: holds_event_def)
  then have "holds_event st (stream_id session (pe_request p)) e"
    unfolding st'_def by (rule prune_holds)
  with that p e show ?thesis by blast
qed

lemma keys_agree_length:
  assumes "queues_ok cfg ss" and "keys_agree ss ord"
  shows "length ss = length ord"
proof -
  have "distinct ord" using assms(2) by (simp add: keys_agree_def)
  then have "length ord = card (set ord)" by (rule distinct_card [symmetric])
  also have "\<dots> = card (set (map fst ss))" using assms(2) by (simp add: keys_agree_def)
  also have "\<dots> = length (map fst ss)" using assms(1) by (intro distinct_card) (simp add: queues_ok_def)
  finally show ?thesis by simp
qed

section \<open>Properties\<close>

text \<open>
  C26: retention.  After every sequence of stores and replays, whatever the clock readings, the
  store holds at most \<open>max_streams\<close> streams, no stream is empty or longer than the configured
  bound (a bound of zero acts as one), no stream key occurs twice, and the eviction order lists
  exactly the stored streams.
\<close>
theorem event_store_retention:
  "let st = fold (event_step cfg) ops memory_new in
     length (streams st) \<le> max_streams cfg
     \<and> list_all (\<lambda>(k, q). q \<noteq> [] \<and> length q \<le> max 1 (max_events cfg)) (streams st)
     \<and> distinct (map fst (streams st)) \<and> distinct (order st)
     \<and> set (order st) = set (map fst (streams st))"
proof -
  let ?st = "fold (event_step cfg) ops memory_new"
  have inv: "event_store_inv cfg ?st" by (rule event_store.run_inv) simp
  then have "length (streams ?st) = length (order ?st)"
    by (intro keys_agree_length [of cfg]) (simp_all add: event_store_inv_def)
  with inv show ?thesis
    by (auto simp: Let_def event_store_inv_def queues_ok_def keys_agree_def)
qed

text \<open>
  replay isolation.  Every event a replay returns was stored earlier by a \<open>store_event\<close> of the
  same session, with the same identifier and message, for the same request as the identifier
  the client resumes from, and with a larger index.  The hypothesis is the documented round
  trip of the JSON library on the messages it prints.
\<close>
theorem replay_isolated:
  assumes json: "\<And>m s. to_string m = Some s \<Longrightarrow> from_str s = Some m"
    and mem: "(i, m) \<in> set (fst (replay_after cfg to_string from_str now session last_id
                                  (fold (event_step cfg) ops memory_new)))"
  shows "\<exists>t1 t2 p pl. StoreOp t1 t2 session (Some i) (Some m) \<in> set ops
           \<and> parse_event_id i = Some p \<and> parse_event_id last_id = Some pl
           \<and> pe_request p = pe_request pl \<and> pe_index p > pe_index pl"
proof -
  from replay_rows_elem [OF mem] obtain pl e s where pl: "parse_event_id last_id = Some pl"
    and e: "holds_event (fold (event_step cfg) ops memory_new) (stream_id session (pe_request pl)) e"
      "ev_seq e > pe_index pl" "ev_id e = i"
    and s: "Option.bind (ev_message e) to_string = Some s" "from_str s = Some m" .
  from reachable_holds [OF e(1)] obtain op where op: "op \<in> set ops"
    "stored_by op (stream_id session (pe_request pl)) e" by blast
  have "ev_message e = Some m" using s json by (auto simp: bind_eq_Some_conv)
  moreover from stored_byE [OF op(2)] obtain t1 t2 session' p
    where "op = StoreOp t1 t2 session' (Some i) (ev_message e)" "parse_event_id i = Some p"
      "stream_id session (pe_request pl) = stream_id session' (pe_request p)" "ev_seq e = pe_index p"
    using e(3) by metis
  ultimately have "StoreOp t1 t2 session (Some i) (Some m) \<in> set ops \<and> parse_event_id i = Some p
      \<and> parse_event_id last_id = Some pl \<and> pe_request p = pe_request pl \<and> pe_index p > pe_index pl"
    using op(1) e(2) pl by (simp add: stream_id_eq_iff)
  then show ?thesis by blast
qed

text \<open>
  C27: a stored event is replayed.  From any reachable state, an event stored under a parsable
  identifier is the last one a client of the same session and request receives when it resumes
  from a smaller index, provided at least one stream may be kept and the retention time is
  below \<open>2^63\<close> seconds and has not elapsed between the store and the replay.
\<close>
theorem store_then_replay:
  assumes json: "\<And>m s. to_string m = Some s \<Longrightarrow> from_str s = Some m"
    and printed: "to_string m = Some s"
    and ids: "parse_event_id i = Some p" "parse_event_id last_id = Some pl"
      "pe_request p = pe_request pl" "pe_index pl < pe_index p"
    and streams: "max_streams cfg \<ge> 1"
    and clock: "t0 \<le> t1" "t1 \<le> t2" "t2 < 2 ^ 63"
    and retention: "\<And>t. ttl cfg = Some t \<Longrightarrow> t < 2 ^ 63 \<and> t2 - t0 \<le> t"
  shows "\<exists>before. fst (replay_after cfg to_string from_str t2 session last_id
            (store_event cfg t0 t1 session (Some i) (Some m)
               (fold (event_step cfg) ops memory_new))) = before @ [(i, m)]"
proof -
  define e where "e = \<lparr>ev_seq = pe_index p, ev_id = i, ev_message = Some m,
                        ev_created_at = as_i64 t0\<rparr>"
  define st where "st = store_event cfg t0 t1 session (Some i) (Some m)
                          (fold (event_step cfg) ops memory_new)"
  let ?k = "stream_id session (pe_request pl)"
  have alive: "unexpired cfg t e" if "t = t1 \<or> t = t2" for t
    using that clock retention by (auto simp: unexpired_def e_def expiry_cutoff_def i64_sub_def
        as_i64_id wrap_i64_id split: option.splits)
  have inv0: "event_store_inv cfg (fold (event_step cfg) ops memory_new)"
    by (rule event_store.run_inv) simp
  have st: "st = memory_store_event cfg t1 ?k e (fold (event_step cfg) ops memory_new)"
    by (simp add: st_def store_event_def ids e_def)
  have inv: "queues_ok cfg (streams st)"
    using memory_store_event_inv [OF inv0] by (simp add: st event_store_inv_def)
  have "ends_with_event st ?k e"
    unfolding st by (rule memory_store_ends [OF inv0 streams]) (simp add: alive)
  then have "ends_with_event (prune_expired t2 st (ttl cfg)) ?k e"
    by (intro prune_keeps_end [OF inv]) (simp_all add: alive)
  then obtain pre where pre: "map_of (streams (prune_expired t2 st (ttl cfg))) ?k = Some (pre @ [e])"
    by (auto simp: ends_with_event_def)
  show ?thesis unfolding st_def [symmetric]
    by (simp add: replay_after_def memory_replay_after_def ids Let_def pre e_def map_filter_def
        printed json [OF printed] ids(4))
qed

text \<open>The messages of the witnesses are strings, printed between quotes.\<close>

definition quote_str :: "rstr \<Rightarrow> rstr option" where
  "quote_str m = Some (CHR 0x22 # m @ [CHR 0x22])"

definition unquote_str :: "rstr \<Rightarrow> rstr option" where
  "unquote_str s =
     (if length s \<ge> 2 \<and> hd s = CHR 0x22 \<and> last s = CHR 0x22 then Some (butlast (tl s)) else None)"

lemma quote_roundtrip: "quote_str m = Some s \<Longrightarrow> unquote_str s = Some m"
  by (auto simp: quote_str_def unquote_str_def)

abbreviation small_store :: event_store_config where
  "small_store \<equiv> \<lparr>max_streams = 2, max_events = 2, ttl = Some 60\<rparr>"

abbreviation two_sessions :: "rstr event_op list" where
  "two_sessions \<equiv>
     [StoreOp 100 100 ''a'' (Some ''1/7'') (Some ''x''), StoreOp 101 101 ''b'' (Some ''5/7'') (Some ''y''),
      StoreOp 102 102 ''a'' (Some ''2/7'') (Some ''z'')]"

theorem replay_isolated_witness:
  "(''2/7'', ''z'') \<in> set (fst (replay_after small_store quote_str unquote_str 110 ''a'' ''1/7''
      (fold (event_step small_store) two_sessions memory_new)))
   \<and> (\<exists>t1 t2 p pl. StoreOp t1 t2 ''a'' (Some ''2/7'') (Some ''z'') \<in> set two_sessions
        \<and> parse_event_id ''2/7'' = Some p \<and> parse_event_id ''1/7'' = Some pl
        \<and> pe_request p = pe_request pl \<and> pe_index p > pe_index pl)"
proof -
  have m: "(''2/7'', ''z'') \<in> set (fst (replay_after small_store quote_str unquote_str 110 ''a'' ''1/7''
      (fold (event_step small_store) two_sessions memory_new)))"
    by code_simp
  show ?thesis
    by (rule conjI [OF m replay_isolated [OF quote_roundtrip m]])
qed

theorem store_then_replay_witness:
  "\<exists>before. fst (replay_after small_store quote_str unquote_str 130 ''a'' ''1/7''
      (store_event small_store 120 120 ''a'' (Some ''3/7'') (Some ''w'')
         (fold (event_step small_store) two_sessions memory_new))) = before @ [(''3/7'', ''w'')]"
proof (rule store_then_replay [OF quote_roundtrip])
  show "quote_str ''w'' = Some [CHR 0x22, CHR ''w'', CHR 0x22]" by (simp add: quote_str_def)
  show "parse_event_id ''3/7'' = Some \<lparr>pe_index = 3, pe_request = Some 7\<rparr>" by code_simp
  show "parse_event_id ''1/7'' = Some \<lparr>pe_index = 1, pe_request = Some 7\<rparr>" by code_simp
qed simp_all

text \<open>
  The largest retention time keeps nothing.  A retention time is cast to a signed 64-bit
  number before it is subtracted from the clock, so the largest duration becomes \<open>-1\<close> seconds:
  every stored event is already expired when the call that stores it returns.
\<close>
lemma longest_ttl_drops_events:
  assumes "ttl cfg = Some u64_max" and "now < 2 ^ 63 - 1"
  shows "streams (store_event cfg now now session event_id message memory_new) = []"
proof -
  have cut: "expiry_cutoff now u64_max = int now + 1"
    using assms(2) by (simp add: expiry_cutoff_def i64_sub_def as_i64_def wrap_i64_def)
  have "memory_store_event cfg now k e memory_new = memory_new"
    if "ev_created_at e = as_i64 now" for k and e :: "'a stored_event"
    using that assms as_i64_id [of now]
    by (cases "max_streams cfg")
       (simp_all add: memory_store_event_def memory_new_def queue_of_def push_event_def
         touch_stream_def trim_streams_def prune_expired_def cut)
  then show ?thesis
    by (auto simp: store_event_def memory_new_def split: option.splits)
qed

end
