(* ===== verification/Session_Manager.thy ===== *)
theory Session_Manager
  imports Event_Store
begin

text \<open>
  The session managers of \<open>session.rs\<close> (crate \<open>mcp-toolkit-http\<close>): \<open>BoundedSessionManager\<close> with
  its lifecycle table and disconnected-idle sweep, \<open>LifecycleTrackedStream\<close>, and
  \<open>RecordingSessionManager\<close>, which records outbound events in the store of \<open>Event_Store\<close>.
  The wrapped \<open>LocalSessionManager\<close> belongs to the crate \<open>rmcp\<close>: it is the record parameter
  \<open>local_manager\<close>, and \<open>local_documented\<close> states what the code relies on.  Clock readings are
  arguments.  A lock is held within each helper below and released between helpers, so the
  helpers are the units of interleaving; the methods compose them as the source does.
\<close>

section \<open>Lifecycle table\<close>

datatype session_lifecycle_mode = LegacyKeepAlive | ConnectedUnboundedDisconnectedIdle

record session_lifecycle_config =
  lc_mode :: session_lifecycle_mode
  disconnected_idle_timeout :: "nat option"

definition lifecycle_default :: session_lifecycle_config where
  "lifecycle_default = \<lparr>lc_mode = LegacyKeepAlive, disconnected_idle_timeout = None\<rparr>"

definition lifecycle_connected :: "nat option \<Rightarrow> session_lifecycle_config" where
  "lifecycle_connected timeout =
     \<lparr>lc_mode = ConnectedUnboundedDisconnectedIdle, disconnected_idle_timeout = timeout\<rparr>"

record session_lifecycle_state =
  active_streams :: nat
  last_activity_s :: nat
  disconnected_since_s :: "nat option"

record session_lifecycle_runtime =
  lc_config :: session_lifecycle_config
  lc_states :: "(rstr \<times> session_lifecycle_state) list"
  expired_sessions_total :: nat
  last_sweep_s :: nat

definition lifecycle_new :: "session_lifecycle_config \<Rightarrow> session_lifecycle_runtime" where
  "lifecycle_new config =
     \<lparr>lc_config = config, lc_states = [], expired_sessions_total = 0, last_sweep_s = 0\<rparr>"

definition fresh_state :: "nat \<Rightarrow> session_lifecycle_state" where
  "fresh_state now_s =
     \<lparr>active_streams = 0, last_activity_s = now_s, disconnected_since_s = Some now_s\<rparr>"

definition entry_or_insert ::
  "(rstr \<times> session_lifecycle_state) list \<Rightarrow> rstr \<Rightarrow> nat \<Rightarrow> session_lifecycle_state" where
  "entry_or_insert states session_id now_s =
     (case map_of states session_id of Some s \<Rightarrow> s | None \<Rightarrow> fresh_state now_s)"

section \<open>The wrapped manager and the bounded manager\<close>

datatype 'm session_call =
    InitializeCall 'm | CreateStreamCall 'm | AcceptMessageCall 'm
  | CreateStandaloneStreamCall | ResumeCall rstr

record ('i, 'e, 'm, 'r) local_manager =
  local_create :: "'i \<Rightarrow> ('e, rstr) result \<times> 'i"
  local_close :: "rstr \<Rightarrow> 'i \<Rightarrow> ('e, unit) result \<times> 'i"
  local_has :: "rstr \<Rightarrow> 'i \<Rightarrow> ('e, bool) result"
  local_call :: "'m session_call \<Rightarrow> rstr \<Rightarrow> 'i \<Rightarrow> ('e, 'r) result \<times> 'i"

datatype 'e bounded_session_manager_error = Inner 'e | ResumeDisabled

record 'i bounded_manager =
  inner :: 'i
  max_sessions :: nat
  allow_resume :: bool
  session_order :: "rstr list"
  lifecycle :: session_lifecycle_runtime

definition new_with_lifecycle ::
  "'i \<Rightarrow> nat \<Rightarrow> bool \<Rightarrow> session_lifecycle_config \<Rightarrow> 'i bounded_manager" where
  "new_with_lifecycle i max_n resume config =
     \<lparr>inner = i, max_sessions = max max_n 1, allow_resume = resume, session_order = [],
      lifecycle = lifecycle_new config\<rparr>"

definition bounded_new :: "'i \<Rightarrow> nat \<Rightarrow> bool \<Rightarrow> 'i bounded_manager" where
  "bounded_new i max_n resume = new_with_lifecycle i max_n resume lifecycle_default"

definition set_states ::
  "'i bounded_manager \<Rightarrow> (rstr \<times> session_lifecycle_state) list \<Rightarrow> 'i bounded_manager" where
  "set_states bm ss = bm\<lparr>lifecycle := (lifecycle bm)\<lparr>lc_states := ss\<rparr>\<rparr>"

abbreviation states_of :: "'i bounded_manager \<Rightarrow> (rstr \<times> session_lifecycle_state) list" where
  "states_of bm \<equiv> lc_states (lifecycle bm)"

definition record_session :: "rstr \<Rightarrow> 'i bounded_manager \<Rightarrow> rstr option \<times> 'i bounded_manager" where
  "record_session session_id bm =
     (let ord = session_order bm @ [session_id] in
      if length ord > max_sessions bm
      then (case ord of
              [] \<Rightarrow> (None, bm\<lparr>session_order := ord\<rparr>)
            | oldest # rest \<Rightarrow> (Some oldest, bm\<lparr>session_order := rest\<rparr>))
      else (None, bm\<lparr>session_order := ord\<rparr>))"

definition remove_session :: "rstr \<Rightarrow> 'i bounded_manager \<Rightarrow> 'i bounded_manager" where
  "remove_session session_id bm =
     (let bm' = bm\<lparr>session_order := remove1 session_id (session_order bm)\<rparr>
      in set_states bm' (AList.delete session_id (states_of bm')))"

definition close_evicted ::
  "('i, 'e, 'm, 'r) local_manager \<Rightarrow> rstr \<Rightarrow> 'i bounded_manager \<Rightarrow> 'i bounded_manager" where
  "close_evicted M session_id bm =
     remove_session session_id (bm\<lparr>inner := snd (local_close M session_id (inner bm))\<rparr>)"

definition touch_session_activity :: "rstr \<Rightarrow> nat \<Rightarrow> 'i bounded_manager \<Rightarrow> 'i bounded_manager" where
  "touch_session_activity session_id now_s bm =
     (let state = (entry_or_insert (states_of bm) session_id now_s)\<lparr>last_activity_s := now_s\<rparr>;
          state = (if active_streams state = 0 then state\<lparr>disconnected_since_s := Some now_s\<rparr> else state)
      in set_states bm (AList.update session_id state (states_of bm)))"

definition mark_stream_open :: "rstr \<Rightarrow> nat \<Rightarrow> 'i bounded_manager \<Rightarrow> 'i bounded_manager" where
  "mark_stream_open session_id now_s bm =
     (let state = entry_or_insert (states_of bm) session_id now_s;
          state = state\<lparr>active_streams := saturating_add u32_max (active_streams state) 1,
                        last_activity_s := now_s, disconnected_since_s := None\<rparr>
      in set_states bm (AList.update session_id state (states_of bm)))"

definition mark_stream_closed :: "rstr \<Rightarrow> nat \<Rightarrow> 'i bounded_manager \<Rightarrow> 'i bounded_manager" where
  "mark_stream_closed session_id now_s bm =
     (case map_of (states_of bm) session_id of
        None \<Rightarrow> bm
      | Some state \<Rightarrow>
          (let state = state\<lparr>active_streams := active_streams state - 1, last_activity_s := now_s\<rparr>;
               state = (if active_streams state = 0 then state\<lparr>disconnected_since_s := Some now_s\<rparr>
                        else state)
           in set_states bm (AList.update session_id state (states_of bm))))"

definition idle_for :: "nat \<Rightarrow> nat \<Rightarrow> session_lifecycle_state \<Rightarrow> bool" where
  "idle_for timeout now_s state =
     (if active_streams state > 0 then False
      else (case disconnected_since_s state of
              None \<Rightarrow> False
            | Some since \<Rightarrow> now_s - since \<ge> timeout))"

definition disconnected_session_should_expire :: "rstr \<Rightarrow> nat \<Rightarrow> 'i bounded_manager \<Rightarrow> bool" where
  "disconnected_session_should_expire session_id now_s bm =
     (if lc_mode (lc_config (lifecycle bm)) \<noteq> ConnectedUnboundedDisconnectedIdle then False
      else (case disconnected_idle_timeout (lc_config (lifecycle bm)) of
              None \<Rightarrow> False
            | Some timeout \<Rightarrow>
                (case map_of (states_of bm) session_id of
                   None \<Rightarrow> False
                 | Some state \<Rightarrow> idle_for timeout now_s state)))"

definition note_session_expired :: "rstr \<Rightarrow> 'i bounded_manager \<Rightarrow> 'i bounded_manager" where
  "note_session_expired session_id bm =
     bm\<lparr>lifecycle := (lifecycle bm)
         \<lparr>lc_states := AList.delete session_id (states_of bm),
          expired_sessions_total := saturating_add u64_max (expired_sessions_total (lifecycle bm)) 1\<rparr>\<rparr>"

definition default_lifecycle_sweep_interval_s :: nat where
  "default_lifecycle_sweep_interval_s = 5"

text \<open>The sweep collects candidates under the lock and closes them afterwards.\<close>

definition sweep_collect :: "nat \<Rightarrow> 'i bounded_manager \<Rightarrow> rstr list option \<times> 'i bounded_manager" where
  "sweep_collect now_s bm =
     (if lc_mode (lc_config (lifecycle bm)) \<noteq> ConnectedUnboundedDisconnectedIdle then (None, bm)
      else (case disconnected_idle_timeout (lc_config (lifecycle bm)) of
              None \<Rightarrow> (None, bm)
            | Some timeout \<Rightarrow>
                if now_s - last_sweep_s (lifecycle bm) < default_lifecycle_sweep_interval_s then (None, bm)
                else (Some (map fst (filter (\<lambda>(session_id, state). idle_for timeout now_s state) (states_of bm))),
                      bm\<lparr>lifecycle := (lifecycle bm)\<lparr>last_sweep_s := now_s\<rparr>\<rparr>)))"

definition close_expired ::
  "('i, 'e, 'm, 'r) local_manager \<Rightarrow> rstr \<Rightarrow> 'i bounded_manager \<Rightarrow> bool \<times> 'i bounded_manager" where
  "close_expired M session_id bm =
     (case local_close M session_id (inner bm) of
        (Inr _, i) \<Rightarrow>
          (True, note_session_expired session_id (remove_session session_id (bm\<lparr>inner := i\<rparr>)))
      | (Inl _, i) \<Rightarrow> (False, bm\<lparr>inner := i\<rparr>))"

definition sweep_disconnected_sessions ::
  "('i, 'e, 'm, 'r) local_manager \<Rightarrow> nat \<Rightarrow> 'i bounded_manager \<Rightarrow> 'i bounded_manager" where
  "sweep_disconnected_sessions M now_s bm =
     (case sweep_collect now_s bm of
        (None, bm') \<Rightarrow> bm'
      | (Some to_expire, bm') \<Rightarrow> fold (\<lambda>session_id bm. snd (close_expired M session_id bm)) to_expire bm')"

record session_stats =
  st_active_sessions :: nat
  st_max_sessions :: nat
  st_resume_enabled :: bool
  st_lifecycle_mode :: session_lifecycle_mode
  st_connected_streams :: nat
  st_disconnected_sessions :: nat
  st_expired_sessions_total :: nat

text \<open>The sum of stream counts is a \<open>u32\<close> and wraps around in a release build.\<close>

definition stats :: "'i bounded_manager \<Rightarrow> session_stats" where
  "stats bm =
     \<lparr>st_active_sessions = length (session_order bm), st_max_sessions = max_sessions bm,
      st_resume_enabled = allow_resume bm, st_lifecycle_mode = lc_mode (lc_config (lifecycle bm)),
      st_connected_streams = sum_list (map (active_streams \<circ> snd) (states_of bm)) mod 2 ^ 32,
      st_disconnected_sessions = length (filter (\<lambda>(_, state). active_streams state = 0) (states_of bm)),
      st_expired_sessions_total = expired_sessions_total (lifecycle bm)\<rparr>"

section \<open>The methods of the bounded manager\<close>

definition create_session ::
  "('i, 'e, 'm, 'r) local_manager \<Rightarrow> nat \<Rightarrow> 'i bounded_manager
     \<Rightarrow> ('e bounded_session_manager_error, rstr) result \<times> 'i bounded_manager" where
  "create_session M now_s bm =
     (let bm1 = sweep_disconnected_sessions M now_s bm in
      case local_create M (inner bm1) of
        (Inl err, i) \<Rightarrow> (Inl (Inner err), bm1\<lparr>inner := i\<rparr>)
      | (Inr session_id, i) \<Rightarrow>
          let (evicted, bm2) = record_session session_id (bm1\<lparr>inner := i\<rparr>);
              bm3 = (case evicted of Some old \<Rightarrow> close_evicted M old bm2 | None \<Rightarrow> bm2)
          in (Inr session_id, touch_session_activity session_id now_s bm3))"

definition call_and_touch ::
  "('i, 'e, 'm, 'r) local_manager \<Rightarrow> 'm session_call \<Rightarrow> nat \<Rightarrow> rstr \<Rightarrow> 'i bounded_manager
     \<Rightarrow> ('e bounded_session_manager_error, 'r) result \<times> 'i bounded_manager" where
  "call_and_touch M call now_s session_id bm =
     (case local_call M call session_id (inner bm) of
        (Inl err, i) \<Rightarrow> (Inl (Inner err), bm\<lparr>inner := i\<rparr>)
      | (Inr response, i) \<Rightarrow>
          (Inr response, touch_session_activity session_id now_s (bm\<lparr>inner := i\<rparr>)))"

definition initialize_session ::
  "('i, 'e, 'm, 'r) local_manager \<Rightarrow> nat \<Rightarrow> rstr \<Rightarrow> 'm \<Rightarrow> 'i bounded_manager
     \<Rightarrow> ('e bounded_session_manager_error, 'r) result \<times> 'i bounded_manager" where
  "initialize_session M now_s session_id message = call_and_touch M (InitializeCall message) now_s session_id"

definition has_session ::
  "('i, 'e, 'm, 'r) local_manager \<Rightarrow> nat \<Rightarrow> rstr \<Rightarrow> 'i bounded_manager
     \<Rightarrow> ('e bounded_session_manager_error, bool) result \<times> 'i bounded_manager" where
  "has_session M now_s session_id bm =
     (let bm1 = sweep_disconnected_sessions M now_s bm in
      case local_has M session_id (inner bm1) of
        Inl err \<Rightarrow> (Inl (Inner err), bm1)
      | Inr False \<Rightarrow> (Inr False, remove_session session_id bm1)
      | Inr True \<Rightarrow>
          if disconnected_session_should_expire session_id now_s bm1
          then (case close_expired M session_id bm1 of
                  (True, bm2) \<Rightarrow> (Inr False, bm2)
                | (False, bm2) \<Rightarrow> (Inr True, bm2))
          else (Inr True, bm1))"

definition close_session ::
  "('i, 'e, 'm, 'r) local_manager \<Rightarrow> rstr \<Rightarrow> 'i bounded_manager
     \<Rightarrow> ('e bounded_session_manager_error, unit) result \<times> 'i bounded_manager" where
  "close_session M session_id bm =
     (case local_close M session_id (inner bm) of
        (Inl err, i) \<Rightarrow> (Inl (Inner err), bm\<lparr>inner := i\<rparr>)
      | (Inr _, i) \<Rightarrow> (Inr (), remove_session session_id (bm\<lparr>inner := i\<rparr>)))"

definition create_stream ::
  "('i, 'e, 'm, 'r) local_manager \<Rightarrow> nat \<Rightarrow> rstr \<Rightarrow> 'm \<Rightarrow> 'i bounded_manager
     \<Rightarrow> ('e bounded_session_manager_error, 'r) result \<times> 'i bounded_manager" where
  "create_stream M now_s session_id message = call_and_touch M (CreateStreamCall message) now_s session_id"

definition accept_message ::
  "('i, 'e, 'm, 'r) local_manager \<Rightarrow> nat \<Rightarrow> rstr \<Rightarrow> 'm \<Rightarrow> 'i bounded_manager
     \<Rightarrow> ('e bounded_session_manager_error, unit) result \<times> 'i bounded_manager" where
  "accept_message M now_s session_id message bm =
     (case call_and_touch M (AcceptMessageCall message) now_s session_id bm of
        (Inl err, bm') \<Rightarrow> (Inl err, bm')
      | (Inr _, bm') \<Rightarrow> (Inr (), bm'))"

definition create_standalone_stream ::
  "('i, 'e, 'm, 'r) local_manager \<Rightarrow> nat \<Rightarrow> rstr \<Rightarrow> 'i bounded_manager
     \<Rightarrow> ('e bounded_session_manager_error, 'r) result \<times> 'i bounded_manager" where
  "create_standalone_stream M now_s session_id = call_and_touch M CreateStandaloneStreamCall now_s session_id"

definition resume ::
  "('i, 'e, 'm, 'r) local_manager \<Rightarrow> nat \<Rightarrow> rstr \<Rightarrow> rstr \<Rightarrow> 'i bounded_manager
     \<Rightarrow> ('e bounded_session_manager_error, 'r) result \<times> 'i bounded_manager" where
  "resume M now_s session_id last_event_id bm =
     (if \<not> allow_resume bm then call_and_touch M CreateStandaloneStreamCall now_s session_id bm
      else call_and_touch M (ResumeCall last_event_id) now_s session_id bm)"

section \<open>Tracked streams and the recording manager\<close>

record tracked_stream =
  ts_session :: rstr
  ts_closed :: bool

record ('i, 'm) recording_manager =
  bounded :: "'i bounded_manager"
  event_store :: "(event_store_config \<times> 'm memory_state) option"
  tracked :: "tracked_stream list"

definition recording_new ::
  "'i bounded_manager \<Rightarrow> (event_store_config \<times> 'm memory_state) option \<Rightarrow> ('i, 'm) recording_manager" where
  "recording_new bm store = \<lparr>bounded = bm, event_store = store, tracked = []\<rparr>"

text \<open>The handle a stream is known by is its position in \<open>tracked\<close>.\<close>

definition tracked_stream_new ::
  "rstr \<Rightarrow> nat \<Rightarrow> ('i, 'm) recording_manager \<Rightarrow> nat \<times> ('i, 'm) recording_manager" where
  "tracked_stream_new session_id now_s rm =
     (length (tracked rm),
      rm\<lparr>bounded := mark_stream_open session_id now_s (bounded rm),
         tracked := tracked rm @ [\<lparr>ts_session = session_id, ts_closed = False\<rparr>]\<rparr>)"

definition close_once :: "nat \<Rightarrow> nat \<Rightarrow> ('i, 'm) recording_manager \<Rightarrow> ('i, 'm) recording_manager" where
  "close_once h now_s rm =
     (if h \<ge> length (tracked rm) \<or> ts_closed (tracked rm ! h) then rm
      else rm\<lparr>bounded := mark_stream_closed (ts_session (tracked rm ! h)) now_s (bounded rm),
              tracked := (tracked rm)[h := (tracked rm ! h)\<lparr>ts_closed := True\<rparr>]\<rparr>)"

datatype 'm sse_poll = PollPending | PollEnd | PollItem "rstr option" "'m option"

text \<open>
  One poll of a recorded stream: an item is stored before it is handed on, and storing cannot
  fail in the memory variant; the end of the stream closes it.
\<close>

definition poll_next ::
  "nat \<Rightarrow> nat \<Rightarrow> nat \<Rightarrow> 'm sse_poll \<Rightarrow> ('i, 'm) recording_manager \<Rightarrow> ('i, 'm) recording_manager" where
  "poll_next h t1 t2 poll rm =
     (case poll of
        PollPending \<Rightarrow> rm
      | PollEnd \<Rightarrow> close_once h t1 rm
      | PollItem event_id message \<Rightarrow>
          (case event_store rm of
             None \<Rightarrow> rm
           | Some (cfg, store) \<Rightarrow>
               if h < length (tracked rm)
               then rm\<lparr>event_store := Some (cfg, Event_Store.store_event cfg t1 t2
                        (ts_session (tracked rm ! h)) event_id message store)\<rparr>
               else rm))"

definition drop_stream :: "nat \<Rightarrow> nat \<Rightarrow> ('i, 'm) recording_manager \<Rightarrow> ('i, 'm) recording_manager" where
  "drop_stream h now_s rm = close_once h now_s rm"

definition record_call ::
  "('i bounded_manager \<Rightarrow> ('x, 'r) result \<times> 'i bounded_manager) \<Rightarrow> rstr \<Rightarrow> nat
     \<Rightarrow> ('i, 'm) recording_manager \<Rightarrow> ('x, nat) result \<times> ('i, 'm) recording_manager" where
  "record_call call session_id open_now rm =
     (case call (bounded rm) of
        (Inl err, bm) \<Rightarrow> (Inl err, rm\<lparr>bounded := bm\<rparr>)
      | (Inr _, bm) \<Rightarrow>
          let (h, rm') = tracked_stream_new session_id open_now (rm\<lparr>bounded := bm\<rparr>) in (Inr h, rm'))"

definition rec_create_stream ::
  "('i, 'e, 'c, 'r) local_manager \<Rightarrow> nat \<Rightarrow> nat \<Rightarrow> rstr \<Rightarrow> 'c \<Rightarrow> ('i, 'm) recording_manager
     \<Rightarrow> ('e bounded_session_manager_error, nat) result \<times> ('i, 'm) recording_manager" where
  "rec_create_stream M now_s open_now session_id message =
     record_call (create_stream M now_s session_id message) session_id open_now"

definition rec_create_standalone_stream ::
  "('i, 'e, 'c, 'r) local_manager \<Rightarrow> nat \<Rightarrow> nat \<Rightarrow> rstr \<Rightarrow> ('i, 'm) recording_manager
     \<Rightarrow> ('e bounded_session_manager_error, nat) result \<times> ('i, 'm) recording_manager" where
  "rec_create_standalone_stream M now_s open_now session_id =
     record_call (create_standalone_stream M now_s session_id) session_id open_now"

definition rec_resume ::
  "('i, 'e, 'c, 'r) local_manager \<Rightarrow> nat \<Rightarrow> nat \<Rightarrow> rstr \<Rightarrow> rstr \<Rightarrow> ('i, 'm) recording_manager
     \<Rightarrow> ('e bounded_session_manager_error, nat) result \<times> ('i, 'm) recording_manager" where
  "rec_resume M now_s open_now session_id last_event_id =
     record_call (resume M now_s session_id last_event_id) session_id open_now"

text \<open>The other methods of the recording manager delegate to the bounded one.\<close>

definition delegate ::
  "('i bounded_manager \<Rightarrow> 'a \<times> 'i bounded_manager) \<Rightarrow> ('i, 'm) recording_manager
     \<Rightarrow> 'a \<times> ('i, 'm) recording_manager" where
  "delegate f rm = (let (a, bm) = f (bounded rm) in (a, rm\<lparr>bounded := bm\<rparr>))"

section \<open>Runs of the bounded manager\<close>

datatype 'm session_op =
    CreateSessionOp nat | InitializeOp nat rstr 'm | HasSessionOp nat rstr | CloseSessionOp rstr
  | CreateStreamOp nat rstr 'm | AcceptMessageOp nat rstr 'm | StandaloneStreamOp nat rstr
  | ResumeOp nat rstr rstr | SweepOp nat | StreamOpenedOp rstr nat | StreamClosedOp rstr nat

fun session_step ::
  "('i, 'e, 'm, 'r) local_manager \<Rightarrow> 'm session_op \<Rightarrow> 'i bounded_manager \<Rightarrow> 'i bounded_manager" where
  "session_step M (CreateSessionOp now) bm = snd (create_session M now bm)"
| "session_step M (InitializeOp now s m) bm = snd (initialize_session M now s m bm)"
| "session_step M (HasSessionOp now s) bm = snd (has_session M now s bm)"
| "session_step M (CloseSessionOp s) bm = snd (close_session M s bm)"
| "session_step M (CreateStreamOp now s m) bm = snd (create_stream M now s m bm)"
| "session_step M (AcceptMessageOp now s m) bm = snd (accept_message M now s m bm)"
| "session_step M (StandaloneStreamOp now s) bm = snd (create_standalone_stream M now s bm)"
| "session_step M (ResumeOp now s last_id) bm = snd (resume M now s last_id bm)"
| "session_step M (SweepOp now) bm = sweep_disconnected_sessions M now bm"
| "session_step M (StreamOpenedOp s now) bm = mark_stream_open s now bm"
| "session_step M (StreamClosedOp s now) bm = mark_stream_closed s now bm"

text \<open>What is relied on of \<open>LocalSessionManager\<close>, where \<open>live\<close> gives its sessions.\<close>

definition local_documented :: "('i, 'e, 'm, 'r) local_manager \<Rightarrow> ('i \<Rightarrow> rstr set) \<Rightarrow> bool" where
  "local_documented M live \<longleftrightarrow>
     (\<forall>i i' s. local_create M i = (Inr s, i') \<longrightarrow> live i' \<subseteq> insert s (live i))
     \<and> (\<forall>i i' e. local_create M i = (Inl e, i') \<longrightarrow> live i' \<subseteq> live i)
     \<and> (\<forall>i s. live (snd (local_close M s i)) \<subseteq> live i - {s})
     \<and> (\<forall>i c s. live (snd (local_call M c s i)) \<subseteq> live i)
     \<and> (\<forall>i s b. local_has M s i = Inr b \<longrightarrow> b = (s \<in> live i))"

section \<open>The lifecycle invariant\<close>

definition state_ok :: "session_lifecycle_state \<Rightarrow> bool" where
  "state_ok s \<longleftrightarrow>
     active_streams s \<le> u32_max \<and> (active_streams s = 0 \<longleftrightarrow> disconnected_since_s s \<noteq> None)"

definition table_ok :: "(rstr \<times> session_lifecycle_state) list \<Rightarrow> bool" where
  "table_ok ss \<longleftrightarrow> distinct (map fst ss) \<and> list_all (state_ok \<circ> snd) ss"

definition session_inv ::
  "('i, 'e, 'm, 'r) local_manager \<Rightarrow> ('i \<Rightarrow> rstr set) \<Rightarrow> 'i bounded_manager \<Rightarrow> bool" where
  "session_inv M live bm \<longleftrightarrow>
     max_sessions bm \<ge> 1 \<and> length (session_order bm) \<le> max_sessions bm \<and> table_ok (states_of bm)
     \<and> (local_documented M live \<longrightarrow> live (inner bm) \<subseteq> set (session_order bm))"

lemma set_states_simps [simp]:
  "inner (set_states bm ss) = inner bm" "max_sessions (set_states bm ss) = max_sessions bm"
  "allow_resume (set_states bm ss) = allow_resume bm"
  "session_order (set_states bm ss) = session_order bm" "states_of (set_states bm ss) = ss"
  "lc_config (lifecycle (set_states bm ss)) = lc_config (lifecycle bm)"
  by (simp_all add: set_states_def)

lemma table_ok_update: "table_ok ss \<Longrightarrow> state_ok s \<Longrightarrow> table_ok (AList.update k s ss)"
  using set_alist_update [of k s ss] by (auto simp: table_ok_def list_all_iff distinct_update)

lemma table_ok_delete: "table_ok ss \<Longrightarrow> table_ok (AList.delete k ss)"
  by (auto simp: table_ok_def list_all_iff AList.delete_eq distinct_map_filter)

lemma table_ok_lookup: "table_ok ss \<Longrightarrow> map_of ss k = Some s \<Longrightarrow> state_ok s"
  by (auto simp: table_ok_def list_all_iff dest: map_of_SomeD)

lemma entry_ok: "table_ok ss \<Longrightarrow> state_ok (entry_or_insert ss k now)"
  by (auto simp: entry_or_insert_def fresh_state_def state_ok_def [of "\<lparr>active_streams = _, last_activity_s = _, disconnected_since_s = _\<rparr>"]
      intro: table_ok_lookup split: option.splits)

lemma touch_frame [simp]:
  "inner (touch_session_activity k now bm) = inner bm"
  "max_sessions (touch_session_activity k now bm) = max_sessions bm"
  "session_order (touch_session_activity k now bm) = session_order bm"
  by (simp_all add: touch_session_activity_def Let_def)

lemma open_frame [simp]:
  "inner (mark_stream_open k now bm) = inner bm"
  "max_sessions (mark_stream_open k now bm) = max_sessions bm"
  "session_order (mark_stream_open k now bm) = session_order bm"
  by (simp_all add: mark_stream_open_def Let_def)

lemma closed_frame [simp]:
  "inner (mark_stream_closed k now bm) = inner bm"
  "max_sessions (mark_stream_closed k now bm) = max_sessions bm"
  "session_order (mark_stream_closed k now bm) = session_order bm"
  by (simp_all add: mark_stream_closed_def Let_def split: option.splits)

lemma remove_frame [simp]:
  "inner (remove_session k bm) = inner bm" "max_sessions (remove_session k bm) = max_sessions bm"
  "session_order (remove_session k bm) = remove1 k (session_order bm)"
  "states_of (remove_session k bm) = AList.delete k (states_of bm)"
  "lc_config (lifecycle (remove_session k bm)) = lc_config (lifecycle bm)"
  by (simp_all add: remove_session_def Let_def)

lemma note_frame [simp]:
  "inner (note_session_expired k bm) = inner bm"
  "max_sessions (note_session_expired k bm) = max_sessions bm"
  "session_order (note_session_expired k bm) = session_order bm"
  "states_of (note_session_expired k bm) = AList.delete k (states_of bm)"
  "lc_config (lifecycle (note_session_expired k bm)) = lc_config (lifecycle bm)"
  by (simp_all add: note_session_expired_def)

lemma touch_inv:
  assumes "session_inv M live bm" shows "session_inv M live (touch_session_activity k now bm)"
proof -
  have "state_ok (entry_or_insert (states_of bm) k now)"
    using assms by (simp add: session_inv_def entry_ok)
  then show ?thesis
    using assms unfolding session_inv_def touch_frame
    by (auto simp: touch_session_activity_def Let_def state_ok_def intro!: table_ok_update)
qed

lemma open_inv:
  assumes "session_inv M live bm" shows "session_inv M live (mark_stream_open k now bm)"
proof -
  have "state_ok (entry_or_insert (states_of bm) k now)"
    using assms by (simp add: session_inv_def entry_ok)
  then show ?thesis
    using assms unfolding session_inv_def open_frame
    by (auto simp: mark_stream_open_def Let_def state_ok_def saturating_add_def intro!: table_ok_update)
qed

lemma closed_inv:
  assumes "session_inv M live bm" shows "session_inv M live (mark_stream_closed k now bm)"
proof (cases "map_of (states_of bm) k")
  case None
  then show ?thesis using assms by (simp add: mark_stream_closed_def)
next
  case (Some s)
  have "state_ok s" using assms Some by (auto simp: session_inv_def intro: table_ok_lookup)
  then show ?thesis
    using assms Some unfolding session_inv_def closed_frame
    by (auto simp: mark_stream_closed_def Let_def state_ok_def intro!: table_ok_update)
qed

lemma set_remove1_diff: "set xs - {x} \<subseteq> set (remove1 x xs)"
  by (induction xs) auto

text \<open>Removing a session is sound as soon as the wrapped manager no longer has it.\<close>

lemma remove_inv:
  assumes "session_inv M live bm" and "local_documented M live \<Longrightarrow> k \<notin> live (inner bm)"
  shows "session_inv M live (remove_session k bm)"
  using assms set_remove1_diff [of "session_order bm" k]
  by (auto simp: session_inv_def table_ok_delete length_remove1)

lemma note_inv: "session_inv M live bm \<Longrightarrow> session_inv M live (note_session_expired k bm)"
  by (simp add: session_inv_def table_ok_delete)

lemma inner_inv:
  assumes "session_inv M live bm" and "local_documented M live \<Longrightarrow> live i \<subseteq> live (inner bm)"
  shows "session_inv M live (bm\<lparr>inner := i\<rparr>)"
  using assms by (auto simp: session_inv_def)

lemma close_documented:
  "local_documented M live \<Longrightarrow> local_close M k i = (r, i') \<Longrightarrow> live i' \<subseteq> live i - {k}"
  unfolding local_documented_def by (metis snd_conv)

lemma call_documented:
  "local_documented M live \<Longrightarrow> local_call M c k i = (r, i') \<Longrightarrow> live i' \<subseteq> live i"
  unfolding local_documented_def by (metis snd_conv)

lemma close_expired_inv:
  assumes "session_inv M live bm" shows "session_inv M live (snd (close_expired M k bm))"
proof -
  obtain r i where c: "local_close M k (inner bm) = (r, i)" by (cases "local_close M k (inner bm)")
  have sub: "live i \<subseteq> live (inner bm) - {k}" if "local_documented M live"
    by (rule close_documented [OF that c])
  then have inv: "session_inv M live (bm\<lparr>inner := i\<rparr>)" by (intro inner_inv [OF assms]) auto
  moreover have "session_inv M live (remove_session k (bm\<lparr>inner := i\<rparr>))"
    using sub by (intro remove_inv [OF inv]) auto
  ultimately show ?thesis by (cases r) (simp_all add: close_expired_def c note_inv)
qed

lemma sweep_inv:
  assumes "session_inv M live bm" shows "session_inv M live (sweep_disconnected_sessions M now bm)"
proof -
  have fold: "session_inv M live (fold (\<lambda>k bm. snd (close_expired M k bm)) ks bm')"
    if "session_inv M live bm'" for ks bm'
    using that by (induction ks arbitrary: bm') (auto intro: close_expired_inv)
  have "session_inv M live (snd (sweep_collect now bm))"
    using assms by (auto simp: sweep_collect_def session_inv_def split: option.splits)
  then show ?thesis
    by (auto simp: sweep_disconnected_sessions_def fold split: prod.splits option.splits)
qed

text \<open>Recording a session and closing the one it evicts, as one step.\<close>

lemma evict_inv:
  assumes inv: "session_inv M live bm"
    and new: "local_documented M live \<Longrightarrow> live i \<subseteq> insert k (live (inner bm))"
    and rec: "record_session k (bm\<lparr>inner := i\<rparr>) = (evicted, bm2)"
  shows "session_inv M live (case evicted of Some old \<Rightarrow> close_evicted M old bm2 | None \<Rightarrow> bm2)"
proof (cases "length (session_order bm) < max_sessions bm")
  case True
  then have "evicted = None \<and> bm2 = bm\<lparr>inner := i, session_order := session_order bm @ [k]\<rparr>"
    using rec by (auto simp: record_session_def Let_def)
  then show ?thesis using inv new True by (auto simp: session_inv_def)
next
  case False
  obtain old rest where ord: "session_order bm @ [k] = old # rest" by (cases "session_order bm") auto
  have len: "length rest = length (session_order bm)" using arg_cong [OF ord, of length] by simp
  have ev: "evicted = Some old" and bm2: "bm2 = bm\<lparr>inner := i, session_order := rest\<rparr>"
    using rec False len by (auto simp: record_session_def Let_def ord)
  have "live (snd (local_close M old i)) \<subseteq> set (remove1 old rest)" if d: "local_documented M live"
  proof -
    have "live i \<subseteq> set (old # rest)" using inv new d by (auto simp: session_inv_def simp flip: ord)
    moreover have "live (snd (local_close M old i)) \<subseteq> live i - {old}"
      using close_documented [OF d] by (metis prod.collapse)
    ultimately show ?thesis using set_remove1_diff [of rest old] by auto
  qed
  then show ?thesis using inv len
    by (auto simp: ev bm2 close_evicted_def session_inv_def table_ok_delete length_remove1)
qed

lemma create_session_inv:
  assumes "session_inv M live bm" shows "session_inv M live (snd (create_session M now bm))"
proof -
  define bm1 where "bm1 = sweep_disconnected_sessions M now bm"
  have inv: "session_inv M live bm1" unfolding bm1_def by (rule sweep_inv [OF assms])
  obtain r i where c: "local_create M (inner bm1) = (r, i)" by (cases "local_create M (inner bm1)")
  show ?thesis
  proof (cases r)
    case (Inl e)
    have "live i \<subseteq> live (inner bm1)" if "local_documented M live"
      using that c Inl unfolding local_documented_def by blast
    then show ?thesis using inner_inv [OF inv]
      by (simp add: create_session_def bm1_def [symmetric] c Inl)
  next
    case (Inr k)
    have new: "live i \<subseteq> insert k (live (inner bm1))" if "local_documented M live"
      using that c Inr unfolding local_documented_def by blast
    obtain ev bm2 where rec: "record_session k (bm1\<lparr>inner := i\<rparr>) = (ev, bm2)"
      by (cases "record_session k (bm1\<lparr>inner := i\<rparr>)")
    show ?thesis using touch_inv [OF evict_inv [OF inv new rec]]
      by (simp add: create_session_def bm1_def [symmetric] c Inr rec)
  qed
qed

lemma call_inv:
  assumes "session_inv M live bm" shows "session_inv M live (snd (call_and_touch M c now k bm))"
proof -
  obtain r i where c: "local_call M c k (inner bm) = (r, i)" by (cases "local_call M c k (inner bm)")
  have "session_inv M live (bm\<lparr>inner := i\<rparr>)"
    using call_documented [OF _ c] by (intro inner_inv [OF assms])
  then show ?thesis by (cases r) (simp_all add: call_and_touch_def c touch_inv)
qed

lemma has_session_inv:
  assumes "session_inv M live bm" shows "session_inv M live (snd (has_session M now k bm))"
proof -
  define bm1 where "bm1 = sweep_disconnected_sessions M now bm"
  have inv: "session_inv M live bm1" unfolding bm1_def by (rule sweep_inv [OF assms])
  consider e where "local_has M k (inner bm1) = Inl e" | "local_has M k (inner bm1) = Inr False"
    | "local_has M k (inner bm1) = Inr True"
    by (metis obj_sumE)
  then show ?thesis
  proof cases
    case 1 then show ?thesis using inv by (simp add: has_session_def bm1_def [symmetric])
  next
    case 2
    have "k \<notin> live (inner bm1)" if "local_documented M live"
      using that 2 unfolding local_documented_def by metis
    then show ?thesis using remove_inv [OF inv] 2 by (simp add: has_session_def bm1_def [symmetric])
  next
    case 3
    then show ?thesis using inv close_expired_inv [OF inv, of k]
      by (auto simp: has_session_def bm1_def [symmetric] split: prod.splits bool.splits)
  qed
qed

lemma close_session_inv:
  assumes "session_inv M live bm" shows "session_inv M live (snd (close_session M k bm))"
proof -
  obtain r i where c: "local_close M k (inner bm) = (r, i)" by (cases "local_close M k (inner bm)")
  have sub: "live i \<subseteq> live (inner bm) - {k}" if "local_documented M live"
    by (rule close_documented [OF that c])
  then have inv: "session_inv M live (bm\<lparr>inner := i\<rparr>)" by (intro inner_inv [OF assms]) auto
  moreover have "session_inv M live (remove_session k (bm\<lparr>inner := i\<rparr>))"
    using sub by (intro remove_inv [OF inv]) auto
  ultimately show ?thesis by (cases r) (simp_all add: close_session_def c)
qed

lemma accept_inv: "session_inv M live bm \<Longrightarrow> session_inv M live (snd (accept_message M now k m bm))"
  using call_inv [of M live bm "AcceptMessageCall m" now k]
  by (auto simp: accept_message_def split: prod.splits sum.splits)

interpretation session_manager: invariant_machine
  "\<lambda>bm. \<exists>i n r config. bm = new_with_lifecycle i n r config \<and> live i = {}"
  "session_step M" "session_inv M live" for M live
proof unfold_locales
  fix bm :: "'a bounded_manager"
  assume "\<exists>i n r config. bm = new_with_lifecycle i n r config \<and> live i = {}"
  then show "session_inv M live bm"
    by (auto simp: session_inv_def new_with_lifecycle_def lifecycle_new_def table_ok_def)
next
  fix bm :: "'a bounded_manager" and op
  assume "session_inv M live bm"
  then show "session_inv M live (session_step M op bm)"
    by (cases op)
       (simp_all add: create_session_inv has_session_inv close_session_inv accept_inv call_inv sweep_inv
         open_inv closed_inv initialize_session_def create_stream_def create_standalone_stream_def resume_def)
qed

section \<open>What never changes\<close>

definition settings :: "'i bounded_manager \<Rightarrow> nat \<times> session_lifecycle_config" where
  "settings bm = (max_sessions bm, lc_config (lifecycle bm))"

lemma settings_helpers [simp]:
  "settings (set_states bm ss) = settings bm" "settings (bm\<lparr>inner := i\<rparr>) = settings bm"
  "settings (bm\<lparr>session_order := ord\<rparr>) = settings bm"
  "settings (note_session_expired k bm) = settings bm"
  "settings (remove_session k bm) = settings bm"
  "settings (touch_session_activity k now bm) = settings bm"
  "settings (mark_stream_open k now bm) = settings bm"
  "settings (mark_stream_closed k now bm) = settings bm"
  "settings (close_evicted M k bm) = settings bm"
  by (simp_all add: settings_def touch_session_activity_def mark_stream_open_def close_evicted_def
      mark_stream_closed_def Let_def split: option.splits)

lemma settings_close [simp]: "settings (snd (close_expired M k bm)) = settings bm"
  by (simp add: close_expired_def split: prod.splits sum.splits)

lemma settings_sweep [simp]: "settings (sweep_disconnected_sessions M now bm) = settings bm"
proof -
  have "settings (fold (\<lambda>k bm. snd (close_expired M k bm)) ks bm') = settings bm'" for ks bm'
    by (induction ks arbitrary: bm') simp_all
  moreover have "settings (snd (sweep_collect now bm)) = settings bm"
    by (simp add: sweep_collect_def settings_def split: option.splits)
  ultimately show ?thesis
    by (auto simp: sweep_disconnected_sessions_def split: prod.splits option.splits)
qed

lemma settings_record: "record_session k bm = (ev, bm') \<Longrightarrow> settings bm' = settings bm"
  by (auto simp: record_session_def Let_def split: if_splits list.splits)

lemma settings_create [simp]: "settings (snd (create_session M now bm)) = settings bm"
  by (auto simp: create_session_def Let_def dest!: settings_record split: prod.splits sum.splits option.splits)

lemma settings_call [simp]: "settings (snd (call_and_touch M c now k bm)) = settings bm"
  by (simp add: call_and_touch_def split: prod.splits sum.splits)

lemma settings_has [simp]: "settings (snd (has_session M now k bm)) = settings bm"
  by (auto simp: has_session_def Let_def dest!: arg_cong [of "close_expired _ _ _" _ "settings \<circ> snd"]
      split: prod.splits sum.splits bool.splits)

lemma settings_step [simp]: "settings (session_step M op bm) = settings bm"
  by (cases op)
     (auto simp: close_session_def initialize_session_def create_stream_def accept_message_def
        create_standalone_stream_def resume_def split: prod.splits sum.splits
        dest!: arg_cong [of "call_and_touch _ _ _ _ _" _ "settings \<circ> snd"])

lemma settings_run [simp]: "settings (fold (session_step M) ops bm) = settings bm"
  by (induction ops arbitrary: bm) simp_all

section \<open>The sweep\<close>

definition sweep_due :: "nat \<Rightarrow> 'i bounded_manager \<Rightarrow> bool" where
  "sweep_due now bm \<longleftrightarrow> now - last_sweep_s (lifecycle bm) \<ge> default_lifecycle_sweep_interval_s"

lemma map_of_filter_idle:
  assumes "distinct (map fst ss)"
  shows "k \<in> set (map fst (filter (\<lambda>(k, s). P s) ss)) \<longleftrightarrow> (\<exists>s. map_of ss k = Some s \<and> P s)"
  using assms by (force simp: image_iff)

lemma sweep_collect_iff:
  assumes "table_ok (states_of bm)" and "sweep_collect now bm = (Some ks, bm')"
  shows "k \<in> set ks \<longleftrightarrow> sweep_due now bm \<and> disconnected_session_should_expire k now bm"
proof -
  obtain timeout where t: "disconnected_idle_timeout (lc_config (lifecycle bm)) = Some timeout"
    and m: "lc_mode (lc_config (lifecycle bm)) = ConnectedUnboundedDisconnectedIdle"
    and due: "sweep_due now bm"
    and ks: "ks = map fst (filter (\<lambda>(k, s). idle_for timeout now s) (states_of bm))"
    using assms(2) by (auto simp: sweep_collect_def sweep_due_def split: if_splits option.splits)
  have "k \<in> set ks \<longleftrightarrow> (\<exists>s. map_of (states_of bm) k = Some s \<and> idle_for timeout now s)"
    unfolding ks using assms(1) by (intro map_of_filter_idle) (simp add: table_ok_def)
  then show ?thesis
    using due m t by (auto simp: disconnected_session_should_expire_def split: option.splits)
qed

lemma sweep_collect_none:
  "sweep_collect now bm = (None, bm') \<Longrightarrow>
     bm' = bm \<and> \<not> (sweep_due now bm \<and> disconnected_session_should_expire k now bm)"
  by (auto simp: sweep_collect_def sweep_due_def disconnected_session_should_expire_def
      split: if_splits option.splits)

lemma sweep_collect_states: "sweep_collect now bm = (r, bm') \<Longrightarrow> states_of bm' = states_of bm"
  by (auto simp: sweep_collect_def split: if_splits option.splits)

lemma close_expired_states:
  "map_of (states_of (snd (close_expired M j bm))) k =
     (if j = k \<and> fst (close_expired M j bm) then None else map_of (states_of bm) k)"
  by (auto simp: close_expired_def delete_conv' split: prod.splits sum.splits)

lemma close_all_states:
  "map_of (states_of (fold (\<lambda>j bm. snd (close_expired M j bm)) ks bm)) k \<noteq> map_of (states_of bm) k
   \<Longrightarrow> k \<in> set ks \<and> map_of (states_of (fold (\<lambda>j bm. snd (close_expired M j bm)) ks bm)) k = None"
proof (induction ks arbitrary: bm)
  case (Cons j ks)
  define b where "b = snd (close_expired M j bm)"
  define e where "e = fold (\<lambda>j bm. snd (close_expired M j bm)) ks b"
  have IH: "map_of (states_of e) k \<noteq> map_of (states_of b) k \<Longrightarrow> k \<in> set ks \<and> map_of (states_of e) k = None"
    unfolding e_def by (rule Cons.IH)
  have "map_of (states_of e) k \<noteq> map_of (states_of bm) k"
    using Cons.prems by (simp add: e_def b_def)
  moreover have "map_of (states_of b) k = map_of (states_of bm) k \<or> j = k \<and> map_of (states_of b) k = None"
    unfolding b_def close_expired_states by simp
  ultimately have "k \<in> set (j # ks) \<and> map_of (states_of e) k = None"
    using IH by (metis list.set_intros)
  then show ?case by (simp add: e_def b_def)
qed simp

text \<open>With a wrapped manager whose closes succeed, every collected session goes.\<close>

lemma close_all_removes:
  assumes "\<And>k i. \<exists>i'. local_close M k i = (Inr (), i')"
  shows "map_of (states_of (fold (\<lambda>j bm. snd (close_expired M j bm)) ks bm)) k =
           (if k \<in> set ks then None else map_of (states_of bm) k)"
proof (induction ks arbitrary: bm)
  case (Cons j ks)
  have "fst (close_expired M j bm)" using assms [of j "inner bm"] by (auto simp: close_expired_def)
  then show ?case using Cons by (auto simp: close_expired_states)
qed simp

section \<open>Properties\<close>


text \<open>A wrapped manager that numbers its sessions, for the witnesses.\<close>

definition counting_manager :: "(nat \<times> rstr list, unit, unit, unit) local_manager" where
  "counting_manager =
     \<lparr>local_create = (\<lambda>(n, ss). (Inr (show_nat n), (Suc n, show_nat n # ss))),
      local_close = (\<lambda>k (n, ss). (Inr (), (n, removeAll k ss))),
      local_has = (\<lambda>k (n, ss). Inr (k \<in> set ss)),
      local_call = (\<lambda>c k (n, ss). (if k \<in> set ss then Inr () else Inl (), (n, ss)))\<rparr>"

lemma counting_documented: "local_documented counting_manager (set \<circ> snd)"
  by (auto simp: local_documented_def counting_manager_def)


text \<open>
  a sweep takes exactly the idle sessions.  In every reachable state a sweep that is due
  forgets a session of the lifecycle table if and only if the manager is in connected-aware mode with a
  timeout, the session has no open stream, and it has been disconnected for the
  timeout; all other entries are untouched, and a sweep within five seconds of the last one
  forgets nothing.  Closing in the wrapped manager is assumed to succeed.
\<close>
theorem sweep_takes_exactly_idle:
  assumes "\<And>k i. \<exists>i'. local_close M k i = (Inr (), i')"
    and "bm = fold (session_step M) ops (new_with_lifecycle i n resumable config)"
  shows "map_of (states_of (sweep_disconnected_sessions M now bm)) k =
     (if now - last_sweep_s (lifecycle bm) \<ge> 5
         \<and> lc_mode config = ConnectedUnboundedDisconnectedIdle
         \<and> (\<exists>timeout s since. disconnected_idle_timeout config = Some timeout
              \<and> map_of (states_of bm) k = Some s \<and> active_streams s = 0
              \<and> disconnected_since_s s = Some since \<and> now - since \<ge> timeout)
      then None else map_of (states_of bm) k)"
proof -
  have "session_inv M (\<lambda>_. {}) bm" unfolding assms(2) by (rule session_manager.run_inv) blast
  then have table: "table_ok (states_of bm)" by (simp add: session_inv_def)
  have config: "lc_config (lifecycle bm) = config"
    using settings_run [of M ops "new_with_lifecycle i n resumable config"]
    by (simp add: assms(2) settings_def) (simp add: new_with_lifecycle_def lifecycle_new_def)
  have "map_of (states_of (sweep_disconnected_sessions M now bm)) k =
     (if sweep_due now bm \<and> disconnected_session_should_expire k now bm
      then None else map_of (states_of bm) k)"
  proof (cases "sweep_collect now bm")
    case (Pair r bm')
    show ?thesis
    proof (cases r)
      case None
      with Pair show ?thesis using sweep_collect_none [of now bm bm' k]
        by (auto simp: sweep_disconnected_sessions_def)
    next
      case (Some ks)
      with Pair have c: "sweep_collect now bm = (Some ks, bm')" by simp
      show ?thesis using sweep_collect_iff [OF table c, of k] sweep_collect_states [OF c]
        by (simp add: sweep_disconnected_sessions_def c close_all_removes [OF assms(1)])
    qed
  qed
  moreover have "sweep_due now bm \<and> disconnected_session_should_expire k now bm \<longleftrightarrow>
     now - last_sweep_s (lifecycle bm) \<ge> 5 \<and> lc_mode config = ConnectedUnboundedDisconnectedIdle
     \<and> (\<exists>timeout s since. disconnected_idle_timeout config = Some timeout
          \<and> map_of (states_of bm) k = Some s \<and> active_streams s = 0
          \<and> disconnected_since_s s = Some since \<and> now - since \<ge> timeout)"
    by (auto simp: sweep_due_def default_lifecycle_sweep_interval_s_def config idle_for_def
        disconnected_session_should_expire_def split: option.splits)
  ultimately show ?thesis by simp
qed

lemma counting_closes: "\<exists>i'. local_close counting_manager k i = (Inr (), i')"
  by (cases i) (simp add: counting_manager_def)

theorem sweep_takes_exactly_idle_witness:
  "let bm = fold (session_step counting_manager)
              [CreateSessionOp 10, CreateSessionOp 11, StreamOpenedOp ''0'' 12]
              (new_with_lifecycle (0, []) 4 True (lifecycle_connected (Some 30)))
   in map_of (states_of (sweep_disconnected_sessions counting_manager 50 bm)) ''1'' = None
      \<and> map_of (states_of (sweep_disconnected_sessions counting_manager 50 bm)) ''0'' \<noteq> None"
proof -
  define bm where "bm = fold (session_step counting_manager)
              [CreateSessionOp 10, CreateSessionOp 11, StreamOpenedOp ''0'' 12]
              (new_with_lifecycle (0, []) 4 True (lifecycle_connected (Some 30)))"
  have m: "map_of (states_of bm) ''0'' = Some \<lparr>active_streams = 1, last_activity_s = 12, disconnected_since_s = None\<rparr>"
    "map_of (states_of bm) ''1'' = Some \<lparr>active_streams = 0, last_activity_s = 11, disconnected_since_s = Some 11\<rparr>"
    "last_sweep_s (lifecycle bm) = 10"
    unfolding bm_def by code_simp+
  show ?thesis
    using sweep_takes_exactly_idle [OF counting_closes bm_def, of 50 "''0''"]
      sweep_takes_exactly_idle [OF counting_closes bm_def, of 50 "''1''"]
    unfolding bm_def [symmetric] Let_def m by (simp add: lifecycle_connected_def)
qed

text \<open>
  What \<open>has_session\<close> answers.  If the wrapped manager behaves as documented and its closes
  succeed, then a positive answer means that the session is live and not overdue, and a
  negative one that it is gone from the wrapped manager and from the lifecycle table.
\<close>
lemma has_session_verdict:
  assumes doc: "local_documented M live" and closes: "\<And>k i. \<exists>i'. local_close M k i = (Inr (), i')"
    and has: "has_session M now k bm = (Inr answer, bm')"
  shows "if answer then k \<in> live (inner bm') \<and> \<not> disconnected_session_should_expire k now bm'
         else k \<notin> live (inner bm') \<and> map_of (states_of bm') k = None"
proof -
  define bm1 where "bm1 = sweep_disconnected_sessions M now bm"
  obtain exists where ex: "local_has M k (inner bm1) = Inr exists"
    using has by (cases "local_has M k (inner bm1)") (auto simp: has_session_def bm1_def [symmetric])
  have live: "exists \<longleftrightarrow> k \<in> live (inner bm1)"
    using doc ex unfolding local_documented_def by blast
  obtain i where c: "local_close M k (inner bm1) = (Inr (), i)" using closes by blast
  have gone: "k \<notin> live i" using close_documented [OF doc c] by auto
  have ce: "close_expired M k bm1 = (True, note_session_expired k (remove_session k (bm1\<lparr>inner := i\<rparr>)))"
    by (simp add: close_expired_def c)
  show ?thesis
  proof (cases "exists \<and> \<not> disconnected_session_should_expire k now bm1")
    case True
    then have "answer \<and> bm' = bm1" using has by (simp add: has_session_def bm1_def [symmetric] ex)
    then show ?thesis using True live by simp
  next
    case False
    then have "\<not> answer \<and> (bm' = remove_session k bm1 \<and> \<not> exists
        \<or> bm' = note_session_expired k (remove_session k (bm1\<lparr>inner := i\<rparr>)))"
      using has by (cases exists) (auto simp: has_session_def bm1_def [symmetric] ex ce)
    then show ?thesis using live gone by (auto simp: delete_conv')
  qed
qed

text \<open>
  A sweep can expire a session that has reconnected.  The lock is released between collecting
  the idle sessions and closing them.  If a stream of a collected session opens in
  between, the session has an open stream when the sweep closes and forgets it.
\<close>
lemma sweep_can_expire_reconnected:
  assumes "sweep_collect now bm = (Some ks, bm1)" and "k \<in> set ks"
    and "local_close M k (inner bm1) = (Inr (), i)"
  shows "let bm2 = mark_stream_open k now bm1; bm3 = snd (close_expired M k bm2) in
           (\<exists>s. map_of (states_of bm2) k = Some s \<and> active_streams s > 0)
           \<and> inner bm3 = i \<and> map_of (states_of bm3) k = None
           \<and> expired_sessions_total (lifecycle bm3)
               = saturating_add u64_max (expired_sessions_total (lifecycle bm1)) 1"
  using assms
  by (simp add: Let_def close_expired_def delete_conv' note_session_expired_def remove_session_def)
     (simp add: mark_stream_open_def set_states_def update_conv saturating_add_def Let_def)

section \<open>Stream accounting\<close>

datatype 'm stream_op =
    OpenTracked rstr nat | PollTracked nat nat nat "'m sse_poll" | DropTracked nat nat | TouchTracked rstr nat

fun stream_step :: "'m stream_op \<Rightarrow> ('i, 'm) recording_manager \<Rightarrow> ('i, 'm) recording_manager" where
  "stream_step (OpenTracked s now) rm = snd (tracked_stream_new s now rm)"
| "stream_step (PollTracked h t1 t2 p) rm = poll_next h t1 t2 p rm"
| "stream_step (DropTracked h now) rm = drop_stream h now rm"
| "stream_step (TouchTracked s now) rm = rm\<lparr>bounded := touch_session_activity s now (bounded rm)\<rparr>"

definition open_streams :: "rstr \<Rightarrow> ('i, 'm) recording_manager \<Rightarrow> nat" where
  "open_streams k rm = length (filter (\<lambda>t. ts_session t = k \<and> \<not> ts_closed t) (tracked rm))"

definition counted_streams :: "rstr \<Rightarrow> ('i, 'm) recording_manager \<Rightarrow> nat" where
  "counted_streams k rm =
     (case map_of (states_of (bounded rm)) k of None \<Rightarrow> 0 | Some s \<Rightarrow> active_streams s)"

lemma filter_close_length:
  "h < length ts \<Longrightarrow> \<not> ts_closed (ts ! h) \<Longrightarrow>
     length (filter (\<lambda>t. ts_session t = k \<and> \<not> ts_closed t) (ts[h := (ts ! h)\<lparr>ts_closed := True\<rparr>]))
     = length (filter (\<lambda>t. ts_session t = k \<and> \<not> ts_closed t) ts) - (if ts_session (ts ! h) = k then 1 else 0)"
proof (induction ts arbitrary: h)
  case (Cons t ts)
  show ?case
  proof (cases h)
    case 0
    then show ?thesis using Cons.prems by simp
  next
    case (Suc j)
    have pos: "length (filter (\<lambda>t. ts_session t = k \<and> \<not> ts_closed t) ts) \<ge> 1"
      if "ts_session (ts ! j) = k"
      using Cons.prems that Suc by (auto simp: Suc_le_eq filter_empty_conv)
    show ?thesis using Cons.IH [of j] Cons.prems Suc pos by auto
  qed
qed simp

lemma counted_open:
  assumes "counted_streams k rm < u32_max"
  shows "counted_streams k (snd (tracked_stream_new s now rm)) = counted_streams k rm + (if s = k then 1 else 0)"
  using assms
  by (auto simp: counted_streams_def tracked_stream_new_def mark_stream_open_def Let_def update_conv
      entry_or_insert_def fresh_state_def saturating_add_def split: option.splits)

lemma counted_touch:
  "counted_streams k (rm\<lparr>bounded := touch_session_activity s now (bounded rm)\<rparr>) = counted_streams k rm"
  by (auto simp: counted_streams_def touch_session_activity_def Let_def update_conv
      entry_or_insert_def fresh_state_def split: option.splits)

lemma counted_close:
  assumes "h < length (tracked rm)" and "\<not> ts_closed (tracked rm ! h)"
  shows "counted_streams k (close_once h now rm)
     = counted_streams k rm - (if ts_session (tracked rm ! h) = k then 1 else 0)"
  using assms
  by (auto simp: counted_streams_def close_once_def mark_stream_closed_def Let_def update_conv
      split: option.splits)

lemma close_accounts:
  assumes "\<And>k. counted_streams k rm = open_streams k rm"
  shows "counted_streams k (close_once h now rm) = open_streams k (close_once h now rm)
         \<and> length (tracked (close_once h now rm)) = length (tracked rm)"
proof (cases "h < length (tracked rm) \<and> \<not> ts_closed (tracked rm ! h)")
  case True
  then have "open_streams k (close_once h now rm)
      = open_streams k rm - (if ts_session (tracked rm ! h) = k then 1 else 0)"
    by (simp add: open_streams_def close_once_def filter_close_length)
  moreover have "counted_streams k (close_once h now rm)
      = counted_streams k rm - (if ts_session (tracked rm ! h) = k then 1 else 0)"
    using True by (intro counted_close) auto
  moreover have "length (tracked (close_once h now rm)) = length (tracked rm)"
    by (simp add: close_once_def)
  ultimately show ?thesis using assms by simp
next
  case False
  then have "close_once h now rm = rm" by (auto simp: close_once_def)
  then show ?thesis using assms by simp
qed

lemma open_accounts:
  assumes "\<And>k. counted_streams k rm = open_streams k rm" and "length (tracked rm) < u32_max"
  shows "counted_streams k (snd (tracked_stream_new s now rm)) = open_streams k (snd (tracked_stream_new s now rm))"
proof -
  have "open_streams k rm \<le> length (tracked rm)" by (simp add: open_streams_def)
  then have "counted_streams k rm < u32_max" using assms by simp
  then have "counted_streams k (snd (tracked_stream_new s now rm)) = open_streams k rm + (if s = k then 1 else 0)"
    using assms(1) by (simp only: counted_open)
  also have "\<dots> = open_streams k (snd (tracked_stream_new s now rm))"
    by (simp add: open_streams_def tracked_stream_new_def)
  finally show ?thesis .
qed

lemma poll_accounts:
  assumes "\<And>k. counted_streams k rm = open_streams k rm"
  shows "counted_streams k (poll_next h t1 t2 p rm) = open_streams k (poll_next h t1 t2 p rm)
         \<and> length (tracked (poll_next h t1 t2 p rm)) = length (tracked rm)"
proof (cases "p = PollEnd")
  case True
  then show ?thesis using close_accounts [OF assms] by (simp add: poll_next_def)
next
  case False
  then have "bounded (poll_next h t1 t2 p rm) = bounded rm \<and> tracked (poll_next h t1 t2 p rm) = tracked rm"
    by (cases p) (simp_all add: poll_next_def split: option.splits prod.splits)
  then show ?thesis using assms [of k] by (simp add: counted_streams_def open_streams_def)
qed

lemma stream_run_accounts:
  assumes "\<And>k. counted_streams k rm = open_streams k rm"
    and "length (tracked rm) + length ops \<le> u32_max"
  shows "counted_streams k (fold stream_step ops rm) = open_streams k (fold stream_step ops rm)"
  using assms
proof (induction ops arbitrary: rm)
  case (Cons op ops)
  have "counted_streams k (stream_step op rm) = open_streams k (stream_step op rm)" for k
  proof (cases op)
    case (OpenTracked s now)
    then show ?thesis using open_accounts [OF Cons.prems(1)] Cons.prems(2) by simp
  next
    case (TouchTracked s now)
    then show ?thesis using Cons.prems(1) [of k] by (simp add: counted_touch) (simp add: open_streams_def)
  qed (simp_all add: drop_stream_def close_accounts [OF Cons.prems(1)] poll_accounts [OF Cons.prems(1)])
  moreover have "length (tracked (stream_step op rm)) \<le> Suc (length (tracked rm))"
    using close_accounts [OF Cons.prems(1)] poll_accounts [OF Cons.prems(1)]
    by (cases op) (simp_all add: drop_stream_def tracked_stream_new_def)
  ultimately show ?case using Cons.IH [of "stream_step op rm"] Cons.prems(2) by simp
qed simp

text \<open>
  open streams are counted exactly.  However openings, polls, ends of stream, drops and
  session activity are interleaved, and however often a stream ends and is dropped, the stream
  count of every session is the number of its streams that are still open.  The bound keeps
  the counters below saturation.
\<close>
theorem open_streams_counted:
  assumes "length ops \<le> u32_max" and "states_of bm = []"
  shows "(case map_of (states_of (bounded (fold stream_step ops (recording_new bm store)))) k of
            None \<Rightarrow> 0 | Some s \<Rightarrow> active_streams s)
         = length (filter (\<lambda>t. ts_session t = k \<and> \<not> ts_closed t)
                     (tracked (fold stream_step ops (recording_new bm store))))"
  using stream_run_accounts [of "recording_new bm store" ops k] assms
  by (simp add: counted_streams_def open_streams_def recording_new_def)

theorem open_streams_counted_witness:
  "let ops = [OpenTracked ''0'' 1, OpenTracked ''0'' 2, PollTracked 0 3 3 (PollItem (Some ''1/7'') (Some ())),
              PollTracked 0 4 4 PollEnd, DropTracked 0 5, TouchTracked ''0'' 6];
       rm = fold stream_step ops (recording_new (bounded_new () 4 True) None)
   in (case map_of (states_of (bounded rm)) ''0'' of None \<Rightarrow> 0 | Some s \<Rightarrow> active_streams s) = 1"
proof -
  let ?ops = "[OpenTracked ''0'' 1, OpenTracked ''0'' 2, PollTracked 0 3 3 (PollItem (Some ''1/7'') (Some ())),
              PollTracked 0 4 4 PollEnd, DropTracked 0 5, TouchTracked ''0'' 6]"
  have "length (filter (\<lambda>t. ts_session t = ''0'' \<and> \<not> ts_closed t)
           (tracked (fold stream_step ?ops (recording_new (bounded_new () 4 True) None)))) = 1"
    by code_simp
  then show ?thesis
    using open_streams_counted [of ?ops "bounded_new () 4 True" None "''0''"]
    by (simp only: Let_def) (simp add: bounded_new_def new_with_lifecycle_def lifecycle_new_def)
qed

end
