(* ===== verification/Task_Authority.thy ===== *)
theory Task_Authority
  imports Prelude
begin

text \<open>
  The principal-bound task authority of \<open>authority.rs\<close> (crate \<open>mcp-toolkit-tasks\<close>): principals,
  bindings, capacity leases, spawning, get/update/cancel, waiting and shutdown.  RMCP's
  \<open>TaskManager\<close> is the record parameter \<open>task_manager\<close>; nothing is assumed of it.  Bindings and
  signals are shared through \<open>Arc\<close>: they live in the lists \<open>arena\<close> and \<open>signals\<close> and are
  referred to by position, so a waiter that holds a binding keeps reading it after the
  authority has dropped it.  Instants and durations count milliseconds and are arguments.
  Poisoned locks, which need a panic while a lock is held, are not modelled, and wake-ups are
  visible only through the signal generation.
\<close>

section \<open>Principals and errors\<close>

datatype 'x task_authority_error =
    InvalidPrincipal | TaskNotFound | RuntimeUnavailable | RuntimeTimerUnavailable | Closed
  | CapacityReached | WaiterCapacityReached | Rmcp 'x | StateUnavailable

text \<open>\<open>chars().count()\<close> on valid UTF-8 counts the bytes that start a character.\<close>

definition chars_count :: "rstr \<Rightarrow> nat" where
  "chars_count s = length (filter (\<lambda>c. byte c < 128 \<or> byte c \<ge> 192) s)"

definition task_principal_new :: "rstr \<Rightarrow> ('x task_authority_error, rstr) result" where
  "task_principal_new value =
     (if value = [] \<or> trim value \<noteq> value \<or> chars_count value > 256 then Inl InvalidPrincipal
      else Inr value)"

section \<open>State\<close>

record task_signal =
  generation :: nat
  settlement_pending :: bool

record 't task_binding =
  b_principal :: rstr
  b_revision :: nat
  b_task :: 't
  b_signal :: nat
  b_last_read_at :: "nat option"

record 't task_snapshot =
  snap_task :: 't
  snap_revision :: nat

record lease_info =
  l_ttl :: "nat option"
  l_created_at :: nat
  l_next_probe_at :: "nat option"
  l_generation :: nat

record task_authority_config =
  max_retained_tasks :: nat
  max_waiters :: nat
  fallback_reads_per_second :: nat

record ('i, 't) task_authority =
  manager :: 'i
  config :: task_authority_config
  signals :: "task_signal list"
  arena :: "'t task_binding list"
  bindings :: "(rstr \<times> nat) list"
  leases :: "(rstr \<times> lease_info) list"
  reserved_leases :: nat
  active_waiters :: nat
  observer_principals :: "rstr list"
  observer_tasks :: "(rstr \<times> rstr list) list"
  closed :: bool
  coalesced_reads :: nat
  fallback_reads :: nat
  rejected_waits :: nat
  fallback_window :: "nat list"

record ('i, 'o, 't, 'u, 'x) task_manager =
  tm_spawn :: "'o \<Rightarrow> 'i \<Rightarrow> rstr option \<times> 'i"
  tm_get :: "rstr \<Rightarrow> 'i \<Rightarrow> ('x, 't) result \<times> 'i"
  tm_update :: "rstr \<Rightarrow> 'u \<Rightarrow> 'i \<Rightarrow> ('x, unit) result \<times> 'i"
  tm_cancel :: "rstr \<Rightarrow> 'i \<Rightarrow> ('x, unit) result \<times> 'i"
  tm_shutdown :: "'i \<Rightarrow> 'i"
  tm_is_terminal :: "'t \<Rightarrow> bool"
  tm_ttl_ms :: "'o \<Rightarrow> nat option"

definition authority_new :: "'i \<Rightarrow> task_authority_config \<Rightarrow> ('i, 't) task_authority" where
  "authority_new i cfg =
     \<lparr>manager = i, config = cfg, signals = [], arena = [], bindings = [], leases = [],
      reserved_leases = 0, active_waiters = 0, observer_principals = [], observer_tasks = [],
      closed = False, coalesced_reads = 0, fallback_reads = 0, rejected_waits = 0,
      fallback_window = []\<rparr>"

definition settlement_recheck :: nat where
  "settlement_recheck = 250"

section \<open>Signals and bindings\<close>

definition signal_hint :: "nat \<Rightarrow> bool \<Rightarrow> ('i, 't) task_authority \<Rightarrow> nat \<times> ('i, 't) task_authority" where
  "signal_hint s settlement a =
     (let sig = signals a ! s;
          sig = (if settlement then sig\<lparr>settlement_pending := True\<rparr> else sig);
          gen = (generation sig + 1) mod 2 ^ 64
      in (gen, a\<lparr>signals := (signals a)[s := sig\<lparr>generation := gen\<rparr>]\<rparr>))"

definition signal_of :: "nat \<Rightarrow> ('i, 't) task_authority \<Rightarrow> task_signal" where
  "signal_of b a = signals a ! b_signal (arena a ! b)"

definition binding_hint :: "nat \<Rightarrow> ('i, 't) task_authority \<Rightarrow> ('i, 't) task_authority" where
  "binding_hint b a = snd (signal_hint (b_signal (arena a ! b)) False a)"

definition binding_snapshot :: "nat \<Rightarrow> ('i, 't) task_authority \<Rightarrow> 't task_snapshot" where
  "binding_snapshot b a =
     \<lparr>snap_task = b_task (arena a ! b), snap_revision = b_revision (arena a ! b)\<rparr>"

definition binding_observe ::
  "nat \<Rightarrow> 't \<Rightarrow> ('i, 't) task_authority \<Rightarrow> 't task_snapshot \<times> ('i, 't) task_authority" where
  "binding_observe b task a =
     (let old = arena a ! b;
          new = (if b_task old \<noteq> task
                 then old\<lparr>b_revision := saturating_add u64_max (b_revision old) 1, b_task := task\<rparr>
                 else old)
      in (\<lparr>snap_task = task, snap_revision = b_revision new\<rparr>, a\<lparr>arena := (arena a)[b := new]\<rparr>))"

definition set_last_read_at :: "nat \<Rightarrow> nat \<Rightarrow> ('i, 't) task_authority \<Rightarrow> ('i, 't) task_authority" where
  "set_last_read_at b now a = a\<lparr>arena := (arena a)[b := (arena a ! b)\<lparr>b_last_read_at := Some now\<rparr>]\<rparr>"

section \<open>Shutdown, admission and lookup\<close>

definition close_and_drain ::
  "('i, 'o, 't, 'u, 'x) task_manager \<Rightarrow> ('i, 't) task_authority \<Rightarrow> ('i, 't) task_authority" where
  "close_and_drain M a =
     fold binding_hint (map snd (bindings a))
       (a\<lparr>closed := True, manager := tm_shutdown M (manager a), bindings := [], leases := [],
          reserved_leases := 0, active_waiters := 0, observer_principals := [], observer_tasks := []\<rparr>)"

definition shutdown ::
  "('i, 'o, 't, 'u, 'x) task_manager \<Rightarrow> ('i, 't) task_authority \<Rightarrow> ('i, 't) task_authority" where
  "shutdown M a = close_and_drain M a"

definition ensure_open :: "('i, 't) task_authority \<Rightarrow> ('x task_authority_error, unit) result" where
  "ensure_open a = (if closed a then Inl Closed else Inr ())"

definition reserve_capacity ::
  "('i, 't) task_authority \<Rightarrow> ('x task_authority_error, unit) result \<times> ('i, 't) task_authority" where
  "reserve_capacity a =
     (case ensure_open a of
        Inl e \<Rightarrow> (Inl e, a)
      | Inr _ \<Rightarrow>
          if length (leases a) + reserved_leases a \<ge> max_retained_tasks (config a)
          then (Inl CapacityReached, a)
          else (Inr (), a\<lparr>reserved_leases := reserved_leases a + 1\<rparr>))"

definition binding_for ::
  "rstr \<Rightarrow> rstr \<Rightarrow> ('i, 't) task_authority \<Rightarrow> ('x task_authority_error, nat) result" where
  "binding_for caller task_id a =
     (case ensure_open a of
        Inl e \<Rightarrow> Inl e
      | Inr _ \<Rightarrow>
          (case map_of (bindings a) task_id of
             None \<Rightarrow> Inl TaskNotFound
           | Some b \<Rightarrow> if b_principal (arena a ! b) \<noteq> caller then Inl TaskNotFound else Inr b))"

definition remove_binding :: "rstr \<Rightarrow> ('i, 't) task_authority \<Rightarrow> ('i, 't) task_authority" where
  "remove_binding task_id a =
     (let a' = a\<lparr>leases := AList.delete task_id (leases a), bindings := AList.delete task_id (bindings a)\<rparr>
      in case map_of (bindings a) task_id of Some b \<Rightarrow> binding_hint b a' | None \<Rightarrow> a')"

section \<open>Observation\<close>

definition lease_observed ::
  "('i, 'o, 't, 'u, 'x) task_manager \<Rightarrow> nat \<Rightarrow> rstr \<Rightarrow> 't task_snapshot \<Rightarrow> nat \<Rightarrow> nat
     \<Rightarrow> ('i, 't) task_authority \<Rightarrow> ('i, 't) task_authority" where
  "lease_observed M b task_id snapshot gen now a =
     (case map_of (leases a) task_id of
        None \<Rightarrow> a
      | Some lease \<Rightarrow>
          let lease = lease\<lparr>l_generation := gen\<rparr> in
          if tm_is_terminal M (snap_task snapshot)
          then a\<lparr>signals := (signals a)[b_signal (arena a ! b) := (signal_of b a)\<lparr>settlement_pending := False\<rparr>],
                 leases := AList.update task_id
                   (lease\<lparr>l_next_probe_at := Option.bind (l_ttl lease) (instant_checked_add now)\<rparr>) (leases a)\<rparr>
          else if settlement_pending (signal_of b a)
          then a\<lparr>leases := AList.update task_id
                   (lease\<lparr>l_next_probe_at := instant_checked_add now settlement_recheck\<rparr>) (leases a)\<rparr>
          else a\<lparr>leases := AList.update task_id lease (leases a)\<rparr>)"

definition observe_or_close ::
  "('i, 'o, 't, 'u, 'x) task_manager \<Rightarrow> nat \<Rightarrow> rstr \<Rightarrow> 't \<Rightarrow> nat \<Rightarrow> nat
     \<Rightarrow> ('i, 't) task_authority \<Rightarrow> 't task_snapshot \<times> ('i, 't) task_authority" where
  "observe_or_close M b task_id task gen now a =
     (let (snapshot, a1) = binding_observe b task a
      in (snapshot, lease_observed M b task_id snapshot gen now (set_last_read_at b now a1)))"

text \<open>The tail shared by every path on which RMCP no longer knows the task.\<close>

definition task_gone ::
  "rstr \<Rightarrow> ('i, 't) task_authority \<Rightarrow> ('x task_authority_error, 'r) result \<times> ('i, 't) task_authority" where
  "task_gone task_id a =
     (let a' = remove_binding task_id a in (Inl (if closed a' then Closed else TaskNotFound), a'))"

definition observe_current ::
  "('i, 'o, 't, 'u, 'x) task_manager \<Rightarrow> nat \<Rightarrow> rstr \<Rightarrow> nat \<Rightarrow> ('i, 't) task_authority
     \<Rightarrow> ('x task_authority_error, 't task_snapshot) result \<times> ('i, 't) task_authority" where
  "observe_current M b task_id now a =
     (let gen = generation (signal_of b a); (r, i) = tm_get M task_id (manager a); a' = a\<lparr>manager := i\<rparr>
      in case r of
           Inr task \<Rightarrow> (let (snapshot, a2) = observe_or_close M b task_id task gen now a' in (Inr snapshot, a2))
         | Inl _ \<Rightarrow> task_gone task_id a')"

definition get_task_for_principal ::
  "('i, 'o, 't, 'u, 'x) task_manager \<Rightarrow> rstr \<Rightarrow> rstr \<Rightarrow> nat \<Rightarrow> ('i, 't) task_authority
     \<Rightarrow> ('x task_authority_error, 't task_snapshot) result \<times> ('i, 't) task_authority" where
  "get_task_for_principal M caller task_id now a =
     (case binding_for caller task_id a of
        Inl e \<Rightarrow> (Inl e, a)
      | Inr b \<Rightarrow>
          (let gen = generation (signal_of b a); (r, i) = tm_get M task_id (manager a); a' = a\<lparr>manager := i\<rparr>
           in case r of
                Inr task \<Rightarrow> (let (snapshot, a2) = observe_or_close M b task_id task gen now a' in (Inr snapshot, a2))
              | Inl _ \<Rightarrow> task_gone task_id a'))"

definition after_intent ::
  "('i, 'o, 't, 'u, 'x) task_manager \<Rightarrow> nat \<Rightarrow> rstr \<Rightarrow> nat \<Rightarrow> ('x, unit) result \<times> 'i
     \<Rightarrow> ('i, 't) task_authority \<Rightarrow> ('x task_authority_error, unit) result \<times> ('i, 't) task_authority" where
  "after_intent M b task_id now outcome a =
     (let (r, i) = outcome; a' = a\<lparr>manager := i\<rparr>
      in case r of
           Inl _ \<Rightarrow> task_gone task_id a'
         | Inr _ \<Rightarrow>
             (case observe_current M b task_id now (binding_hint b a') of
                (Inl e, a2) \<Rightarrow> (Inl e, a2)
              | (Inr _, a2) \<Rightarrow> (Inr (), a2)))"

definition update_task_for_principal ::
  "('i, 'o, 't, 'u, 'x) task_manager \<Rightarrow> rstr \<Rightarrow> rstr \<Rightarrow> 'u \<Rightarrow> nat \<Rightarrow> ('i, 't) task_authority
     \<Rightarrow> ('x task_authority_error, unit) result \<times> ('i, 't) task_authority" where
  "update_task_for_principal M caller task_id input_responses now a =
     (case binding_for caller task_id a of
        Inl e \<Rightarrow> (Inl e, a)
      | Inr b \<Rightarrow> after_intent M b task_id now (tm_update M task_id input_responses (manager a)) a)"

definition cancel_task_for_principal ::
  "('i, 'o, 't, 'u, 'x) task_manager \<Rightarrow> rstr \<Rightarrow> rstr \<Rightarrow> nat \<Rightarrow> ('i, 't) task_authority
     \<Rightarrow> ('x task_authority_error, unit) result \<times> ('i, 't) task_authority" where
  "cancel_task_for_principal M caller task_id now a =
     (case binding_for caller task_id a of
        Inl e \<Rightarrow> (Inl e, a)
      | Inr b \<Rightarrow> after_intent M b task_id now (tm_cancel M task_id (manager a)) a)"

section \<open>Spawning\<close>

text \<open>
  A spawn runs in three parts between which other threads may run: admission, materialisation
  of the RMCP task with its lease, and publication of the binding.
\<close>

definition spawn_admit ::
  "bool \<Rightarrow> bool \<Rightarrow> ('i, 't) task_authority
     \<Rightarrow> ('x task_authority_error, unit) result \<times> ('i, 't) task_authority" where
  "spawn_admit runtime timer a =
     (case ensure_open a of
        Inl e \<Rightarrow> (Inl e, a)
      | Inr _ \<Rightarrow>
          if \<not> runtime then (Inl RuntimeUnavailable, a)
          else if \<not> timer then (Inl RuntimeTimerUnavailable, a)
          else (case reserve_capacity a of
                  (Inl e, a') \<Rightarrow> (Inl e, a')
                | (Inr _, a') \<Rightarrow> (ensure_open a', a')))"

definition spawn_materialize ::
  "('i, 'o, 't, 'u, 'x) task_manager \<Rightarrow> 'o \<Rightarrow> nat \<Rightarrow> ('i, 't) task_authority
     \<Rightarrow> ('x task_authority_error, rstr \<times> nat) result \<times> ('i, 't) task_authority" where
  "spawn_materialize M options now a =
     (let ttl = tm_ttl_ms M options;
          s = length (signals a);
          (spawned, i) = tm_spawn M options (manager a);
          a1 = a\<lparr>manager := i, signals := signals a @ [\<lparr>generation = 0, settlement_pending = False\<rparr>]\<rparr>
      in case spawned of
           None \<Rightarrow> (Inl StateUnavailable, close_and_drain M a1)
         | Some task_id \<Rightarrow>
             (Inr (task_id, s),
              a1\<lparr>reserved_leases := reserved_leases a1 - 1,
                 leases := AList.update task_id
                   \<lparr>l_ttl = ttl, l_created_at = now,
                    l_next_probe_at = Option.bind ttl (instant_checked_add now), l_generation = 0\<rparr> (leases a1)\<rparr>))"

definition publish_binding ::
  "rstr \<Rightarrow> rstr \<Rightarrow> 't task_binding \<Rightarrow> ('i, 't) task_authority \<Rightarrow> ('i, 't) task_authority" where
  "publish_binding owner task_id binding a =
     (let queue = (case map_of (observer_tasks a) owner of Some q \<Rightarrow> q | None \<Rightarrow> [])
      in a\<lparr>observer_tasks := AList.update owner (queue @ [task_id]) (observer_tasks a),
           observer_principals := (if queue = [] then observer_principals a @ [owner] else observer_principals a),
           arena := arena a @ [binding],
           bindings := AList.update task_id (length (arena a)) (bindings a)\<rparr>)"

definition spawn_publish ::
  "('i, 'o, 't, 'u, 'x) task_manager \<Rightarrow> rstr \<Rightarrow> rstr \<Rightarrow> nat \<Rightarrow> nat \<Rightarrow> ('i, 't) task_authority
     \<Rightarrow> ('x task_authority_error, rstr) result \<times> ('i, 't) task_authority" where
  "spawn_publish M owner task_id s now a =
     (if closed a then (Inl Closed, close_and_drain M a)
      else
        let (r, i) = tm_get M task_id (manager a); a1 = a\<lparr>manager := i\<rparr>
        in case r of
             Inl e \<Rightarrow>
               if closed a1 then (Inl Closed, close_and_drain M a1)
               else (Inl (Rmcp e), a1\<lparr>leases := AList.delete task_id (leases a1)\<rparr>)
           | Inr initial \<Rightarrow>
               if closed a1 then (Inl Closed, close_and_drain M a1)
               else if map_of (bindings a1) task_id \<noteq> None then (Inl StateUnavailable, close_and_drain M a1)
               else (Inr task_id, publish_binding owner task_id
                      \<lparr>b_principal = owner, b_revision = 1, b_task = initial, b_signal = s,
                       b_last_read_at = Some now\<rparr> a1))"

definition spawn_for_principal ::
  "('i, 'o, 't, 'u, 'x) task_manager \<Rightarrow> rstr \<Rightarrow> 'o \<Rightarrow> bool \<Rightarrow> bool \<Rightarrow> nat \<Rightarrow> ('i, 't) task_authority
     \<Rightarrow> ('x task_authority_error, rstr) result \<times> ('i, 't) task_authority" where
  "spawn_for_principal M owner options runtime timer now a =
     (case spawn_admit runtime timer a of
        (Inl e, a1) \<Rightarrow> (Inl e, a1)
      | (Inr _, a1) \<Rightarrow>
          (case spawn_materialize M options now a1 of
             (Inl e, a2) \<Rightarrow> (Inl e, a2)
           | (Inr (task_id, s), a2) \<Rightarrow> spawn_publish M owner task_id s now a2))"

section \<open>Waiting\<close>

datatype task_wait_condition = RevisionChange | Terminal

definition register_waiter ::
  "('i, 't) task_authority \<Rightarrow> ('x task_authority_error, unit) result \<times> ('i, 't) task_authority" where
  "register_waiter a =
     (if active_waiters a \<ge> max_waiters (config a)
      then (Inl WaiterCapacityReached, a\<lparr>rejected_waits := (rejected_waits a + 1) mod 2 ^ 64\<rparr>)
      else (Inr (), a\<lparr>active_waiters := active_waiters a + 1\<rparr>))"

definition waiter_lease_drop :: "('i, 't) task_authority \<Rightarrow> ('i, 't) task_authority" where
  "waiter_lease_drop a = a\<lparr>active_waiters := active_waiters a - 1\<rparr>"

definition wait_condition_ready ::
  "('i, 'o, 't, 'u, 'x) task_manager \<Rightarrow> task_wait_condition \<Rightarrow> nat \<Rightarrow> 't task_snapshot \<Rightarrow> bool" where
  "wait_condition_ready M condition baseline snapshot =
     (case condition of
        RevisionChange \<Rightarrow> snap_revision snapshot > baseline
      | Terminal \<Rightarrow> tm_is_terminal M (snap_task snapshot))"

definition clean_lease :: "nat \<Rightarrow> rstr \<Rightarrow> ('i, 't) task_authority \<Rightarrow> bool" where
  "clean_lease b task_id a =
     (case map_of (leases a) task_id of
        None \<Rightarrow> False
      | Some lease \<Rightarrow> l_generation lease = generation (signal_of b a) \<and> \<not> settlement_pending (signal_of b a))"

text \<open>The start of \<open>observe_wait_initial\<close>: a cached snapshot, or the generation to wait for.\<close>

definition wait_initial_start ::
  "nat \<Rightarrow> rstr \<Rightarrow> nat \<Rightarrow> ('i, 't) task_authority
     \<Rightarrow> ('t task_snapshot + nat) \<times> ('i, 't) task_authority" where
  "wait_initial_start b task_id now a =
     (if (case b_last_read_at (arena a ! b) of Some l \<Rightarrow> now - l < settlement_recheck | None \<Rightarrow> False)
         \<and> clean_lease b task_id a
      then (Inl (binding_snapshot b a), a\<lparr>coalesced_reads := (coalesced_reads a + 1) mod 2 ^ 64\<rparr>)
      else (let (target, a') = signal_hint (b_signal (arena a ! b)) False a in (Inr target, a')))"

definition wait_observation_snapshot ::
  "nat \<Rightarrow> rstr \<Rightarrow> nat \<Rightarrow> ('i, 't) task_authority
     \<Rightarrow> ('x task_authority_error, 't task_snapshot option) result" where
  "wait_observation_snapshot b task_id target a =
     (case map_of (leases a) task_id of
        None \<Rightarrow> if closed a then Inl Closed else Inl TaskNotFound
      | Some lease \<Rightarrow>
          if l_generation lease \<ge> target then Inr (Some (binding_snapshot b a))
          else if closed a then Inl Closed else Inr None)"

text \<open>One turn of the loop of \<open>wait\<close>: \<open>None\<close> means waiting for the next notification.\<close>

definition wait_turn ::
  "('i, 'o, 't, 'u, 'x) task_manager \<Rightarrow> task_wait_condition \<Rightarrow> nat \<Rightarrow> nat \<Rightarrow> ('i, 't) task_authority
     \<Rightarrow> ('x task_authority_error, 't task_snapshot option) result" where
  "wait_turn M condition baseline b a =
     (if wait_condition_ready M condition baseline (binding_snapshot b a) then Inr (Some (binding_snapshot b a))
      else if closed a then Inl Closed else Inr None)"

end
