(* ===== verification/Task_Observer.thy ===== *)
theory Task_Observer
  imports Task_Authority
begin

text \<open>
  The shared observer of the task authority (\<open>observation_loop\<close> in \<open>authority.rs\<close>): the fair
  selection of the next due task, the aggregate read budget, and the read with its effects on
  bindings, leases and queues.  The second half runs the whole authority as a machine in which
  the parts of concurrent spawns, the observer's two phases and all other calls interleave,
  and proves its invariant.
\<close>

section \<open>Selecting the next read\<close>

definition task_due :: "nat \<Rightarrow> ('i, 't) task_authority \<Rightarrow> rstr \<Rightarrow> nat \<Rightarrow> bool" where
  "task_due now a task_id b =
     (case map_of (leases a) task_id of
        None \<Rightarrow> False
      | Some lease \<Rightarrow>
          generation (signal_of b a) \<noteq> l_generation lease
          \<or> (case l_next_probe_at lease of Some deadline \<Rightarrow> deadline \<le> now | None \<Rightarrow> False)
          \<or> (settlement_pending (signal_of b a)
             \<and> (case l_next_probe_at lease of Some deadline \<Rightarrow> deadline \<le> now | None \<Rightarrow> True)))"

definition option_min :: "nat option \<Rightarrow> nat option \<Rightarrow> nat option" where
  "option_min x y =
     (case y of None \<Rightarrow> x | Some d \<Rightarrow> Some (case x of None \<Rightarrow> d | Some e \<Rightarrow> min e d))"

fun scan_tasks ::
  "nat \<Rightarrow> ('i, 't) task_authority \<Rightarrow> rstr list \<Rightarrow> (rstr \<times> nat \<times> nat) option \<Rightarrow> nat option
     \<Rightarrow> rstr list \<times> (rstr \<times> nat \<times> nat) option \<times> nat option" where
  "scan_tasks now a [] selected earliest = ([], selected, earliest)"
| "scan_tasks now a (task_id # queue) selected earliest =
     (case map_of (bindings a) task_id of
        None \<Rightarrow> scan_tasks now a queue selected earliest
      | Some b \<Rightarrow>
          let selected' = (if task_due now a task_id b \<and> selected = None
                           then Some (task_id, b, generation (signal_of b a)) else selected);
              earliest' = option_min earliest (Option.bind (map_of (leases a) task_id) l_next_probe_at);
              (kept, r) = scan_tasks now a queue selected' earliest'
          in (task_id # kept, r))"

definition queue_for :: "('i, 't) task_authority \<Rightarrow> rstr \<Rightarrow> rstr list" where
  "queue_for a p = (case map_of (observer_tasks a) p of Some q \<Rightarrow> q | None \<Rightarrow> [])"

fun scan_principals ::
  "nat \<Rightarrow> nat \<Rightarrow> nat option \<Rightarrow> ('i, 't) task_authority
     \<Rightarrow> (rstr \<times> nat \<times> nat) option \<times> nat option \<times> ('i, 't) task_authority" where
  "scan_principals now 0 earliest a = (None, earliest, a)"
| "scan_principals now (Suc turns) earliest a =
     (case observer_principals a of
        [] \<Rightarrow> (None, earliest, a)
      | p # rest \<Rightarrow>
          let queue = queue_for a p in
          if queue = []
          then scan_principals now turns earliest
                 (a\<lparr>observer_tasks := AList.delete p (observer_tasks a), observer_principals := rest\<rparr>)
          else
            let (kept, selected, earliest') = scan_tasks now a queue None earliest;
                tasks = AList.update p kept (observer_tasks a)
            in if selected \<noteq> None
               then (selected, earliest', a\<lparr>observer_tasks := tasks, observer_principals := p # rest\<rparr>)
               else if kept \<noteq> []
               then scan_principals now turns earliest'
                      (a\<lparr>observer_tasks := tasks, observer_principals := rest @ [p]\<rparr>)
               else scan_principals now turns earliest'
                      (a\<lparr>observer_tasks := AList.delete p tasks, observer_principals := rest\<rparr>))"

definition observer_select ::
  "nat \<Rightarrow> ('i, 't) task_authority
     \<Rightarrow> (rstr \<times> nat \<times> nat) option \<times> nat option \<times> ('i, 't) task_authority" where
  "observer_select now a =
     (if closed a then (None, None, a)
      else scan_principals now (length (observer_principals a))
             (fold (\<lambda>(_, lease) e. option_min e (l_next_probe_at lease)) (leases a) None) a)"

section \<open>The read budget\<close>

fun expire_window :: "nat \<Rightarrow> nat list \<Rightarrow> nat list" where
  "expire_window now [] = []"
| "expire_window now (t # w) = (if now - t \<ge> 1000 then expire_window now w else t # w)"

definition fallback_admit :: "nat \<Rightarrow> nat \<Rightarrow> nat list \<Rightarrow> nat \<times> nat list" where
  "fallback_admit now limit window =
     (let window = expire_window now window in
      if length window < limit then (0, window @ [now])
      else (case window of [] \<Rightarrow> 0 | t # _ \<Rightarrow> 1000 - (now - t), window))"

section \<open>Performing a read\<close>

definition rotate_to_back :: "rstr list \<Rightarrow> rstr \<Rightarrow> rstr list" where
  "rotate_to_back queue x = (if x \<in> set queue then remove1 x queue @ [x] else queue)"

definition rotate_observed :: "rstr \<Rightarrow> rstr \<Rightarrow> ('i, 't) task_authority \<Rightarrow> ('i, 't) task_authority" where
  "rotate_observed p task_id a =
     a\<lparr>observer_tasks := AList.update p (rotate_to_back (queue_for a p) task_id) (observer_tasks a),
       observer_principals := rotate_to_back (observer_principals a) p\<rparr>"

definition coalesce_lease ::
  "rstr \<Rightarrow> nat \<Rightarrow> ('i, 't) task_authority \<Rightarrow> ('i, 't) task_authority" where
  "coalesce_lease task_id last_read a =
     (case map_of (leases a) task_id of
        None \<Rightarrow> a
      | Some lease \<Rightarrow>
          a\<lparr>leases := AList.update task_id
              (lease\<lparr>l_next_probe_at :=
                 Option.bind (l_ttl lease) (\<lambda>ttl.
                   case (instant_checked_add (l_created_at lease) ttl,
                         instant_checked_add last_read settlement_recheck) of
                     (Some deadline, Some coalesce_deadline) \<Rightarrow> Some (max deadline coalesce_deadline)
                   | _ \<Rightarrow> None)\<rparr>) (leases a)\<rparr>)"

definition lease_after_read ::
  "('i, 'o, 't, 'u, 'x) task_manager \<Rightarrow> rstr \<Rightarrow> nat \<Rightarrow> nat \<Rightarrow> bool \<Rightarrow> nat \<Rightarrow> ('i, 't) task_authority
     \<Rightarrow> ('i, 't) task_authority" where
  "lease_after_read M task_id b gen terminal now a =
     (case map_of (leases a) task_id of
        None \<Rightarrow> a
      | Some lease \<Rightarrow>
          let sig = signal_of b a;
              lease = (if generation sig = gen then lease\<lparr>l_generation := generation sig\<rparr> else lease);
              probe = (if terminal then Option.bind (l_ttl lease) (instant_checked_add now)
                       else if settlement_pending sig then instant_checked_add now settlement_recheck
                       else Option.bind (l_ttl lease) (instant_checked_add (l_created_at lease)))
          in a\<lparr>leases := AList.update task_id (lease\<lparr>l_next_probe_at := probe\<rparr>) (leases a)\<rparr>)"

definition clear_settlement :: "nat \<Rightarrow> ('i, 't) task_authority \<Rightarrow> ('i, 't) task_authority" where
  "clear_settlement b a =
     a\<lparr>signals := (signals a)[b_signal (arena a ! b) := (signal_of b a)\<lparr>settlement_pending := False\<rparr>]\<rparr>"

definition observer_read ::
  "('i, 'o, 't, 'u, 'x) task_manager \<Rightarrow> rstr \<Rightarrow> nat \<Rightarrow> nat \<Rightarrow> nat \<Rightarrow> ('i, 't) task_authority
     \<Rightarrow> ('i, 't) task_authority" where
  "observer_read M task_id b gen now a =
     (let recent = (case b_last_read_at (arena a ! b) of
                      Some l \<Rightarrow> if now - l < settlement_recheck then Some l else None
                    | None \<Rightarrow> None);
          owner = b_principal (arena a ! b)
      in case (recent, clean_lease b task_id a) of
           (Some last_read, True) \<Rightarrow> coalesce_lease task_id last_read a
         | _ \<Rightarrow>
           let (r, i) = tm_get M task_id (manager a);
               a1 = set_last_read_at b now
                      (a\<lparr>fallback_reads := (fallback_reads a + 1) mod 2 ^ 64, manager := i\<rparr>)
           in case r of
                Inr task \<Rightarrow>
                  let a2 = snd (binding_observe b task a1);
                      terminal = tm_is_terminal M task;
                      a3 = (if terminal then clear_settlement b a2 else a2)
                  in rotate_observed owner task_id (lease_after_read M task_id b gen terminal now a3)
              | Inl _ \<Rightarrow>
                  binding_hint b (rotate_observed owner task_id
                    (a1\<lparr>leases := AList.delete task_id (leases a1),
                        bindings := AList.delete task_id (bindings a1)\<rparr>)))"

text \<open>The observer's turn after a selection: spend a slot of the budget, or give the turn up.\<close>

definition observer_turn ::
  "('i, 'o, 't, 'u, 'x) task_manager \<Rightarrow> rstr \<times> nat \<times> nat \<Rightarrow> nat \<Rightarrow> ('i, 't) task_authority
     \<Rightarrow> nat \<times> ('i, 't) task_authority" where
  "observer_turn M selected now a =
     (let (task_id, b, gen) = selected;
          (delay, window) = fallback_admit now (fallback_reads_per_second (config a)) (fallback_window a);
          a1 = a\<lparr>fallback_window := window\<rparr>
      in if delay \<noteq> 0 then (delay, a1) else (0, observer_read M task_id b gen now a1))"

section \<open>Well-formed authorities\<close>

definition owner_of :: "('i, 't) task_authority \<Rightarrow> rstr \<Rightarrow> rstr option" where
  "owner_of a task_id = map_option (\<lambda>b. map b_principal (arena a) ! b) (map_of (bindings a) task_id)"

definition bindings_wf :: "('i, 't) task_authority \<Rightarrow> bool" where
  "bindings_wf a \<longleftrightarrow>
     distinct (map fst (bindings a)) \<and> distinct (map fst (leases a))
     \<and> list_all (\<lambda>(_, b). b < length (map b_principal (arena a))) (bindings a)
     \<and> list_all (\<lambda>s. s < length (signals a)) (map b_signal (arena a))
     \<and> (closed a \<longrightarrow> bindings a = []) \<and> active_waiters a \<le> max_waiters (config a)"

definition queues_wf :: "('i, 't) task_authority \<Rightarrow> bool" where
  "queues_wf a \<longleftrightarrow>
     distinct (observer_principals a)
     \<and> (\<forall>p. p \<in> set (observer_principals a) \<longleftrightarrow> queue_for a p \<noteq> [])
     \<and> (\<forall>task_id p. owner_of a task_id = Some p \<longrightarrow> task_id \<in> set (queue_for a p))"

definition authority_wf :: "('i, 't) task_authority \<Rightarrow> bool" where
  "authority_wf a \<longleftrightarrow> bindings_wf a \<and> queues_wf a"

text \<open>The part of the state well-formedness and ownership depend on.\<close>

definition authority_view where
  "authority_view a =
     (bindings a, map fst (leases a), (reserved_leases a, active_waiters a, closed a, config a),
      (observer_principals a, observer_tasks a),
      (map b_principal (arena a), map b_signal (arena a), length (signals a)))"

definition keeps :: "('i, 't) task_authority \<Rightarrow> ('i, 't) task_authority \<Rightarrow> bool" where
  "keeps a a' \<longleftrightarrow>
     (authority_wf a \<longrightarrow> authority_wf a') \<and> length (leases a') \<le> length (leases a)
     \<and> reserved_leases a' = reserved_leases a \<and> closed a' = closed a \<and> config a' = config a
     \<and> length (arena a') = length (arena a) \<and> length (signals a') = length (signals a)
     \<and> (\<forall>task_id. owner_of a' task_id = owner_of a task_id \<or> owner_of a' task_id = None)"

lemma keeps_trans [trans]:
  assumes "keeps a b" and "keeps b c" shows "keeps a c"
proof -
  have "owner_of c i = owner_of a i \<or> owner_of c i = None" for i
    using assms unfolding keeps_def by metis
  moreover have "length (leases c) \<le> length (leases a)"
    using assms unfolding keeps_def by (meson order_trans)
  ultimately show ?thesis using assms by (simp add: keeps_def)
qed

lemma keeps_view:
  assumes "authority_view a' = authority_view a" shows "keeps a a'"
proof -
  have l: "length (leases a') = length (leases a)" "length (arena a') = length (arena a)"
    using assms by (auto simp: authority_view_def dest: arg_cong [of "map _ _" _ length])
  have "owner_of a' = owner_of a" "queue_for a' = queue_for a"
    using assms by (auto simp: authority_view_def owner_of_def queue_for_def fun_eq_iff)
  then have "authority_wf a' = authority_wf a"
    using assms by (simp only: authority_wf_def queues_wf_def bindings_wf_def authority_view_def prod.inject)
  then show ?thesis using assms l \<open>owner_of a' = owner_of a\<close>
    by (simp add: keeps_def authority_view_def)
qed

lemma keeps_refl [simp]: "keeps a a"
  by (rule keeps_view) simp

lemma map_update_same: "f x = f (xs ! i) \<Longrightarrow> map f (xs[i := x]) = map f xs"
  by (cases "i < length xs") (simp_all add: map_update list_update_same_conv list_update_beyond)

lemma map_fst_update: "map_of al k = Some v \<Longrightarrow> map fst (AList.update k w al) = map fst al"
  using map_of_SomeD [of al k v] by (simp add: update_keys) force

lemma view_signal_hint [simp]: "authority_view (snd (signal_hint s f a)) = authority_view a"
  by (simp add: signal_hint_def authority_view_def Let_def)

lemma view_binding_hint [simp]: "authority_view (binding_hint b a) = authority_view a"
  by (simp add: binding_hint_def)

lemma view_observe [simp]: "authority_view (snd (binding_observe b task a)) = authority_view a"
  by (simp add: binding_observe_def authority_view_def Let_def map_update_same)

lemma view_last_read [simp]: "authority_view (set_last_read_at b now a) = authority_view a"
  by (simp add: set_last_read_at_def authority_view_def map_update_same)

lemma view_clear [simp]: "authority_view (clear_settlement b a) = authority_view a"
  by (simp add: clear_settlement_def authority_view_def)

lemma view_fields [simp]:
  "authority_view (a\<lparr>manager := i\<rparr>) = authority_view a"
  "authority_view (a\<lparr>coalesced_reads := n\<rparr>) = authority_view a"
  "authority_view (a\<lparr>rejected_waits := n\<rparr>) = authority_view a"
  "authority_view (a\<lparr>fallback_window := w\<rparr>) = authority_view a"
  "authority_view (a\<lparr>fallback_reads := n\<rparr>) = authority_view a"
  by (simp_all add: authority_view_def)

lemma view_lease_observed [simp]:
  "authority_view (lease_observed M b task_id snap gen now a) = authority_view a"
  by (simp add: lease_observed_def authority_view_def Let_def map_fst_update split: option.splits)

lemma view_observe_or_close [simp]:
  "authority_view (snd (observe_or_close M b task_id task gen now a)) = authority_view a"
  by (simp add: observe_or_close_def case_prod_unfold Let_def)

lemma view_lease_after_read [simp]:
  "authority_view (lease_after_read M task_id b gen terminal now a) = authority_view a"
  by (simp add: lease_after_read_def authority_view_def Let_def map_fst_update split: option.splits)

lemma view_coalesce [simp]: "authority_view (coalesce_lease task_id l a) = authority_view a"
  by (simp add: coalesce_lease_def authority_view_def map_fst_update split: option.splits)

section \<open>Operations that keep the bindings of others\<close>

lemma owner_delete:
  "bindings a' = AList.delete k (bindings a) \<Longrightarrow> map b_principal (arena a') = map b_principal (arena a)
   \<Longrightarrow> owner_of a' i = (if i = k then None else owner_of a i)"
  by (simp add: owner_of_def delete_conv')

lemma keeps_forget:
  "keeps a (a\<lparr>leases := AList.delete k (leases a), bindings := AList.delete k (bindings a)\<rparr>)"
  (is "keeps a ?a'")
proof -
  have own: "owner_of ?a' i = (if i = k then None else owner_of a i)" for i
    by (rule owner_delete) simp_all
  moreover have "queue_for ?a' = queue_for a" by (simp add: queue_for_def fun_eq_iff)
  ultimately have "queues_wf a \<Longrightarrow> queues_wf ?a'"
    by (auto simp: queues_wf_def split: if_splits)
  moreover have "bindings_wf a \<Longrightarrow> bindings_wf ?a'"
    by (auto simp: bindings_wf_def AList.delete_eq distinct_map_filter list_all_iff)
  ultimately show ?thesis using own
    by (auto simp: keeps_def authority_wf_def AList.delete_eq intro: length_filter_le)
qed

lemma keeps_remove_binding: "keeps a (remove_binding k a)"
proof (cases "map_of (bindings a) k")
  case None
  then show ?thesis using keeps_forget [of a k] by (simp add: remove_binding_def)
next
  case (Some b)
  then show ?thesis using keeps_trans [OF keeps_forget [of a k] keeps_view [OF view_binding_hint]]
    by (simp add: remove_binding_def)
qed

lemma keeps_task_gone: "keeps a (snd (task_gone k a))"
  by (simp add: task_gone_def keeps_remove_binding Let_def)

lemma keeps_manager: "keeps a (a\<lparr>manager := i\<rparr>)"
  by (rule keeps_view) simp

text \<open>A read either observes or finds the task gone.\<close>

lemma keeps_read:
  "keeps a (snd (let (r, i) = tm_get M k (manager a); a' = a\<lparr>manager := i\<rparr>
                 in case r of
                      Inr task \<Rightarrow> (let (snapshot, a2) = observe_or_close M b k task gen now a' in (Inr snapshot, a2))
                    | Inl _ \<Rightarrow> task_gone k a'))"
proof -
  obtain r i where g: "tm_get M k (manager a) = (r, i)" by (cases "tm_get M k (manager a)")
  show ?thesis
  proof (cases r)
    case (Inl e)
    then show ?thesis using keeps_trans [OF keeps_manager keeps_task_gone] by (simp add: g)
  next
    case (Inr task)
    have "keeps a (snd (observe_or_close M b k task gen now (a\<lparr>manager := i\<rparr>)))"
      by (rule keeps_view) simp
    then show ?thesis by (simp add: g Inr case_prod_unfold Let_def)
  qed
qed

lemma keeps_observe_current: "keeps a (snd (observe_current M b k now a))"
  unfolding observe_current_def Let_def by (rule keeps_read [unfolded Let_def])

lemma get_task_eq:
  "get_task_for_principal M caller k now a =
     (case binding_for caller k a of Inl e \<Rightarrow> (Inl e, a) | Inr b \<Rightarrow> observe_current M b k now a)"
  unfolding get_task_for_principal_def observe_current_def by (rule refl)

lemma keeps_get: "keeps a (snd (get_task_for_principal M caller k now a))"
  by (simp add: get_task_eq keeps_observe_current split: sum.split)

lemma keeps_after_intent: "keeps a (snd (after_intent M b k now outcome a))"
proof -
  obtain r i where o: "outcome = (r, i)" by (cases outcome)
  show ?thesis
  proof (cases r)
    case (Inl e)
    then show ?thesis using keeps_trans [OF keeps_manager keeps_task_gone] by (simp add: after_intent_def o)
  next
    case (Inr u)
    have "keeps a (binding_hint b (a\<lparr>manager := i\<rparr>))" by (rule keeps_view) simp
    from keeps_trans [OF this keeps_observe_current]
    have "keeps a (snd (observe_current M b k now (binding_hint b (a\<lparr>manager := i\<rparr>))))" .
    then show ?thesis by (auto simp: after_intent_def o Inr split: prod.splits sum.splits)
  qed
qed

lemma keeps_update: "keeps a (snd (update_task_for_principal M caller k u now a))"
  by (simp add: update_task_for_principal_def keeps_after_intent split: sum.splits)

lemma keeps_cancel: "keeps a (snd (cancel_task_for_principal M caller k now a))"
  by (simp add: cancel_task_for_principal_def keeps_after_intent split: sum.splits)

lemma keeps_waiters:
  assumes "active_waiters a \<le> max_waiters (config a) \<Longrightarrow> n \<le> max_waiters (config a)"
  shows "keeps a (a\<lparr>active_waiters := n\<rparr>)" (is "keeps a ?a'")
proof -
  have "owner_of ?a' = owner_of a" "queue_for ?a' = queue_for a"
    by (simp_all add: owner_of_def queue_for_def fun_eq_iff)
  then show ?thesis using assms
    by (auto simp: keeps_def authority_wf_def bindings_wf_def queues_wf_def)
qed

lemma keeps_register_waiter: "keeps a (snd (register_waiter a))"
  by (auto simp: register_waiter_def intro: keeps_waiters keeps_view)

lemma keeps_drop_waiter: "keeps a (waiter_lease_drop a)"
  unfolding waiter_lease_drop_def by (rule keeps_waiters) simp

lemma keeps_wait_start: "keeps a (snd (wait_initial_start b k now a))"
  by (rule keeps_view) (simp add: wait_initial_start_def case_prod_unfold Let_def)

lemma keeps_hint: "keeps a (snd (signal_hint s f a))"
  by (rule keeps_view) simp

section \<open>The selection\<close>

definition bound :: "('i, 't) task_authority \<Rightarrow> rstr \<Rightarrow> bool" where
  "bound a i \<longleftrightarrow> map_of (bindings a) i \<noteq> None"

definition due_now :: "nat \<Rightarrow> ('i, 't) task_authority \<Rightarrow> rstr \<Rightarrow> bool" where
  "due_now now a i = (case map_of (bindings a) i of None \<Rightarrow> False | Some b \<Rightarrow> task_due now a i b)"

definition first_due :: "nat \<Rightarrow> ('i, 't) task_authority \<Rightarrow> rstr list \<Rightarrow> (rstr \<times> nat \<times> nat) option" where
  "first_due now a q =
     map_option (\<lambda>i. (i, the (map_of (bindings a) i), generation (signal_of (the (map_of (bindings a) i)) a)))
       (find (due_now now a) q)"

lemma scan_tasks_kept: "fst (scan_tasks now a q sel e) = filter (bound a) q"
  by (induction q arbitrary: sel e) (simp_all add: bound_def Let_def case_prod_unfold split: option.split)

lemma scan_tasks_selected:
  "fst (snd (scan_tasks now a q sel e)) = (if sel \<noteq> None then sel else first_due now a q)"
proof (induction q arbitrary: sel e)
  case (Cons i q)
  then show ?case
    by (cases "map_of (bindings a) i"; cases sel)
       (auto simp: first_due_def due_now_def Let_def case_prod_unfold)
next
  case Nil
  then show ?case by (cases sel) (simp_all add: first_due_def)
qed

lemma first_due_Some:
  assumes "first_due now a q = Some (i, b, g)"
  shows "i \<in> set q \<and> map_of (bindings a) i = Some b \<and> task_due now a i b \<and> g = generation (signal_of b a)"
  using assms
  by (auto simp: first_due_def due_now_def find_Some_iff split: option.splits)

lemma first_due_None: "first_due now a q = None \<longleftrightarrow> (\<forall>i\<in>set q. \<not> due_now now a i)"
  by (auto simp: first_due_def find_None_iff)

text \<open>The scan one principal at a time, without the bookkeeping of the next deadline.\<close>

lemma scan_principals_Suc:
  "observer_principals a = p # rest \<Longrightarrow>
     \<exists>e'. scan_principals now (Suc turns) e a =
       (let kept = filter (bound a) (queue_for a p);
            T = AList.update p kept (observer_tasks a)
        in if queue_for a p = []
           then scan_principals now turns e' (a\<lparr>observer_tasks := AList.delete p (observer_tasks a), observer_principals := rest\<rparr>)
           else if first_due now a (queue_for a p) \<noteq> None
           then (first_due now a (queue_for a p), e', a\<lparr>observer_tasks := T, observer_principals := p # rest\<rparr>)
           else if kept \<noteq> [] then scan_principals now turns e' (a\<lparr>observer_tasks := T, observer_principals := rest @ [p]\<rparr>)
           else scan_principals now turns e' (a\<lparr>observer_tasks := AList.delete p T, observer_principals := rest\<rparr>))"
  using scan_tasks_kept [of now a "queue_for a p" None e] scan_tasks_selected [of now a "queue_for a p" None e]
  by (cases "scan_tasks now a (queue_for a p) None e") (auto simp: Let_def)

lemma queue_for_update:
  "queue_for (a\<lparr>observer_tasks := AList.update p q (observer_tasks a), observer_principals := P\<rparr>) x =
     (if x = p then q else queue_for a x)"
  by (auto simp: queue_for_def update_conv)

lemma queue_for_delete:
  "queue_for (a\<lparr>observer_tasks := AList.delete p (observer_tasks a), observer_principals := P\<rparr>) x =
     (if x = p then [] else queue_for a x)"
  by (auto simp: queue_for_def delete_conv')

lemma queue_for_delete_update:
  "queue_for (a\<lparr>observer_tasks := AList.delete p (AList.update p q (observer_tasks a)), observer_principals := P\<rparr>) x =
     (if x = p then [] else queue_for a x)"
  by (auto simp: queue_for_def delete_conv' update_conv)

lemmas queue_for_set = queue_for_update queue_for_delete queue_for_delete_update

lemma owner_queues [simp]:
  "owner_of (a\<lparr>observer_tasks := T, observer_principals := P\<rparr>) = owner_of a"
  by (simp add: owner_of_def fun_eq_iff)

lemma owner_bound: "owner_of a i = Some p \<Longrightarrow> bound a i"
  by (auto simp: owner_of_def bound_def)

lemma keeps_queues:
  assumes "queues_wf a \<Longrightarrow> queues_wf (a\<lparr>observer_tasks := T, observer_principals := P\<rparr>)"
  shows "keeps a (a\<lparr>observer_tasks := T, observer_principals := P\<rparr>)"
  using assms by (simp add: keeps_def authority_wf_def bindings_wf_def)

lemma queues_wf_forget:
  assumes "queues_wf a" and "observer_principals a = p # rest"
    and "\<And>i. owner_of a i \<noteq> Some p" and "T = observer_tasks a \<or> T = AList.update p q (observer_tasks a)"
  shows "queues_wf (a\<lparr>observer_tasks := AList.delete p T, observer_principals := rest\<rparr>)"
  using assms by (auto simp: queues_wf_def queue_for_set split: if_splits)

lemma queues_wf_keep:
  assumes "queues_wf a" and "observer_principals a = p # rest" and "filter (bound a) (queue_for a p) \<noteq> []"
    and "P = p # rest \<or> P = rest @ [p]"
  shows "queues_wf (a\<lparr>observer_tasks := AList.update p (filter (bound a) (queue_for a p)) (observer_tasks a),
                      observer_principals := P\<rparr>)"
  using assms by (auto simp: queues_wf_def queue_for_set dest: owner_bound split: if_splits)

lemma keeps_scan: "keeps a (snd (snd (scan_principals now turns e a)))"
proof (induction turns arbitrary: a e)
  case (Suc turns)
  show ?case
  proof (cases "observer_principals a")
    case (Cons p rest)
    let ?kept = "filter (bound a) (queue_for a p)"
    let ?T = "AList.update p ?kept (observer_tasks a)"
    have unowned: "owner_of a i \<noteq> Some p" if "queues_wf a" "?kept = []" for i
      using that owner_bound [of a i p] by (auto simp: queues_wf_def filter_empty_conv)
    have "keeps a (a\<lparr>observer_tasks := AList.delete p T, observer_principals := rest\<rparr>)"
      if "?kept = []" "T = observer_tasks a \<or> T = ?T" for T
      by (intro keeps_queues queues_wf_forget) (use Cons unowned that in auto)
    moreover have "keeps a (a\<lparr>observer_tasks := ?T, observer_principals := P\<rparr>)"
      if "?kept \<noteq> []" "P = p # rest \<or> P = rest @ [p]" for P
      by (intro keeps_queues queues_wf_keep) (use Cons that in auto)
    moreover have "?kept \<noteq> []" if "first_due now a (queue_for a p) \<noteq> None"
      using that first_due_Some [of now a "queue_for a p"] by (force simp: filter_empty_conv bound_def)
    moreover obtain e' where "scan_principals now (Suc turns) e a =
       (if queue_for a p = []
        then scan_principals now turns e' (a\<lparr>observer_tasks := AList.delete p (observer_tasks a), observer_principals := rest\<rparr>)
        else if first_due now a (queue_for a p) \<noteq> None
        then (first_due now a (queue_for a p), e', a\<lparr>observer_tasks := ?T, observer_principals := p # rest\<rparr>)
        else if ?kept \<noteq> [] then scan_principals now turns e' (a\<lparr>observer_tasks := ?T, observer_principals := rest @ [p]\<rparr>)
        else scan_principals now turns e' (a\<lparr>observer_tasks := AList.delete p ?T, observer_principals := rest\<rparr>))"
      using scan_principals_Suc [OF Cons, of now turns e] unfolding Let_def by blast
    ultimately show ?thesis using keeps_trans [OF _ Suc.IH] by (auto simp del: scan_principals.simps)
  qed simp
qed simp

lemma keeps_select: "keeps a (snd (snd (observer_select now a)))"
  by (simp add: observer_select_def keeps_scan)

text \<open>A scan finds a due task if one is queued behind the first \<open>turns\<close> principals.\<close>

lemma task_due_queues [simp]:
  "task_due now (a\<lparr>observer_tasks := T, observer_principals := P\<rparr>) i b = task_due now a i b"
  "signal_of b (a\<lparr>observer_tasks := T, observer_principals := P\<rparr>) = signal_of b a"
  by (simp_all add: task_due_def signal_of_def split: option.split)

lemma due_now_queues [simp]:
  "due_now now (a\<lparr>observer_tasks := T, observer_principals := P\<rparr>) = due_now now a"
  by (simp add: due_now_def fun_eq_iff split: option.split)

lemma scan_finds_due:
  assumes "p \<in> set (take turns (observer_principals a))" and "i \<in> set (queue_for a p)" and "due_now now a i"
  shows "fst (scan_principals now turns e a) \<noteq> None"
  using assms
proof (induction turns arbitrary: a e)
  case (Suc turns)
  obtain q rest where Cons: "observer_principals a = q # rest"
    using Suc.prems(1) by (cases "observer_principals a") auto
  let ?kept = "filter (bound a) (queue_for a q)"
  let ?T = "AList.update q ?kept (observer_tasks a)"
  obtain e' where s: "scan_principals now (Suc turns) e a =
       (if queue_for a q = []
        then scan_principals now turns e' (a\<lparr>observer_tasks := AList.delete q (observer_tasks a), observer_principals := rest\<rparr>)
        else if first_due now a (queue_for a q) \<noteq> None
        then (first_due now a (queue_for a q), e', a\<lparr>observer_tasks := ?T, observer_principals := q # rest\<rparr>)
        else if ?kept \<noteq> [] then scan_principals now turns e' (a\<lparr>observer_tasks := ?T, observer_principals := rest @ [q]\<rparr>)
        else scan_principals now turns e' (a\<lparr>observer_tasks := AList.delete q ?T, observer_principals := rest\<rparr>))"
    using scan_principals_Suc [OF Cons, of now turns e] unfolding Let_def by blast
  show ?case
  proof (cases "first_due now a (queue_for a q) = None")
    case True
    then have "p \<noteq> q" using Suc.prems(2,3) by (auto simp: first_due_None)
    then have "p \<in> set (take turns rest)" using Suc.prems(1) by (simp add: Cons)
    then have *: "p \<in> set (take turns rest)" "p \<in> set (take turns (rest @ [q]))" by auto
    have IH: "fst (scan_principals now turns e' (a\<lparr>observer_tasks := T, observer_principals := P\<rparr>)) \<noteq> None"
      if "p \<in> set (take turns P)"
        "queue_for (a\<lparr>observer_tasks := T, observer_principals := P\<rparr>) p = queue_for a p" for T P
      by (rule Suc.IH) (use that Suc.prems(2,3) in simp_all)
    note steps = IH [OF *(1), of "AList.delete q (observer_tasks a)"] IH [OF *(2), of ?T]
      IH [OF *(1), of "AList.delete q ?T"]
    show ?thesis
      by (cases "queue_for a q = []"; cases "?kept = []")
         (use steps \<open>p \<noteq> q\<close> in \<open>simp_all only: s True queue_for_set if_True if_False simp_thms\<close>)
  next
    case False
    moreover from this have "queue_for a q \<noteq> []" by (auto simp: first_due_def)
    ultimately show ?thesis unfolding s by simp
  qed
qed simp

lemma scan_selects_due:
  assumes "fst (scan_principals now turns e a) = Some (i, b, g)"
  shows "map_of (bindings a) i = Some b \<and> task_due now a i b \<and> g = generation (signal_of b a)"
  using assms
proof (induction turns arbitrary: a e)
  case (Suc turns)
  show ?case
  proof (cases "observer_principals a")
    case Nil
    then show ?thesis using Suc.prems by simp
  next
    case (Cons q rest)
    from scan_principals_Suc [OF Cons, of now turns e] Suc.prems show ?thesis
      by (auto simp: Let_def simp del: scan_principals.simps
          split: if_splits dest!: Suc.IH first_due_Some)
  qed
qed simp

section \<open>Reads keep the bindings\<close>

lemma set_rotate [simp]: "set (rotate_to_back q x) = set q"
proof -
  have "insert x (set (remove1 x q)) = insert x (set q)" by (induction q) auto
  then show ?thesis by (auto simp: rotate_to_back_def)
qed

lemma distinct_rotate: "distinct q \<Longrightarrow> distinct (rotate_to_back q x)"
  by (auto simp: rotate_to_back_def)

lemma rotate_Nil_iff [simp]: "rotate_to_back q x = [] \<longleftrightarrow> q = []"
  using set_rotate [of q x] by (metis set_empty)

lemma keeps_rotate: "keeps a (rotate_observed p i a)"
  unfolding rotate_observed_def
  by (intro keeps_queues) (auto simp: queues_wf_def queue_for_update distinct_rotate)

lemma keeps_observer_read: "keeps a (observer_read M i b gen now a)"
proof -
  obtain r st where g: "tm_get M i (manager a) = (r, st)" by (cases "tm_get M i (manager a)")
  define a1 where "a1 = set_last_read_at b now
    (a\<lparr>fallback_reads := (fallback_reads a + 1) mod 2 ^ 64, manager := st\<rparr>)"
  have v: "authority_view a1 = authority_view a" by (simp add: a1_def)
  have ok: "keeps a (rotate_observed p i (lease_after_read M i b gen f now
      (if f then clear_settlement b (snd (binding_observe b task a1)) else snd (binding_observe b task a1))))"
    for p f task
    by (rule keeps_trans [OF keeps_view keeps_rotate]) (simp add: v)
  have gone: "keeps a (binding_hint b (rotate_observed p i
      (a1\<lparr>leases := AList.delete i (leases a1), bindings := AList.delete i (bindings a1)\<rparr>)))" for p
    by (rule keeps_trans [OF keeps_trans [OF keeps_trans [OF keeps_view keeps_forget] keeps_rotate] keeps_view])
       (simp_all add: v)
  have "keeps a (coalesce_lease i l a)" for l by (rule keeps_view) simp
  with ok gone show ?thesis
    unfolding observer_read_def Let_def g prod.case a1_def [symmetric]
    by (auto split: option.split sum.split bool.split split del: if_split)
qed

lemma keeps_turn: "keeps a (snd (observer_turn M sel now a))"
proof -
  obtain i b g where sel: "sel = (i, b, g)" by (cases sel)
  have w: "keeps a (a\<lparr>fallback_window := w\<rparr>)" for w by (rule keeps_view) simp
  show ?thesis
    by (auto simp: observer_turn_def sel Let_def w keeps_trans [OF w keeps_observer_read] split: prod.split)
qed

end
