(* ===== verification/Task_System.thy ===== *)
theory Task_System
  imports Task_Observer
begin

text \<open>
  The task authority as a machine.  Threads that spawn, read, update, cancel and wait, the
  running tasks that raise hints, the observer and shutdown interleave at the points where the
  source releases its locks; a spawn in progress is a value of \<open>pending_spawn\<close> and the
  observer's selection is kept between its two phases.  The invariant bounds the leases,
  ties every binding to its owner's queue and makes shutdown final.
\<close>

section \<open>The machine\<close>

datatype 'o pending_spawn = Admitted rstr 'o | Materialized rstr rstr nat

record ('i, 't, 'o) authority_system =
  auth :: "('i, 't) task_authority"
  pending :: "'o pending_spawn list"
  selection :: "(rstr \<times> nat \<times> nat) option"

datatype ('o, 'u) authority_op =
    BeginSpawn rstr 'o bool bool | MaterializeSpawn nat nat | PublishSpawn nat nat
  | GetOp rstr rstr nat | UpdateOp rstr rstr 'u nat | CancelOp rstr rstr nat
  | RegisterWaiterOp | DropWaiterOp | WaitStartOp nat rstr nat | HintOp nat bool
  | SelectOp nat | TurnOp nat | ShutdownOp

fun authority_step ::
  "('i, 'o, 't, 'u, 'x) task_manager \<Rightarrow> ('o, 'u) authority_op \<Rightarrow> ('i, 't, 'o) authority_system
     \<Rightarrow> ('i, 't, 'o) authority_system" where
  "authority_step M (BeginSpawn owner options runtime timer) s =
     (case spawn_admit runtime timer (auth s) :: ('x task_authority_error, unit) result \<times> _ of
        (Inl _, a) \<Rightarrow> s\<lparr>auth := a\<rparr>
      | (Inr _, a) \<Rightarrow> s\<lparr>auth := a, pending := pending s @ [Admitted owner options]\<rparr>)"
| "authority_step M (MaterializeSpawn n now) s =
     (if n < length (pending s) then
        (case pending s ! n of
           Admitted owner options \<Rightarrow>
             (case spawn_materialize M options now (auth s) of
                (Inl _, a) \<Rightarrow> s\<lparr>auth := a, pending := take n (pending s) @ drop (Suc n) (pending s)\<rparr>
              | (Inr (task_id, sig), a) \<Rightarrow>
                  s\<lparr>auth := a, pending := (pending s)[n := Materialized owner task_id sig]\<rparr>)
         | Materialized _ _ _ \<Rightarrow> s)
      else s)"
| "authority_step M (PublishSpawn n now) s =
     (if n < length (pending s) then
        (case pending s ! n of
           Admitted _ _ \<Rightarrow> s
         | Materialized owner task_id sig \<Rightarrow>
             s\<lparr>auth := snd (spawn_publish M owner task_id sig now (auth s)),
               pending := take n (pending s) @ drop (Suc n) (pending s)\<rparr>)
      else s)"
| "authority_step M (GetOp caller task_id now) s =
     s\<lparr>auth := snd (get_task_for_principal M caller task_id now (auth s))\<rparr>"
| "authority_step M (UpdateOp caller task_id u now) s =
     s\<lparr>auth := snd (update_task_for_principal M caller task_id u now (auth s))\<rparr>"
| "authority_step M (CancelOp caller task_id now) s =
     s\<lparr>auth := snd (cancel_task_for_principal M caller task_id now (auth s))\<rparr>"
| "authority_step M RegisterWaiterOp s =
     s\<lparr>auth := snd (register_waiter (auth s) :: ('x task_authority_error, unit) result \<times> _)\<rparr>"
| "authority_step M DropWaiterOp s = s\<lparr>auth := waiter_lease_drop (auth s)\<rparr>"
| "authority_step M (WaitStartOp b task_id now) s =
     s\<lparr>auth := snd (wait_initial_start b task_id now (auth s))\<rparr>"
| "authority_step M (HintOp sig settlement) s = s\<lparr>auth := snd (signal_hint sig settlement (auth s))\<rparr>"
| "authority_step M (SelectOp now) s =
     (let (sel, _, a) = observer_select now (auth s) in s\<lparr>auth := a, selection := sel\<rparr>)"
| "authority_step M (TurnOp now) s =
     (case selection s of
        None \<Rightarrow> s
      | Some sel \<Rightarrow> s\<lparr>auth := snd (observer_turn M sel now (auth s)), selection := None\<rparr>)"
| "authority_step M ShutdownOp s = s\<lparr>auth := shutdown M (auth s)\<rparr>"

definition authority_start :: "'i \<Rightarrow> task_authority_config \<Rightarrow> ('i, 't, 'o) authority_system" where
  "authority_start i cfg = \<lparr>auth = authority_new i cfg, pending = [], selection = None\<rparr>"

fun is_admitted :: "'o pending_spawn \<Rightarrow> bool" where
  "is_admitted (Admitted _ _) = True"
| "is_admitted (Materialized _ _ _) = False"

definition admitted_count :: "'o pending_spawn list \<Rightarrow> nat" where
  "admitted_count ps = length (filter is_admitted ps)"

definition capacity_ok :: "('i, 't) task_authority \<Rightarrow> nat \<Rightarrow> bool" where
  "capacity_ok a n \<longleftrightarrow>
     closed a \<or> reserved_leases a = n \<and> length (leases a) + reserved_leases a \<le> max_retained_tasks (config a)"

definition signals_ok :: "('i, 't) task_authority \<Rightarrow> 'o pending_spawn list \<Rightarrow> bool" where
  "signals_ok a ps \<longleftrightarrow>
     list_all (\<lambda>p. case p of Admitted _ _ \<Rightarrow> True | Materialized _ _ sig \<Rightarrow> sig < length (signals a)) ps"

definition system_inv :: "('i, 't, 'o) authority_system \<Rightarrow> bool" where
  "system_inv s \<longleftrightarrow>
     authority_wf (auth s) \<and> capacity_ok (auth s) (admitted_count (pending s))
     \<and> signals_ok (auth s) (pending s)"

section \<open>Draining\<close>

lemma view_hints: "authority_view (fold binding_hint bs a) = authority_view a"
  by (induction bs arbitrary: a) simp_all

lemma view_drain:
  "authority_view (close_and_drain M a) =
     authority_view (a\<lparr>closed := True, bindings := [], leases := [], reserved_leases := 0, active_waiters := 0,
                       observer_principals := [], observer_tasks := []\<rparr>)"
  unfolding close_and_drain_def view_hints by (simp add: authority_view_def)

lemma drain_fields:
  "closed (close_and_drain M a)" "bindings (close_and_drain M a) = []"
  "config (close_and_drain M a) = config a"
  "length (signals (close_and_drain M a)) = length (signals a)"
  using view_drain [of M a] by (simp_all add: authority_view_def)

lemma wf_view:
  fixes a a' :: "('i, 't) task_authority"
  shows "authority_view a' = authority_view a \<Longrightarrow> authority_wf a \<Longrightarrow> authority_wf a'"
  using keeps_view [of a' a] by (simp add: keeps_def)

lemma drain_wf:
  assumes "authority_wf a" shows "authority_wf (close_and_drain M a)"
  by (rule wf_view [OF view_drain])
     (use assms in \<open>simp add: authority_wf_def bindings_wf_def queues_wf_def owner_of_def queue_for_def\<close>)

lemma owner_drain: "owner_of (close_and_drain M a) i = None"
  by (simp add: owner_of_def drain_fields)

lemma signals_mono: "signals_ok a ps \<Longrightarrow> length (signals a) \<le> length (signals a') \<Longrightarrow> signals_ok a' ps"
  by (auto simp: signals_ok_def list_all_iff split: pending_spawn.splits)

lemma system_inv_drain:
  "authority_wf a \<Longrightarrow> signals_ok a ps \<Longrightarrow>
     system_inv (s\<lparr>auth := close_and_drain M a, pending := ps\<rparr>)"
  by (auto simp: system_inv_def drain_wf capacity_ok_def drain_fields intro: signals_mono)

lemma system_inv_keeps:
  assumes "system_inv s" and "keeps (auth s) a"
  shows "system_inv (s\<lparr>auth := a\<rparr>)" "system_inv (s\<lparr>auth := a, selection := sel\<rparr>)"
  using assms by (auto simp: system_inv_def keeps_def capacity_ok_def intro: signals_mono)

section \<open>Spawning keeps the invariant\<close>

lemma admit_cases:
  assumes "spawn_admit runtime timer a = (r, a')"
  shows "(\<exists>e. r = Inl e) \<and> a' = a
     \<or> r = Inr () \<and> \<not> closed a \<and> length (leases a) + reserved_leases a < max_retained_tasks (config a)
        \<and> a' = a\<lparr>reserved_leases := reserved_leases a + 1\<rparr>"
proof (cases "closed a \<or> \<not> runtime \<or> \<not> timer \<or> length (leases a) + reserved_leases a \<ge> max_retained_tasks (config a)")
  case True
  then have "(\<exists>e. r = Inl e) \<and> a' = a"
    using assms by (auto simp: spawn_admit_def reserve_capacity_def ensure_open_def split: if_splits)
  then show ?thesis ..
next
  case False
  then have "r = Inr () \<and> a' = a\<lparr>reserved_leases := reserved_leases a + 1\<rparr>"
    using assms by (simp add: spawn_admit_def reserve_capacity_def ensure_open_def)
  then show ?thesis using False by simp
qed

lemma wf_reserved [simp]: "authority_wf (a\<lparr>reserved_leases := n\<rparr>) = authority_wf a"
  by (simp add: authority_wf_def bindings_wf_def queues_wf_def owner_of_def queue_for_def)

lemma wf_leases:
  "authority_wf a \<Longrightarrow> distinct (map fst L) \<Longrightarrow> authority_wf (a\<lparr>leases := L\<rparr>)"
  by (simp add: authority_wf_def bindings_wf_def queues_wf_def owner_of_def queue_for_def)

lemma wf_signal_append:
  "authority_wf a \<Longrightarrow> authority_wf (a\<lparr>manager := i, signals := signals a @ [sig]\<rparr>)"
  by (auto simp: authority_wf_def bindings_wf_def queues_wf_def owner_of_def queue_for_def list_all_iff)

lemma wf_distinct_leases: "authority_wf a \<Longrightarrow> distinct (map fst (leases a))"
  by (simp add: authority_wf_def bindings_wf_def)

lemma admitted_append [simp]: "admitted_count (ps @ [Admitted owner options]) = Suc (admitted_count ps)"
  by (simp add: admitted_count_def)

lemma admitted_update:
  "n < length ps \<Longrightarrow> ps ! n = Admitted owner options \<Longrightarrow>
     admitted_count ps = Suc (admitted_count (ps[n := Materialized p i sig]))"
proof (induction ps arbitrary: n)
  case (Cons x ps)
  then show ?case by (cases n) (auto simp: admitted_count_def)
qed simp

lemma admitted_remove:
  "n < length ps \<Longrightarrow> ps ! n = Materialized p i sig \<Longrightarrow>
     admitted_count (take n ps @ drop (Suc n) ps) = admitted_count ps"
proof (induction ps arbitrary: n)
  case (Cons x ps)
  then show ?case by (cases n) (auto simp: admitted_count_def)
qed simp

lemma signals_remove: "signals_ok a ps \<Longrightarrow> signals_ok a (take n ps @ drop (Suc n) ps)"
  by (auto simp: signals_ok_def list_all_iff dest: in_set_takeD in_set_dropD)

lemma signals_update:
  "signals_ok a ps \<Longrightarrow> sig < length (signals a) \<Longrightarrow> signals_ok a (ps[n := Materialized p i sig])"
  by (auto simp: signals_ok_def list_all_iff dest!: set_update_subset_insert [THEN subsetD])

lemma signals_admitted [simp]:
  "signals_ok a (ps @ [Admitted owner options]) = signals_ok a ps"
  "signals_ok (a\<lparr>reserved_leases := n\<rparr>) ps = signals_ok a ps"
  by (simp_all add: signals_ok_def cong: pending_spawn.case_cong)

lemma begin_inv:
  fixes M :: "('i, 'o, 't, 'u, 'e) task_manager"
  assumes inv: "system_inv s"
  shows "system_inv (authority_step M (BeginSpawn owner options runtime timer) s)"
proof -
  obtain r a where r: "(spawn_admit runtime timer (auth s) :: ('e task_authority_error, unit) result \<times> _) = (r, a)"
    by (cases "spawn_admit runtime timer (auth s) :: ('e task_authority_error, unit) result \<times> _")
  from admit_cases [OF r] consider e where "r = Inl e" "a = auth s"
    | "r = Inr ()" "\<not> closed (auth s)"
      "length (leases (auth s)) + reserved_leases (auth s) < max_retained_tasks (config (auth s))"
      "a = (auth s)\<lparr>reserved_leases := reserved_leases (auth s) + 1\<rparr>"
    by blast
  then show ?thesis
  proof cases
    case 1
    then show ?thesis using inv r by (simp add: system_inv_def)
  next
    case 2
    then show ?thesis using inv r by (simp add: system_inv_def capacity_ok_def)
  qed
qed

lemma materialize_inv:
  assumes inv: "system_inv s" shows "system_inv (authority_step M (MaterializeSpawn n now) s)"
proof (cases "n < length (pending s) \<and> is_admitted (pending s ! n)")
  case False
  then show ?thesis using inv by (auto split: pending_spawn.splits)
next
  case True
  then obtain owner options where n: "n < length (pending s)" and p: "pending s ! n = Admitted owner options"
    by (cases "pending s ! n") auto
  let ?a = "auth s" and ?sig = "\<lparr>generation = 0, settlement_pending = False\<rparr>"
  obtain r i where sp: "tm_spawn M options (manager ?a) = (r, i)" by (cases "tm_spawn M options (manager ?a)")
  define a1 where "a1 = ?a\<lparr>manager := i, signals := signals ?a @ [?sig]\<rparr>"
  have wf: "authority_wf a1" unfolding a1_def by (rule wf_signal_append) (use inv in \<open>simp add: system_inv_def\<close>)
  have sg: "signals_ok a1 (pending s)"
    using inv by (auto simp: system_inv_def a1_def intro: signals_mono)
  show ?thesis
  proof (cases r)
    case None
    then have "authority_step M (MaterializeSpawn n now) s =
        s\<lparr>auth := close_and_drain M a1, pending := take n (pending s) @ drop (Suc n) (pending s)\<rparr>"
      by (simp add: n p spawn_materialize_def sp Let_def a1_def)
    then show ?thesis by (simp add: system_inv_drain [OF wf signals_remove [OF sg]] del: authority_step.simps)
  next
    case (Some k)
    define l where "l = AList.update k \<lparr>l_ttl = tm_ttl_ms M options, l_created_at = now,
        l_next_probe_at = Option.bind (tm_ttl_ms M options) (instant_checked_add now), l_generation = 0\<rparr> (leases a1)"
    define a2 where "a2 = a1\<lparr>reserved_leases := reserved_leases a1 - 1, leases := l\<rparr>"
    let ?ps = "(pending s)[n := Materialized owner k (length (signals ?a))]"
    have step: "authority_step M (MaterializeSpawn n now) s = s\<lparr>auth := a2, pending := ?ps\<rparr>"
      by (simp add: n p spawn_materialize_def sp Some Let_def a1_def a2_def l_def)
    have "authority_wf a2"
      using wf unfolding a2_def
      by (intro wf_leases) (simp_all add: l_def distinct_update wf_distinct_leases)
    moreover have "signals_ok a1 ?ps" by (rule signals_update [OF sg]) (simp add: a1_def)
    then have "signals_ok a2 ?ps" by (rule signals_mono) (simp add: a2_def)
    moreover have len: "length l \<le> Suc (length (leases ?a))"
      unfolding l_def by (rule order_trans [OF length_update_le]) (simp add: a1_def)
    have "capacity_ok a2 (admitted_count ?ps)"
      using inv len admitted_update [OF n p, of owner k "length (signals ?a)"]
      by (auto simp: system_inv_def capacity_ok_def a2_def a1_def)
    ultimately show ?thesis unfolding step by (simp add: system_inv_def)
  qed
qed

lemma owner_publish:
  assumes "authority_wf a"
  shows "owner_of (publish_binding owner k b a) i = (if i = k then Some (b_principal b) else owner_of a i)"
proof (cases "map_of (bindings a) i")
  case None
  then show ?thesis by (simp add: owner_of_def publish_binding_def Let_def update_conv nth_append)
next
  case (Some j)
  have "j < length (arena a)"
    using assms map_of_SomeD [OF Some] by (auto simp: authority_wf_def bindings_wf_def list_all_iff)
  then show ?thesis using Some by (simp add: owner_of_def publish_binding_def Let_def update_conv nth_append)
qed

lemma queue_publish:
  "queue_for (publish_binding owner k b a) p = (if p = owner then queue_for a owner @ [k] else queue_for a p)"
  by (auto simp: queue_for_def publish_binding_def Let_def update_conv)

lemma publish_wf:
  assumes wf: "authority_wf a" and "\<not> closed a" and "b_principal b = owner" and "b_signal b < length (signals a)"
  shows "authority_wf (publish_binding owner k b a)" (is "authority_wf ?a'")
proof -
  have "bindings_wf ?a'"
    using assms
    by (auto simp: authority_wf_def bindings_wf_def publish_binding_def Let_def list_all_iff distinct_update
        dest!: subsetD [OF set_alist_update] intro: less_SucI)
  moreover have "queues_wf ?a'"
  proof -
    have "observer_principals ?a' = (if queue_for a owner = [] then observer_principals a @ [owner] else observer_principals a)"
      by (simp add: publish_binding_def Let_def queue_for_def)
    then show ?thesis
      using wf assms(3) by (auto simp: authority_wf_def queues_wf_def owner_publish [OF wf] queue_publish)
  qed
  ultimately show ?thesis by (simp add: authority_wf_def)
qed

lemma spawn_publish_eq:
  assumes "tm_get M k (manager a) = (r, i)"
  shows "spawn_publish M owner k sig now a =
     (if closed a then (Inl Closed, close_and_drain M a)
      else case r of
             Inl e \<Rightarrow> (Inl (Rmcp e), a\<lparr>manager := i, leases := AList.delete k (leases a)\<rparr>)
           | Inr t \<Rightarrow>
               if map_of (bindings a) k \<noteq> None then (Inl StateUnavailable, close_and_drain M (a\<lparr>manager := i\<rparr>))
               else (Inr k, publish_binding owner k
                      \<lparr>b_principal = owner, b_revision = 1, b_task = t, b_signal = sig,
                       b_last_read_at = Some now\<rparr> (a\<lparr>manager := i\<rparr>)))"
  unfolding spawn_publish_def assms Let_def prod.case by (cases r) simp_all

lemma publish_step_inv:
  assumes inv: "system_inv s" shows "system_inv (authority_step M (PublishSpawn n now) s)"
proof (cases "n < length (pending s) \<and> \<not> is_admitted (pending s ! n)")
  case False
  then show ?thesis using inv by (auto split: pending_spawn.splits)
next
  case True
  then obtain owner k sig where n: "n < length (pending s)" and p: "pending s ! n = Materialized owner k sig"
    by (cases "pending s ! n") auto
  let ?ps = "take n (pending s) @ drop (Suc n) (pending s)"
  have wf: "authority_wf (auth s)" and sg: "signals_ok (auth s) (pending s)"
    using inv by (simp_all add: system_inv_def)
  have sig: "sig < length (signals (auth s))"
    using sg nth_mem [OF n] by (auto simp: signals_ok_def list_all_iff p)
  obtain r i where g: "tm_get M k (manager (auth s)) = (r, i)" by (cases "tm_get M k (manager (auth s))")
  define a1 where "a1 = (auth s)\<lparr>manager := i\<rparr>"
  have k1: "keeps (auth s) a1" unfolding a1_def by (rule keeps_manager)
  then have wf1: "authority_wf a1" and sg1: "signals_ok a1 (pending s)"
    using wf sg by (auto simp: keeps_def intro: signals_mono)
  define a2 where "a2 = snd (spawn_publish M owner k sig now (auth s))"
  have step: "authority_step M (PublishSpawn n now) s = s\<lparr>auth := a2, pending := ?ps\<rparr>"
    by (simp add: n p a2_def)
  have cap: "capacity_ok a (admitted_count ?ps)"
    if "length (leases a) \<le> length (leases (auth s))" "reserved_leases a = reserved_leases (auth s)"
      "config a = config (auth s)" "closed a = closed (auth s)" for a :: "('a, 'b) task_authority"
    using inv that by (auto simp: system_inv_def capacity_ok_def admitted_remove [OF n p])
  have "a2 = close_and_drain M (auth s) \<or> a2 = close_and_drain M a1
    \<or> a2 = a1\<lparr>leases := AList.delete k (leases a1)\<rparr>
    \<or> (\<exists>t. \<not> closed a1 \<and> a2 = publish_binding owner k
         \<lparr>b_principal = owner, b_revision = 1, b_task = t, b_signal = sig, b_last_read_at = Some now\<rparr> a1)"
    unfolding a2_def spawn_publish_eq [OF g] a1_def by (cases r) auto
  then consider "a2 = close_and_drain M (auth s)" | "a2 = close_and_drain M a1"
    | "a2 = a1\<lparr>leases := AList.delete k (leases a1)\<rparr>"
    | t where "\<not> closed a1" "a2 = publish_binding owner k
         \<lparr>b_principal = owner, b_revision = 1, b_task = t, b_signal = sig, b_last_read_at = Some now\<rparr> a1"
    by blast
  then show ?thesis
  proof cases
    case 1
    then show ?thesis unfolding step by (simp add: system_inv_drain wf signals_remove sg)
  next
    case 2
    then show ?thesis unfolding step by (simp add: system_inv_drain wf1 signals_remove sg1)
  next
    case 3
    have "authority_wf a2" unfolding 3
      by (rule wf_leases [OF wf1]) (use wf_distinct_leases [OF wf1] in \<open>simp add: AList.delete_eq distinct_map_filter\<close>)
    moreover have "signals_ok a2 ?ps" using signals_remove [OF sg1] by (rule signals_mono) (simp add: 3)
    moreover have "capacity_ok a2 (admitted_count ?ps)"
      by (rule cap) (simp_all add: 3 a1_def AList.delete_eq)
    ultimately show ?thesis unfolding step by (simp add: system_inv_def)
  next
    case (4 t)
    have "authority_wf a2" unfolding 4
      by (rule publish_wf [OF wf1 4(1)]) (use sig in \<open>simp_all add: a1_def\<close>)
    moreover have "signals_ok a2 ?ps" using signals_remove [OF sg1]
      by (rule signals_mono) (simp add: 4(2) publish_binding_def Let_def)
    moreover have "capacity_ok a2 (admitted_count ?ps)"
      by (rule cap) (simp_all add: 4(2) a1_def publish_binding_def Let_def)
    ultimately show ?thesis unfolding step by (simp add: system_inv_def)
  qed
qed

interpretation task_system: invariant_machine
  "\<lambda>s. \<exists>i cfg. s = authority_start i cfg" "authority_step M" system_inv
  for M :: "('i, 'o, 't, 'u, 'x) task_manager"
proof unfold_locales
  fix s :: "('i, 't, 'o) authority_system"
  assume "\<exists>i cfg. s = authority_start i cfg"
  then show "system_inv s"
    by (auto simp: authority_start_def authority_new_def system_inv_def authority_wf_def bindings_wf_def
        queues_wf_def owner_of_def queue_for_def capacity_ok_def admitted_count_def signals_ok_def)
next
  fix s :: "('i, 't, 'o) authority_system" and op
  assume inv: "system_inv s"
  note kept = system_inv_keeps [OF inv]
  show "system_inv (authority_step M op s)"
  proof (cases op)
    case (SelectOp now)
    then show ?thesis using kept(2) [OF keeps_select] by (simp add: case_prod_unfold Let_def)
  next
    case (TurnOp now)
    then show ?thesis using kept(2) [OF keeps_turn] inv by (cases "selection s") simp_all
  next
    case ShutdownOp
    have "system_inv (s\<lparr>auth := close_and_drain M (auth s), pending := pending s\<rparr>)"
      by (rule system_inv_drain) (use inv in \<open>simp_all add: system_inv_def\<close>)
    then show ?thesis by (simp add: ShutdownOp shutdown_def)
  qed (use inv kept(1) in \<open>simp_all add: begin_inv materialize_inv publish_step_inv keeps_get keeps_update
         keeps_cancel keeps_register_waiter keeps_drop_waiter keeps_wait_start keeps_hint
         del: authority_step.simps(1-3)\<close>)
qed

section \<open>What one step can change\<close>

text \<open>Every step keeps the bindings of others, or is a part of a spawn, or drains.\<close>

lemma wf_run: "authority_wf (auth (fold (authority_step M) ops (authority_start i cfg)))"
  using task_system.run_inv [of _ M ops] by (auto simp: system_inv_def)

lemma materialize_frame:
  assumes "spawn_materialize M options now a = (r, a')"
  shows "(\<exists>a1. a' = close_and_drain M a1 \<and> config a1 = config a)
     \<or> bindings a' = bindings a \<and> arena a' = arena a \<and> closed a' = closed a \<and> config a' = config a"
  using assms by (auto simp: spawn_materialize_def Let_def split: prod.splits option.splits)

lemma publish_frame:
  assumes "spawn_publish M owner k sig now a = (r, a')"
  shows "(\<exists>a1. a' = close_and_drain M a1 \<and> config a1 = config a)
     \<or> bindings a' = bindings a \<and> arena a' = arena a \<and> closed a' = closed a \<and> config a' = config a
     \<or> (\<exists>i b. \<not> closed a \<and> map_of (bindings a) k = None \<and> b_principal b = owner
            \<and> a' = publish_binding owner k b (a\<lparr>manager := i\<rparr>))"
proof -
  obtain g i where g: "tm_get M k (manager a) = (g, i)" by (cases "tm_get M k (manager a)")
  consider "closed a" | e where "\<not> closed a" "g = Inl e" | t where "\<not> closed a" "g = Inr t" "map_of (bindings a) k \<noteq> None"
    | t where "\<not> closed a" "g = Inr t" "map_of (bindings a) k = None"
    by (cases g) blast+
  then show ?thesis
  proof cases
    case 1
    then have "a' = close_and_drain M a" using assms by (simp add: spawn_publish_eq [OF g])
    then show ?thesis by blast
  next
    case (2 e)
    then show ?thesis using assms by (auto simp: spawn_publish_eq [OF g])
  next
    case (3 t)
    then have "a' = close_and_drain M (a\<lparr>manager := i\<rparr>)" using assms by (auto simp: spawn_publish_eq [OF g])
    moreover have "config (a\<lparr>manager := i\<rparr>) = config a" by simp
    ultimately show ?thesis by blast
  next
    case (4 t)
    then have "a' = publish_binding owner k \<lparr>b_principal = owner, b_revision = 1, b_task = t, b_signal = sig,
                 b_last_read_at = Some now\<rparr> (a\<lparr>manager := i\<rparr>)"
      using assms by (auto simp: spawn_publish_eq [OF g])
    moreover have "b_principal \<lparr>b_principal = owner, b_revision = 1, b_task = t, b_signal = sig,
                 b_last_read_at = Some now\<rparr> = owner" by simp
    ultimately show ?thesis using 4 by blast
  qed
qed

definition owner_change :: "('o, 'u) authority_op \<Rightarrow> ('i, 't, 'o) authority_system \<Rightarrow> rstr \<Rightarrow> rstr option \<Rightarrow> bool" where
  "owner_change op s i own \<longleftrightarrow>
     own = owner_of (auth s) i \<or> own = None
     \<or> (case op of
          PublishSpawn n _ \<Rightarrow> n < length (pending s) \<and> owner_of (auth s) i = None
            \<and> (case pending s ! n of Admitted _ _ \<Rightarrow> False | Materialized p k _ \<Rightarrow> k = i \<and> own = Some p)
        | _ \<Rightarrow> False)"

lemma keeps_owner: "keeps (auth s) a \<Longrightarrow> owner_change op s i (owner_of a i)"
  by (auto simp: keeps_def owner_change_def)

lemma step_owner:
  assumes inv: "system_inv s"
  shows "owner_change op s i (owner_of (auth (authority_step M op s)) i)"
proof (cases op)
  case (BeginSpawn owner options runtime timer)
  then show ?thesis
    by (auto simp: owner_change_def owner_of_def dest!: admit_cases split: prod.split sum.split)
next
  case (MaterializeSpawn n now)
  then show ?thesis
    by (auto simp: owner_change_def owner_of_def drain_fields dest!: materialize_frame
        split: prod.split sum.split pending_spawn.split)
next
  case (PublishSpawn n now)
  show ?thesis
  proof (cases "n < length (pending s) \<and> \<not> is_admitted (pending s ! n)")
    case False
    then show ?thesis by (auto simp: PublishSpawn owner_change_def split: pending_spawn.split)
  next
    case True
    then obtain owner k sig where n: "n < length (pending s)" and p: "pending s ! n = Materialized owner k sig"
      by (cases "pending s ! n") auto
    obtain r a where a: "spawn_publish M owner k sig now (auth s) = (r, a)"
      by (cases "spawn_publish M owner k sig now (auth s)")
    have wf: "authority_wf ((auth s)\<lparr>manager := j\<rparr>)" for j
      using inv keeps_manager [of "auth s" j] by (simp add: system_inv_def keeps_def)
    have own: "owner_of ((auth s)\<lparr>manager := j\<rparr>) i = owner_of (auth s) i" for j by (simp add: owner_of_def)
    have step: "owner_of (auth (authority_step M op s)) i = owner_of a i" by (simp add: PublishSpawn n p a)
    from publish_frame [OF a] consider a1 where "a = close_and_drain M a1"
      | "bindings a = bindings (auth s)" "arena a = arena (auth s)"
      | j b where "map_of (bindings (auth s)) k = None" "b_principal b = owner"
          "a = publish_binding owner k b ((auth s)\<lparr>manager := j\<rparr>)"
      by blast
    then show ?thesis
    proof cases
      case 1
      then show ?thesis unfolding step by (simp add: owner_change_def owner_drain)
    next
      case 2
      then show ?thesis unfolding step by (simp add: owner_change_def owner_of_def)
    next
      case (3 j b)
      have "owner_of a i = (if i = k then Some owner else owner_of (auth s) i)"
        unfolding 3(3) owner_publish [OF wf] 3(2) own ..
      moreover have "owner_of (auth s) k = None" using 3(1) by (simp add: owner_of_def)
      ultimately show ?thesis unfolding step by (auto simp: owner_change_def PublishSpawn n p)
    qed
  qed
next
  case (SelectOp now)
  then show ?thesis using keeps_owner [OF keeps_select] by (simp add: case_prod_unfold Let_def)
next
  case (TurnOp now)
  then show ?thesis using keeps_owner [OF keeps_turn]
    by (cases "selection s") (simp_all add: owner_change_def [of _ _ _ "owner_of (auth s) _"])
next
  case ShutdownOp
  then show ?thesis by (simp add: owner_change_def shutdown_def owner_drain)
qed (simp_all add: keeps_owner keeps_get keeps_update keeps_cancel keeps_register_waiter keeps_drop_waiter
      keeps_wait_start keeps_hint)

lemma keeps_closed: "keeps a a' \<Longrightarrow> closed a' = closed a \<and> config a' = config a"
  by (simp add: keeps_def)

lemma step_closed:
  "(closed (auth s) \<longrightarrow> closed (auth (authority_step M op s))) \<and> config (auth (authority_step M op s)) = config (auth s)"
proof (cases op)
  case (BeginSpawn owner options runtime timer)
  then show ?thesis by (auto dest!: admit_cases split: prod.split sum.split)
next
  case (MaterializeSpawn n now)
  then show ?thesis
    by (auto simp: drain_fields dest!: materialize_frame split: prod.split sum.split pending_spawn.split)
next
  case (PublishSpawn n now)
  have "(closed a \<longrightarrow> closed (snd (spawn_publish M owner k sig t a)))
        \<and> config (snd (spawn_publish M owner k sig t a)) = config a" for owner k sig t a
    using publish_frame [OF prod.collapse [symmetric], of M owner k sig t a]
    by (auto simp: drain_fields publish_binding_def Let_def)
  then show ?thesis by (auto simp: PublishSpawn split: pending_spawn.split)
next
  case (SelectOp now)
  then show ?thesis by (simp add: case_prod_unfold Let_def keeps_closed [OF keeps_select])
next
  case (TurnOp now)
  then show ?thesis by (cases "selection s") (simp_all add: keeps_closed [OF keeps_turn])
next
  case ShutdownOp
  then show ?thesis by (simp add: shutdown_def drain_fields)
qed (simp_all add: keeps_closed [OF keeps_get] keeps_closed [OF keeps_update] keeps_closed [OF keeps_cancel]
      keeps_closed [OF keeps_register_waiter] keeps_closed [OF keeps_drop_waiter]
      keeps_closed [OF keeps_wait_start] keeps_closed [OF keeps_hint])

lemma run_closed:
  "(closed (auth s) \<longrightarrow> closed (auth (fold (authority_step M) ops s)))
   \<and> config (auth (fold (authority_step M) ops s)) = config (auth s)"
proof (induction ops arbitrary: s)
  case (Cons op ops)
  show ?case using Cons [of "authority_step M op s"] step_closed [of s M op] by simp
qed simp

end
