(* ===== verification/Task_Properties.thy ===== *)
theory Task_Properties
  imports Task_System
begin

text \<open>
  What the task authority guarantees over all interleavings of the machine of \<open>Task_System\<close>:
  capacity, isolation of principals, ownership, finality of shutdown, completeness of the
  observer's selection, and the rate limit on its reads.
\<close>

section \<open>A manager for the witnesses\<close>

text \<open>It numbers its tasks, keeps a step counter per task and ends a task that is cancelled.\<close>

definition step_manager :: "(nat \<times> (rstr \<times> nat) list, nat option, nat, nat, unit) task_manager" where
  "step_manager =
     \<lparr>tm_spawn = (\<lambda>ttl (n, ts). (Some (show_nat n), (Suc n, (show_nat n, 0) # ts))),
      tm_get = (\<lambda>k (n, ts). (case map_of ts k of Some t \<Rightarrow> Inr t | None \<Rightarrow> Inl (), (n, ts))),
      tm_update = (\<lambda>k u (n, ts). (if map_of ts k = None then (Inl (), (n, ts)) else (Inr (), (n, AList.update k u ts)))),
      tm_cancel = (\<lambda>k (n, ts). (if map_of ts k = None then (Inl (), (n, ts)) else (Inr (), (n, AList.update k 9 ts)))),
      tm_shutdown = (\<lambda>(n, ts). (n, [])),
      tm_is_terminal = (\<lambda>t. t = 9),
      tm_ttl_ms = (\<lambda>ttl. ttl)\<rparr>"

abbreviation small_authority :: task_authority_config where
  "small_authority \<equiv> \<lparr>max_retained_tasks = 2, max_waiters = 1, fallback_reads_per_second = 2\<rparr>"

abbreviation spawn_ops :: "rstr \<Rightarrow> nat \<Rightarrow> (nat option, nat) authority_op list" where
  "spawn_ops owner now \<equiv> [BeginSpawn owner (Some 60000) True True, MaterializeSpawn 0 now, PublishSpawn 0 now]"

section \<open>Properties\<close>


lemma binding_for_owner:
  assumes "authority_wf a"
  shows "binding_for caller k a =
     (if closed a then Inl Closed
      else if owner_of a k = Some caller then Inr (the (map_of (bindings a) k)) else Inl TaskNotFound)"
proof (cases "map_of (bindings a) k")
  case None
  then show ?thesis by (simp add: binding_for_def ensure_open_def owner_of_def)
next
  case (Some b)
  have "b < length (arena a)"
    using assms map_of_SomeD [OF Some] by (auto simp: authority_wf_def bindings_wf_def list_all_iff)
  then show ?thesis using Some by (simp add: binding_for_def ensure_open_def owner_of_def)
qed



text \<open>
  C31: ownership never moves.  In every reachable state and for every step, the owner of a task
  identifier stays the same, or the identifier becomes unowned, or it was unowned and the step
  publishes a spawn that a principal began and RMCP gave this identifier, which that principal
  then owns.
\<close>
theorem ownership_never_moves:
  "let s = fold (authority_step M) ops (authority_start i cfg);
       own = owner_of (auth (authority_step M op s)) k
   in own = owner_of (auth s) k \<or> own = None
      \<or> (case op of
           PublishSpawn n _ \<Rightarrow> n < length (pending s) \<and> owner_of (auth s) k = None
             \<and> (case pending s ! n of
                  Admitted _ _ \<Rightarrow> False
                | Materialized p task_id _ \<Rightarrow> task_id = k \<and> own = Some p)
         | _ \<Rightarrow> False)"
proof -
  have "system_inv (fold (authority_step M) ops (authority_start i cfg))"
    by (rule task_system.run_inv) blast
  from step_owner [OF this, of op k M] show ?thesis unfolding owner_change_def Let_def .
qed

text \<open>
  shutdown is final.  After a shutdown, whatever runs before and after it, the authority is
  closed and has no binding; reading and spawning answer that it is closed and change nothing.
\<close>
theorem shutdown_is_final:
  "let a = auth (fold (authority_step M) (before @ ShutdownOp # after) (authority_start i cfg)) in
     closed a \<and> bindings a = []
     \<and> get_task_for_principal M caller k now a = (Inl Closed, a)
     \<and> spawn_for_principal M caller options runtime timer now a = (Inl Closed, a)"
proof -
  define a where "a = auth (fold (authority_step M) (before @ ShutdownOp # after) (authority_start i cfg))"
  have c: "closed a"
    using run_closed [of "authority_step M ShutdownOp (fold (authority_step M) before (authority_start i cfg))" M after]
    by (simp add: a_def shutdown_def drain_fields)
  moreover have "authority_wf a" unfolding a_def by (rule wf_run)
  ultimately show ?thesis unfolding a_def [symmetric]
    by (simp add: Let_def authority_wf_def bindings_wf_def get_task_for_principal_def binding_for_def
        spawn_for_principal_def spawn_admit_def ensure_open_def)
qed

text \<open>
  no due task is overlooked.  In every reachable open state the observer selects a task if and
  only if some bound task is due, no matter whose queue it waits in or behind what, and what it
  selects is bound and due, with the generation the read must confirm.
\<close>
theorem observer_overlooks_nothing:
  assumes "a = auth (fold (authority_step M) ops (authority_start i cfg))" and "\<not> closed a"
  shows "(case fst (observer_select now a) of
            None \<Rightarrow> (\<forall>k b. map_of (bindings a) k = Some b \<longrightarrow> \<not> task_due now a k b)
          | Some (k, b, g) \<Rightarrow> map_of (bindings a) k = Some b \<and> task_due now a k b
              \<and> g = generation (signal_of b a))"
proof (cases "fst (observer_select now a)")
  case None
  have "authority_wf a" unfolding assms(1) by (rule wf_run)
  then have q: "queues_wf a" by (simp add: authority_wf_def)
  have "\<not> task_due now a k b" if kb: "map_of (bindings a) k = Some b" for k b
  proof
    assume due: "task_due now a k b"
    obtain p where p: "owner_of a k = Some p" using kb by (simp add: owner_of_def)
    then have k: "k \<in> set (queue_for a p)" using q by (simp add: queues_wf_def)
    then have "p \<in> set (take (length (observer_principals a)) (observer_principals a))"
      using q by (auto simp: queues_wf_def)
    from scan_finds_due [OF this k] have "fst (observer_select now a) \<noteq> None"
      using kb due assms(2) by (simp add: observer_select_def due_now_def)
    then show False using None by simp
  qed
  then show ?thesis using None by simp
next
  case (Some sel)
  obtain k b g where "sel = (k, b, g)" by (cases sel)
  with Some show ?thesis
    using scan_selects_due [of now "length (observer_principals a)" _ a k b g] assms(2)
    by (simp add: observer_select_def)
qed

theorem observer_overlooks_nothing_witness:
  "let a = auth (fold (authority_step step_manager)
                  (spawn_ops ''alice'' 5 @ spawn_ops ''bob'' 6 @ [HintOp 1 False])
                  (authority_start (0, []) small_authority))
   in \<not> closed a \<and> fst (observer_select 10 a) = Some (''1'', 1, 1) \<and> task_due 10 a ''1'' 1"
proof -
  define a where "a = auth (fold (authority_step step_manager)
                  (spawn_ops ''alice'' 5 @ spawn_ops ''bob'' 6 @ [HintOp 1 False])
                  (authority_start (0, []) small_authority))"
  have c: "\<not> closed a" and s: "fst (observer_select 10 a) = Some (''1'', 1, 1)" unfolding a_def by code_simp+
  from observer_overlooks_nothing [OF a_def c, of 10] c s show ?thesis unfolding a_def [symmetric]
    by (simp add: Let_def)
qed

section \<open>The read budget\<close>

text \<open>The reads the budget admits among attempts at the given times.\<close>

fun admitted_reads :: "nat \<Rightarrow> nat list \<Rightarrow> nat list \<Rightarrow> nat list" where
  "admitted_reads limit [] window = []"
| "admitted_reads limit (t # ts) window =
     (let (delay, window') = fallback_admit t limit window
      in (if delay = 0 then [t] else []) @ admitted_reads limit ts window')"

definition spaced :: "nat \<Rightarrow> nat list \<Rightarrow> bool" where
  "spaced n log \<longleftrightarrow> (\<forall>i. i + n < length log \<longrightarrow> log ! i + 1000 \<le> log ! (i + n))"

lemma expire_window_split:
  "\<exists>E. w = E @ expire_window t w \<and> (\<forall>e\<in>set E. e + 1000 \<le> t)
     \<and> (\<forall>x xs. expire_window t w = x # xs \<longrightarrow> t - x < 1000)"
proof (induction w)
  case (Cons x w)
  then obtain E where E: "w = E @ expire_window t w" "\<forall>e\<in>set E. e + 1000 \<le> t"
    "\<forall>y ys. expire_window t w = y # ys \<longrightarrow> t - y < 1000" by blast
  show ?case
  proof (cases "t - x \<ge> 1000")
    case True
    then show ?thesis using E by (intro exI [of _ "x # E"]) auto
  next
    case False
    then show ?thesis by (intro exI [of _ "[]"]) auto
  qed
qed simp

lemma spaced_snoc:
  assumes "spaced n (D @ w)" and "\<forall>d\<in>set D. d + 1000 \<le> t" and "length w < n"
  shows "spaced n ((D @ w) @ [t])"
  unfolding spaced_def
proof (intro allI impI)
  fix i assume i: "i + n < length ((D @ w) @ [t])"
  show "((D @ w) @ [t]) ! i + 1000 \<le> ((D @ w) @ [t]) ! (i + n)"
  proof (cases "i + n < length (D @ w)")
    case True
    then have "i < length (D @ w)" by (rule add_lessD1)
    then show ?thesis using True assms(1) unfolding spaced_def nth_append [of "D @ w"] by simp
  next
    case False
    with i assms(3) have "i < length D" "i + n = length (D @ w)" by auto
    then show ?thesis using assms(2) by (simp add: nth_append)
  qed
qed

lemma admitted_spaced:
  assumes "n \<ge> 1" and "spaced n (D @ w)" and "\<forall>d\<in>set D. \<forall>t\<in>set ts. d + 1000 \<le> t" and "length w \<le> n" and "sorted ts"
  shows "spaced n ((D @ w) @ admitted_reads n ts w)"
  using assms(2-)
proof (induction ts arbitrary: D w)
  case (Cons t ts)
  obtain E where E: "w = E @ expire_window t w" "\<forall>e\<in>set E. e + 1000 \<le> t"
    "\<forall>x xs. expire_window t w = x # xs \<longrightarrow> t - x < 1000"
    using expire_window_split [of w t] by blast
  let ?w = "expire_window t w" and ?D = "D @ E"
  have sp: "spaced n (?D @ ?w)" using Cons.prems(1) E(1) by (metis append.assoc)
  have old: "\<forall>d\<in>set ?D. d + 1000 \<le> t" using Cons.prems(2) E(2) by auto
  then have later: "\<forall>d\<in>set ?D. \<forall>u\<in>set ts. d + 1000 \<le> u" using Cons.prems(4) by fastforce
  have len: "length ?w \<le> n" using Cons.prems(3) E(1) by (metis le_add2 length_append order_trans)
  show ?case
  proof (cases "length ?w < n")
    case True
    then have "spaced n ((?D @ ?w @ [t]) @ admitted_reads n ts (?w @ [t]))"
      using Cons.IH [of ?D "?w @ [t]"] spaced_snoc [OF sp old True] later Cons.prems(4) by simp
    then show ?thesis using True E(1) by (simp add: fallback_admit_def Let_def) (metis append.assoc)
  next
    case False
    then obtain x xs where w: "?w = x # xs" using assms(1) by (cases ?w) auto
    then have "t - x < 1000" using E(3) by blast
    then have "admitted_reads n (t # ts) w = admitted_reads n ts ?w"
      using False w by (simp add: fallback_admit_def Let_def)
    then show ?thesis using Cons.IH [OF sp later len] Cons.prems(4) E(1) by (simp del: admitted_reads.simps)
  qed
qed simp

text \<open>
  the observer's reads are rate limited.  Among attempts at non-decreasing times, the read
  admitted \<open>n\<close> places after another one is admitted at least a second later, where \<open>n\<close> is the
  configured number of reads per second: no second contains more than \<open>n\<close> reads.
\<close>
theorem observer_reads_rate_limited:
  assumes "limit \<ge> 1" and "sorted ts" and "i + limit < length (admitted_reads limit ts [])"
  shows "admitted_reads limit ts [] ! i + 1000 \<le> admitted_reads limit ts [] ! (i + limit)"
  using admitted_spaced [of limit "[]" "[]" ts] assms by (simp add: spaced_def)

theorem observer_reads_rate_limited_witness:
  "admitted_reads 2 [0, 10, 20, 999, 1000, 1005, 1010] [] ! 0 + 1000
     \<le> admitted_reads 2 [0, 10, 20, 999, 1000, 1005, 1010] [] ! (0 + 2)"
proof (rule observer_reads_rate_limited)
  show "0 + 2 < length (admitted_reads 2 [0, 10, 20, 999, 1000, 1005, 1010] [])" by code_simp
qed simp_all

section \<open>Revisions\<close>

definition binding_core :: "'t task_binding \<Rightarrow> rstr \<times> nat \<times> 't" where
  "binding_core b = (b_principal b, b_revision b, b_task b)"

definition arena_core :: "('i, 't) task_authority \<Rightarrow> (rstr \<times> nat \<times> 't) list" where
  "arena_core a = map binding_core (arena a)"

definition advances :: "rstr \<times> nat \<times> 't \<Rightarrow> rstr \<times> nat \<times> 't \<Rightarrow> bool" where
  "advances x y =
     (case (x, y) of ((p, r, t), (p', r', t')) \<Rightarrow>
        p' = p \<and> r' = (if t' = t then r else saturating_add u64_max r 1))"

definition arena_advances :: "('i, 't) task_authority \<Rightarrow> ('i, 't) task_authority \<Rightarrow> bool" where
  "arena_advances a a' \<longleftrightarrow>
     list_all2 advances (arena_core a) (take (length (arena_core a)) (arena_core a'))"

lemma advances_refl [simp]: "advances x x"
  by (simp add: advances_def split: prod.split)

lemma advances_core:
  "advances (binding_core x) (binding_core y) \<longleftrightarrow>
     b_principal y = b_principal x
     \<and> b_revision y = (if b_task y = b_task x then b_revision x else min (b_revision x + 1) u64_max)"
  by (simp add: advances_def binding_core_def saturating_add_def)

lemma arena_same: "arena_core a' = arena_core a \<Longrightarrow> arena_advances a a'"
  by (simp add: arena_advances_def list_all2_refl)

lemma arena_append: "arena_core a' = arena_core a @ xs \<Longrightarrow> arena_advances a a'"
  by (simp add: arena_advances_def list_all2_refl)

lemma arena_observe: "arena_advances a (snd (binding_observe b t a))"
proof -
  have "advances (arena_core a ! j) (arena_core (snd (binding_observe b t a)) ! j)"
    if "j < length (arena_core a)" for j
    using that by (cases "j = b")
      (simp_all add: arena_core_def binding_observe_def Let_def binding_core_def advances_def)
  then show ?thesis
    by (simp add: arena_advances_def list_all2_conv_all_nth)
       (simp add: arena_core_def binding_observe_def Let_def)
qed

lemma arena_cong: "arena_core a' = arena_core b' \<Longrightarrow> arena_core a = arena_core b \<Longrightarrow> arena_advances b b' \<Longrightarrow> arena_advances a a'"
  by (simp add: arena_advances_def)

lemma core_hint [simp]:
  "arena_core (snd (signal_hint s f a)) = arena_core a" "arena_core (binding_hint b a) = arena_core a"
  by (simp_all add: arena_core_def signal_hint_def binding_hint_def Let_def)

lemma core_last_read [simp]: "arena_core (set_last_read_at b now a) = arena_core a"
  by (simp add: arena_core_def set_last_read_at_def map_update_same binding_core_def)

lemma core_leases [simp]:
  "arena_core (lease_observed M b k snap gen now a) = arena_core a"
  "arena_core (lease_after_read M k b gen f now a) = arena_core a"
  "arena_core (coalesce_lease k l a) = arena_core a"
  "arena_core (clear_settlement b a) = arena_core a"
  "arena_core (rotate_observed p k a) = arena_core a"
  by (simp_all add: arena_core_def lease_observed_def lease_after_read_def coalesce_lease_def
      clear_settlement_def rotate_observed_def Let_def split: option.split)

lemma core_remove [simp]: "arena_core (remove_binding k a) = arena_core a"
  by (simp add: remove_binding_def Let_def split: option.split) (simp add: arena_core_def)

lemma core_fields [simp]:
  "arena_core (a\<lparr>manager := i\<rparr>) = arena_core a"
  "arena_core (a\<lparr>coalesced_reads := n\<rparr>) = arena_core a"
  "arena_core (a\<lparr>rejected_waits := n\<rparr>) = arena_core a"
  "arena_core (a\<lparr>fallback_window := w\<rparr>) = arena_core a"
  "arena_core (a\<lparr>fallback_reads := n\<rparr>) = arena_core a"
  "arena_core (a\<lparr>active_waiters := n\<rparr>) = arena_core a"
  "arena_core (a\<lparr>reserved_leases := n\<rparr>) = arena_core a"
  "arena_core (a\<lparr>leases := L, bindings := B\<rparr>) = arena_core a"
  "arena_core (a\<lparr>observer_tasks := T, observer_principals := P\<rparr>) = arena_core a"
  by (simp_all add: arena_core_def)

lemma core_hints: "arena_core (fold binding_hint bs a) = arena_core a"
  by (induction bs arbitrary: a) simp_all

lemma core_drain [simp]: "arena_core (close_and_drain M a) = arena_core a"
  unfolding close_and_drain_def core_hints by (simp add: arena_core_def)

lemma core_scan [simp]: "arena_core (snd (snd (scan_principals now turns e a))) = arena_core a"
  by (induction turns arbitrary: a e)
     (simp_all add: Let_def case_prod_unfold split: list.split)

lemma observe_current_advances: "arena_advances a (snd (observe_current M b k now a))"
proof -
  obtain r i where g: "tm_get M k (manager a) = (r, i)" by (cases "tm_get M k (manager a)")
  have "arena_advances a (snd (binding_observe b t (a\<lparr>manager := i\<rparr>)))" for t
    by (rule arena_cong [OF refl _ arena_observe]) simp
  then show ?thesis
    by (cases r) (auto simp: observe_current_def g task_gone_def observe_or_close_def Let_def case_prod_unfold
        arena_same intro: arena_cong)
qed

lemma after_intent_advances: "arena_advances a (snd (after_intent M b k now outcome a))"
proof -
  obtain r i where o: "outcome = (r, i)" by (cases outcome)
  have "arena_advances a (snd (observe_current M b k now (binding_hint b (a\<lparr>manager := i\<rparr>))))"
    by (rule arena_cong [OF refl _ observe_current_advances]) simp
  then show ?thesis
    by (cases r) (auto simp: after_intent_def o task_gone_def Let_def arena_same split: prod.splits sum.splits)
qed

lemma observer_read_advances: "arena_advances a (observer_read M k b gen now a)"
proof -
  obtain r i where g: "tm_get M k (manager a) = (r, i)" by (cases "tm_get M k (manager a)")
  define a1 where "a1 = set_last_read_at b now
    (a\<lparr>fallback_reads := (fallback_reads a + 1) mod 2 ^ 64, manager := i\<rparr>)"
  have c: "arena_core a1 = arena_core a" by (simp add: a1_def)
  have "arena_advances a (rotate_observed p k (lease_after_read M k b gen f now
      (if f then clear_settlement b (snd (binding_observe b t a1)) else snd (binding_observe b t a1))))" for p f t
    by (rule arena_cong [OF _ c [symmetric] arena_observe [of a1 b t]]) simp
  then show ?thesis
    unfolding observer_read_def Let_def g prod.case a1_def [symmetric]
    by (auto simp: arena_same c split: option.split sum.split bool.split split del: if_split)
qed

lemma step_advances: "arena_advances (auth s) (auth (authority_step M op s))"
proof (cases op)
  case (BeginSpawn owner options runtime timer)
  then show ?thesis by (auto simp: arena_same dest!: admit_cases split: prod.split sum.split)
next
  case (MaterializeSpawn n now)
  have "arena_core (snd (spawn_materialize M options now (auth s))) = arena_core (auth s)" for options
    by (simp add: spawn_materialize_def Let_def case_prod_unfold split: option.split) (simp add: arena_core_def)
  then have "arena_advances (auth s) (snd (spawn_materialize M options now (auth s)))" for options
    by (rule arena_same)
  then show ?thesis
    by (auto simp: MaterializeSpawn arena_same split: pending_spawn.split prod.split sum.split) (metis snd_conv)+
next
  case (PublishSpawn n now)
  have "arena_advances (auth s) (snd (spawn_publish M owner k sig now (auth s)))" for owner k sig
  proof -
    obtain r i where g: "tm_get M k (manager (auth s)) = (r, i)" by (cases "tm_get M k (manager (auth s))")
    have "arena_core (publish_binding owner k b ((auth s)\<lparr>manager := i\<rparr>)) = arena_core (auth s) @ [binding_core b]" for b
      by (simp add: publish_binding_def arena_core_def Let_def)
    moreover have "arena_core ((auth s)\<lparr>manager := i, leases := L\<rparr>) = arena_core (auth s)" for L
      by (simp add: arena_core_def)
    ultimately show ?thesis unfolding spawn_publish_eq [OF g]
      by (cases r) (auto simp: arena_same intro: arena_append arena_same)
  qed
  then show ?thesis by (auto simp: PublishSpawn arena_same split: pending_spawn.split)
next
  case (SelectOp now)
  then show ?thesis by (simp add: observer_select_def case_prod_unfold Let_def arena_same)
next
  case (TurnOp now)
  have "arena_advances (auth s) (observer_read M k b g now ((auth s)\<lparr>fallback_window := w\<rparr>))" for k b g w
    by (rule arena_cong [OF refl _ observer_read_advances]) simp
  then show ?thesis
    by (cases "selection s") (auto simp: TurnOp arena_same observer_turn_def Let_def split: prod.split)
next
  case ShutdownOp
  then show ?thesis by (simp add: shutdown_def arena_same)
qed (auto simp: get_task_eq update_task_for_principal_def cancel_task_for_principal_def register_waiter_def
      waiter_lease_drop_def wait_initial_start_def Let_def case_prod_unfold arena_same observe_current_advances
      after_intent_advances split: sum.split)

text \<open>
  Revisions track the observed state.  No step changes the owner or the revision of a binding
  unless it changes the task state recorded there, and then the revision goes up by one and
  saturates at the largest 64-bit number; so a client that holds a revision sees an equal one
  exactly when nothing was observed to change.
\<close>
lemma revision_tracks_state:
  "let s = fold (authority_step M) ops (authority_start i cfg) in
     list_all2 (\<lambda>x y. b_principal y = b_principal x
                  \<and> b_revision y = (if b_task y = b_task x then b_revision x
                                    else min (b_revision x + 1) u64_max))
       (arena (auth s)) (take (length (arena (auth s))) (arena (auth (authority_step M op s))))"
  using step_advances [of "fold (authority_step M) ops (authority_start i cfg)" M op]
  by (simp only: Let_def arena_advances_def arena_core_def take_map list_all2_map1 list_all2_map2
      advances_core length_map)

end
