(* ===== verification/Task_History.thy ===== *)
theory Task_History
  imports Task_Authority
begin

text \<open>
  The bounded, principal-partitioned history of task summaries (\<open>history.rs\<close>) and the
  lifecycle observer (\<open>lifecycle.rs\<close>) of the crate \<open>mcp-toolkit-tasks\<close>.  Both read tasks through
  the authority of \<open>Task_Authority\<close>.  RMCP's \<open>DetailedTask\<close> is seen through the accessors of the
  record \<open>task_view\<close>.  The partitions are an association list whose order stands for the
  iteration order of the hash map; no result depends on it.
\<close>

section \<open>Summaries\<close>

datatype operation_state = Working | InputRequired | Completed | Failed | Cancelled

definition terminal :: "operation_state \<Rightarrow> bool" where
  "terminal s = (s = Completed \<or> s = Failed \<or> s = Cancelled)"

datatype operation_kind = TaskKind

record operation_summary =
  operation_id :: rstr
  op_kind :: operation_kind
  op_state :: operation_state
  created_at :: rstr
  started_at :: "rstr option"
  last_updated_at :: rstr
  finished_at :: "rstr option"
  op_revision :: nat

record history_limits =
  max_entries :: nat
  max_terminal_age :: nat

datatype 'x history_error =
  AuthorityError "'x task_authority_error" | CapacityFull | HistoryUnavailable | InvalidSummary

record stored =
  summary :: operation_summary
  terminal_at :: "nat option"

type_synonym partitions = "(rstr \<times> stored list) list"

text \<open>The status enumeration of RMCP is open: a value the code does not know is \<open>OtherStatus\<close>.\<close>

datatype task_status =
  StatusWorking | StatusInputRequired | StatusCompleted | StatusFailed | StatusCancelled | OtherStatus

record 't task_view =
  tv_status :: "'t \<Rightarrow> task_status"
  tv_task_id :: "'t \<Rightarrow> rstr"
  tv_created_at :: "'t \<Rightarrow> rstr"
  tv_last_updated_at :: "'t \<Rightarrow> rstr"

fun operation_state_of :: "task_status \<Rightarrow> operation_state option" where
  "operation_state_of StatusWorking = Some Working"
| "operation_state_of StatusInputRequired = Some InputRequired"
| "operation_state_of StatusCompleted = Some Completed"
| "operation_state_of StatusFailed = Some Failed"
| "operation_state_of StatusCancelled = Some Cancelled"
| "operation_state_of OtherStatus = None"

definition make_summary :: "'t task_view \<Rightarrow> 't \<Rightarrow> operation_state \<Rightarrow> nat \<Rightarrow> operation_summary" where
  "make_summary V task state revision =
     \<lparr>operation_id = tv_task_id V task, op_kind = TaskKind, op_state = state,
      created_at = tv_created_at V task, started_at = None, last_updated_at = tv_last_updated_at V task,
      finished_at = (if terminal state then Some (tv_last_updated_at V task) else None),
      op_revision = revision\<rparr>"

definition summary_ok :: "operation_summary \<Rightarrow> bool" where
  "summary_ok s \<longleftrightarrow>
     \<not> (operation_id s = [] \<or> chars_count (operation_id s) > 256 \<or> created_at s = []
        \<or> length (created_at s) > 64 \<or> last_updated_at s = [] \<or> length (last_updated_at s) > 64)"

section \<open>Visibility, pruning and lookup\<close>

definition is_visible :: "nat \<Rightarrow> nat \<Rightarrow> stored \<Rightarrow> bool" where
  "is_visible now age item = (case terminal_at item of None \<Rightarrow> True | Some t \<Rightarrow> now - t < age)"

definition prune_history :: "nat \<Rightarrow> nat \<Rightarrow> partitions \<Rightarrow> partitions" where
  "prune_history now age ps =
     filter (\<lambda>(_, items). items \<noteq> []) (map (\<lambda>(p, items). (p, filter (is_visible now age) items)) ps)"

definition partition_of :: "partitions \<Rightarrow> rstr \<Rightarrow> stored list" where
  "partition_of ps p = (case map_of ps p of None \<Rightarrow> [] | Some items \<Rightarrow> items)"

definition history_get :: "history_limits \<Rightarrow> nat \<Rightarrow> rstr \<Rightarrow> rstr \<Rightarrow> partitions \<Rightarrow> operation_summary option" where
  "history_get limits now p k ps =
     map_option summary
       (find (\<lambda>item. operation_id (summary item) = k \<and> is_visible now (max_terminal_age limits) item)
          (partition_of ps p))"

definition history_list :: "history_limits \<Rightarrow> nat \<Rightarrow> rstr \<Rightarrow> nat \<Rightarrow> partitions \<Rightarrow> operation_summary list" where
  "history_list limits now p limit ps =
     map summary (take limit (filter (is_visible now (max_terminal_age limits)) (rev (partition_of ps p))))"

section \<open>Insertion\<close>

fun find_index :: "('a \<Rightarrow> bool) \<Rightarrow> 'a list \<Rightarrow> nat option" where
  "find_index P [] = None"
| "find_index P (x # xs) = (if P x then Some 0 else map_option Suc (find_index P xs))"

definition remove_at :: "nat \<Rightarrow> 'a list \<Rightarrow> 'a list" where
  "remove_at n xs = take n xs @ drop (Suc n) xs"

definition candidates :: "partitions \<Rightarrow> (nat \<times> rstr \<times> nat) list" where
  "candidates ps =
     concat (map (\<lambda>(p, items).
       List.map_filter (\<lambda>(n, item). map_option (\<lambda>t. (t, p, n)) (terminal_at item)) (zip [0..<length items] items)) ps)"

fun min_by_key :: "(nat \<times> 'b) list \<Rightarrow> (nat \<times> 'b) option" where
  "min_by_key [] = None"
| "min_by_key (x # xs) =
     (case min_by_key xs of None \<Rightarrow> Some x | Some y \<Rightarrow> Some (if fst y < fst x then y else x))"

definition evict_oldest :: "partitions \<Rightarrow> partitions option" where
  "evict_oldest ps =
     (case min_by_key (candidates ps) of
        None \<Rightarrow> None
      | Some (_, p, n) \<Rightarrow>
          let items = remove_at n (partition_of ps p)
          in Some (if items = [] then AList.delete p ps else AList.update p items ps))"

definition total_entries :: "partitions \<Rightarrow> nat" where
  "total_entries ps = sum_list (map (length \<circ> snd) ps)"

definition push_item :: "rstr \<Rightarrow> stored \<Rightarrow> partitions \<Rightarrow> partitions" where
  "push_item p item ps = AList.update p (partition_of ps p @ [item]) ps"

definition history_insert ::
  "history_limits \<Rightarrow> nat \<Rightarrow> rstr \<Rightarrow> operation_summary \<Rightarrow> partitions
     \<Rightarrow> ('x history_error, unit) result \<times> partitions" where
  "history_insert limits now p s ps0 =
     (let ps = prune_history now (max_terminal_age limits) ps0;
          items = partition_of ps p
      in case find_index (\<lambda>item. operation_id (summary item) = operation_id s) items of
           Some n \<Rightarrow>
             let item = items ! n;
                 at = (if terminal (op_state s)
                       then (case terminal_at item of Some t \<Rightarrow> Some t | None \<Rightarrow> Some now) else None)
             in (Inr (), AList.update p (remove_at n items @ [\<lparr>summary = s, terminal_at = at\<rparr>]) ps)
         | None \<Rightarrow>
             let item = \<lparr>summary = s, terminal_at = (if terminal (op_state s) then Some now else None)\<rparr>
             in if total_entries ps \<ge> max_entries limits
                then (case evict_oldest ps of
                        None \<Rightarrow> (Inl CapacityFull, ps)
                      | Some ps' \<Rightarrow> (Inr (), push_item p item ps'))
                else (Inr (), push_item p item ps))"

definition history_record ::
  "('i, 'o, 't, 'u, 'x) task_manager \<Rightarrow> 't task_view \<Rightarrow> history_limits \<Rightarrow> rstr \<Rightarrow> rstr \<Rightarrow> nat \<Rightarrow> nat
     \<Rightarrow> ('i, 't) task_authority \<Rightarrow> partitions
     \<Rightarrow> ('x history_error, operation_summary) result \<times> ('i, 't) task_authority \<times> partitions" where
  "history_record M V limits caller task_id read_now now a ps =
     (case get_task_for_principal M caller task_id read_now a of
        (Inl e, a') \<Rightarrow> (Inl (AuthorityError e), a', ps)
      | (Inr snapshot, a') \<Rightarrow>
          (case operation_state_of (tv_status V (snap_task snapshot)) of
             None \<Rightarrow> (Inl HistoryUnavailable, a', ps)
           | Some state \<Rightarrow>
               let s = make_summary V (snap_task snapshot) state (snap_revision snapshot)
               in if \<not> summary_ok s then (Inl InvalidSummary, a', ps)
                  else (case history_insert limits now caller s ps of
                          (Inl e, ps') \<Rightarrow> (Inl e, a', ps')
                        | (Inr _, ps') \<Rightarrow> (Inr s, a', ps'))))"

section \<open>The lifecycle observer\<close>

datatype observe_result = Recorded | Duplicate | DifferentTask

record lifecycle_observer =
  lo_task_id :: "rstr option"
  lo_revision :: "nat option"

definition observer_new :: lifecycle_observer where
  "observer_new = \<lparr>lo_task_id = None, lo_revision = None\<rparr>"

text \<open>The third component is the state sample handed to the metrics recorder, if any.\<close>

definition lifecycle_observe ::
  "('i, 'o, 't, 'u, 'x) task_manager \<Rightarrow> 't task_view \<Rightarrow> rstr \<Rightarrow> rstr \<Rightarrow> nat \<Rightarrow> lifecycle_observer
     \<Rightarrow> ('i, 't) task_authority
     \<Rightarrow> ('x task_authority_error, observe_result) result \<times> operation_state option
         \<times> lifecycle_observer \<times> ('i, 't) task_authority" where
  "lifecycle_observe M V caller task_id now obs a =
     (case get_task_for_principal M caller task_id now a of
        (Inl e, a') \<Rightarrow> (Inl e, None, obs, a')
      | (Inr snapshot, a') \<Rightarrow>
          let k = tv_task_id V (snap_task snapshot)
          in if (case lo_task_id obs of Some current \<Rightarrow> current \<noteq> k | None \<Rightarrow> False)
             then (Inr DifferentTask, None, obs, a')
             else (case operation_state_of (tv_status V (snap_task snapshot)) of
                     None \<Rightarrow> (Inr Duplicate, None, obs, a')
                   | Some state \<Rightarrow>
                       if (case lo_revision obs of Some r \<Rightarrow> snap_revision snapshot \<le> r | None \<Rightarrow> False)
                       then (Inr Duplicate, None, obs, a')
                       else (Inr Recorded, Some state,
                             \<lparr>lo_task_id = Some k, lo_revision = Some (snap_revision snapshot)\<rparr>, a')))"

section \<open>Partitions\<close>

lemma partition_of_update [simp]:
  "partition_of (AList.update p xs ps) q = (if q = p then xs else partition_of ps q)"
  by (simp add: partition_of_def update_conv)

lemma partition_of_delete [simp]:
  "partition_of (AList.delete p ps) q = (if q = p then [] else partition_of ps q)"
  by (simp add: partition_of_def delete_conv')

lemma partition_of_notin: "p \<notin> fst ` set ps \<Longrightarrow> partition_of ps p = []"
  by (simp add: partition_of_def map_of_eq_None_iff [THEN iffD2])

lemma prune_Cons:
  "prune_history now age ((p, items) # ps) =
     (if filter (is_visible now age) items = [] then prune_history now age ps
      else (p, filter (is_visible now age) items) # prune_history now age ps)"
  by (simp add: prune_history_def)

lemma prune_keys: "fst ` set (prune_history now age ps) \<subseteq> fst ` set ps"
  by (induction ps) (auto simp: prune_history_def)

lemma prune_distinct: "distinct (map fst ps) \<Longrightarrow> distinct (map fst (prune_history now age ps))"
proof (induction ps)
  case (Cons x ps)
  then show ?case using prune_keys [of now age ps] by (cases x) (auto simp: prune_Cons)
qed (simp add: prune_history_def)

lemma partition_of_prune:
  "distinct (map fst ps) \<Longrightarrow>
     partition_of (prune_history now age ps) p = filter (is_visible now age) (partition_of ps p)"
proof (induction ps)
  case (Cons x ps)
  obtain q items where x: "x = (q, items)" by (cases x)
  have "partition_of (prune_history now age ps) q = []" if "q \<notin> fst ` set ps"
    by (rule partition_of_notin) (use that prune_keys [of now age ps] in blast)
  moreover have "partition_of ((q, xs) # zs) p = (if p = q then xs else partition_of zs p)" for xs zs
    by (simp add: partition_of_def)
  ultimately show ?case using Cons by (auto simp: x prune_Cons)
qed (simp add: prune_history_def partition_of_def)

lemma total_Cons [simp]: "total_entries ((p, items) # ps) = length items + total_entries ps"
  by (simp add: total_entries_def)

lemma total_prune: "total_entries (prune_history now age ps) \<le> total_entries ps"
proof (induction ps)
  case (Cons x ps)
  then show ?case
    by (cases x) (auto simp: prune_Cons intro: add_mono)
qed (simp add: prune_history_def)

lemma total_update: "total_entries (AList.update p xs ps) + length (partition_of ps p) = total_entries ps + length xs"
proof (induction ps)
  case (Cons x ps)
  then show ?case by (cases x) (auto simp: partition_of_def)
qed (simp add: total_entries_def partition_of_def)

lemma total_delete:
  "distinct (map fst ps) \<Longrightarrow> total_entries (AList.delete p ps) + length (partition_of ps p) = total_entries ps"
proof (induction ps)
  case (Cons x ps)
  obtain q items where x: "x = (q, items)" by (cases x)
  have "AList.delete p ps = ps" if "p \<notin> fst ` set ps"
    using that by (force simp: AList.delete_eq filter_id_conv)
  then show ?case using Cons by (auto simp: x partition_of_def AList.delete_eq)
qed (simp add: total_entries_def partition_of_def)

lemma total_push: "total_entries (push_item p item ps) = Suc (total_entries ps)"
  using total_update [of p "partition_of ps p @ [item]" ps] by (simp add: push_item_def)

section \<open>Searching\<close>

lemma find_index_Some:
  "find_index P xs = Some n \<Longrightarrow> n < length xs \<and> P (xs ! n)"
  by (induction xs arbitrary: n) (auto split: if_splits)

lemma find_index_None: "find_index P xs = None \<longleftrightarrow> (\<forall>x\<in>set xs. \<not> P x)"
  by (induction xs) auto

lemma remove_at_length: "n < length xs \<Longrightarrow> Suc (length (remove_at n xs)) = length xs"
  by (simp add: remove_at_def)

lemma set_remove_at: "set (remove_at n xs) \<subseteq> set xs"
  by (auto simp: remove_at_def dest: in_set_takeD in_set_dropD)

lemma remove_at_keeps: "x \<in> set xs \<Longrightarrow> x \<noteq> xs ! n \<Longrightarrow> x \<in> set (remove_at n xs)"
proof (induction xs arbitrary: n)
  case (Cons y ys)
  then show ?case by (cases n) (auto simp: remove_at_def)
qed simp

lemma map_remove_at: "map f (remove_at n xs) = remove_at n (map f xs)"
  by (simp add: remove_at_def take_map drop_map)

lemma distinct_remove_at: "distinct xs \<Longrightarrow> n < length xs \<Longrightarrow> distinct (remove_at n xs) \<and> xs ! n \<notin> set (remove_at n xs)"
proof (induction xs arbitrary: n)
  case (Cons y ys)
  show ?case
  proof (cases n)
    case 0
    then show ?thesis using Cons.prems by (simp add: remove_at_def)
  next
    case (Suc m)
    have "remove_at (Suc m) (y # ys) = y # remove_at m ys" by (simp add: remove_at_def)
    then show ?thesis using Cons Suc set_remove_at [of m ys] by auto
  qed
qed simp

lemma min_by_key_mem: "min_by_key xs = Some y \<Longrightarrow> y \<in> set xs"
  by (induction xs arbitrary: y) (auto split: option.splits if_splits)

lemma min_by_key_None: "min_by_key xs = None \<longleftrightarrow> xs = []"
  by (cases xs) (auto split: option.splits)

lemma candidates_mem:
  assumes "(t, p, n) \<in> set (candidates ps)" and "distinct (map fst ps)"
  shows "n < length (partition_of ps p) \<and> terminal_at (partition_of ps p ! n) = Some t"
proof -
  obtain items where i: "(p, items) \<in> set ps" "n < length items" "terminal_at (items ! n) = Some t"
    using assms(1) by (auto simp: candidates_def map_filter_def set_zip split: option.splits)
  then have "partition_of ps p = items" using assms(2) by (simp add: partition_of_def)
  then show ?thesis using i by simp
qed

lemma evict_oldest_spec:
  assumes "evict_oldest ps = Some ps'" and d: "distinct (map fst ps)"
  obtains p n where "n < length (partition_of ps p)" "terminal_at (partition_of ps p ! n) \<noteq> None"
    "Suc (total_entries ps') = total_entries ps" "distinct (map fst ps')"
    "\<And>q. partition_of ps' q = (if q = p then remove_at n (partition_of ps p) else partition_of ps q)"
proof -
  obtain t p n where m: "min_by_key (candidates ps) = Some (t, p, n)"
    using assms(1) by (cases "min_by_key (candidates ps)") (auto simp: evict_oldest_def)
  from candidates_mem [OF min_by_key_mem [OF m] d]
  have n: "n < length (partition_of ps p)" "terminal_at (partition_of ps p ! n) = Some t" by auto
  have ps': "ps' = (if remove_at n (partition_of ps p) = [] then AList.delete p ps
                    else AList.update p (remove_at n (partition_of ps p)) ps)"
    using assms(1) m by (simp add: evict_oldest_def Let_def)
  have "Suc (total_entries ps') = total_entries ps"
    using total_update [of p "remove_at n (partition_of ps p)" ps] total_delete [OF d, of p]
      remove_at_length [OF n(1)] by (auto simp: ps')
  moreover have "distinct (map fst ps')"
    using d by (auto simp: ps' distinct_update AList.delete_eq distinct_map_filter)
  moreover have "partition_of ps' q = (if q = p then remove_at n (partition_of ps p) else partition_of ps q)" for q
    by (simp add: ps')
  ultimately show ?thesis using that [OF n(1)] n(2) by simp
qed

section \<open>The invariant\<close>

definition items_ok :: "stored list \<Rightarrow> bool" where
  "items_ok items \<longleftrightarrow>
     distinct (map (operation_id \<circ> summary) items)
     \<and> list_all (\<lambda>item. (terminal_at item \<noteq> None) = terminal (op_state (summary item))) items"

definition history_wf :: "history_limits \<Rightarrow> partitions \<Rightarrow> bool" where
  "history_wf limits ps \<longleftrightarrow>
     distinct (map fst ps) \<and> (\<forall>p. items_ok (partition_of ps p)) \<and> total_entries ps \<le> max_entries limits"

lemma items_ok_filter: "items_ok items \<Longrightarrow> items_ok (filter P items)"
  by (auto simp: items_ok_def list_all_iff distinct_map_filter)

lemma items_ok_remove:
  assumes "items_ok items" and "n < length items"
  shows "items_ok (remove_at n items)"
    and "operation_id (summary (items ! n)) \<notin> (operation_id \<circ> summary) ` set (remove_at n items)"
proof -
  have "distinct (remove_at n (map (operation_id \<circ> summary) items))
      \<and> map (operation_id \<circ> summary) items ! n \<notin> set (remove_at n (map (operation_id \<circ> summary) items))"
    by (rule distinct_remove_at) (use assms in \<open>simp_all add: items_ok_def\<close>)
  then have d: "distinct (map (operation_id \<circ> summary) (remove_at n items))
      \<and> operation_id (summary (items ! n)) \<notin> set (map (operation_id \<circ> summary) (remove_at n items))"
    using assms(2) by (simp add: map_remove_at)
  then show "operation_id (summary (items ! n)) \<notin> (operation_id \<circ> summary) ` set (remove_at n items)" by simp
  show "items_ok (remove_at n items)"
    using d assms(1) set_remove_at [of n items] by (auto simp: items_ok_def list_all_iff)
qed

lemma items_ok_snoc:
  "items_ok items \<Longrightarrow> operation_id (summary item) \<notin> (operation_id \<circ> summary) ` set items
   \<Longrightarrow> (terminal_at item \<noteq> None) = terminal (op_state (summary item)) \<Longrightarrow> items_ok (items @ [item])"
  by (auto simp: items_ok_def)

lemma prune_wf: "history_wf limits ps \<Longrightarrow> history_wf limits (prune_history now age ps)"
  using total_prune [of now age ps]
  by (auto simp: history_wf_def prune_distinct partition_of_prune items_ok_filter intro: order_trans)

definition make_room :: "history_limits \<Rightarrow> partitions \<Rightarrow> partitions option" where
  "make_room limits ps = (if total_entries ps \<ge> max_entries limits then evict_oldest ps else Some ps)"

definition replaced :: "nat \<Rightarrow> operation_summary \<Rightarrow> stored \<Rightarrow> stored" where
  "replaced now s item =
     \<lparr>summary = s, terminal_at =
        (if terminal (op_state s) then (case terminal_at item of Some t \<Rightarrow> Some t | None \<Rightarrow> Some now) else None)\<rparr>"

definition fresh_item :: "nat \<Rightarrow> operation_summary \<Rightarrow> stored" where
  "fresh_item now s = \<lparr>summary = s, terminal_at = (if terminal (op_state s) then Some now else None)\<rparr>"

lemma history_insert_eq:
  "history_insert limits now p s ps0 =
     (let ps = prune_history now (max_terminal_age limits) ps0; items = partition_of ps p
      in case find_index (\<lambda>item. operation_id (summary item) = operation_id s) items of
           Some n \<Rightarrow> (Inr (), AList.update p (remove_at n items @ [replaced now s (items ! n)]) ps)
         | None \<Rightarrow>
             (case make_room limits ps of
                None \<Rightarrow> (Inl CapacityFull, ps)
              | Some ps' \<Rightarrow> (Inr (), push_item p (fresh_item now s) ps')))"
  by (simp add: history_insert_def make_room_def replaced_def fresh_item_def Let_def
      cong: option.case_cong)

lemma make_room_spec:
  assumes "make_room limits ps = Some ps'" and wf: "history_wf limits ps"
  shows "distinct (map fst ps')" and "total_entries ps' < max_entries limits"
    and "items_ok (partition_of ps' q)" and "set (partition_of ps' q) \<subseteq> set (partition_of ps q)"
    and "item \<in> set (partition_of ps q) \<Longrightarrow> terminal_at item = None \<Longrightarrow> item \<in> set (partition_of ps' q)"
proof -
  have d: "distinct (map fst ps)" and ok: "items_ok (partition_of ps r)" and tot: "total_entries ps \<le> max_entries limits" for r
    using wf by (simp_all add: history_wf_def)
  have "distinct (map fst ps') \<and> total_entries ps' < max_entries limits \<and> items_ok (partition_of ps' q)
      \<and> set (partition_of ps' q) \<subseteq> set (partition_of ps q)
      \<and> (item \<in> set (partition_of ps q) \<longrightarrow> terminal_at item = None \<longrightarrow> item \<in> set (partition_of ps' q))"
  proof (cases "total_entries ps \<ge> max_entries limits")
    case False
    then have "ps' = ps" using assms(1) by (simp add: make_room_def)
    then show ?thesis using False d ok by simp
  next
    case True
    then have "evict_oldest ps = Some ps'" using assms(1) by (simp add: make_room_def)
    from evict_oldest_spec [OF this d] obtain p n
      where n: "n < length (partition_of ps p)" "terminal_at (partition_of ps p ! n) \<noteq> None"
      and tot': "Suc (total_entries ps') = total_entries ps" and d': "distinct (map fst ps')"
      and part: "\<And>q. partition_of ps' q = (if q = p then remove_at n (partition_of ps p) else partition_of ps q)"
      by metis
    have "items_ok (partition_of ps' q)" using ok items_ok_remove(1) [OF ok n(1)] by (simp add: part)
    moreover have "set (partition_of ps' q) \<subseteq> set (partition_of ps q)" by (simp add: part set_remove_at)
    moreover have "item \<in> set (partition_of ps' q)" if "item \<in> set (partition_of ps q)" "terminal_at item = None"
    proof -
      have "item \<noteq> partition_of ps p ! n" using that(2) n(2) by auto
      then show ?thesis using that(1) by (auto simp: part intro: remove_at_keeps)
    qed
    ultimately show ?thesis using tot tot' d' by simp
  qed
  then show "distinct (map fst ps')" and "total_entries ps' < max_entries limits"
    and "items_ok (partition_of ps' q)" and "set (partition_of ps' q) \<subseteq> set (partition_of ps q)"
    and "item \<in> set (partition_of ps q) \<Longrightarrow> terminal_at item = None \<Longrightarrow> item \<in> set (partition_of ps' q)"
    by blast+
qed

lemma partition_of_push [simp]:
  "partition_of (push_item p item ps) q = (if q = p then partition_of ps p @ [item] else partition_of ps q)"
  by (simp add: push_item_def)

lemma history_insert_wf:
  assumes "history_wf limits ps0" shows "history_wf limits (snd (history_insert limits now p s ps0))"
proof -
  define ps where "ps = prune_history now (max_terminal_age limits) ps0"
  have wf: "history_wf limits ps" unfolding ps_def by (rule prune_wf [OF assms])
  let ?items = "partition_of ps p" and ?P = "\<lambda>item. operation_id (summary item) = operation_id s"
  have ok: "items_ok ?items" using wf by (simp add: history_wf_def)
  show ?thesis
  proof (cases "find_index ?P ?items")
    case (Some n)
    have n: "n < length ?items" "operation_id (summary (?items ! n)) = operation_id s"
      using find_index_Some [OF Some] by auto
    have "items_ok (remove_at n ?items @ [replaced now s (?items ! n)])"
      using items_ok_remove [OF ok n(1)] n(2)
      by (intro items_ok_snoc) (simp_all add: replaced_def split: option.split)
    moreover have "total_entries (AList.update p (remove_at n ?items @ [replaced now s (?items ! n)]) ps) = total_entries ps"
      using total_update [of p "remove_at n ?items @ [replaced now s (?items ! n)]" ps] remove_at_length [OF n(1)] by simp
    ultimately show ?thesis using wf Some
      by (simp add: history_insert_eq ps_def [symmetric] Let_def history_wf_def distinct_update)
  next
    case None
    show ?thesis
    proof (cases "make_room limits ps")
      case None
      then show ?thesis using wf \<open>find_index ?P ?items = None\<close>
        by (simp add: history_insert_eq ps_def [symmetric] Let_def)
    next
      case (Some ps1)
      note room = make_room_spec [OF Some wf]
      have "operation_id s \<notin> (operation_id \<circ> summary) ` set (partition_of ps1 p)"
        using None room(4) [of p] by (auto simp: find_index_None)
      then have "items_ok (partition_of ps1 p @ [fresh_item now s])"
        using room(3) by (intro items_ok_snoc) (simp_all add: fresh_item_def)
      then have "history_wf limits (push_item p (fresh_item now s) ps1)"
        using room(1,2,3) total_push [of p "fresh_item now s" ps1]
        by (simp add: history_wf_def) (simp add: push_item_def distinct_update)
      then show ?thesis using None Some by (simp add: history_insert_eq ps_def [symmetric] Let_def)
    qed
  qed
qed

fun history_step :: "history_limits \<Rightarrow> nat \<times> rstr \<times> operation_summary \<Rightarrow> partitions \<Rightarrow> partitions" where
  "history_step limits (now, p, s) ps =
     snd (history_insert limits now p s ps :: (unit history_error, unit) result \<times> partitions)"

interpretation task_history: invariant_machine
  "\<lambda>ps. ps = []" "history_step limits" "history_wf limits" for limits
proof unfold_locales
  fix ps :: partitions assume "ps = []"
  then show "history_wf limits ps"
    by (simp add: history_wf_def items_ok_def partition_of_def total_entries_def)
next
  fix ps :: partitions and op :: "nat \<times> rstr \<times> operation_summary"
  assume "history_wf limits ps"
  then show "history_wf limits (history_step limits op ps)"
    by (cases op) (simp add: history_insert_wf)
qed

section \<open>Properties\<close>

text \<open>
  C32: the history is bounded.  After every sequence of insertions by any principals at any times
  it holds at most \<open>max_entries\<close> summaries, one per operation of a principal, and an entry has a
  terminal time exactly when its operation has ended.
\<close>
theorem history_bounded:
  "let ps = fold (history_step limits) ops [] in
     total_entries ps \<le> max_entries limits \<and> distinct (map fst ps)
     \<and> distinct (map (operation_id \<circ> summary) (partition_of ps p))
     \<and> list_all (\<lambda>item. (terminal_at item \<noteq> None) = terminal (op_state (summary item))) (partition_of ps p)"
  using task_history.run_inv [of "[]" limits ops]
  by (simp add: Let_def history_wf_def items_ok_def)

text \<open>
  unfinished operations are never evicted and partitions are isolated.  An insertion leaves in
  place every entry without a terminal time except the one it replaces, even when it makes room
  or fails for lack of room, and another principal's partition gains nothing.
\<close>
theorem history_isolation:
  assumes "history_wf limits ps0" and "item \<in> set (partition_of ps0 q)" and "terminal_at item = None"
    and "q \<noteq> p \<or> operation_id (summary item) \<noteq> operation_id s"
    and "r \<noteq> p"
  shows "item \<in> set (partition_of (snd (history_insert limits now p s ps0)) q)
       \<and> set (partition_of (snd (history_insert limits now p s ps0)) r) \<subseteq> set (partition_of ps0 r)"
proof -
  define ps where "ps = prune_history now (max_terminal_age limits) ps0"
  have wf: "history_wf limits ps" unfolding ps_def by (rule prune_wf [OF assms(1)])
  have part: "partition_of ps x = filter (is_visible now (max_terminal_age limits)) (partition_of ps0 x)" for x
    unfolding ps_def by (rule partition_of_prune) (use assms(1) in \<open>simp add: history_wf_def\<close>)
  have item: "item \<in> set (partition_of ps q)" using assms(2,3) by (simp add: part is_visible_def)
  have sub: "set (partition_of ps r) \<subseteq> set (partition_of ps0 r)" by (auto simp: part)
  let ?P = "\<lambda>item. operation_id (summary item) = operation_id s"
  show ?thesis
  proof (cases "find_index ?P (partition_of ps p)")
    case (Some n)
    have "item \<in> set (remove_at n (partition_of ps p))" if "q = p"
      using item assms(4) that find_index_Some [OF Some] by (auto intro!: remove_at_keeps)
    then show ?thesis using item sub assms(5)
      by (auto simp: history_insert_eq ps_def [symmetric] Let_def Some)
  next
    case None
    show ?thesis
    proof (cases "make_room limits ps")
      case None
      then show ?thesis using item sub \<open>find_index ?P (partition_of ps p) = None\<close>
        by (auto simp: history_insert_eq ps_def [symmetric] Let_def)
    next
      case (Some ps1)
      from make_room_spec(5) [OF Some wf item assms(3)] make_room_spec(4) [OF Some wf, of r] assms(5) sub
      show ?thesis
        by (auto simp: history_insert_eq ps_def [symmetric] Let_def None Some)
    qed
  qed
qed

text \<open>Summaries for the witnesses.\<close>

definition sample_summary :: "rstr \<Rightarrow> operation_state \<Rightarrow> operation_summary" where
  "sample_summary k st =
     \<lparr>operation_id = k, op_kind = TaskKind, op_state = st, created_at = ''t0'', started_at = None,
      last_updated_at = ''t1'', finished_at = (if terminal st then Some ''t1'' else None), op_revision = 1\<rparr>"

abbreviation tiny_history :: history_limits where
  "tiny_history \<equiv> \<lparr>max_entries = 2, max_terminal_age = 100\<rparr>"

theorem history_isolation_witness:
  "let ps = fold (history_step tiny_history)
              [(1, ''alice'', sample_summary ''1'' Working), (2, ''bob'', sample_summary ''2'' Completed)] []
   in fresh_item 1 (sample_summary ''1'' Working)
        \<in> set (partition_of (snd (history_insert tiny_history 3 ''carol'' (sample_summary ''3'' Working) ps)) ''alice'')
      \<and> set (partition_of (snd (history_insert tiny_history 3 ''carol'' (sample_summary ''3'' Working) ps)) ''bob'')
        \<subseteq> set (partition_of ps ''bob'')"
proof -
  define ps where "ps = fold (history_step tiny_history)
              [(1, ''alice'', sample_summary ''1'' Working), (2, ''bob'', sample_summary ''2'' Completed)] []"
  have wf: "history_wf tiny_history ps" unfolding ps_def by (rule task_history.run_inv) simp
  have item: "fresh_item 1 (sample_summary ''1'' Working) \<in> set (partition_of ps ''alice'')"
    "terminal_at (fresh_item 1 (sample_summary ''1'' Working)) = None"
    unfolding ps_def by code_simp+
  show ?thesis unfolding ps_def [symmetric] Let_def
    by (rule history_isolation [OF wf item]) simp_all
qed

text \<open>
  A recorded summary can be read back.  A successful insertion into a well-formed history is
  found by a lookup of its principal at the same time and heads the principal's list, unless
  it has ended and ended entries are kept for no time at all.
\<close>
lemma history_read_back:
  assumes "history_wf limits ps0" and "history_insert limits now p s ps0 = (Inr (), ps')"
    and "max_terminal_age limits \<ge> 1"
  shows "history_get limits now p (operation_id s) ps' = Some s
       \<and> (\<exists>older. history_list limits now p (Suc n) ps' = s # older)"
proof -
  define ps where "ps = prune_history now (max_terminal_age limits) ps0"
  have wf: "history_wf limits ps" unfolding ps_def by (rule prune_wf [OF assms(1)])
  have part: "partition_of ps p = filter (is_visible now (max_terminal_age limits)) (partition_of ps0 p)"
    unfolding ps_def by (rule partition_of_prune) (use assms(1) in \<open>simp add: history_wf_def\<close>)
  let ?P = "\<lambda>item. operation_id (summary item) = operation_id s"
  have "\<exists>items item. partition_of ps' p = items @ [item] \<and> summary item = s
      \<and> is_visible now (max_terminal_age limits) item"
  proof (cases "find_index ?P (partition_of ps p)")
    case (Some m)
    have "partition_of ps p ! m \<in> set (partition_of ps p)" using find_index_Some [OF Some] by simp
    then have "is_visible now (max_terminal_age limits) (partition_of ps p ! m)" by (simp add: part)
    moreover have "ps' = AList.update p (remove_at m (partition_of ps p) @ [replaced now s (partition_of ps p ! m)]) ps"
      using assms(2) by (simp add: history_insert_eq ps_def [symmetric] Let_def Some)
    ultimately show ?thesis using assms(3)
      by (auto simp: replaced_def is_visible_def split: option.splits)
  next
    case None
    then obtain ps1 where "ps' = push_item p (fresh_item now s) ps1"
      using assms(2) by (cases "make_room limits ps") (auto simp: history_insert_eq ps_def [symmetric] Let_def)
    then show ?thesis using assms(3) by (auto simp: fresh_item_def is_visible_def)
  qed
  then obtain items item where i: "partition_of ps' p = items @ [item]" "summary item = s"
    "is_visible now (max_terminal_age limits) item" by blast
  have "items_ok (items @ [item])"
    using history_insert_wf [OF assms(1), of now p s] assms(2) i(1) by (metis history_wf_def snd_conv)
  then have "operation_id (summary x) \<noteq> operation_id s" if "x \<in> set items" for x
    using that i(2) by (auto simp: items_ok_def image_iff)
  then have "find (\<lambda>x. operation_id (summary x) = operation_id s \<and> is_visible now (max_terminal_age limits) x)
      (items @ [item]) = Some item"
    using i(2,3) by (induction items) auto
  then show ?thesis using i by (simp add: history_get_def history_list_def)
qed

text \<open>
  The samples an observer emits when it is called in turn, each time on whatever state the
  authority then has: the task and the revision of every recorded sample.
\<close>

fun observed_samples ::
  "('i, 'o, 't, 'u, 'x) task_manager \<Rightarrow> 't task_view \<Rightarrow> lifecycle_observer
     \<Rightarrow> (rstr \<times> rstr \<times> nat \<times> ('i, 't) task_authority) list \<Rightarrow> (rstr \<times> nat) list" where
  "observed_samples M V obs [] = []"
| "observed_samples M V obs ((caller, k, now, a) # calls) =
     (case lifecycle_observe M V caller k now obs a of
        (_, sample, obs', _) \<Rightarrow>
          (if sample = None then [] else [(the (lo_task_id obs'), the (lo_revision obs'))])
            @ observed_samples M V obs' calls)"

lemma lifecycle_observe_cases:
  assumes "lifecycle_observe M V caller k now obs a = (r, sample, obs', a')"
  shows "sample = None \<and> obs' = obs
    \<or> (\<exists>st i rev. sample = Some st \<and> obs' = \<lparr>lo_task_id = Some i, lo_revision = Some rev\<rparr>
          \<and> (\<forall>j. lo_task_id obs = Some j \<longrightarrow> j = i) \<and> (\<forall>r0. lo_revision obs = Some r0 \<longrightarrow> r0 < rev))"
  using assms
  by (auto simp: lifecycle_observe_def Let_def split: prod.splits sum.splits option.splits if_splits)

lemma observed_samples_after:
  "lo_task_id obs = Some i \<Longrightarrow> lo_revision obs = Some r \<Longrightarrow>
     list_all (\<lambda>(j, rev). j = i \<and> r < rev) (observed_samples M V obs calls)
     \<and> sorted_wrt (<) (map snd (observed_samples M V obs calls))"
proof (induction calls arbitrary: obs r)
  case (Cons c calls)
  obtain caller k now a where c: "c = (caller, k, now, a)" by (cases c)
  obtain res sample obs' a' where l: "lifecycle_observe M V caller k now obs a = (res, sample, obs', a')"
    by (cases "lifecycle_observe M V caller k now obs a")
  from lifecycle_observe_cases [OF l] consider "sample = None" "obs' = obs"
    | st rev where "sample = Some st" "obs' = \<lparr>lo_task_id = Some i, lo_revision = Some rev\<rparr>" "r < rev"
    using Cons.prems by auto
  then show ?case
  proof cases
    case 1
    then show ?thesis using Cons by (simp add: c l)
  next
    case (2 st rev)
    from Cons.IH [of obs' rev] 2 show ?thesis by (auto simp: c l list_all_iff)
  qed
qed simp

text \<open>
  An observer never samples twice.  The samples of a new observer all concern the first task it
  recorded, and their revisions increase strictly, whatever it is called on in between.
\<close>
lemma observer_samples_increase:
  "let samples = observed_samples M V observer_new calls in
     sorted_wrt (<) (map snd samples) \<and> list_all (\<lambda>(k, _). k = fst (hd samples)) samples"
proof (induction calls)
  case (Cons c calls)
  obtain caller k now a where c: "c = (caller, k, now, a)" by (cases c)
  obtain res sample obs' a' where l: "lifecycle_observe M V caller k now observer_new a = (res, sample, obs', a')"
    by (cases "lifecycle_observe M V caller k now observer_new a")
  from lifecycle_observe_cases [OF l] consider "sample = None" "obs' = observer_new"
    | st i rev where "sample = Some st" "obs' = \<lparr>lo_task_id = Some i, lo_revision = Some rev\<rparr>"
    by blast
  then show ?case
  proof cases
    case 1
    then show ?thesis using Cons by (simp add: c l)
  next
    case (2 st i rev)
    from observed_samples_after [of obs' i rev M V calls] 2 show ?thesis
      by (auto simp: c l Let_def list_all_iff)
  qed
qed simp

end
