(* ===== verification/Pagination.thy ===== *)
theory Pagination
  imports Prelude
begin

text \<open>
  Cursor pagination of \<open>pagination.rs\<close> (crate \<open>mcp-toolkit-core\<close>): the server side
  \<open>paginate_list\<close> and the client side \<open>collect_paginated_list\<close>, which drains a remote list before
  it returns anything.  The page callback of the client is a function on a state of its own.
\<close>

section \<open>Pages of a list\<close>

definition CURSOR_PREFIX :: rstr where
  "CURSOR_PREFIX = ''mcp-toolkit-offset-v1:''"

record 'a list_page =
  page_items :: "'a list"
  page_next_cursor :: "rstr option"
  page_start :: nat
  page_end :: nat
  page_total :: nat

definition has_more :: "'a list_page \<Rightarrow> bool" where
  "has_more p = (page_next_cursor p \<noteq> None)"

datatype pagination_error = EmptyPageSize | InvalidCursor rstr | CursorOutOfRange nat nat

fun pagination_error_display :: "pagination_error \<Rightarrow> rstr" where
  "pagination_error_display EmptyPageSize = ''page size must be greater than zero''"
| "pagination_error_display (InvalidCursor cursor) = ''invalid pagination cursor: '' @ cursor"
| "pagination_error_display (CursorOutOfRange offset item_count) =
     ''pagination cursor offset '' @ show_nat offset @ '' is beyond item count '' @ show_nat item_count"

definition strip_prefix :: "rstr \<Rightarrow> rstr \<Rightarrow> rstr option" where
  "strip_prefix p s = (if take (length p) s = p then Some (drop (length p) s) else None)"

definition parse_cursor :: "rstr \<Rightarrow> (pagination_error, nat) result" where
  "parse_cursor cursor =
     (case strip_prefix CURSOR_PREFIX cursor of
        None \<Rightarrow> Inl (InvalidCursor cursor)
      | Some offset \<Rightarrow>
          (case parse_uint u64_max offset of None \<Rightarrow> Inl (InvalidCursor cursor) | Some n \<Rightarrow> Inr n))"

definition paginate_list :: "'a list \<Rightarrow> rstr option option \<Rightarrow> nat \<Rightarrow> (pagination_error, 'a list_page) result" where
  "paginate_list items request page_size =
     (if page_size = 0 then Inl EmptyPageSize
      else case (case Option.bind request (\<lambda>cursor. cursor) of
                   None \<Rightarrow> Inr 0 | Some cursor \<Rightarrow> parse_cursor cursor) of
             Inl e \<Rightarrow> Inl e
           | Inr start \<Rightarrow>
               if start > length items then Inl (CursorOutOfRange start (length items))
               else let stop = min (saturating_add u64_max start page_size) (length items);
                        next_cursor = (if stop < length items then Some (CURSOR_PREFIX @ show_nat stop) else None)
                    in Inr \<lparr>page_items = take (stop - start) (drop start items), page_next_cursor = next_cursor,
                            page_start = start, page_end = stop, page_total = length items\<rparr>)"

section \<open>Draining a remote list\<close>

record 'a fetched_list_page =
  fetched_items :: "'a list"
  fetched_next :: "rstr option"

record list_drain_limits =
  max_pages :: nat
  max_items :: nat

definition DEFAULT_LIST_DRAIN_MAX_PAGES :: nat where
  "DEFAULT_LIST_DRAIN_MAX_PAGES = 64"

definition DEFAULT_LIST_DRAIN_MAX_ITEMS :: nat where
  "DEFAULT_LIST_DRAIN_MAX_ITEMS = 10000"

definition list_drain_limits_default :: list_drain_limits where
  "list_drain_limits_default =
     \<lparr>max_pages = DEFAULT_LIST_DRAIN_MAX_PAGES, max_items = DEFAULT_LIST_DRAIN_MAX_ITEMS\<rparr>"

datatype 'e list_drain_error =
    EmptyPageLimit | EmptyItemLimit | Fetch 'e | RepeatedCursor rstr
  | PageLimitExceeded nat | ItemLimitExceeded nat nat

fun list_drain_error_source :: "'e list_drain_error \<Rightarrow> 'e option" where
  "list_drain_error_source (Fetch e) = Some e"
| "list_drain_error_source EmptyPageLimit = None"
| "list_drain_error_source EmptyItemLimit = None"
| "list_drain_error_source (RepeatedCursor _) = None"
| "list_drain_error_source (PageLimitExceeded _) = None"
| "list_drain_error_source (ItemLimitExceeded _ _) = None"

type_synonym ('s, 'e, 'a) fetch = "'s \<Rightarrow> rstr option \<Rightarrow> ('e, 'a fetched_list_page) result \<times> 's"

fun drain_loop ::
  "nat \<Rightarrow> list_drain_limits \<Rightarrow> ('s, 'e, 'a) fetch \<Rightarrow> 's \<Rightarrow> 'a list \<Rightarrow> rstr option \<Rightarrow> rstr list
     \<Rightarrow> ('e list_drain_error, 'a list) result" where
  "drain_loop 0 limits fetch s items cursor seen = Inl (PageLimitExceeded (max_pages limits))"
| "drain_loop (Suc n) limits fetch s items cursor seen =
     (case fetch s cursor of
        (Inl e, _) \<Rightarrow> Inl (Fetch e)
      | (Inr page, s') \<Rightarrow>
          let observed = saturating_add u64_max (length items) (length (fetched_items page)) in
          if observed > max_items limits then Inl (ItemLimitExceeded (max_items limits) observed)
          else let items' = items @ fetched_items page in
            (case fetched_next page of
               None \<Rightarrow> Inr items'
             | Some next_cursor \<Rightarrow>
                 if next_cursor \<in> set seen then Inl (RepeatedCursor next_cursor)
                 else drain_loop n limits fetch s' items' (Some next_cursor) (next_cursor # seen)))"

definition collect_paginated_list ::
  "list_drain_limits \<Rightarrow> ('s, 'e, 'a) fetch \<Rightarrow> 's \<Rightarrow> ('e list_drain_error, 'a list) result" where
  "collect_paginated_list limits fetch s =
     (if max_pages limits = 0 then Inl EmptyPageLimit
      else if max_items limits = 0 then Inl EmptyItemLimit
      else drain_loop (max_pages limits) limits fetch s [] None [])"

section \<open>Cursors\<close>

lemma parse_cursor_roundtrip: "n \<le> u64_max \<Longrightarrow> parse_cursor (CURSOR_PREFIX @ show_nat n) = Inr n"
  by (simp add: parse_cursor_def strip_prefix_def parse_show_nat)

lemma cursor_inject: "CURSOR_PREFIX @ show_nat n = CURSOR_PREFIX @ show_nat m \<longleftrightarrow> n = m"
  by (simp add: show_nat_inject)

section \<open>A served list\<close>

text \<open>A server that answers each page request with \<open>paginate_list\<close> on one list.\<close>

definition serve :: "'a list \<Rightarrow> nat \<Rightarrow> (unit, pagination_error, 'a) fetch" where
  "serve items page_size s cursor =
     (case paginate_list items (Some cursor) page_size of
        Inl e \<Rightarrow> (Inl e, s)
      | Inr page \<Rightarrow> (Inr \<lparr>fetched_items = page_items page, fetched_next = page_next_cursor page\<rparr>, s))"

definition cursor_at :: "nat \<Rightarrow> rstr option" where
  "cursor_at start = (if start = 0 then None else Some (CURSOR_PREFIX @ show_nat start))"

lemma serve_page:
  assumes "page_size \<ge> 1" and "start \<le> length items" and "length items \<le> u64_max"
  shows "serve items page_size () (cursor_at start) =
     (Inr \<lparr>fetched_items = take page_size (drop start items),
           fetched_next = (if start + page_size < length items then cursor_at (start + page_size) else None)\<rparr>, ())"
proof -
  have p: "parse_cursor (CURSOR_PREFIX @ show_nat start) = Inr start"
    using assms(2,3) by (intro parse_cursor_roundtrip) simp
  have m: "min (saturating_add u64_max start page_size) (length items) = min (start + page_size) (length items)"
    using assms(3) by (simp add: saturating_add_def)
  have c: "(case Option.bind (Some (cursor_at start)) (\<lambda>cursor. cursor) of
              None \<Rightarrow> Inr 0 | Some cursor \<Rightarrow> parse_cursor cursor) = Inr start"
    using p by (simp add: cursor_at_def)
  have "paginate_list items (Some (cursor_at start)) page_size =
      Inr \<lparr>page_items = take (min (start + page_size) (length items) - start) (drop start items),
           page_next_cursor = (if start + page_size < length items
             then Some (CURSOR_PREFIX @ show_nat (start + page_size)) else None),
           page_start = start, page_end = min (start + page_size) (length items), page_total = length items\<rparr>"
    unfolding paginate_list_def c using assms(1,2) by (simp add: Let_def m)
  moreover have "take (min (start + page_size) (length items) - start) (drop start items) = take page_size (drop start items)"
    by (simp add: min_def)
  ultimately show ?thesis using assms(1) by (simp add: serve_def cursor_at_def)
qed

text \<open>Every cursor the client has seen lies at or before the page it asks for.\<close>

lemma drain_served:
  assumes "page_size \<ge> 1" and "length items \<le> u64_max" and "length items \<le> max_items limits"
    and "start \<le> length items" and "length items - start \<le> n * page_size" and "n \<ge> 1"
    and "\<forall>c \<in> set seen. \<exists>k \<le> start. c = CURSOR_PREFIX @ show_nat k"
  shows "drain_loop n limits (serve items page_size) () (take start items) (cursor_at start) seen = Inr items"
  using assms(4-7)
proof (induction n arbitrary: start seen)
  case 0
  then show ?case by simp
next
  case (Suc n)
  note page = serve_page [OF assms(1) Suc.prems(1) assms(2)]
  have len: "length (take start items) + length (take page_size (drop start items)) \<le> length items"
    using Suc.prems(1) by simp
  then have sat: "saturating_add u64_max (length (take start items)) (length (take page_size (drop start items)))
      \<le> max_items limits"
    using assms(2,3) by (simp add: saturating_add_def)
  have app: "take start items @ take page_size (drop start items) = take (start + page_size) items"
    by (simp add: take_add)
  show ?case
  proof (cases "start + page_size < length items")
    case False
    then show ?thesis using sat app page by (simp add: Let_def)
  next
    case True
    let ?c = "CURSOR_PREFIX @ show_nat (start + page_size)"
    have fresh: "?c \<notin> set seen"
      using Suc.prems(4) assms(1) by (auto simp: cursor_inject)
    have n: "n \<ge> 1" "length items - (start + page_size) \<le> n * page_size"
      using True Suc.prems(2) by (cases n; simp)+
    have "\<forall>c \<in> set (?c # seen). \<exists>k \<le> start + page_size. c = CURSOR_PREFIX @ show_nat k"
      using Suc.prems(4) by (auto intro: le_trans [OF _ le_add1])
    then have "drain_loop n limits (serve items page_size) () (take (start + page_size) items)
        (cursor_at (start + page_size)) (?c # seen) = Inr items"
      using True n by (intro Suc.IH) auto
    then show ?thesis using sat app page True fresh assms(1) by (simp add: Let_def cursor_at_def)
  qed
qed

text \<open>The pages of one completed drain, from the request that fetched the first one.\<close>

fun page_chain :: "('s, 'e, 'a) fetch \<Rightarrow> 's \<Rightarrow> rstr option \<Rightarrow> 'a fetched_list_page list \<Rightarrow> bool" where
  "page_chain fetch s cursor [] = False"
| "page_chain fetch s cursor (p # ps) =
     (case fetch s cursor of
        (Inl _, _) \<Rightarrow> False
      | (Inr q, s') \<Rightarrow> q = p \<and>
          (case fetched_next p of None \<Rightarrow> ps = [] | Some c \<Rightarrow> page_chain fetch s' (Some c) ps))"

lemma drain_loop_complete:
  assumes "drain_loop n limits fetch s items cursor seen = Inr xs"
  shows "\<exists>ps. page_chain fetch s cursor ps \<and> xs = items @ concat (map fetched_items ps) \<and> length ps \<le> n
     \<and> distinct (List.map_filter fetched_next ps) \<and> set (List.map_filter fetched_next ps) \<inter> set seen = {}
     \<and> (length items \<le> max_items limits \<and> max_items limits < u64_max \<longrightarrow> length xs \<le> max_items limits)"
  using assms
proof (induction n arbitrary: s items cursor seen)
  case 0
  then show ?case by simp
next
  case (Suc n)
  obtain page s' where f: "fetch s cursor = (Inr page, s')"
    using Suc.prems by (auto split: prod.splits sum.splits)
  have sat: "saturating_add u64_max (length items) (length (fetched_items page)) \<le> max_items limits"
    using Suc.prems f by (auto simp: Let_def split: if_splits)
  then have fits: "max_items limits < u64_max \<Longrightarrow> length (items @ fetched_items page) \<le> max_items limits"
    by (auto simp: saturating_add_def)
  show ?case
  proof (cases "fetched_next page")
    case None
    then have "xs = items @ fetched_items page" using Suc.prems f sat by (simp add: Let_def)
    then show ?thesis using None f fits by (intro exI [of _ "[page]"]) (auto simp: map_filter_simps)
  next
    case (Some c)
    then have new: "c \<notin> set seen"
      and rest: "drain_loop n limits fetch s' (items @ fetched_items page) (Some c) (c # seen) = Inr xs"
      using Suc.prems f sat by (auto simp: Let_def split: if_splits)
    from Suc.IH [OF rest] obtain ps where
      "page_chain fetch s' (Some c) ps" "xs = (items @ fetched_items page) @ concat (map fetched_items ps)"
      "length ps \<le> n" "distinct (List.map_filter fetched_next ps)"
      "set (List.map_filter fetched_next ps) \<inter> set (c # seen) = {}"
      "length (items @ fetched_items page) \<le> max_items limits \<and> max_items limits < u64_max
         \<longrightarrow> length xs \<le> max_items limits"
      by blast
    then show ?thesis using Some f new fits
      by (intro exI [of _ "page # ps"]) (auto simp: map_filter_simps)
  qed
qed

section \<open>Properties\<close>

text \<open>
  C34: draining a list served by \<open>paginate_list\<close> terminates and returns exactly the list, every element
  once and in order, as soon as the limits allow the number of pages and of items the list has.  In
  particular the cursors of the server never repeat and always parse.
\<close>

theorem drain_returns_served_list:
  assumes "page_size \<ge> 1" and "length items \<le> u64_max"
    and "max_items limits \<ge> max 1 (length items)" and "max_pages limits \<ge> 1"
    and "length items \<le> max_pages limits * page_size"
  shows "collect_paginated_list limits (serve items page_size) () = Inr items"
proof -
  have "drain_loop (max_pages limits) limits (serve items page_size) () (take 0 items) (cursor_at 0) [] = Inr items"
    using assms by (intro drain_served) auto
  then show ?thesis using assms by (simp add: collect_paginated_list_def cursor_at_def)
qed

theorem drain_returns_served_list_witness:
  "collect_paginated_list list_drain_limits_default (serve [10, 20, 30, 40, 50 :: nat] 2) () = Inr [10, 20, 30, 40, 50]"
  by (rule drain_returns_served_list)
    (simp_all add: list_drain_limits_default_def DEFAULT_LIST_DRAIN_MAX_PAGES_def
       DEFAULT_LIST_DRAIN_MAX_ITEMS_def)

text \<open>
  whatever the remote server answers, a drain that succeeds is complete.  The result is the
  concatenation of an unbroken chain of pages: the first is fetched without a cursor, each further
  one with the cursor of its predecessor, and the last has none.  No cursor was followed twice, and
  the pages and items stay within the limits.
\<close>

theorem drain_never_partial:
  assumes "collect_paginated_list limits fetch s = Inr xs" and "max_items limits < u64_max"
  shows "\<exists>ps. page_chain fetch s None ps \<and> xs = concat (map fetched_items ps)
     \<and> distinct (List.map_filter fetched_next ps)
     \<and> length ps \<le> max_pages limits \<and> length xs \<le> max_items limits"
proof -
  have "drain_loop (max_pages limits) limits fetch s [] None [] = Inr xs"
    using assms(1) by (simp add: collect_paginated_list_def split: if_splits)
  from drain_loop_complete [OF this] show ?thesis using assms(2) by auto
qed

theorem drain_never_partial_witness:
  "\<exists>ps. page_chain (serve [10, 20, 30 :: nat] 2) () None ps \<and> [10, 20, 30] = concat (map fetched_items ps)
     \<and> distinct (List.map_filter fetched_next ps)
     \<and> length ps \<le> max_pages list_drain_limits_default
     \<and> length [10, 20, 30 :: nat] \<le> max_items list_drain_limits_default"
  by (rule drain_never_partial, code_simp)
    (simp add: list_drain_limits_default_def DEFAULT_LIST_DRAIN_MAX_ITEMS_def)

text \<open>
  The offset parser of the language accepts a sign and leading zeros, so cursors \<open>paginate_list\<close> never
  issues are accepted: two different cursors name one page.
\<close>

lemma cursor_not_issued_accepted:
  "parse_cursor (CURSOR_PREFIX @ ''+5'') = Inr 5 \<and> parse_cursor (CURSOR_PREFIX @ ''005'') = Inr 5
   \<and> (\<forall>n. CURSOR_PREFIX @ ''+5'' \<noteq> CURSOR_PREFIX @ show_nat n)"
proof -
  have e: "parse_cursor (CURSOR_PREFIX @ ''+5'') = Inr 5 \<and> parse_cursor (CURSOR_PREFIX @ ''005'') = Inr 5"
    by code_simp
  have "\<not> list_all is_ascii_digit ''+5''" by code_simp
  then have "''+5'' \<noteq> show_nat n" for n using show_nat_digits [of n] by metis
  with e show ?thesis by simp
qed

end
