(* ===== verification/Scoped_Cursor.thy ===== *)
theory Scoped_Cursor
  imports Json
begin

text \<open>
  The bounded continuation store of \<open>scoped_cursor.rs\<close> (crate \<open>mcp-toolkit-core\<close>).  The store is its
  limits and its entries under distinct tokens; the clock reading of a call is an argument.  The
  JSON serialiser is a parameter that gives the lengths of the pieces it writes for a value.  No
  operation panics while it holds the lock, so the lock is never poisoned and \<open>Unavailable\<close> is
  never returned.
\<close>

record cursor_scope =
  scope_principal :: rstr
  scope_resource :: rstr
  scope_generation :: rstr

datatype cursor_error =
    InvalidConfiguration | InvalidScope | InvalidToken | InvalidCursor
  | TokenCollision | CapacityReached | PayloadTooLarge | Unavailable

fun cursor_error_display :: "cursor_error \<Rightarrow> rstr" where
  "cursor_error_display InvalidConfiguration = ''invalid cursor-store limits''"
| "cursor_error_display InvalidScope = ''invalid cursor scope''"
| "cursor_error_display InvalidToken = ''invalid cursor token''"
| "cursor_error_display InvalidCursor = ''cursor is invalid or no longer available''"
| "cursor_error_display TokenCollision = ''cursor token already exists''"
| "cursor_error_display CapacityReached = ''cursor capacity reached''"
| "cursor_error_display PayloadTooLarge = ''cursor payload exceeds configured limit''"
| "cursor_error_display Unavailable = ''cursor store unavailable''"

definition cursor_scope_new :: "rstr \<Rightarrow> rstr \<Rightarrow> rstr \<Rightarrow> (cursor_error, cursor_scope) result" where
  "cursor_scope_new p r g =
     (if list_ex (\<lambda>field. is_blank field \<or> length field > 1024) [p, r, g] then Inl InvalidScope
      else Inr \<lparr>scope_principal = p, scope_resource = r, scope_generation = g\<rparr>)"

record cursor_limits =
  cursor_ttl :: nat
  max_entries :: nat
  max_payload_bytes :: nat

record cursor_entry =
  entry_scope :: cursor_scope
  entry_payload :: json
  entry_expires_at :: nat

record cursor_store =
  store_limits :: cursor_limits
  store_entries :: "(rstr \<times> cursor_entry) list"

definition cursor_store_new :: "cursor_limits \<Rightarrow> nat \<Rightarrow> (cursor_error, cursor_store) result" where
  "cursor_store_new limits now =
     (if cursor_ttl limits = 0 \<or> max_entries limits = 0 \<or> max_payload_bytes limits = 0
         \<or> instant_checked_add now (cursor_ttl limits) = None
      then Inl InvalidConfiguration
      else Inr \<lparr>store_limits = limits, store_entries = []\<rparr>)"

text \<open>The counting writer: it takes a piece only while the running total stays within the limit.\<close>

definition counter_write :: "nat \<Rightarrow> nat \<Rightarrow> nat \<Rightarrow> nat option" where
  "counter_write limit used n =
     Option.bind (if used + n \<le> u64_max then Some (used + n) else None)
       (\<lambda>used'. if used' \<le> limit then Some used' else None)"

fun counter_write_all :: "nat \<Rightarrow> nat \<Rightarrow> nat list \<Rightarrow> nat option" where
  "counter_write_all limit used [] = Some used"
| "counter_write_all limit used (n # ns) =
     Option.bind (counter_write limit used n) (\<lambda>used'. counter_write_all limit used' ns)"

type_synonym to_writer = "json \<Rightarrow> nat list"

definition retain_live :: "nat \<Rightarrow> (rstr \<times> cursor_entry) list \<Rightarrow> (rstr \<times> cursor_entry) list" where
  "retain_live now = filter (\<lambda>(_, entry). entry_expires_at entry > now)"

definition token_ok :: "rstr \<Rightarrow> bool" where
  "token_ok token \<longleftrightarrow> 32 \<le> length token \<and> length token \<le> 256
     \<and> list_all (\<lambda>c. is_ascii_alphanumeric c \<or> c = CHR ''-'' \<or> c = CHR ''_'') token"

definition insert_at ::
  "to_writer \<Rightarrow> cursor_store \<Rightarrow> rstr \<Rightarrow> cursor_scope \<Rightarrow> json \<Rightarrow> nat \<Rightarrow> (cursor_error, unit) result \<times> cursor_store" where
  "insert_at W st token scope payload now =
     (if \<not> token_ok token then (Inl InvalidToken, st)
      else if counter_write_all (max_payload_bytes (store_limits st)) 0 (W payload) = None
      then (Inl PayloadTooLarge, st)
      else case instant_checked_add now (cursor_ttl (store_limits st)) of
        None \<Rightarrow> (Inl InvalidConfiguration, st)
      | Some expires_at \<Rightarrow>
          let entries = retain_live now (store_entries st); st' = st\<lparr>store_entries := entries\<rparr> in
          if map_of entries token \<noteq> None then (Inl TokenCollision, st')
          else if length entries \<ge> max_entries (store_limits st) then (Inl CapacityReached, st')
          else (Inr (), st\<lparr>store_entries := AList.update token
                  \<lparr>entry_scope = scope, entry_payload = payload, entry_expires_at = expires_at\<rparr> entries\<rparr>))"

definition lookup_at ::
  "cursor_store \<Rightarrow> rstr \<Rightarrow> cursor_scope \<Rightarrow> bool \<Rightarrow> nat \<Rightarrow> (cursor_error, json) result \<times> cursor_store" where
  "lookup_at st token scope consume now =
     (if length token > 256 then (Inl InvalidCursor, st)
      else let entries = retain_live now (store_entries st); st' = st\<lparr>store_entries := entries\<rparr> in
        (case opt_filter (\<lambda>entry. entry_scope entry = scope) (map_of entries token) of
           None \<Rightarrow> (Inl InvalidCursor, st')
         | Some entry \<Rightarrow>
             (Inr (entry_payload entry),
              if consume then st\<lparr>store_entries := AList.delete token entries\<rparr> else st')))"

definition cursor_resolve :: "cursor_store \<Rightarrow> rstr \<Rightarrow> cursor_scope \<Rightarrow> nat \<Rightarrow> (cursor_error, json) result \<times> cursor_store" where
  "cursor_resolve st token scope now = lookup_at st token scope False now"

definition cursor_consume :: "cursor_store \<Rightarrow> rstr \<Rightarrow> cursor_scope \<Rightarrow> nat \<Rightarrow> (cursor_error, json) result \<times> cursor_store" where
  "cursor_consume st token scope now = lookup_at st token scope True now"

text \<open>A call on the store, with the clock reading it made.\<close>

datatype cursor_op =
    Insert rstr cursor_scope json nat
  | Resolve rstr cursor_scope nat
  | Consume rstr cursor_scope nat

fun cursor_step :: "to_writer \<Rightarrow> cursor_op \<Rightarrow> cursor_store \<Rightarrow> cursor_store" where
  "cursor_step W (Insert token scope payload now) st = snd (insert_at W st token scope payload now)"
| "cursor_step W (Resolve token scope now) st = snd (cursor_resolve st token scope now)"
| "cursor_step W (Consume token scope now) st = snd (cursor_consume st token scope now)"

fun op_now :: "cursor_op \<Rightarrow> nat" where
  "op_now (Insert _ _ _ now) = now"
| "op_now (Resolve _ _ now) = now"
| "op_now (Consume _ _ now) = now"

lemmas cursor_defs = insert_at_def lookup_at_def cursor_resolve_def cursor_consume_def Let_def opt_filter_def

section \<open>The counting writer\<close>

lemma counter_write_all_iff:
  "used \<le> limit \<Longrightarrow> limit \<le> u64_max \<Longrightarrow>
     (counter_write_all limit used ns \<noteq> None \<longleftrightarrow> used + sum_list ns \<le> limit)"
proof (induction ns arbitrary: used)
  case Nil
  then show ?case by simp
next
  case (Cons n ns)
  show ?case
  proof (cases "used + n \<le> limit")
    case True
    then show ?thesis using Cons.IH [of "used + n"] Cons.prems(2) by (simp add: counter_write_def add.assoc)
  next
    case False
    then show ?thesis by (simp add: counter_write_def)
  qed
qed

section \<open>Bounds\<close>

definition cursor_inv :: "cursor_store \<Rightarrow> bool" where
  "cursor_inv st \<longleftrightarrow> distinct (map fst (store_entries st))
     \<and> length (store_entries st) \<le> max_entries (store_limits st)"

lemma map_of_retain_live:
  "distinct (map fst al) \<Longrightarrow> map_of (retain_live now al) k =
     (case map_of al k of Some e \<Rightarrow> if entry_expires_at e > now then Some e else None | None \<Rightarrow> None)"
  by (induction al) (auto simp: retain_live_def split: option.splits dest: map_of_SomeD
      simp: map_of_eq_None_iff image_iff)

lemma retain_live_inv:
  "cursor_inv st \<Longrightarrow> cursor_inv (st\<lparr>store_entries := retain_live now (store_entries st)\<rparr>)"
  by (auto simp: cursor_inv_def retain_live_def distinct_map_filter intro: le_trans [OF length_filter_le])

lemma length_update_new: "\<forall>y. (k, y) \<notin> set al \<Longrightarrow> length (AList.update k v al) = Suc (length al)"
  by (induction al) (auto split: if_splits)

lemma insert_at_inv: "cursor_inv st \<Longrightarrow> cursor_inv (snd (insert_at W st token scope payload now))"
  using retain_live_inv [of st now]
  by (auto simp: cursor_defs cursor_inv_def length_update_new distinct_update split: option.split)

lemma lookup_at_inv: "cursor_inv st \<Longrightarrow> cursor_inv (snd (lookup_at st token scope consume now))"
  using retain_live_inv [of st now]
  by (auto simp: cursor_defs cursor_inv_def distinct_delete split: option.split
      intro: le_trans [OF length_delete_le])

interpretation cursor_store: invariant_machine
  "\<lambda>st. \<exists>limits now. cursor_store_new limits now = Inr st" "cursor_step W" cursor_inv for W
proof unfold_locales
  fix st assume "\<exists>limits now. cursor_store_new limits now = Inr st"
  then show "cursor_inv st" by (auto simp: cursor_store_new_def cursor_inv_def split: if_splits)
next
  fix opn st assume "cursor_inv st"
  then show "cursor_inv (cursor_step W opn st)"
    by (cases opn) (simp_all add: insert_at_inv lookup_at_inv cursor_resolve_def cursor_consume_def)
qed

section \<open>The life of a continuation\<close>

definition holds_cursor :: "cursor_store \<Rightarrow> rstr \<Rightarrow> cursor_entry \<Rightarrow> bool" where
  "holds_cursor st token e \<longleftrightarrow> map_of (store_entries st) token = Some e"

lemma lookup_at_result:
  "cursor_inv st \<Longrightarrow> fst (lookup_at st token scope consume now) =
     (case map_of (store_entries st) token of
        Some e \<Rightarrow> if length token \<le> 256 \<and> entry_scope e = scope \<and> now < entry_expires_at e
                  then Inr (entry_payload e) else Inl InvalidCursor
      | None \<Rightarrow> Inl InvalidCursor)"
  by (simp add: cursor_defs cursor_inv_def map_of_retain_live split: option.split)

lemma insert_at_stores:
  assumes "fst (insert_at W st token scope payload now) = Inr ()"
  shows "token_ok token \<and> now + cursor_ttl (store_limits st) < 2 ^ 63 * 1000
    \<and> holds_cursor (snd (insert_at W st token scope payload now)) token
         \<lparr>entry_scope = scope, entry_payload = payload,
          entry_expires_at = now + cursor_ttl (store_limits st)\<rparr>"
  using assms
  by (simp add: insert_at_def instant_checked_add_def holds_cursor_def Let_def update_conv split: if_splits option.splits)

lemma stored_step:
  assumes inv: "cursor_inv st" and e: "holds_cursor st token e" and live: "op_now opn < entry_expires_at e"
    and kept: "\<And>now. opn \<noteq> Consume token (entry_scope e) now"
  shows "holds_cursor (cursor_step W opn st) token e"
proof -
  have r: "map_of (retain_live (op_now opn) (store_entries st)) token = Some e"
    using inv e live by (simp add: cursor_inv_def map_of_retain_live holds_cursor_def)
  show ?thesis
  proof (cases opn)
    case (Insert token' scope payload now)
    then show ?thesis using r e
      by (auto simp: insert_at_def holds_cursor_def Let_def update_conv split: option.split)
  next
    case (Resolve token' scope now)
    then show ?thesis using r e by (auto simp: cursor_defs holds_cursor_def split: option.split)
  next
    case (Consume token' scope now)
    show ?thesis
    proof (cases "token' = token")
      case True
      then have "scope \<noteq> entry_scope e" using kept Consume by auto
      then show ?thesis using True Consume r e by (simp add: cursor_defs holds_cursor_def)
    next
      case False
      then show ?thesis using Consume r e
        by (simp add: cursor_defs holds_cursor_def delete_conv' split: option.split)
    qed
  qed
qed

lemma stored_run:
  "cursor_inv st \<Longrightarrow> holds_cursor st token e \<Longrightarrow> \<forall>opn \<in> set ops. op_now opn < entry_expires_at e \<Longrightarrow>
     (\<And>now. Consume token (entry_scope e) now \<notin> set ops) \<Longrightarrow>
     holds_cursor (fold (cursor_step W) ops st) token e"
proof (induction ops arbitrary: st)
  case Nil
  then show ?case by simp
next
  case (Cons opn ops)
  have "holds_cursor (cursor_step W opn st) token e"
    using Cons.prems by (intro stored_step) auto
  then show ?case using Cons.prems Cons.IH [OF cursor_store.step_inv] by auto
qed

lemma absent_step:
  assumes "map_of (store_entries st) token = None" and "\<And>s p now. opn \<noteq> Insert token s p now" and "cursor_inv st"
  shows "map_of (store_entries (cursor_step W opn st)) token = None"
proof -
  have r: "map_of (retain_live now (store_entries st)) token = None" for now
    using assms(1,3) by (simp add: cursor_inv_def map_of_retain_live)
  show ?thesis using assms(1,2) r
    by (cases opn) (auto simp: cursor_defs update_conv delete_conv' split: option.split)
qed

lemma absent_run:
  "map_of (store_entries st) token = None \<Longrightarrow> (\<And>s p now. Insert token s p now \<notin> set ops) \<Longrightarrow> cursor_inv st \<Longrightarrow>
     map_of (store_entries (fold (cursor_step W) ops st)) token = None"
proof (induction ops arbitrary: st)
  case Nil
  then show ?case by simp
next
  case (Cons opn ops)
  have "map_of (store_entries (cursor_step W opn st)) token = None"
    using Cons.prems by (intro absent_step) auto
  then show ?case using Cons.prems Cons.IH [OF _ _ cursor_store.step_inv] by simp
qed

lemma consumed_absent:
  assumes "cursor_inv st" and "fst (cursor_consume st token scope now) = Inr p"
  shows "map_of (store_entries (snd (cursor_consume st token scope now))) token = None"
  using assms by (auto simp: cursor_defs delete_conv' split: option.splits if_splits)

section \<open>Properties\<close>

text \<open>
  C35: a continuation stored by a successful insert is neither evicted nor altered nor prolonged.
  Whatever calls other parties make in between (inserts under the same token, lookups and consumptions
  from foreign scopes, at clock readings before the expiry and in any order), the owner resolves exactly
  the stored payload strictly before the expiry and gets the uniform error from the expiry on, unless the
  owner consumed it.  The store never holds more than its configured number of entries.
\<close>

theorem continuation_lives_until_expiry:
  assumes "cursor_store_new limits t0 = Inr st0" and "st = fold (cursor_step W) before st0"
    and "fst (insert_at W st token scope payload now) = Inr ()"
    and "\<forall>opn \<in> set between. op_now opn < now + cursor_ttl (store_limits st)"
    and "\<And>t. Consume token scope t \<notin> set between"
    and "st' = fold (cursor_step W) between (snd (insert_at W st token scope payload now))"
  shows "fst (cursor_resolve st' token scope t) =
           (if t < now + cursor_ttl (store_limits st) then Inr payload else Inl InvalidCursor)
         \<and> length (store_entries st') \<le> max_entries (store_limits st')"
proof -
  let ?e = "\<lparr>entry_scope = scope, entry_payload = payload, entry_expires_at = now + cursor_ttl (store_limits st)\<rparr>"
  have inv: "cursor_inv st" using assms(1,2) cursor_store.run_inv by blast
  note ins = insert_at_stores [OF assms(3)]
  have inv': "cursor_inv st'" using inv assms(6) by (simp add: cursor_store.fold_inv insert_at_inv)
  have "holds_cursor st' token ?e"
    unfolding assms(6) using ins assms(4,5) inv by (intro stored_run insert_at_inv) auto
  then show ?thesis using inv' ins
    by (simp add: cursor_resolve_def lookup_at_result holds_cursor_def token_ok_def cursor_inv_def)
qed

text \<open>Values for the witnesses: a serialiser that writes one byte per value, two scopes, one token.\<close>

definition demo_limits :: cursor_limits where
  "demo_limits = \<lparr>cursor_ttl = 60000, max_entries = 2, max_payload_bytes = 16\<rparr>"

definition demo_store :: cursor_store where
  "demo_store = \<lparr>store_limits = demo_limits, store_entries = []\<rparr>"

definition demo_scope :: "rstr \<Rightarrow> cursor_scope" where
  "demo_scope p = \<lparr>scope_principal = p, scope_resource = ''messages'', scope_generation = ''1''\<rparr>"

definition demo_token :: rstr where
  "demo_token = replicate 32 CHR ''a''"

theorem continuation_lives_until_expiry_witness:
  "fst (cursor_resolve
      (fold (cursor_step (\<lambda>_. [1]))
         [Consume demo_token (demo_scope ''mallory'') 2000, Insert demo_token (demo_scope ''mallory'') JNull 3000]
         (snd (insert_at (\<lambda>_. [1]) demo_store demo_token (demo_scope ''alice'') (JBool True) 1000)))
      demo_token (demo_scope ''alice'') 60999) = Inr (JBool True)"
proof -
  have "cursor_store_new demo_limits 0 = Inr demo_store" by code_simp
  moreover have "fst (insert_at (\<lambda>_. [1]) demo_store demo_token (demo_scope ''alice'') (JBool True) 1000) = Inr ()"
    by code_simp
  moreover have "demo_scope ''mallory'' \<noteq> demo_scope ''alice''" by code_simp
  moreover have "cursor_ttl (store_limits demo_store) = 60000" by (simp add: demo_store_def demo_limits_def)
  ultimately show ?thesis
    using continuation_lives_until_expiry [where limits = demo_limits and ?t0.0 = 0 and ?st0.0 = demo_store
        and before = "[]" and st = demo_store and W = "\<lambda>_. [1]" and token = demo_token
        and scope = "demo_scope ''alice''" and payload = "JBool True" and now = 1000 and t = 60999
        and between = "[Consume demo_token (demo_scope ''mallory'') 2000,
          Insert demo_token (demo_scope ''mallory'') JNull 3000]"]
    by auto
qed

text \<open>
  A cursor is consumed at most once.  After a successful consumption, every lookup of that token fails
  with the uniform error, from any scope, at any time and after any further calls, until the token is
  inserted again.
\<close>

lemma consumed_at_most_once:
  assumes "cursor_store_new limits t0 = Inr st0" and "st = fold (cursor_step W) before st0"
    and "fst (cursor_consume st token scope now) = Inr payload"
    and "\<And>s p t. Insert token s p t \<notin> set after"
    and "st' = fold (cursor_step W) after (snd (cursor_consume st token scope now))"
  shows "fst (lookup_at st' token scope' consume t) = Inl InvalidCursor"
proof -
  have inv: "cursor_inv st" using assms(1,2) cursor_store.run_inv by blast
  then have inv1: "cursor_inv (snd (cursor_consume st token scope now))"
    by (simp add: cursor_consume_def lookup_at_inv)
  have "map_of (store_entries st') token = None"
    unfolding assms(5) using consumed_absent [OF inv assms(3)] assms(4) inv1 by (rule absent_run)
  moreover have "cursor_inv st'" using inv1 assms(5) by (simp add: cursor_store.fold_inv)
  ultimately show ?thesis by (simp add: lookup_at_result)
qed

end
