(* ===== verification/Ordered_Text.thy ===== *)
theory Ordered_Text
  imports Prelude "HOL-Library.List_Lexorder" "HOL-Library.Char_ord"
begin

text \<open>
  Rust strings in order.  \<open>Ord\<close> of \<open>str\<close> compares bytes lexicographically, which is the order of the
  library on lists of characters; \<open>Vec::sort\<close> and \<open>sort_by\<close> are stable and are \<open>sort\<close> and
  \<open>sort_key\<close>; \<open>Vec::dedup\<close> removes consecutive repetitions.  The theory also holds
  \<open>slice::binary_search\<close> and \<open>str::split\<close> with a predicate.
\<close>

section \<open>Sorting and removing repetitions\<close>

definition sort_dedup :: "rstr list \<Rightarrow> rstr list" where
  "sort_dedup xs = remdups_adj (sort xs)"

lemma sort_dedup_set [simp]: "set (sort_dedup xs) = set xs"
  by (simp add: sort_dedup_def)

lemma strict_remdups_adj: "sorted xs \<Longrightarrow> sorted_wrt (<) (remdups_adj (xs :: 'a :: linorder list))"
proof (induction xs rule: remdups_adj.induct)
  case (3 x y xs)
  show ?case
  proof (cases "x = y")
    case True
    then show ?thesis using 3 by simp
  next
    case False
    then show ?thesis using 3 by fastforce
  qed
qed simp_all

lemma sort_dedup_sorted: "sorted_wrt (<) (sort_dedup xs)"
  by (simp add: sort_dedup_def strict_remdups_adj)

lemma strict_sorted_eq_iff:
  fixes xs ys :: "'a :: linorder list"
  shows "sorted_wrt (<) xs \<Longrightarrow> sorted_wrt (<) ys \<Longrightarrow> xs = ys \<longleftrightarrow> set xs = set ys"
  by (metis strict_sorted_equal)

lemma sort_dedup_eq_iff: "sort_dedup xs = sort_dedup ys \<longleftrightarrow> set xs = set ys"
  using strict_sorted_eq_iff [OF sort_dedup_sorted sort_dedup_sorted] by simp

text \<open>A vector kept sorted by a key: push at the end, then sort.\<close>

lemma strict_sorted_push:
  fixes f :: "'a \<Rightarrow> 'b :: linorder"
  assumes "sorted_wrt (<) (map f xs)" and "\<forall>y\<in>set xs. f y \<noteq> f x"
  shows "sorted_wrt (<) (map f (sort_key f (xs @ [x])))"
proof -
  have "distinct (map f xs)" using assms(1) by (simp add: strict_sorted_iff)
  moreover have "f x \<notin> f ` set xs" using assms(2) by force
  ultimately have "distinct (map f (xs @ [x]))" by auto
  then have "distinct (map f (sort_key f (xs @ [x])))" by (simp only: distinct_map distinct_sort set_sort)
  then show ?thesis by (simp add: strict_sorted_iff)
qed

section \<open>Binary search\<close>

text \<open>
  The loop of \<open>slice::binary_search_by\<close>: the candidate window starts at \<open>base\<close> and holds \<open>width\<close>
  elements, and the final probe decides.
\<close>

function binary_search_loop :: "'a :: linorder list \<Rightarrow> 'a \<Rightarrow> nat \<Rightarrow> nat \<Rightarrow> nat" where
  "binary_search_loop xs x base width =
     (if width > 1
      then let half = width div 2; mid = base + half
           in binary_search_loop xs x (if x < xs ! mid then base else mid) (width - half)
      else base)"
  by pat_completeness auto
termination
  by (relation "measure (\<lambda>(xs, x, base, width). width)") auto

declare binary_search_loop.simps [simp del]

definition binary_search :: "'a :: linorder list \<Rightarrow> 'a \<Rightarrow> nat option" where
  "binary_search xs x =
     (if xs = [] then None
      else let base = binary_search_loop xs x 0 (length xs)
           in if xs ! base = x then Some base else None)"

lemma binary_search_window:
  assumes "sorted xs" and "base + width \<le> length xs" and "0 < width"
  shows "binary_search_loop xs x base width < length xs
    \<and> ((\<exists>i. base \<le> i \<and> i < base + width \<and> xs ! i = x) \<longrightarrow> xs ! binary_search_loop xs x base width = x)"
  using assms
proof (induction xs x base width rule: binary_search_loop.induct)
  case (1 xs x base width)
  show ?case
  proof (cases "width > 1")
    case False
    then have "width = 1" using 1 by simp
    moreover have "binary_search_loop xs x base width = base"
      using False by (simp add: binary_search_loop.simps [of xs x base width])
    ultimately show ?thesis using 1 by (auto simp: le_less_Suc_eq)
  next
    case True
    define half where "half = width div 2"
    define base' where "base' = (if x < xs ! (base + half) then base else base + half)"
    have h: "0 < half" "half < width" using True by (auto simp: half_def)
    have step: "binary_search_loop xs x base width = binary_search_loop xs x base' (width - half)"
      using True by (simp add: binary_search_loop.simps [of xs x base width] Let_def half_def base'_def)
    have len: "base' + (width - half) \<le> length xs" using 1 h by (auto simp: base'_def)
    have IH: "binary_search_loop xs x base' (width - half) < length xs
      \<and> ((\<exists>i. base' \<le> i \<and> i < base' + (width - half) \<and> xs ! i = x) \<longrightarrow>
         xs ! binary_search_loop xs x base' (width - half) = x)"
      using 1(1) [OF True half_def refl] 1(2) len h unfolding base'_def by simp
    have keep: "\<exists>j. base' \<le> j \<and> j < base' + (width - half) \<and> xs ! j = x"
      if i: "base \<le> i" "i < base + width" "xs ! i = x" for i
    proof (cases "x < xs ! (base + half)")
      case True
      then have "i < base + half"
        using i 1(2,3) sorted_nth_mono [of xs "base + half" i] by (meson not_le leD order_less_le_trans)
      moreover have "half \<le> width - half" by (simp add: half_def)
      ultimately show ?thesis using i True by (intro exI [of _ i]) (auto simp: base'_def)
    next
      case False
      show ?thesis
      proof (cases "base + half \<le> i")
        case True
        then show ?thesis using i False by (intro exI [of _ i]) (auto simp: base'_def)
      next
        case below: False
        then have "xs ! (base + half) = x"
          using i False 1(2,3) h sorted_nth_mono [of xs i "base + half"] by force
        then show ?thesis using False h by (intro exI [of _ "base + half"]) (auto simp: base'_def)
      qed
    qed
    show ?thesis unfolding step using IH keep by blast
  qed
qed

text \<open>On a sorted slice the search finds exactly the members.\<close>

lemma binary_search_iff: "sorted xs \<Longrightarrow> binary_search xs x \<noteq> None \<longleftrightarrow> x \<in> set xs"
proof -
  assume s: "sorted xs"
  show ?thesis
  proof (cases "xs = []")
    case False
    then have w: "binary_search_loop xs x 0 (length xs) < length xs"
      "(\<exists>i < length xs. xs ! i = x) \<longrightarrow> xs ! binary_search_loop xs x 0 (length xs) = x"
      using binary_search_window [OF s, of 0 "length xs" x] by auto
    then show ?thesis using False by (auto simp: binary_search_def Let_def in_set_conv_nth)
  qed (simp add: binary_search_def)
qed

section \<open>Splitting at the characters of a class\<close>

function split_where :: "('a \<Rightarrow> bool) \<Rightarrow> 'a list \<Rightarrow> 'a list list" where
  "split_where P s = takeWhile (\<lambda>c. \<not> P c) s #
     (case dropWhile (\<lambda>c. \<not> P c) s of [] \<Rightarrow> [] | _ # rest \<Rightarrow> split_where P rest)"
  by pat_completeness auto
termination
proof (relation "measure (length \<circ> snd)", goal_cases)
  case (2 P s x xs)
  then show ?case using length_dropWhile_le [of "\<lambda>c. \<not> P c" s] by simp
qed simp

declare split_where.simps [simp del]

end
