(* ===== verification/Canonical_Json.thy ===== *)
theory Canonical_Json
  imports Json Ordered_Text
begin

text \<open>
  The canonical JSON identity of \<open>canonical_json.rs\<close> (crate \<open>mcp-toolkit-core\<close>).  Object keys are
  ordered at every depth by the order of Rust strings, which compares bytes lexicographically: the order
  of the library on lists of characters.  The JSON writer and the SHA-256 function are parameters.
\<close>

lemma json_entry_size: "(k, v) \<in> set m \<Longrightarrow> size v < Suc (size_list (size_prod (\<lambda>_. 0) size) m)"
  by (induction m) auto

function order_object_keys :: "json \<Rightarrow> json" where
  "order_object_keys (JObject m) = JObject (map (\<lambda>(key, nested). (key, order_object_keys nested)) (sort_key fst m))"
| "order_object_keys (JArray items) = JArray (map order_object_keys items)"
| "order_object_keys JNull = JNull"
| "order_object_keys (JBool b) = JBool b"
| "order_object_keys (JNumber n) = JNumber n"
| "order_object_keys (JString s) = JString s"
  by pat_completeness auto
termination
  by (relation "measure size") (auto simp: json_entry_size less_Suc_eq_le size_list_estimation')

type_synonym to_vec = "json \<Rightarrow> (rstr, rstr) result"
type_synonym sha256 = "rstr \<Rightarrow> rstr"

definition canonical_json_bytes :: "to_vec \<Rightarrow> json \<Rightarrow> (rstr, rstr) result" where
  "canonical_json_bytes T v = T (order_object_keys v)"

record canonical_json_identity =
  identity_bytes :: rstr
  identity_sha256 :: rstr

definition canonical_json_identity_new :: "to_vec \<Rightarrow> sha256 \<Rightarrow> json \<Rightarrow> (rstr, canonical_json_identity) result" where
  "canonical_json_identity_new T H v =
     (case canonical_json_bytes T v of
        Inl e \<Rightarrow> Inl e
      | Inr bytes \<Rightarrow> Inr \<lparr>identity_bytes = bytes, identity_sha256 = H bytes\<rparr>)"

definition hex_digit :: "nat \<Rightarrow> char" where
  "hex_digit n = (if n < 10 then char_of (48 + n) else char_of (87 + n))"

definition hex_byte :: "char \<Rightarrow> rstr" where
  "hex_byte b = [hex_digit (byte b div 16), hex_digit (byte b mod 16)]"

definition sha256_hex :: "canonical_json_identity \<Rightarrow> rstr" where
  "sha256_hex i = concat (map hex_byte (identity_sha256 i))"

definition sha256_id :: "canonical_json_identity \<Rightarrow> rstr" where
  "sha256_id i = ''sha256:'' @ sha256_hex i"

section \<open>Equality of JSON values up to the order of object entries\<close>

inductive json_equiv :: "json \<Rightarrow> json \<Rightarrow> bool" where
  null: "json_equiv JNull JNull"
| bool: "json_equiv (JBool b) (JBool b)"
| number: "json_equiv (JNumber n) (JNumber n)"
| string: "json_equiv (JString s) (JString s)"
| array: "list_all2 json_equiv xs ys \<Longrightarrow> json_equiv (JArray xs) (JArray ys)"
| object: "dom (map_of m) = dom (map_of n) \<Longrightarrow>
    (\<forall>k v w. map_of m k = Some v \<longrightarrow> map_of n k = Some w \<longrightarrow> json_equiv v w) \<Longrightarrow>
    json_equiv (JObject m) (JObject n)"

inductive_simps json_equiv_simps:
  "json_equiv JNull w" "json_equiv (JBool b) w" "json_equiv (JNumber n) w" "json_equiv (JString s) w"
  "json_equiv (JArray xs) w" "json_equiv (JObject m) w"

text \<open>The keys of every object, at every depth, are distinct: what the object type guarantees.\<close>

fun json_wf :: "json \<Rightarrow> bool" where
  "json_wf (JObject m) = (distinct (map fst m) \<and> (\<forall>(k, v) \<in> set m. json_wf v))"
| "json_wf (JArray xs) = (\<forall>v \<in> set xs. json_wf v)"
| "json_wf _ = True"

text \<open>Keys are strictly increasing at every depth.\<close>

fun keys_ordered :: "json \<Rightarrow> bool" where
  "keys_ordered (JObject m) = (sorted_wrt (<) (map fst m) \<and> (\<forall>(k, v) \<in> set m. keys_ordered v))"
| "keys_ordered (JArray xs) = (\<forall>v \<in> set xs. keys_ordered v)"
| "keys_ordered _ = True"

lemma sort_entries_eq_iff:
  fixes m n :: "('k :: linorder \<times> 'v) list"
  assumes "distinct (map fst m)" and "distinct (map fst n)"
  shows "sort_key fst m = sort_key fst n \<longleftrightarrow> map_of m = map_of n"
proof
  assume "sort_key fst m = sort_key fst n"
  then have "set m = set n" by (metis set_sort)
  then show "map_of m = map_of n" using assms by (simp add: map_of_inject_set)
next
  assume "map_of m = map_of n"
  then have s: "set m = set n" using assms by (simp add: map_of_inject_set)
  have "inj_on fst (set m)" using assms(1) by (simp add: distinct_map)
  moreover have "distinct (map fst (sort_key fst m))" "distinct (map fst (sort_key fst n))"
    using assms by (simp_all add: distinct_map)
  ultimately show "sort_key fst m = sort_key fst n"
    using s by (intro map_sorted_distinct_set_unique [of fst]) simp_all
qed

lemma insort_key_map_entries:
  "map (\<lambda>(k, v). (k, g v)) (insort_key fst x xs) =
     insort_key fst ((\<lambda>(k, v). (k, g v)) x) (map (\<lambda>(k, v). (k, g v)) xs)"
  by (cases x; induction xs) auto

lemma sort_key_map_entries:
  "map (\<lambda>(k, v). (k, g v)) (sort_key fst m) = sort_key fst (map (\<lambda>(k, v). (k, g v)) m)"
  by (induction m) (simp_all add: insort_key_map_entries)

lemma keys_map_entries [simp]: "map fst (map (\<lambda>(k, v). (k, g v)) m) = map fst m"
  by (induction m) auto

lemma order_object_keys_object_iff:
  assumes "distinct (map fst m)" and "distinct (map fst n)"
  shows "order_object_keys (JObject m) = order_object_keys (JObject n) \<longleftrightarrow>
     (\<forall>k. map_option order_object_keys (map_of m k) = map_option order_object_keys (map_of n k))"
proof -
  have "order_object_keys (JObject m) = order_object_keys (JObject n) \<longleftrightarrow>
     map_of (map (\<lambda>(k, v). (k, order_object_keys v)) m) = map_of (map (\<lambda>(k, v). (k, order_object_keys v)) n)"
    using assms by (simp add: sort_key_map_entries sort_entries_eq_iff del: map_map)
  then show ?thesis by (simp add: map_of_map fun_eq_iff)
qed

lemma json_wf_entry: "json_wf (JObject m) \<Longrightarrow> map_of m k = Some v \<Longrightarrow> json_wf v"
  by (auto dest: map_of_SomeD)

text \<open>The canonical form is complete for the equivalence.\<close>

lemma canonical_complete: "json_equiv v w \<Longrightarrow> json_wf v \<Longrightarrow> json_wf w \<Longrightarrow> order_object_keys v = order_object_keys w"
proof (induction rule: json_equiv.induct)
  case (array xs ys)
  then show ?case by (auto simp: list_all2_conv_all_nth intro!: nth_equalityI)
next
  case (object m n)
  have d: "distinct (map fst m)" "distinct (map fst n)" using object.prems by simp_all
  have "map_option order_object_keys (map_of m k) = map_option order_object_keys (map_of n k)" for k
  proof (cases "map_of m k")
    case None
    then have "map_of n k = None" using object.hyps(1) by (metis domIff)
    with None show ?thesis by simp
  next
    case (Some v)
    then obtain w where w: "map_of n k = Some w" using object.hyps(1) by (metis domIff not_None_eq)
    then have "order_object_keys v = order_object_keys w"
      using object.IH Some json_wf_entry object.prems by blast
    with Some w show ?thesis by simp
  qed
  then show ?case by (simp only: order_object_keys_object_iff [OF d] simp_thms)
qed simp_all

lemma order_object_keys_scalar:
  "JNull = order_object_keys w \<longleftrightarrow> w = JNull" "JBool b = order_object_keys w \<longleftrightarrow> w = JBool b"
  "JNumber n = order_object_keys w \<longleftrightarrow> w = JNumber n" "JString s = order_object_keys w \<longleftrightarrow> w = JString s"
  by (cases w; auto)+

text \<open>And sound: values with one canonical form are equal up to the order of entries.\<close>

lemma canonical_sound: "json_wf v \<Longrightarrow> json_wf w \<Longrightarrow> order_object_keys v = order_object_keys w \<Longrightarrow> json_equiv v w"
proof (induction v arbitrary: w rule: order_object_keys.induct)
  case (1 m)
  obtain n where w: "w = JObject n" using 1(4) by (cases w) auto
  have d: "distinct (map fst m)" "distinct (map fst n)" using 1(2,3) w by simp_all
  have e: "map_option order_object_keys (map_of m k) = map_option order_object_keys (map_of n k)" for k
    using 1(4) unfolding w order_object_keys_object_iff [OF d] by blast
  then have "dom (map_of m) = dom (map_of n)"
    by (metis (no_types, lifting) domIff option.map_disc_iff subsetI subset_antisym)
  moreover have "json_equiv v u" if "map_of m k = Some v" "map_of n k = Some u" for k v u
  proof -
    have "(k, v) \<in> set (sort_key fst m)" using that(1) by (simp add: map_of_SomeD)
    moreover have "order_object_keys v = order_object_keys u" using e [of k] that by simp
    ultimately show ?thesis
      using 1(1) [OF _ refl] json_wf_entry that 1(2,3) w by blast
  qed
  ultimately show ?case unfolding w by (blast intro: json_equiv.object)
next
  case (2 items)
  obtain ys where w: "w = JArray ys" and m: "map order_object_keys items = map order_object_keys ys"
    using 2(4) by (cases w) auto
  have len: "length items = length ys" using m by (rule map_eq_imp_length_eq)
  have "json_equiv (items ! i) (ys ! i)" if "i < length items" for i
    using 2(1) [of "items ! i" "ys ! i"] 2(2,3) w m that len by (simp, metis nth_map nth_mem)
  then show ?case using w len by (simp add: list_all2_conv_all_nth json_equiv.array)
qed (simp_all add: order_object_keys_scalar json_equiv.intros)

lemma order_object_keys_wf: "json_wf v \<Longrightarrow> json_wf (order_object_keys v)"
  by (induction v rule: order_object_keys.induct) (auto simp: case_prod_unfold distinct_map comp_def)

lemma order_object_keys_ordered: "json_wf v \<Longrightarrow> keys_ordered (order_object_keys v)"
proof (induction v rule: order_object_keys.induct)
  case (1 m)
  have "sorted (map fst (sort_key fst m))" "distinct (map fst (sort_key fst m))"
    using 1(2) by (simp_all add: distinct_map)
  then have "sorted_wrt (<) (map fst (sort_key fst m))" by (simp add: strict_sorted_iff)
  then show ?case using 1 by (auto simp: case_prod_unfold comp_def)
qed auto

lemma keys_ordered_wf: "keys_ordered v \<Longrightarrow> json_wf v"
  by (induction v rule: json_wf.induct) (auto simp: strict_sorted_iff)

lemma ordered_fixed: "keys_ordered v \<Longrightarrow> order_object_keys v = v"
proof (induction v rule: order_object_keys.induct)
  case (1 m)
  then have "sort_key fst m = m" by (auto intro: sort_key_id_if_sorted simp: strict_sorted_iff)
  moreover have "map (\<lambda>(k, v). (k, order_object_keys v)) m = m"
    using 1 calculation by (auto intro!: map_idI)
  ultimately show ?case by simp
qed (auto intro: map_idI)

lemma hex_digit_inject: "n < 16 \<Longrightarrow> m < 16 \<Longrightarrow> hex_digit n = hex_digit m \<longleftrightarrow> n = m"
  by (auto simp: hex_digit_def dest!: arg_cong [where f = byte] split: if_splits)

lemma hex_byte_inject: "hex_byte a = hex_byte b \<longleftrightarrow> a = b"
proof
  assume "hex_byte a = hex_byte b"
  then have "byte a div 16 = byte b div 16" "byte a mod 16 = byte b mod 16"
    using nat_of_char_less_256 [of a] nat_of_char_less_256 [of b]
    by (simp_all add: hex_byte_def hex_digit_inject less_mult_imp_div_less)
  then have "byte a = byte b" by (metis div_mult_mod_eq)
  then show "a = b" by simp
qed simp

lemma hex_inject: "concat (map hex_byte xs) = concat (map hex_byte ys) \<longleftrightarrow> xs = ys"
proof (induction xs arbitrary: ys)
  case Nil
  then show ?case by (cases ys) (simp_all add: hex_byte_def)
next
  case (Cons x xs)
  note IH = Cons.IH
  have len: "length (hex_byte b) = 2" for b by (simp add: hex_byte_def)
  show ?case
  proof (cases ys)
    case Nil
    then show ?thesis using len [of x] by auto
  next
    case (Cons y ys')
    then show ?thesis using IH by (simp add: append_eq_append_conv len hex_byte_inject)
  qed
qed

section \<open>Properties\<close>

text \<open>
  C36: the key-ordered value is a canonical form.  Two JSON values have the same ordered value exactly
  when they are equal up to the order of object entries at every depth (array positions and scalars count),
  so the identity computed from an intent never depends on insertion order and distinct intents are never
  merged before they are written and hashed.  The ordered value has strictly increasing keys at every depth,
  ordering it again changes nothing, and the rendered identities agree exactly when the digests do.
\<close>

theorem canonical_form:
  assumes "json_wf v" and "json_wf w"
  shows "(order_object_keys v = order_object_keys w \<longleftrightarrow> json_equiv v w)
    \<and> (json_equiv v w \<longrightarrow> canonical_json_identity_new T H v = canonical_json_identity_new T H w)
    \<and> keys_ordered (order_object_keys v) \<and> order_object_keys (order_object_keys v) = order_object_keys v
    \<and> (sha256_id i = sha256_id j \<longleftrightarrow> identity_sha256 i = identity_sha256 j)"
proof -
  have e: "order_object_keys v = order_object_keys w \<longleftrightarrow> json_equiv v w"
    using assms canonical_complete canonical_sound by blast
  moreover have "json_equiv v w \<longrightarrow> canonical_json_identity_new T H v = canonical_json_identity_new T H w"
    unfolding e [symmetric] by (simp add: canonical_json_identity_new_def canonical_json_bytes_def)
  moreover have "keys_ordered (order_object_keys v)" by (rule order_object_keys_ordered [OF assms(1)])
  moreover from this have "order_object_keys (order_object_keys v) = order_object_keys v" by (rule ordered_fixed)
  moreover have "sha256_id i = sha256_id j \<longleftrightarrow> identity_sha256 i = identity_sha256 j"
    by (simp add: sha256_id_def sha256_hex_def hex_inject)
  ultimately show ?thesis by blast
qed

theorem canonical_form_witness:
  "json_equiv (JObject [(''tool'', JNull), (''args'', JObject [(''z'', JBool True), (''a'', JNull)])])
     (JObject [(''args'', JObject [(''a'', JNull), (''z'', JBool True)]), (''tool'', JNull)])
   \<and> \<not> json_equiv (JArray [JNull, JBool True]) (JArray [JBool True, JNull])"
proof -
  have "order_object_keys (JObject [(''tool'', JNull), (''args'', JObject [(''z'', JBool True), (''a'', JNull)])]) =
    order_object_keys (JObject [(''args'', JObject [(''a'', JNull), (''z'', JBool True)]), (''tool'', JNull)])"
    by code_simp
  moreover have "order_object_keys (JArray [JNull, JBool True]) \<noteq> order_object_keys (JArray [JBool True, JNull])"
    by simp
  ultimately show ?thesis
    using canonical_form [of "JObject [(''tool'', JNull), (''args'', JObject [(''z'', JBool True), (''a'', JNull)])]"
        "JObject [(''args'', JObject [(''a'', JNull), (''z'', JBool True)]), (''tool'', JNull)]"]
      canonical_form [of "JArray [JNull, JBool True]" "JArray [JBool True, JNull]"]
    by simp
qed

end
