(* ===== verification/Guarded_Action.thy ===== *)
theory Guarded_Action
  imports Prelude
begin

text \<open>
  Guarded actions of \<open>guarded_action.rs\<close> (crate \<open>mcp-toolkit-core\<close>): the posture of an action, the
  runtime-mode gate, the preview, apply and proof envelopes, and the normalised plan ids that bind an
  apply to its preview.
\<close>

datatype operation_class =
    ReadOp | SensitiveRead | NoMutationProof | Preview | GuardedApply | Mutating | Destructive | SendAdjacent

fun operation_class_str :: "operation_class \<Rightarrow> rstr" where
  "operation_class_str ReadOp = ''read''"
| "operation_class_str SensitiveRead = ''sensitive_read''"
| "operation_class_str NoMutationProof = ''no_mutation_proof''"
| "operation_class_str Preview = ''preview''"
| "operation_class_str GuardedApply = ''guarded_apply''"
| "operation_class_str Mutating = ''mutating''"
| "operation_class_str Destructive = ''destructive''"
| "operation_class_str SendAdjacent = ''send_adjacent''"

definition class_destructive :: "operation_class \<Rightarrow> bool" where
  "class_destructive c \<longleftrightarrow> c = Destructive"

definition class_send_adjacent :: "operation_class \<Rightarrow> bool" where
  "class_send_adjacent c \<longleftrightarrow> c = SendAdjacent"

definition is_write_like :: "operation_class \<Rightarrow> bool" where
  "is_write_like c \<longleftrightarrow> c \<in> {GuardedApply, Mutating, Destructive, SendAdjacent}"

record posture =
  operation_class :: operation_class
  requires_runtime_enablement :: bool
  writes_enabled_by_default :: bool
  post_apply_readback_required :: bool

definition posture_of :: "operation_class \<Rightarrow> bool \<Rightarrow> bool \<Rightarrow> posture" where
  "posture_of c enablement readback =
     \<lparr>operation_class = c, requires_runtime_enablement = enablement,
      writes_enabled_by_default = False, post_apply_readback_required = readback\<rparr>"

definition posture_read_only :: posture where
  "posture_read_only = posture_of ReadOp False False"

definition posture_preview :: posture where
  "posture_preview = posture_of Preview False False"

definition posture_sensitive_read :: posture where
  "posture_sensitive_read = posture_of SensitiveRead True False"

definition posture_no_mutation_proof :: posture where
  "posture_no_mutation_proof = posture_of NoMutationProof False False"

definition posture_guarded_apply :: posture where
  "posture_guarded_apply = posture_of GuardedApply True True"

definition posture_mutating :: posture where
  "posture_mutating = posture_of Mutating True False"

definition posture_destructive :: posture where
  "posture_destructive = posture_of Destructive True True"

definition posture_send_adjacent :: posture where
  "posture_send_adjacent = posture_of SendAdjacent True True"

definition posture_default :: posture where
  "posture_default = posture_mutating"

definition with_runtime_enablement :: "posture \<Rightarrow> bool \<Rightarrow> posture" where
  "with_runtime_enablement p b = p\<lparr>requires_runtime_enablement := b\<rparr>"

definition with_writes_enabled_by_default :: "posture \<Rightarrow> bool \<Rightarrow> posture" where
  "with_writes_enabled_by_default p b = p\<lparr>writes_enabled_by_default := b\<rparr>"

definition with_post_apply_readback_required :: "posture \<Rightarrow> bool \<Rightarrow> posture" where
  "with_post_apply_readback_required p b = p\<lparr>post_apply_readback_required := b\<rparr>"

definition is_read_only :: "posture \<Rightarrow> bool" where
  "is_read_only p \<longleftrightarrow> operation_class p \<in> {ReadOp, SensitiveRead, NoMutationProof}"

definition is_destructive :: "posture \<Rightarrow> bool" where
  "is_destructive p = class_destructive (operation_class p)"

definition is_send_adjacent :: "posture \<Rightarrow> bool" where
  "is_send_adjacent p = class_send_adjacent (operation_class p)"

datatype runtime_mode = ReadOnlyMode | PreviewOnly | EnabledMode

fun runtime_mode_str :: "runtime_mode \<Rightarrow> rstr" where
  "runtime_mode_str ReadOnlyMode = ''read_only''"
| "runtime_mode_str PreviewOnly = ''preview_only''"
| "runtime_mode_str EnabledMode = ''enabled''"

datatype guarded_action_error =
    EmptyField rstr
  | ActionDisabled rstr operation_class runtime_mode

abbreviation quoted :: "rstr \<Rightarrow> rstr" where
  "quoted s \<equiv> CHR 0x27 # s @ [CHR 0x27]"

fun guarded_action_error_display :: "guarded_action_error \<Rightarrow> rstr" where
  "guarded_action_error_display (EmptyField field) =
     ''guarded action field `'' @ field @ ''` must not be empty''"
| "guarded_action_error_display (ActionDisabled action_name c m) =
     ''action '' @ quoted action_name @ '' with class '' @ quoted (operation_class_str c)
       @ '' is disabled while runtime mode is '' @ quoted (runtime_mode_str m)"

definition assert_allowed :: "runtime_mode \<Rightarrow> rstr \<Rightarrow> posture \<Rightarrow> (guarded_action_error, unit) result" where
  "assert_allowed mode action_name p =
     (if requires_runtime_enablement p \<and> mode \<noteq> EnabledMode
      then Inl (ActionDisabled (trim action_name) (operation_class p) mode)
      else
        let allowed = (case mode of
              ReadOnlyMode \<Rightarrow> is_read_only p
            | PreviewOnly \<Rightarrow> is_read_only p \<or> operation_class p = Preview
            | EnabledMode \<Rightarrow> True)
        in if allowed then Inr () else Inl (ActionDisabled (trim action_name) (operation_class p) mode))"

section \<open>Plan ids\<close>

text \<open>
  The loop of \<open>normalize_segment\<close>.  Every byte of a character outside ASCII becomes a dash and runs of
  dashes are collapsed, so reading bytes gives what reading characters gives.
\<close>

definition map_segment_char :: "char \<Rightarrow> char" where
  "map_segment_char ch =
     (if is_ascii_lower ch \<or> is_ascii_digit ch then ch
      else if is_ascii_upper ch then ascii_lower ch
      else if ch = CHR ''.'' \<or> ch = CHR ''_'' then ch
      else CHR ''-'')"

fun normalize_loop :: "bool \<Rightarrow> rstr \<Rightarrow> rstr" where
  "normalize_loop previous_dash [] = []"
| "normalize_loop previous_dash (ch # rest) =
     (let mapped = map_segment_char ch in
      if mapped = CHR ''-''
      then if previous_dash then normalize_loop previous_dash rest
           else mapped # normalize_loop True rest
      else mapped # normalize_loop False rest)"

definition normalize_segment :: "rstr \<Rightarrow> rstr \<Rightarrow> (guarded_action_error, rstr) result" where
  "normalize_segment field v =
     (let normalized = trim_matches CHR ''-'' (normalize_loop False (trim v)) in
      if normalized = [] then Inl (EmptyField field) else Inr normalized)"

record plan_seed =
  seed_action :: rstr
  seed_scope :: rstr
  seed_target :: rstr

definition plan_seed_new :: "rstr \<Rightarrow> rstr \<Rightarrow> rstr \<Rightarrow> (guarded_action_error, plan_seed) result" where
  "plan_seed_new action scope target =
     (case normalize_segment ''action'' action of
        Inl e \<Rightarrow> Inl e
      | Inr a \<Rightarrow> (case normalize_segment ''scope'' scope of
            Inl e \<Rightarrow> Inl e
          | Inr s \<Rightarrow> (case normalize_segment ''target'' target of
                Inl e \<Rightarrow> Inl e
              | Inr t \<Rightarrow> Inr \<lparr>seed_action = a, seed_scope = s, seed_target = t\<rparr>)))"

definition stable_plan_id :: "plan_seed \<Rightarrow> rstr" where
  "stable_plan_id seed = ''gap.'' @ seed_action seed @ ''.'' @ seed_scope seed @ ''.'' @ seed_target seed"

section \<open>Envelopes\<close>

record ('p, 'e) action_preview =
  preview_plan_id :: rstr
  preview_runtime_mode :: runtime_mode
  preview_posture :: posture
  preview_expires_at :: "rstr option"
  preview_body :: 'p
  preview_evidence :: 'e

definition action_preview_new :: "rstr \<Rightarrow> runtime_mode \<Rightarrow> posture \<Rightarrow> 'p \<Rightarrow> 'e \<Rightarrow> ('p, 'e) action_preview" where
  "action_preview_new plan_id mode p preview evidence =
     \<lparr>preview_plan_id = plan_id, preview_runtime_mode = mode, preview_posture = p,
      preview_expires_at = None, preview_body = preview, preview_evidence = evidence\<rparr>"

definition with_expires_at :: "('p, 'e) action_preview \<Rightarrow> rstr \<Rightarrow> ('p, 'e) action_preview" where
  "with_expires_at a expires_at = a\<lparr>preview_expires_at := Some expires_at\<rparr>"

record ('a, 'e) action_apply =
  apply_plan_id :: rstr
  apply_runtime_mode :: runtime_mode
  apply_posture :: posture
  apply_applied :: 'a
  apply_evidence :: 'e

definition action_apply_new :: "rstr \<Rightarrow> runtime_mode \<Rightarrow> posture \<Rightarrow> 'a \<Rightarrow> 'e \<Rightarrow> ('a, 'e) action_apply" where
  "action_apply_new plan_id mode p applied evidence =
     \<lparr>apply_plan_id = plan_id, apply_runtime_mode = mode, apply_posture = p,
      apply_applied = applied, apply_evidence = evidence\<rparr>"

record ('p, 'e) no_mutation_proof =
  proof_runtime_mode :: runtime_mode
  proof_posture :: posture
  proof_body :: 'p
  proof_evidence :: 'e
  mutation_performed :: bool
  production_action_authorized :: bool

definition no_mutation_proof_new :: "runtime_mode \<Rightarrow> 'p \<Rightarrow> 'e \<Rightarrow> ('p, 'e) no_mutation_proof" where
  "no_mutation_proof_new mode pf evidence =
     \<lparr>proof_runtime_mode = mode, proof_posture = posture_no_mutation_proof, proof_body = pf,
      proof_evidence = evidence, mutation_performed = False, production_action_authorized = False\<rparr>"

section \<open>Normalised segments\<close>

definition segment_char :: "char \<Rightarrow> bool" where
  "segment_char c \<longleftrightarrow> is_ascii_lower c \<or> is_ascii_digit c \<or> c = CHR ''.'' \<or> c = CHR ''_'' \<or> c = CHR ''-''"

fun no_dash_run :: "rstr \<Rightarrow> bool" where
  "no_dash_run (a # b # s) = (\<not> (a = CHR ''-'' \<and> b = CHR ''-'') \<and> no_dash_run (b # s))"
| "no_dash_run _ = True"

definition segment_ok :: "rstr \<Rightarrow> bool" where
  "segment_ok s \<longleftrightarrow> s \<noteq> [] \<and> list_all segment_char s \<and> no_dash_run s
     \<and> hd s \<noteq> CHR ''-'' \<and> last s \<noteq> CHR ''-''"

lemma ascii_lower_upper: "is_ascii_upper c \<Longrightarrow> is_ascii_lower (ascii_lower c)"
  by (simp add: is_ascii_lower_def byte_ascii_lower is_ascii_upper_def)

lemma map_segment_char_ok: "segment_char (map_segment_char c)"
  by (simp add: map_segment_char_def segment_char_def ascii_lower_upper)

lemma map_segment_char_id: "segment_char c \<Longrightarrow> map_segment_char c = c"
  by (auto simp: map_segment_char_def segment_char_def is_ascii_upper_def)

lemma normalize_loop_chars: "list_all segment_char (normalize_loop d s)"
  by (induction d s rule: normalize_loop.induct) (auto simp: Let_def map_segment_char_ok, simp add: segment_char_def)

lemma normalize_loop_hd: "normalize_loop True s = [] \<or> hd (normalize_loop True s) \<noteq> CHR ''-''"
  by (induction s) (auto simp: Let_def)

lemma no_dash_run_Cons: "no_dash_run (a # s) \<longleftrightarrow> (s = [] \<or> \<not> (a = CHR ''-'' \<and> hd s = CHR ''-'')) \<and> no_dash_run s"
  by (cases s) auto

lemma normalize_loop_run: "no_dash_run (normalize_loop d s)"
  by (induction d s rule: normalize_loop.induct)
    (use normalize_loop_hd in \<open>auto simp: Let_def no_dash_run_Cons\<close>)

lemma normalize_loop_id:
  "list_all segment_char s \<Longrightarrow> no_dash_run s \<Longrightarrow> (d \<longrightarrow> s = [] \<or> hd s \<noteq> CHR ''-'') \<Longrightarrow> normalize_loop d s = s"
  by (induction s arbitrary: d) (auto simp: Let_def map_segment_char_id no_dash_run_Cons)

lemma no_dash_run_append: "no_dash_run (s @ u) \<Longrightarrow> no_dash_run s \<and> no_dash_run u"
  by (induction s) (auto simp: no_dash_run_Cons hd_append split: if_splits)

lemma normalize_segment_ok: "normalize_segment field v = Inr s \<Longrightarrow> segment_ok s"
proof -
  let ?n = "normalize_loop False (trim v)"
  assume "normalize_segment field v = Inr s"
  then have s: "s = trim_matches CHR ''-'' ?n" "s \<noteq> []"
    by (auto simp: normalize_segment_def Let_def split: if_splits)
  obtain p q where pq: "?n = p @ s @ q" using trim_matches_sublist s(1) by metis
  have "list_all segment_char s" using normalize_loop_chars [of False "trim v"] unfolding pq by simp
  moreover have "no_dash_run s" using normalize_loop_run [of False "trim v"] unfolding pq
    by (blast dest: no_dash_run_append)
  ultimately show ?thesis using s trim_matches_ends [of "CHR ''-''" ?n] by (simp add: segment_ok_def)
qed

lemma segment_char_visible: "segment_char c \<Longrightarrow> is_visible_ascii c"
  by (auto simp: segment_char_def is_visible_ascii_def is_ascii_lower_def is_ascii_digit_def)

lemma normalize_segment_fixed: "segment_ok s \<Longrightarrow> normalize_segment field s = Inr s"
proof -
  assume ok: "segment_ok s"
  then have "trim s = s"
    by (intro trim_visible) (auto simp: segment_ok_def list_all_iff segment_char_visible)
  then show ?thesis using ok
    by (simp add: segment_ok_def normalize_segment_def normalize_loop_id trim_matches_id)
qed

lemma append_dot_inject:
  "CHR ''.'' \<notin> set a \<Longrightarrow> CHR ''.'' \<notin> set b \<Longrightarrow>
     a @ CHR ''.'' # s = b @ CHR ''.'' # u \<longleftrightarrow> a = b \<and> s = u"
  by (induction a arbitrary: b; case_tac b) auto

lemma plan_seed_new_ok:
  "plan_seed_new a s t = Inr seed \<Longrightarrow>
     segment_ok (seed_action seed) \<and> segment_ok (seed_scope seed) \<and> segment_ok (seed_target seed)"
  by (auto simp: plan_seed_new_def split: sum.splits dest: normalize_segment_ok)

section \<open>Properties\<close>

text \<open>
  The runtime gate is exact and closed.  An action passes exactly when the mode is enabled, or its
  posture asks for no enablement and it is a read, or a preview in preview-only mode.  So no posture of a
  class that can write passes outside enabled mode, whatever overrides it carries, and the refusal names
  the trimmed action, its class and the mode.
\<close>

lemma runtime_gate_exact:
  "(assert_allowed mode name p = Inr () \<longleftrightarrow>
      mode = EnabledMode \<or> \<not> requires_runtime_enablement p
        \<and> (is_read_only p \<or> mode = PreviewOnly \<and> operation_class p = Preview))
   \<and> (is_write_like (operation_class p) \<and> mode \<noteq> EnabledMode \<longrightarrow>
        assert_allowed mode name (with_runtime_enablement p b)
          = Inl (ActionDisabled (trim name) (operation_class p) mode))"
  by (cases mode; cases "operation_class p")
    (auto simp: assert_allowed_def is_read_only_def is_write_like_def with_runtime_enablement_def)

text \<open>
  C37: normalisation is a projection onto the plan-id alphabet.  A segment it returns is nonempty, uses
  only lower-case letters, digits, dot, underscore and single inner dashes, and is returned unchanged when
  normalised again; and the segments it leaves unchanged are exactly those.  On seeds whose action and
  scope have no dot, plan ids are injective: one id binds one action, scope and target.
\<close>

theorem plan_id_binding:
  "(segment_ok s \<longleftrightarrow> normalize_segment field s = Inr s)
   \<and> (normalize_segment field v = Inr s \<longrightarrow> segment_ok s \<and> normalize_segment field' s = Inr s)
   \<and> (plan_seed_new a1 s1 t1 = Inr seed1 \<and> plan_seed_new a2 s2 t2 = Inr seed2
      \<and> CHR ''.'' \<notin> set (seed_action seed1) \<union> set (seed_scope seed1)
           \<union> set (seed_action seed2) \<union> set (seed_scope seed2)
      \<longrightarrow> (stable_plan_id seed1 = stable_plan_id seed2 \<longleftrightarrow> seed1 = seed2))"
  using normalize_segment_ok normalize_segment_fixed
  by (auto simp: stable_plan_id_def append_dot_inject)

theorem plan_id_binding_witness:
  "normalize_segment ''target'' ''  Prod / DB#1 '' = Inr ''prod-db-1''
   \<and> normalize_segment ''target'' ''prod-db-1'' = Inr ''prod-db-1''"
proof -
  have "normalize_segment ''target'' ''  Prod / DB#1 '' = Inr ''prod-db-1''" by code_simp
  then show ?thesis
    using plan_id_binding [of "''prod-db-1''" "''target''" "''  Prod / DB#1 ''" "''target''"] by blast
qed

text \<open>
  Plan ids do not separate the fields they bind.  Segments may contain the dot that joins them, so
  seeds with different actions and different scopes share a plan id: a preview of one action carries the
  id of another.
\<close>

lemma plan_id_collision:
  "\<exists>seed1 seed2.
     plan_seed_new ''user.delete'' ''preview'' ''42'' = Inr seed1 \<and>
     plan_seed_new ''user'' ''delete.preview'' ''42'' = Inr seed2 \<and>
     seed1 \<noteq> seed2 \<and> stable_plan_id seed1 = stable_plan_id seed2"
proof -
  have "plan_seed_new ''user.delete'' ''preview'' ''42'' =
      Inr \<lparr>seed_action = ''user.delete'', seed_scope = ''preview'', seed_target = ''42''\<rparr>" by code_simp
  moreover have "plan_seed_new ''user'' ''delete.preview'' ''42'' =
      Inr \<lparr>seed_action = ''user'', seed_scope = ''delete.preview'', seed_target = ''42''\<rparr>" by code_simp
  ultimately show ?thesis by (simp add: stable_plan_id_def)
qed

end
