(* ===== verification/Scratchpad_Sql.thy ===== *)
theory Scratchpad_Sql
  imports Sql_Policy Ordered_Text
begin

text \<open>
  The restricted SQL policy of the DuckDB scratchpad, \<open>sql_safety.rs\<close> (crate
  \<open>mcp-toolkit-scratchpad\<close>).  It calls the classifier of the policy core and adds its own checks on a
  lexical surface of its own: the surface keeps every printable byte and the text of double-quoted
  identifiers.  Loops over an index are recursions on the remaining bytes, as in the core lexer; the
  comment depth is a natural number for the same reason.
\<close>

section \<open>Codes\<close>

datatype scratchpad_sql_policy_code =
    DEmptySql | DUnterminatedToken | DMultipleStatements | DNotReadOnlyPrefix | DForbiddenKeyword
  | DForbiddenFunction | DExplainNotReadOnly | DClassifierUnavailable | DSqlTooLarge
  | DuckDbForbiddenKeyword | DuckDbForbiddenFunction

fun scratchpad_code_as_str :: "scratchpad_sql_policy_code \<Rightarrow> rstr" where
  "scratchpad_code_as_str DEmptySql = ''EMPTY_SQL''"
| "scratchpad_code_as_str DUnterminatedToken = ''UNTERMINATED_TOKEN''"
| "scratchpad_code_as_str DMultipleStatements = ''MULTIPLE_STATEMENTS''"
| "scratchpad_code_as_str DNotReadOnlyPrefix = ''NOT_READ_ONLY_PREFIX''"
| "scratchpad_code_as_str DForbiddenKeyword = ''FORBIDDEN_KEYWORD''"
| "scratchpad_code_as_str DForbiddenFunction = ''FORBIDDEN_FUNCTION''"
| "scratchpad_code_as_str DExplainNotReadOnly = ''EXPLAIN_NOT_READ_ONLY''"
| "scratchpad_code_as_str DClassifierUnavailable = ''CLASSIFIER_UNAVAILABLE''"
| "scratchpad_code_as_str DSqlTooLarge = ''SQL_TOO_LARGE''"
| "scratchpad_code_as_str DuckDbForbiddenKeyword = ''DUCKDB_FORBIDDEN_KEYWORD''"
| "scratchpad_code_as_str DuckDbForbiddenFunction = ''DUCKDB_FORBIDDEN_FUNCTION''"

record scratchpad_sql_policy_error =
  scratchpad_code :: scratchpad_sql_policy_code
  scratchpad_message :: rstr

definition scratchpad_error_new :: "scratchpad_sql_policy_code \<Rightarrow> rstr \<Rightarrow> scratchpad_sql_policy_error" where
  "scratchpad_error_new code message = \<lparr>scratchpad_code = code, scratchpad_message = message\<rparr>"

definition DUCKDB_ALLOWED_PREFIXES :: "rstr list" where
  "DUCKDB_ALLOWED_PREFIXES = [''DESCRIBE'', ''SUMMARIZE'']"

definition DUCKDB_FORBIDDEN_KEYWORDS :: "rstr list" where
  "DUCKDB_FORBIDDEN_KEYWORDS = [''INSTALL'', ''LOAD'', ''ATTACH'', ''DETACH'', ''EXPORT'', ''IMPORT'']"

definition DUCKDB_FORBIDDEN_FUNCTIONS :: "rstr list" where
  "DUCKDB_FORBIDDEN_FUNCTIONS =
     [''READ_CSV'', ''READ_CSV_AUTO'', ''READ_PARQUET'', ''READ_JSON'', ''READ_JSON_AUTO'', ''READ_NDJSON'',
      ''READ_BLOB'', ''READ_TEXT'', ''READ_XLSX'', ''CSV_SCAN'', ''PARQUET_SCAN'', ''JSON_SCAN'',
      ''POSTGRES_SCAN'', ''MYSQL_SCAN'', ''SQLITE_SCAN'']"

section \<open>The lexical surface\<close>

definition duck_mask_byte :: "char \<Rightarrow> char" where
  "duck_mask_byte b =
     (if byte b = 10 \<or> byte b = 13 \<or> byte b = 9 then b
      else if 0x20 \<le> byte b \<and> byte b \<le> 0x7e then b
      else CHR '' '')"

definition duck_mask_hidden_byte :: "char \<Rightarrow> char" where
  "duck_mask_hidden_byte b = (if byte b = 10 \<or> byte b = 13 \<or> byte b = 9 then b else CHR '' '')"

fun duck_dollar_loop :: "nat \<Rightarrow> rstr \<Rightarrow> nat option" where
  "duck_dollar_loop j [] = None"
| "duck_dollar_loop j (c # input) =
     (if c = CHR ''$'' then Some (j + 1)
      else if \<not> is_ascii_alphanumeric c \<and> c \<noteq> CHR ''_'' then None
      else duck_dollar_loop (j + 1) input)"

fun duck_parse_dollar_tag :: "rstr \<Rightarrow> nat option" where
  "duck_parse_dollar_tag [] = None"
| "duck_parse_dollar_tag (c # input) = (if c \<noteq> CHR ''$'' then None else duck_dollar_loop 1 input)"

fun duck_step :: "rstr option \<Rightarrow> lex_state \<Rightarrow> rstr \<Rightarrow> rstr \<times> rstr option \<times> lex_state \<times> nat" where
  "duck_step (Some tag) state bytes =
     (if starts_with bytes tag then (blanks (length tag), None, state, length tag)
      else ([duck_mask_hidden_byte (hd bytes)], Some tag, state, 1))"
| "duck_step None Normal bytes =
     (if starts_with bytes ''--'' then (blanks 2, None, LineComment, 2)
      else if starts_with bytes ''/*'' then (blanks 2, None, BlockComment 1, 2)
      else if hd bytes = CHR 0x27 then (blanks 1, None, SingleQuote, 1)
      else if hd bytes = CHR 0x22 then (blanks 1, None, DoubleQuote, 1)
      else (case duck_parse_dollar_tag bytes of
              Some tag_len \<Rightarrow> (blanks tag_len, Some (take tag_len bytes), Normal, tag_len)
            | None \<Rightarrow> ([duck_mask_byte (hd bytes)], None, Normal, 1)))"
| "duck_step None SingleQuote bytes =
     (if hd bytes = CHR 0x27
      then (if starts_with (tl bytes) [CHR 0x27] then (blanks 2, None, SingleQuote, 2)
            else (blanks 1, None, Normal, 1))
      else ([duck_mask_hidden_byte (hd bytes)], None, SingleQuote, 1))"
| "duck_step None DoubleQuote bytes =
     (if hd bytes = CHR 0x22
      then (if starts_with (tl bytes) [CHR 0x22] then (blanks 2, None, DoubleQuote, 2)
            else (blanks 1, None, Normal, 1))
      else ([duck_mask_byte (hd bytes)], None, DoubleQuote, 1))"
| "duck_step None LineComment bytes =
     (if byte (hd bytes) = 10 then ([hd bytes], None, Normal, 1)
      else (blanks 1, None, LineComment, 1))"
| "duck_step None (BlockComment depth) bytes =
     (if starts_with bytes ''/*'' then (blanks 2, None, BlockComment (depth + 1), 2)
      else if starts_with bytes ''*/''
      then (blanks 2, None, if depth = 1 then Normal else BlockComment (depth - 1), 2)
      else ([duck_mask_hidden_byte (hd bytes)], None, BlockComment depth, 1))"

function duck_lex :: "rstr option \<Rightarrow> lex_state \<Rightarrow> rstr \<Rightarrow> rstr option" where
  "duck_lex tag state [] = (if unterminated tag state then None else Some [])"
| "duck_lex tag state (b # bs) =
     (case duck_step tag state (b # bs) of
        (out, tag', state', n) \<Rightarrow> emit out (duck_lex tag' state' (drop (max 1 n) (b # bs))))"
  by pat_completeness auto
termination
  by (relation "measure (\<lambda>(tag, state, bytes). length bytes)") auto

declare duck_lex.simps(2) [simp del]

definition lexical_sql_surface :: "rstr \<Rightarrow> (scratchpad_sql_policy_error, rstr) result" where
  "lexical_sql_surface sql =
     (case duck_lex None Normal sql of
        None \<Rightarrow> Inl (scratchpad_error_new DUnterminatedToken
                  ''scratchpad policy rejected SQL with unterminated quote/comment'')
      | Some out \<Rightarrow> Inr out)"

section \<open>Checks on the surface\<close>

definition is_identifier_start :: "char \<Rightarrow> bool" where
  "is_identifier_start b \<longleftrightarrow> is_ascii_upper b \<or> is_ascii_lower b \<or> b = CHR ''_''"

definition is_identifier_continue :: "char \<Rightarrow> bool" where
  "is_identifier_continue b \<longleftrightarrow> is_ascii_alphanumeric b \<or> b = CHR ''_''"

definition duck_forbidden_keyword :: "rstr \<Rightarrow> bool" where
  "duck_forbidden_keyword surface_upper =
     list_ex (\<lambda>token. token \<in> set DUCKDB_FORBIDDEN_KEYWORDS)
       (filter (\<lambda>token. token \<noteq> [])
         (split_where (\<lambda>ch. \<not> (is_ascii_alphanumeric ch \<or> ch = CHR ''_'')) surface_upper))"

definition has_allowed_duckdb_prefix :: "rstr \<Rightarrow> bool" where
  "has_allowed_duckdb_prefix surface_upper =
     list_ex (\<lambda>p. starts_with surface_upper p
        \<and> (case drop (length p) surface_upper of [] \<Rightarrow> True | b # _ \<Rightarrow> is_ascii_whitespace b))
       DUCKDB_ALLOWED_PREFIXES"

function duck_forbidden_call :: "rstr \<Rightarrow> bool" where
  "duck_forbidden_call [] = False"
| "duck_forbidden_call (b # bs) =
     (if is_identifier_start b then
        let token = b # takeWhile is_identifier_continue bs;
            rest = dropWhile is_identifier_continue bs
        in (case dropWhile is_ascii_whitespace rest of
              c # _ \<Rightarrow> c = CHR ''('' \<and> token \<in> set DUCKDB_FORBIDDEN_FUNCTIONS
            | [] \<Rightarrow> False) \<or> duck_forbidden_call rest
      else duck_forbidden_call bs)"
  by pat_completeness auto
termination
  by (relation "measure length") (auto simp: less_Suc_eq_le length_dropWhile_le)

declare duck_forbidden_call.simps(2) [simp del]

fun duck_code :: "restricted_sql_error_code \<Rightarrow> scratchpad_sql_policy_code" where
  "duck_code SqlEmptySql = DEmptySql"
| "duck_code SqlUnterminatedToken = DUnterminatedToken"
| "duck_code SqlMultipleStatements = DMultipleStatements"
| "duck_code SqlNotReadOnlyPrefix = DNotReadOnlyPrefix"
| "duck_code SqlForbiddenKeyword = DForbiddenKeyword"
| "duck_code SqlForbiddenFunction = DForbiddenFunction"
| "duck_code SqlExplainNotReadOnly = DExplainNotReadOnly"
| "duck_code SqlClassifierUnavailable = DClassifierUnavailable"

definition map_core_error :: "restricted_sql_error \<Rightarrow> scratchpad_sql_policy_error" where
  "map_core_error err = scratchpad_error_new (duck_code (sql_code err)) (sql_message err)"

definition validate_scratchpad_sql ::
  "regex_crate \<Rightarrow> rstr \<Rightarrow> nat \<Rightarrow> (scratchpad_sql_policy_error, unit) result" where
  "validate_scratchpad_sql re sql max_sql_bytes =
     (if max_sql_bytes = 0
      then Inl (scratchpad_error_new DClassifierUnavailable
             ''scratchpad sql policy is unavailable due to invalid max_sql_bytes'')
      else if length sql > max_sql_bytes
      then Inl (scratchpad_error_new DSqlTooLarge
             (''sql payload exceeds max size of '' @ show_nat max_sql_bytes @ '' bytes''))
      else case lexical_sql_surface sql of
        Inl e \<Rightarrow> Inl e
      | Inr lexical \<Rightarrow>
          (let upper = to_ascii_uppercase (trim lexical);
               after_core =
                 (if duck_forbidden_keyword upper
                  then Inl (scratchpad_error_new DuckDbForbiddenKeyword
                         ''scratchpad policy rejected DuckDB extension/file keyword'')
                  else if duck_forbidden_call upper
                  then Inl (scratchpad_error_new DuckDbForbiddenFunction
                         ''scratchpad policy rejected DuckDB external scan/read function'')
                  else Inr ())
           in case classify_restricted_sql re sql of
                Inr _ \<Rightarrow> after_core
              | Inl err \<Rightarrow>
                  if sql_code err = SqlNotReadOnlyPrefix \<and> has_allowed_duckdb_prefix upper
                  then after_core
                  else Inl (map_core_error err)))"

section \<open>Shape of the surface\<close>

definition duck_masks :: "char \<Rightarrow> char \<Rightarrow> bool" where
  "duck_masks b c \<longleftrightarrow> c = CHR '' '' \<or> c = b \<and> byte b < 127"

lemma duck_masks_simps [simp]:
  "duck_masks b (CHR '' '')" "duck_masks b (duck_mask_byte b)" "duck_masks b (duck_mask_hidden_byte b)"
  by (auto simp: duck_masks_def duck_mask_byte_def duck_mask_hidden_byte_def)

lemma duck_masks_blanks: "n \<le> length bs \<Longrightarrow> list_all2 duck_masks (take n bs) (blanks n)"
  by (simp add: blanks_def list_all2_conv_all_nth)

lemma duck_dollar_same: "duck_dollar_loop j s = dollar_tag_loop j s"
  by (induction j s rule: duck_dollar_loop.induct) auto

lemma duck_parse_dollar_tag_same: "duck_parse_dollar_tag s = parse_dollar_tag s"
  by (cases s) (simp_all add: duck_dollar_same)

lemma duck_step_shape:
  assumes "duck_step tag state (b # bs) = (out, tag', state', n)" and "tag_ok tag"
  shows "1 \<le> n \<and> n \<le> length (b # bs) \<and> tag_ok tag' \<and> list_all2 duck_masks (take n (b # bs)) out"
proof (cases tag)
  case (Some t)
  show ?thesis
  proof (cases "starts_with (b # bs) t")
    case True
    then have "length t \<le> length (b # bs)" by (rule prefix_length_le)
    with True assms Some show ?thesis using duck_masks_blanks [of "length t" "b # bs"]
      by (auto simp: tag_ok_def)
  next
    case False
    with assms Some show ?thesis by auto
  qed
next
  case None
  show ?thesis
  proof (cases state)
    case Normal
    show ?thesis
    proof (cases "parse_dollar_tag (b # bs)")
      case (Some m)
      with assms None Normal duck_masks_blanks [of m "b # bs"] parse_dollar_tag_bounds [OF Some]
      show ?thesis
        by (cases bs) (auto simp: tag_ok_def duck_parse_dollar_tag_same split: if_splits
            simp del: parse_dollar_tag.simps duck_parse_dollar_tag.simps)
    next
      case p: None
      with assms None Normal show ?thesis
        by (cases bs) (auto simp: tag_ok_def duck_parse_dollar_tag_same split: if_splits
            simp del: parse_dollar_tag.simps duck_parse_dollar_tag.simps)
    qed
  next
    case SingleQuote
    with assms None show ?thesis by (cases bs) (auto simp: tag_ok_def split: if_splits)
  next
    case DoubleQuote
    with assms None show ?thesis by (cases bs) (auto simp: tag_ok_def split: if_splits)
  next
    case LineComment
    with assms None show ?thesis by (auto simp: tag_ok_def duck_masks_def split: if_splits)
  next
    case (BlockComment d)
    with assms None show ?thesis by (cases bs) (auto simp: tag_ok_def split: if_splits)
  qed
qed

interpretation scratchpad_lexer: masking_lexer duck_step duck_lex duck_masks
  by unfold_locales (simp_all only: duck_lex.simps duck_step_shape simp_thms)

lemma surface_shape: "lexical_sql_surface sql = Inr out \<Longrightarrow> list_all2 duck_masks sql out"
  using scratchpad_lexer.run_shape [of None Normal sql out]
  by (auto simp: lexical_sql_surface_def tag_ok_def split: option.splits)

section \<open>What the scanners find\<close>

text \<open>A token that stands between separators.\<close>

definition delimited_by :: "('a \<Rightarrow> bool) \<Rightarrow> 'a list \<Rightarrow> 'a list \<Rightarrow> bool" where
  "delimited_by P s tok \<longleftrightarrow> (\<exists>pre post. s = pre @ tok @ post \<and> (\<forall>c \<in> set tok. \<not> P c)
     \<and> (pre = [] \<or> P (last pre)) \<and> (post = [] \<or> P (hd post)))"

lemma takeWhile_until:
  "\<forall>c \<in> set tok. Q c \<Longrightarrow> post = [] \<or> \<not> Q (hd post) \<Longrightarrow>
     takeWhile Q (tok @ post) = tok \<and> dropWhile Q (tok @ post) = post"
  by (induction tok) (auto simp: takeWhile_eq_Nil_iff dropWhile_eq_self_iff)

lemma split_where_delimited: "tok \<in> set (split_where P s) \<longleftrightarrow> delimited_by P s tok"
proof (induction P s rule: split_where.induct)
  case (1 P s)
  let ?Q = "\<lambda>c. \<not> P c"
  have s: "s = takeWhile ?Q s @ dropWhile ?Q s" by simp
  have hd: "dropWhile ?Q s = [] \<or> P (hd (dropWhile ?Q s))" using hd_dropWhile [of ?Q s] by auto
  have first: "delimited_by P s (takeWhile ?Q s)"
    unfolding delimited_by_def
    by (intro exI [of _ "[]"] exI [of _ "dropWhile ?Q s"]) (use hd in \<open>auto dest: set_takeWhileD\<close>)
  show ?case
  proof (cases "dropWhile ?Q s")
    case Nil
    have "tok = takeWhile ?Q s" if d: "delimited_by P s tok"
    proof -
      from d obtain pre post where e: "s = pre @ tok @ post" "pre = [] \<or> P (last pre)" "post = [] \<or> P (hd post)"
        unfolding delimited_by_def by blast
      have all: "\<forall>c \<in> set s. \<not> P c" using Nil by (simp add: dropWhile_eq_Nil_conv)
      have "pre = []" using e(1,2) all by (metis Un_iff last_in_set set_append)
      moreover have "post = []" using e(1,3) all by (metis Un_iff hd_in_set set_append)
      moreover have "takeWhile ?Q s = s" using all by (simp add: takeWhile_eq_all_conv)
      ultimately show ?thesis using e(1) by (metis append_Nil append_Nil2)
    qed
    moreover have "split_where P s = [takeWhile ?Q s]"
      by (subst split_where.simps) (simp only: Nil list.case)
    ultimately show ?thesis using first by auto
  next
    case (Cons d rest)
    have d: "P d" using hd Cons by simp
    have s': "s = takeWhile ?Q s @ d # rest" using s Cons by simp
    have IH: "tok \<in> set (split_where P rest) \<longleftrightarrow> delimited_by P rest tok" using 1 Cons by blast
    have up: "delimited_by P s tok" if "delimited_by P rest tok"
    proof -
      from that obtain pre post where "rest = pre @ tok @ post" "\<forall>c \<in> set tok. \<not> P c"
        "pre = [] \<or> P (last pre)" "post = [] \<or> P (hd post)" unfolding delimited_by_def by blast
      then show ?thesis using d s' unfolding delimited_by_def
        by (intro exI [of _ "takeWhile ?Q s @ d # pre"] exI [of _ post]) auto
    qed
    have down: "tok = takeWhile ?Q s \<or> delimited_by P rest tok" if dl: "delimited_by P s tok"
    proof -
      from dl obtain pre post where e: "s = pre @ tok @ post" "\<forall>c \<in> set tok. \<not> P c"
        "pre = [] \<or> P (last pre)" "post = [] \<or> P (hd post)" unfolding delimited_by_def by blast
      show ?thesis
      proof (cases "pre = []")
        case True
        then show ?thesis using e takeWhile_until [of tok ?Q post] by simp
      next
        case False
        then have some: "\<not> (\<forall>c \<in> set pre. ?Q c)" using e(3) by auto
        then have "dropWhile ?Q pre \<noteq> []" by (simp add: dropWhile_eq_Nil_conv)
        then obtain d' pre' where p: "dropWhile ?Q pre = d' # pre'" by (meson neq_Nil_conv)
        then have "d # rest = (d' # pre') @ tok @ post" using Cons e(1) some by (simp add: dropWhile_append)
        moreover have "pre' = [] \<or> P (last pre')"
        proof -
          have "last pre = last (d' # pre')" using p by (metis last_appendR list.discI takeWhile_dropWhile_id)
          then show ?thesis using e(3) False by (auto split: if_splits)
        qed
        ultimately show ?thesis using e unfolding delimited_by_def by auto
      qed
    qed
    have "split_where P s = takeWhile ?Q s # split_where P rest"
      by (subst split_where.simps) (simp only: Cons list.case)
    then show ?thesis using first up down IH by auto
  qed
qed

text \<open>
  A forbidden function called in a text: the name stands where an identifier starts, and only white space
  separates it from the parenthesis.
\<close>

definition starts_identifier :: "rstr \<Rightarrow> bool" where
  "starts_identifier pre \<longleftrightarrow> list_all (\<lambda>c. \<not> is_identifier_start c) (takeWhile is_identifier_continue (rev pre))"

definition calls_forbidden :: "rstr \<Rightarrow> bool" where
  "calls_forbidden s \<longleftrightarrow> (\<exists>pre tok ws post. s = pre @ tok @ ws @ CHR ''('' # post
     \<and> tok \<in> set DUCKDB_FORBIDDEN_FUNCTIONS \<and> list_all is_ascii_whitespace ws \<and> starts_identifier pre)"

lemma forbidden_function_names:
  "tok \<in> set DUCKDB_FORBIDDEN_FUNCTIONS \<Longrightarrow>
     tok \<noteq> [] \<and> is_identifier_start (hd tok) \<and> list_all is_identifier_continue tok"
proof -
  have "list_all (\<lambda>tok. tok \<noteq> [] \<and> is_identifier_start (hd tok) \<and> list_all is_identifier_continue tok)
    DUCKDB_FORBIDDEN_FUNCTIONS" by code_simp
  then show "tok \<in> set DUCKDB_FORBIDDEN_FUNCTIONS \<Longrightarrow> ?thesis" by (simp add: list_all_iff)
qed

lemma whitespace_not_identifier: "is_ascii_whitespace c \<Longrightarrow> \<not> is_identifier_continue c"
  by (auto simp: is_identifier_continue_def rstr_defs)

lemma identifier_start_continue: "is_identifier_start c \<Longrightarrow> is_identifier_continue c"
  by (auto simp: is_identifier_start_def is_identifier_continue_def is_ascii_alphanumeric_def)

lemma starts_identifier_Cons:
  "\<not> is_identifier_start b \<Longrightarrow> starts_identifier (b # pre) \<longleftrightarrow> starts_identifier pre"
proof (cases "\<forall>c \<in> set pre. is_identifier_continue c")
  case True
  then have tw: "takeWhile is_identifier_continue (rev pre) = rev pre" by simp
  assume "\<not> is_identifier_start b"
  then show ?thesis using True by (simp add: starts_identifier_def takeWhile_append tw)
next
  case False
  then show ?thesis by (auto simp: starts_identifier_def takeWhile_append)
qed

lemma starts_identifier_append:
  assumes "pre = [] \<or> \<not> is_identifier_continue (hd pre)" and "pre \<noteq> []"
  shows "starts_identifier (u @ pre) \<longleftrightarrow> starts_identifier pre"
proof -
  have "\<exists>c \<in> set (rev pre). \<not> is_identifier_continue c" using assms by auto
  then have "takeWhile is_identifier_continue (rev pre @ rev u) = takeWhile is_identifier_continue (rev pre)"
    by (auto simp: takeWhile_append1)
  then show ?thesis by (simp add: starts_identifier_def)
qed

lemma starts_identifier_inside:
  "list_all is_identifier_continue pre \<Longrightarrow> c \<in> set pre \<Longrightarrow> is_identifier_start c \<Longrightarrow> \<not> starts_identifier pre"
proof -
  assume a: "list_all is_identifier_continue pre" "c \<in> set pre" "is_identifier_start c"
  then have tw: "takeWhile is_identifier_continue (rev pre) = rev pre" by (simp add: list_all_iff)
  show ?thesis using a(2,3) by (auto simp: starts_identifier_def list_all_iff tw)
qed

lemma call_ends_name:
  assumes "list_all is_ascii_whitespace ws" and "list_all is_identifier_continue tok"
  shows "takeWhile is_identifier_continue (tok @ ws @ CHR ''('' # post) = tok
    \<and> dropWhile is_identifier_continue (tok @ ws @ CHR ''('' # post) = ws @ CHR ''('' # post"
proof -
  have "\<not> is_identifier_continue (hd (ws @ CHR ''('' # post))"
    using assms(1) by (cases ws) (auto simp: whitespace_not_identifier is_identifier_continue_def rstr_defs)
  then show ?thesis using takeWhile_until [of tok is_identifier_continue "ws @ CHR ''('' # post"] assms(2)
    by (auto simp: list_all_iff)
qed

lemma skip_whitespace:
  "list_all is_ascii_whitespace ws \<Longrightarrow>
     dropWhile is_ascii_whitespace (ws @ CHR ''('' # post) = CHR ''('' # post"
  by (induction ws) (auto simp: rstr_defs)

lemma calls_forbidden_skip:
  "\<not> is_identifier_start b \<Longrightarrow> calls_forbidden (b # bs) \<longleftrightarrow> calls_forbidden bs"
proof
  assume b: "\<not> is_identifier_start b" and "calls_forbidden (b # bs)"
  then obtain pre tok ws post where e: "b # bs = pre @ tok @ ws @ CHR ''('' # post"
    "tok \<in> set DUCKDB_FORBIDDEN_FUNCTIONS" "list_all is_ascii_whitespace ws" "starts_identifier pre"
    unfolding calls_forbidden_def by blast
  have "pre \<noteq> []" using e(1) b forbidden_function_names [OF e(2)] by (cases tok) auto
  then obtain pre' where "pre = b # pre'" "bs = pre' @ tok @ ws @ CHR ''('' # post"
    using e(1) by (cases pre) auto
  then show "calls_forbidden bs" using e b starts_identifier_Cons unfolding calls_forbidden_def by blast
next
  assume b: "\<not> is_identifier_start b" and "calls_forbidden bs"
  then obtain pre tok ws post where "bs = pre @ tok @ ws @ CHR ''('' # post"
    "tok \<in> set DUCKDB_FORBIDDEN_FUNCTIONS" "list_all is_ascii_whitespace ws" "starts_identifier pre"
    unfolding calls_forbidden_def by blast
  then show "calls_forbidden (b # bs)" using b starts_identifier_Cons unfolding calls_forbidden_def
    by (metis append_Cons)
qed

lemma calls_forbidden_token:
  assumes "is_identifier_start b"
    and token_def: "token = b # takeWhile is_identifier_continue bs"
    and rest_def: "rest = dropWhile is_identifier_continue bs"
  shows "calls_forbidden (b # bs) \<longleftrightarrow>
     (\<exists>post. dropWhile is_ascii_whitespace rest = CHR ''('' # post) \<and> token \<in> set DUCKDB_FORBIDDEN_FUNCTIONS
     \<or> calls_forbidden rest"
proof -
  have s: "b # bs = token @ rest" by (simp add: token_def rest_def)
  have tok: "list_all is_identifier_continue token"
    using assms(1) by (auto simp: token_def list_all_iff identifier_start_continue dest: set_takeWhileD)
  have rest: "rest = [] \<or> \<not> is_identifier_continue (hd rest)"
    using hd_dropWhile [of is_identifier_continue bs] by (auto simp: rest_def)
  have here: "calls_forbidden (b # bs)"
    if "dropWhile is_ascii_whitespace rest = CHR ''('' # post" "token \<in> set DUCKDB_FORBIDDEN_FUNCTIONS" for post
  proof -
    have "b # bs = [] @ token @ takeWhile is_ascii_whitespace rest @ CHR ''('' # post"
      using s that(1) by (metis append_Nil takeWhile_dropWhile_id)
    moreover have "list_all is_ascii_whitespace (takeWhile is_ascii_whitespace rest)"
      by (auto simp: list_all_iff dest: set_takeWhileD)
    moreover have "starts_identifier []" by (simp add: starts_identifier_def)
    ultimately show ?thesis using that(2) unfolding calls_forbidden_def by blast
  qed
  have later: "calls_forbidden (b # bs)" if c: "calls_forbidden rest"
  proof -
    from c obtain pre tok' ws post where e: "rest = pre @ tok' @ ws @ CHR ''('' # post"
      "tok' \<in> set DUCKDB_FORBIDDEN_FUNCTIONS" "list_all is_ascii_whitespace ws" "starts_identifier pre"
      unfolding calls_forbidden_def by blast
    have "pre \<noteq> []" using rest e(1) forbidden_function_names [OF e(2)] by (cases tok') auto
    moreover from this have "\<not> is_identifier_continue (hd pre)" using rest e(1) by auto
    ultimately have "starts_identifier (token @ pre)" using e(4) starts_identifier_append by blast
    then show ?thesis using e s unfolding calls_forbidden_def by (metis append_assoc)
  qed
  have split: "(\<exists>post. dropWhile is_ascii_whitespace rest = CHR ''('' # post) \<and> token \<in> set DUCKDB_FORBIDDEN_FUNCTIONS
     \<or> calls_forbidden rest" if c: "calls_forbidden (b # bs)"
  proof -
    from c obtain pre tok' ws post where e: "b # bs = pre @ tok' @ ws @ CHR ''('' # post"
      "tok' \<in> set DUCKDB_FORBIDDEN_FUNCTIONS" "list_all is_ascii_whitespace ws" "starts_identifier pre"
      unfolding calls_forbidden_def by blast
    note name = forbidden_function_names [OF e(2)]
    have all: "takeWhile is_identifier_continue (b # bs) = token" "dropWhile is_identifier_continue (b # bs) = rest"
      using assms(1) by (simp_all add: token_def rest_def identifier_start_continue)
    show ?thesis
    proof (cases "pre = []")
      case True
      then have "tok' = token" "rest = ws @ CHR ''('' # post"
        using call_ends_name [OF e(3), of tok' post] name all e(1) by simp_all
      then show ?thesis using skip_whitespace [OF e(3)] e(2) by blast
    next
      case False
      then have b: "b \<in> set pre" using e(1) by (cases pre) auto
      have "\<not> list_all is_identifier_continue pre" using starts_identifier_inside b assms(1) e(4) by blast
      then have drop: "rest = dropWhile is_identifier_continue pre @ tok' @ ws @ CHR ''('' # post"
        unfolding all(2) [symmetric] e(1) by (auto simp: dropWhile_append1 list_all_iff)
      let ?p = "dropWhile is_identifier_continue pre"
      have "?p \<noteq> []" using \<open>\<not> list_all is_identifier_continue pre\<close> by (simp add: dropWhile_eq_Nil_conv list_all_iff)
      moreover from this have "\<not> is_identifier_continue (hd ?p)" by (rule hd_dropWhile)
      ultimately have "starts_identifier ?p"
        using starts_identifier_append [of ?p "takeWhile is_identifier_continue pre"] e(4) by simp
      then show ?thesis using drop e unfolding calls_forbidden_def by blast
    qed
  qed
  show ?thesis using here later split by blast
qed

lemma duck_forbidden_call_iff: "duck_forbidden_call s \<longleftrightarrow> calls_forbidden s"
proof (induction s rule: duck_forbidden_call.induct)
  case 1
  have "tok \<notin> set DUCKDB_FORBIDDEN_FUNCTIONS" if "tok = []" for tok
    using forbidden_function_names that by blast
  then show ?case by (auto simp: calls_forbidden_def)
next
  case (2 b bs)
  show ?case
  proof (cases "is_identifier_start b")
    case True
    then show ?thesis using 2(1) [OF True refl refl]
      unfolding duck_forbidden_call.simps(2) calls_forbidden_token [OF True refl refl]
      by (auto simp: Let_def split: list.splits simp del: dropWhile_eq_Nil_conv)
  next
    case False
    then show ?thesis using 2(2) by (simp add: duck_forbidden_call.simps(2) calls_forbidden_skip)
  qed
qed

section \<open>Properties\<close>



text \<open>
  A line comment ends at a carriage return for the policy core, but only at a line feed for the scratchpad,
  so the text between the two is checked by the core and hidden from the DuckDB checks: a call of a forbidden
  scan function there is accepted.
\<close>

lemma carriage_return_hides_call:
  "validate_scratchpad_sql scanner_regex
     (''SELECT a FROM --'' @ [CHR 0x0D] @ ''read_csv(1)'') 1024 = Inr ()
   \<and> calls_forbidden (to_ascii_uppercase ''SELECT a FROM read_csv(1)'')"
proof -
  have "validate_scratchpad_sql scanner_regex (''SELECT a FROM --'' @ [CHR 0x0D] @ ''read_csv(1)'') 1024 = Inr ()"
    by code_simp
  moreover have "duck_forbidden_call (to_ascii_uppercase ''SELECT a FROM read_csv(1)'')" by code_simp
  ultimately show ?thesis by (simp add: duck_forbidden_call_iff)
qed

end
