(* ===== verification/Auth_Headers.thy ===== *)
theory Auth_Headers
  imports Json
begin

text \<open>
  Credentials in request headers, crate \<open>mcp-toolkit-auth\<close>: the error vocabulary of \<open>error.rs\<close>, the strict
  \<open>Authorization: Bearer\<close> parser of \<open>bearer.rs\<close> and the strict DPoP parsers of \<open>dpop.rs\<close>.  A header map
  is the list of its entries under lower-case names; a header value is a byte string, readable as text when
  it has only visible ASCII, spaces and tabs.
\<close>

section \<open>Errors\<close>

datatype auth_error =
    Generic rstr nat "rstr option" "rstr option"
  | MissingToken | InvalidToken | TokenExpired | ReplayDetected | MissingScopes
  | ConfigError rstr

definition auth_error_new :: "rstr \<Rightarrow> auth_error" where
  "auth_error_new message = Generic message 401 None None"

fun with_code :: "auth_error \<Rightarrow> rstr \<Rightarrow> auth_error" where
  "with_code (Generic message status_code _ reason) new_code = Generic message status_code (Some new_code) reason"
| "with_code e _ = e"

fun with_reason :: "auth_error \<Rightarrow> rstr \<Rightarrow> auth_error" where
  "with_reason (Generic message status_code code _) new_reason = Generic message status_code code (Some new_reason)"
| "with_reason e _ = e"

fun with_status :: "auth_error \<Rightarrow> nat \<Rightarrow> auth_error" where
  "with_status (Generic message _ code reason) new_status = Generic message new_status code reason"
| "with_status e _ = e"

definition decision_code_for_generic :: "nat \<Rightarrow> rstr option \<Rightarrow> rstr" where
  "decision_code_for_generic status_code reason =
     (if reason \<in> {Some ''invalid_audience'', Some ''invalid_issuer'', Some ''issuer_mismatch''}
      then ''TOKEN_ISSUER_OR_AUDIENCE_MISMATCH''
      else if reason \<in> {Some ''invalid_token'', Some ''invalid_signature'', Some ''invalid_algorithm'',
                        Some ''invalid_key'', Some ''missing_kid'', Some ''kid_not_found'',
                        Some ''invalid_key_use'', Some ''immature_signature''}
      then ''INVALID_BEARER_TOKEN''
      else if reason \<in> {Some ''invalid_subject'', Some ''missing_claim''} then ''MALFORMED_BEARER_TOKEN''
      else if reason \<in> {Some ''insufficient_scope'', Some ''missing_scopes''} then ''INSUFFICIENT_SCOPE''
      else if reason = Some ''client_not_allowed'' then ''AUTH_CLIENT_NOT_ALLOWED''
      else if reason \<in> {Some ''policy_denied'', Some ''forbidden''} then ''AUTH_POLICY_DENIED''
      else if status_code = 400 then ''MALFORMED_BEARER_TOKEN''
      else if status_code = 401 then ''INVALID_BEARER_TOKEN''
      else if status_code = 403 then ''AUTH_POLICY_DENIED''
      else if 500 \<le> status_code \<and> status_code \<le> 599 then ''AUTH_INTERNAL_ERROR''
      else ''AUTH_FAILURE'')"

definition bearer_error_for_generic :: "nat \<Rightarrow> rstr option \<Rightarrow> rstr option" where
  "bearer_error_for_generic status_code reason =
     (if reason = Some ''invalid_request'' then Some ''invalid_request''
      else if reason \<in> {Some ''invalid_token'', Some ''invalid_audience'', Some ''invalid_issuer'',
                        Some ''issuer_mismatch'', Some ''invalid_subject'', Some ''missing_claim'',
                        Some ''immature_signature'', Some ''invalid_signature'', Some ''invalid_algorithm'',
                        Some ''invalid_key'', Some ''missing_kid'', Some ''kid_not_found'',
                        Some ''invalid_key_use''}
      then Some ''invalid_token''
      else if reason \<in> {Some ''insufficient_scope'', Some ''missing_scopes'', Some ''client_not_allowed'',
                        Some ''policy_denied'', Some ''forbidden''}
      then Some ''insufficient_scope''
      else if status_code = 400 then Some ''invalid_request''
      else if status_code = 401 then Some ''invalid_token''
      else if status_code = 403 then Some ''insufficient_scope''
      else None)"

record auth_error_contract =
  contract_status_code :: nat
  contract_decision_code :: rstr
  contract_bearer_error :: "rstr option"
  contract_error_description :: "rstr option"
  contract_public_message :: rstr

definition contract_of :: "nat \<Rightarrow> rstr \<Rightarrow> rstr option \<Rightarrow> rstr option \<Rightarrow> rstr \<Rightarrow> auth_error_contract" where
  "contract_of status code berr desc msg =
     \<lparr>contract_status_code = status, contract_decision_code = code, contract_bearer_error = berr,
      contract_error_description = desc, contract_public_message = msg\<rparr>"

fun auth_error_contract_of :: "auth_error \<Rightarrow> auth_error_contract" where
  "auth_error_contract_of MissingToken =
     contract_of 401 ''MISSING_BEARER_TOKEN'' (Some ''invalid_request'') (Some ''missing token'') ''missing token''"
| "auth_error_contract_of InvalidToken =
     contract_of 401 ''INVALID_BEARER_TOKEN'' (Some ''invalid_token'') None ''invalid token''"
| "auth_error_contract_of TokenExpired =
     contract_of 401 ''TOKEN_EXPIRED'' (Some ''invalid_token'') (Some ''token expired'') ''token expired''"
| "auth_error_contract_of ReplayDetected =
     contract_of 401 ''TOKEN_REPLAY_DETECTED'' (Some ''invalid_token'') (Some ''token replay detected'')
       ''token replay detected''"
| "auth_error_contract_of MissingScopes =
     contract_of 403 ''INSUFFICIENT_SCOPE'' (Some ''insufficient_scope'') (Some ''missing scopes'') ''missing scopes''"
| "auth_error_contract_of (ConfigError message) =
     contract_of 500 ''AUTH_CONFIG_ERROR'' None None message"
| "auth_error_contract_of (Generic message status_code code reason) =
     contract_of status_code
       (case code of Some c \<Rightarrow> c | None \<Rightarrow> decision_code_for_generic status_code reason)
       (bearer_error_for_generic status_code reason) None message"

section \<open>Header maps\<close>

type_synonym header_map = "(rstr \<times> rstr) list"

definition get_all :: "header_map \<Rightarrow> rstr \<Rightarrow> rstr list" where
  "get_all headers name = map snd (filter (\<lambda>(n, _). n = name) headers)"

definition header_to_str :: "rstr \<Rightarrow> rstr option" where
  "header_to_str v = (if list_all (\<lambda>c. byte c = 9 \<or> 32 \<le> byte c \<and> byte c < 127) v then Some v else None)"

section \<open>Authorization headers\<close>

text \<open>The failures of both strict parsers; \<open>BearerParseError\<close> and \<open>DpopParseError\<close> have the same variants.\<close>

datatype authorization_parse_error =
    MissingAuthorization | MultipleAuthorizationHeaders | InvalidHeaderValue
  | LeadingOrTrailingWhitespace | ControlCharacter | InvalidSeparator | UnsupportedScheme | NoToken

definition parse_strict_bearer_value :: "rstr \<Rightarrow> (authorization_parse_error, rstr) result" where
  "parse_strict_bearer_value raw =
     (if trim raw \<noteq> raw then Inl LeadingOrTrailingWhitespace
      else if has_control raw then Inl ControlCharacter
      else if count_list raw (CHR '' '') \<noteq> 1 then Inl InvalidSeparator
      else case split_once (CHR '' '') raw of
             None \<Rightarrow> Inl InvalidSeparator
           | Some (scheme, token) \<Rightarrow>
               if \<not> eq_ignore_ascii_case scheme ''bearer'' then Inl UnsupportedScheme
               else if token = [] then Inl NoToken
               else Inr token)"

definition parse_strict_bearer_authorization :: "header_map \<Rightarrow> (authorization_parse_error, rstr) result" where
  "parse_strict_bearer_authorization headers =
     (case get_all headers ''authorization'' of
        [] \<Rightarrow> Inl MissingAuthorization
      | value # rest \<Rightarrow>
          if rest \<noteq> [] then Inl MultipleAuthorizationHeaders
          else case header_to_str value of
                 None \<Rightarrow> Inl InvalidHeaderValue
               | Some raw \<Rightarrow> parse_strict_bearer_value raw)"

definition parse_strict_dpop_value :: "rstr \<Rightarrow> (authorization_parse_error, rstr) result" where
  "parse_strict_dpop_value raw =
     (if trim raw \<noteq> raw then Inl LeadingOrTrailingWhitespace
      else if has_control raw then Inl ControlCharacter
      else if count_list raw (CHR '' '') \<noteq> 1 then Inl InvalidSeparator
      else case split_once (CHR '' '') raw of
             None \<Rightarrow> Inl InvalidSeparator
           | Some (scheme, token) \<Rightarrow>
               if \<not> eq_ignore_ascii_case scheme ''dpop'' then Inl UnsupportedScheme
               else if token = [] then Inl NoToken
               else Inr token)"

definition parse_strict_dpop_authorization :: "header_map \<Rightarrow> (authorization_parse_error, rstr) result" where
  "parse_strict_dpop_authorization headers =
     (case get_all headers ''authorization'' of
        [] \<Rightarrow> Inl MissingAuthorization
      | value # rest \<Rightarrow>
          if rest \<noteq> [] then Inl MultipleAuthorizationHeaders
          else case header_to_str value of
                 None \<Rightarrow> Inl InvalidHeaderValue
               | Some raw \<Rightarrow> parse_strict_dpop_value raw)"

datatype dpop_proof_parse_error = MissingProof | MultipleProofHeaders | InvalidProofHeader | InvalidProofValue

text \<open>Whether some scalar of a text is white space.\<close>

fun has_whitespace :: "rstr \<Rightarrow> bool" where
  "has_whitespace [] = False"
| "has_whitespace (c # cs) = (strip_one ws_seqs (c # cs) \<noteq> None \<or> has_whitespace cs)"

definition parse_strict_dpop_proof_value :: "rstr \<Rightarrow> (dpop_proof_parse_error, rstr) result" where
  "parse_strict_dpop_proof_value raw =
     (if raw = [] \<or> has_whitespace raw then Inl InvalidProofValue else Inr raw)"

definition parse_strict_dpop_proof :: "header_map \<Rightarrow> (dpop_proof_parse_error, rstr) result" where
  "parse_strict_dpop_proof headers =
     (case get_all headers ''dpop'' of
        [] \<Rightarrow> Inl MissingProof
      | value # rest \<Rightarrow>
          if rest \<noteq> [] then Inl MultipleProofHeaders
          else case header_to_str value of
                 None \<Rightarrow> Inl InvalidProofHeader
               | Some raw \<Rightarrow> parse_strict_dpop_proof_value raw)"

text \<open>The lenient reading of \<open>authenticator.rs\<close>, used when strict OAuth is off.\<close>

definition bearer_token :: "header_map \<Rightarrow> bool \<Rightarrow> rstr option" where
  "bearer_token headers strict =
     (if strict
      then (case parse_strict_bearer_authorization headers of Inl _ \<Rightarrow> None | Inr token \<Rightarrow> Some token)
      else case get_all headers ''authorization'' of
             [] \<Rightarrow> None
           | value # rest \<Rightarrow>
               if rest \<noteq> [] then None
               else Option.bind (header_to_str value) (\<lambda>raw.
                      let raw = trim (filter (\<lambda>c. \<not> (byte c < 32 \<or> byte c = 127)) raw) in
                      Option.bind (split_once (CHR '' '') raw) (\<lambda>(scheme, token).
                        if \<not> eq_ignore_ascii_case scheme ''bearer'' then None
                        else let token = trim token in if token = [] then None else Some token)))"

section \<open>What the strict parsers accept\<close>

lemma count_list_split_once:
  assumes "count_list raw d = 1" and "split_once d raw = Some (a, b)"
  shows "d \<notin> set b"
  using assms split_once_Some [OF assms(2)] by (simp add: count_list_0_iff)

lemma has_control_not_visible:
  "list_all (\<lambda>c. byte c = 9 \<or> 32 \<le> byte c \<and> byte c < 127) s \<Longrightarrow>
     has_control s \<longleftrightarrow> (\<exists>c \<in> set s. byte c = 9)"
  by (induction s) auto

lemma strict_value_shape:
  assumes "header_to_str raw = Some raw'" and "trim raw' = raw'" and "\<not> has_control raw'"
    and "count_list raw' (CHR '' '') = 1" and "split_once (CHR '' '') raw' = Some (scheme, token)"
  shows "raw = scheme @ CHR '' '' # token \<and> (\<forall>c \<in> set token. 33 \<le> byte c \<and> byte c \<le> 126)"
proof -
  have r: "raw' = raw" and v: "list_all (\<lambda>c. byte c = 9 \<or> 32 \<le> byte c \<and> byte c < 127) raw"
    using assms(1) by (auto simp: header_to_str_def split: if_splits)
  have s: "raw = scheme @ CHR '' '' # token" using split_once_Some [OF assms(5)] r by simp
  have n: "CHR '' '' \<notin> set token" using count_list_split_once [OF assms(4,5)] .
  have "33 \<le> byte c \<and> byte c \<le> 126" if c: "c \<in> set token" for c
  proof -
    have "c \<in> set raw" using c s by simp
    then have "32 \<le> byte c \<and> byte c < 127"
      using v assms(3) has_control_not_visible [OF v] r by (auto simp: list_all_iff)
    moreover have "byte c \<noteq> byte (CHR '' '')" using c n by (metis of_char_eq_iff)
    ultimately show ?thesis by simp
  qed
  then show ?thesis using s by blast
qed

text \<open>A credential: one header with the scheme in any case, one space, and a visible token.\<close>

definition sole_credential :: "rstr \<Rightarrow> header_map \<Rightarrow> rstr \<Rightarrow> bool" where
  "sole_credential w headers token \<longleftrightarrow>
     (\<exists>scheme. get_all headers ''authorization'' = [scheme @ CHR '' '' # token]
        \<and> eq_ignore_ascii_case scheme w \<and> token \<noteq> [] \<and> (\<forall>c \<in> set token. 33 \<le> byte c \<and> byte c \<le> 126))"

lemma scheme_letters:
  assumes "eq_ignore_ascii_case scheme w" and "list_all is_ascii_lower w" and "c \<in> set scheme"
  shows "65 \<le> byte c \<and> byte c \<le> 122"
proof -
  have "ascii_lower c \<in> set (map ascii_lower w)"
    using assms(1,3) unfolding eq_ignore_ascii_case_def to_ascii_lowercase_def by (metis image_eqI list.set_map)
  then obtain d where "d \<in> set w" "ascii_lower c = ascii_lower d" by auto
  moreover from this have "is_ascii_lower d" using assms(2) by (simp add: list_all_iff)
  ultimately have "is_ascii_upper c \<or> c = d" "97 \<le> byte d \<and> byte d \<le> 122"
    by (auto simp: ascii_lower_def is_ascii_upper_def is_ascii_lower_def split: if_splits)
  then show ?thesis by (auto simp: is_ascii_upper_def)
qed

lemma scheme_no_space:
  "eq_ignore_ascii_case scheme w \<Longrightarrow> list_all is_ascii_lower w \<Longrightarrow> CHR '' '' \<notin> set scheme"
  using scheme_letters [of scheme w "CHR '' ''"] by auto

lemma sole_credential_passes:
  assumes "eq_ignore_ascii_case scheme w" and "list_all is_ascii_lower w" and "w \<noteq> []"
    and "token \<noteq> []" and "\<forall>c \<in> set token. 33 \<le> byte c \<and> byte c \<le> 126"
  defines "raw \<equiv> scheme @ CHR '' '' # token"
  shows "header_to_str raw = Some raw \<and> trim raw = raw \<and> \<not> has_control raw
    \<and> count_list raw (CHR '' '') = 1 \<and> split_once (CHR '' '') raw = Some (scheme, token)"
proof -
  have ne: "scheme \<noteq> []" using assms(1,3) by (auto simp: eq_ignore_ascii_case_def to_ascii_lowercase_def)
  have sc: "65 \<le> byte c \<and> byte c \<le> 122" if "c \<in> set scheme" for c
    using scheme_letters [OF assms(1,2) that] .
  have n1: "CHR '' '' \<notin> set scheme" by (rule scheme_no_space [OF assms(1,2)])
  have n2: "CHR '' '' \<notin> set token" using assms(5) by fastforce
  have vis: "c = CHR '' '' \<or> 33 \<le> byte c \<and> byte c \<le> 126" if "c \<in> set raw" for c
    using that sc assms(5) by (force simp: raw_def)
  have v: "list_all (\<lambda>c. byte c = 9 \<or> 32 \<le> byte c \<and> byte c < 127) raw"
    unfolding list_all_iff using vis by fastforce
  have "byte c \<noteq> 9" if "c \<in> set raw" for c using vis [OF that] by auto
  then have nc: "\<not> has_control raw" using has_control_not_visible [OF v] by blast
  have "hd raw \<in> set scheme" "last raw \<in> set token" using ne assms(4) by (auto simp: raw_def)
  then have "is_visible_ascii (hd raw)" "is_visible_ascii (last raw)"
    using sc assms(5) by (fastforce simp: is_visible_ascii_def)+
  then have "trim raw = raw" by (intro trim_visible) (simp_all add: raw_def)
  moreover have "count_list raw (CHR '' '') = 1"
    using n1 n2 by (simp add: raw_def count_list_0_iff [symmetric])
  ultimately show ?thesis using v nc n1 by (simp add: header_to_str_def raw_def)
qed

lemma strict_bearer_iff: "parse_strict_bearer_authorization headers = Inr token \<longleftrightarrow> sole_credential ''bearer'' headers token"
proof
  assume "parse_strict_bearer_authorization headers = Inr token"
  then show "sole_credential ''bearer'' headers token"
    by (auto simp: parse_strict_bearer_authorization_def parse_strict_bearer_value_def sole_credential_def
        split: list.splits if_splits option.splits dest: strict_value_shape)
next
  assume "sole_credential ''bearer'' headers token"
  then obtain scheme where "get_all headers ''authorization'' = [scheme @ CHR '' '' # token]"
    "eq_ignore_ascii_case scheme ''bearer''" "token \<noteq> []" "\<forall>c \<in> set token. 33 \<le> byte c \<and> byte c \<le> 126"
    by (auto simp: sole_credential_def)
  with sole_credential_passes [of scheme "''bearer''" token]
  show "parse_strict_bearer_authorization headers = Inr token"
    by (simp add: parse_strict_bearer_authorization_def parse_strict_bearer_value_def is_ascii_lower_def)
qed

lemma strict_dpop_iff: "parse_strict_dpop_authorization headers = Inr token \<longleftrightarrow> sole_credential ''dpop'' headers token"
proof
  assume "parse_strict_dpop_authorization headers = Inr token"
  then show "sole_credential ''dpop'' headers token"
    by (auto simp: parse_strict_dpop_authorization_def parse_strict_dpop_value_def sole_credential_def
        split: list.splits if_splits option.splits dest: strict_value_shape)
next
  assume "sole_credential ''dpop'' headers token"
  then obtain scheme where "get_all headers ''authorization'' = [scheme @ CHR '' '' # token]"
    "eq_ignore_ascii_case scheme ''dpop''" "token \<noteq> []" "\<forall>c \<in> set token. 33 \<le> byte c \<and> byte c \<le> 126"
    by (auto simp: sole_credential_def)
  with sole_credential_passes [of scheme "''dpop''" token]
  show "parse_strict_dpop_authorization headers = Inr token"
    by (simp add: parse_strict_dpop_authorization_def parse_strict_dpop_value_def is_ascii_lower_def)
qed

section \<open>Properties\<close>

text \<open>
  the strict parsers read exactly one credential and never confuse the two schemes.  A token is returned
  exactly when the request has a single Authorization header made of the scheme in any case, one space and
  a nonempty token of visible ASCII; and no request is read both as a bearer and as a DPoP request.
\<close>

theorem strict_credentials:
  "(parse_strict_bearer_authorization headers = Inr token \<longleftrightarrow> sole_credential ''bearer'' headers token)
   \<and> (parse_strict_dpop_authorization headers = Inr token' \<longleftrightarrow> sole_credential ''dpop'' headers token')
   \<and> \<not> (parse_strict_bearer_authorization headers = Inr token \<and> parse_strict_dpop_authorization headers = Inr token')"
proof -
  have "\<not> (sole_credential ''bearer'' headers token \<and> sole_credential ''dpop'' headers token')"
  proof
    assume "sole_credential ''bearer'' headers token \<and> sole_credential ''dpop'' headers token'"
    then obtain s1 s2 where e: "s1 @ CHR '' '' # token = s2 @ CHR '' '' # token'"
      and i: "eq_ignore_ascii_case s1 ''bearer''" "eq_ignore_ascii_case s2 ''dpop''"
      unfolding sole_credential_def by (metis list.inject)
    have low: "list_all is_ascii_lower ''bearer''" "list_all is_ascii_lower ''dpop''" by code_simp+
    note split_once_append [OF scheme_no_space [OF i(1) low(1)], of token]
    moreover note split_once_append [OF scheme_no_space [OF i(2) low(2)], of token']
    ultimately have "Some (s1, token) = Some (s2, token')" unfolding e by (rule trans [OF sym])
    then have "s1 = s2" by simp
    then have "to_ascii_lowercase ''bearer'' = to_ascii_lowercase ''dpop''" using i by (simp add: eq_ignore_ascii_case_def)
    then show False by (simp add: to_ascii_lowercase_def)
  qed
  then show ?thesis by (simp add: strict_bearer_iff strict_dpop_iff)
qed

end
