(* ===== verification/Issuer_Registry.thy ===== *)
theory Issuer_Registry
  imports Auth_Headers Http_Path
begin

text \<open>
  The issuer registry of the HTTP auth surface: the metadata helpers of \<open>oauth.rs\<close> (crate
  \<open>mcp-toolkit-http\<close>) and the configuration, construction and path lookups of \<open>IssuerRegistry\<close> in
  \<open>surface.rs\<close> (crate \<open>mcp-toolkit-auth\<close>).  The \<open>url\<close> crate is a parameter, the record \<open>url_crate\<close>.  An
  authenticator is shared by reference, so an entry holds its number.  The hash map of well-known routes is
  an association list.
\<close>

section \<open>Metadata helpers\<close>

record 'u url_crate =
  url_parse :: "rstr \<Rightarrow> 'u option"
  url_scheme :: "'u \<Rightarrow> rstr"
  url_host_str :: "'u \<Rightarrow> rstr option"
  url_path :: "'u \<Rightarrow> rstr"
  url_with_path :: "'u \<Rightarrow> rstr \<Rightarrow> rstr"

datatype url_validation_error = UrlEmpty | UrlInvalid | MissingHost | InsecureScheme

fun url_error_display :: "url_validation_error \<Rightarrow> rstr" where
  "url_error_display UrlEmpty = ''empty URL''"
| "url_error_display UrlInvalid = ''invalid URL''"
| "url_error_display MissingHost = ''missing host''"
| "url_error_display InsecureScheme = ''insecure scheme (https required)''"

definition validate_absolute_url ::
  "'u url_crate \<Rightarrow> rstr \<Rightarrow> bool \<Rightarrow> (url_validation_error, unit) result" where
  "validate_absolute_url U v allow_insecure_http =
     (let trimmed = trim v in
      if trimmed = [] then Inl UrlEmpty
      else case url_parse U trimmed of
        None \<Rightarrow> Inl UrlInvalid
      | Some url \<Rightarrow>
          if \<not> (url_scheme U url = ''https'' \<or> url_scheme U url = ''http'' \<and> allow_insecure_http)
          then Inl InsecureScheme
          else if (case after_str ''://'' trimmed of
                     None \<Rightarrow> False | Some rest \<Rightarrow> rest = [] \<or> starts_with rest ''/'')
          then Inl MissingHost
          else if (case url_host_str U url of None \<Rightarrow> True | Some host \<Rightarrow> host = [])
          then Inl MissingHost
          else Inr ())"

definition well_known_paths :: "rstr \<Rightarrow> rstr \<Rightarrow> rstr list" where
  "well_known_paths resource_path well_known_name =
     (let trimmed = trim_matches (CHR ''/'') (trim resource_path);
          canonical = ''/.well-known/'' @ well_known_name
      in if trimmed = [] then [canonical] else [canonical @ ''/'' @ trimmed])"

record authorization_server_metadata =
  md_issuer :: rstr
  md_authorization_endpoint :: rstr
  md_token_endpoint :: rstr
  md_registration_endpoint :: "rstr option"
  md_jwks_uri :: "rstr option"
  md_introspection_endpoint :: "rstr option"
  md_device_authorization_endpoint :: "rstr option"
  md_grant_types_supported :: "rstr list option"
  md_client_id_metadata_document_supported :: "bool option"
  md_token_endpoint_auth_methods_supported :: "rstr list option"
  md_code_challenge_methods_supported :: "rstr list option"

record resource_metadata =
  rm_resource :: rstr
  rm_authorization_servers :: "rstr list"
  rm_scopes_supported :: "rstr list"
  rm_bearer_methods_supported :: "rstr list"

definition resource_metadata_default :: "rstr \<Rightarrow> rstr list \<Rightarrow> rstr list \<Rightarrow> resource_metadata" where
  "resource_metadata_default resource authorization_servers scopes_supported =
     \<lparr>rm_resource = resource, rm_authorization_servers = authorization_servers,
      rm_scopes_supported = scopes_supported, rm_bearer_methods_supported = [''header'']\<rparr>"

text \<open>\<open>str::trim_end_matches\<close> with a character.\<close>

definition trim_end_char :: "'a \<Rightarrow> 'a list \<Rightarrow> 'a list" where
  "trim_end_char c s = rev (dropWhile ((=) c) (rev s))"

definition resource_url_from_base :: "rstr \<Rightarrow> rstr \<Rightarrow> rstr" where
  "resource_url_from_base base_url resource_path =
     (let base = trim_end_char (CHR ''/'') base_url;
          path = dropWhile ((=) (CHR ''/'')) resource_path
      in if path = [] then base else base @ ''/'' @ path)"

definition resource_metadata_url :: "'u url_crate \<Rightarrow> 'u \<Rightarrow> rstr" where
  "resource_metadata_url U url =
     (let path = dropWhile ((=) (CHR ''/'')) (url_path U url) in
      url_with_path U url
        (if path = [] then ''/.well-known/oauth-protected-resource''
         else ''/.well-known/oauth-protected-resource/'' @ path))"

definition resource_metadata_hint :: "'u url_crate \<Rightarrow> rstr \<Rightarrow> rstr option" where
  "resource_metadata_hint U resource_url = map_option (resource_metadata_url U) (url_parse U resource_url)"

definition oidc_metadata_url :: "rstr \<Rightarrow> rstr" where
  "oidc_metadata_url issuer = trim_end_char (CHR ''/'') issuer @ ''/.well-known/openid-configuration''"

section \<open>Configuration\<close>

datatype root_alias_policy = RootAutomatic | RootEnabled | RootDisabled

datatype unmatched_route_policy = UnmatchedPassThrough | UnmatchedDeny

record issuer_entry =
  ie_resource_path :: rstr
  ie_metadata :: authorization_server_metadata
  ie_realm :: rstr
  ie_scopes_supported :: "rstr list"
  ie_allowed_client_ids :: "rstr list"
  ie_authenticator :: nat
  ie_resource_url_override :: "rstr option"

record auth_surface_config =
  public_base_url :: rstr
  cfg_entries :: "issuer_entry list"
  cfg_root_alias_policy :: root_alias_policy
  cfg_public_paths :: "rstr list"
  cfg_public_prefixes :: "rstr list"
  allow_insecure_http :: bool

datatype auth_surface_error =
    EmptyRegistry | EmptyField rstr | InvalidResourceUrl rstr | InvalidUrl rstr rstr rstr
  | DuplicateResourcePath rstr | DuplicateWellKnownRoute rstr

text \<open>A sequence of checks that each return early: the first failure.\<close>

definition first_error :: "'e option list \<Rightarrow> 'e option" where
  "first_error checks = Option.bind (find (\<lambda>c. c \<noteq> None) checks) (\<lambda>c. c)"

definition validate_authorization_server_metadata :: "authorization_server_metadata \<Rightarrow> auth_surface_error option" where
  "validate_authorization_server_metadata m =
     (let blank = (\<lambda>v. trim v = []);
          check = (\<lambda>bad field. if bad then Some (EmptyField field) else None);
          opt = (\<lambda>v. case v of None \<Rightarrow> False | Some s \<Rightarrow> blank s);
          opts = (\<lambda>v. case v of None \<Rightarrow> False | Some ss \<Rightarrow> list_ex blank ss)
      in first_error
        [check (blank (md_issuer m)) ''issuer'',
         check (blank (md_authorization_endpoint m)) ''authorization_endpoint'',
         check (blank (md_token_endpoint m)) ''token_endpoint'',
         check (opt (md_registration_endpoint m)) ''registration_endpoint'',
         check (opt (md_jwks_uri m)) ''jwks_uri'',
         check (opt (md_introspection_endpoint m)) ''introspection_endpoint'',
         check (opt (md_device_authorization_endpoint m)) ''device_authorization_endpoint'',
         check (opts (md_grant_types_supported m)) ''grant_types_supported'',
         check (opts (md_token_endpoint_auth_methods_supported m)) ''token_endpoint_auth_methods_supported'',
         check (opts (md_code_challenge_methods_supported m)) ''code_challenge_methods_supported''])"

section \<open>The registry\<close>

record issuer_runtime =
  ir_resource_path :: rstr
  ir_resource_url :: rstr
  ir_resource_metadata_url :: rstr
  ir_realm :: rstr
  ir_scopes_supported :: "rstr list"
  ir_allowed_client_ids :: "rstr list"
  ir_authenticator :: nat
  ir_auth_metadata :: authorization_server_metadata
  ir_resource_metadata :: resource_metadata
  ir_issuer :: rstr

datatype well_known_kind = AuthorizationServer | OpenIdConfiguration | ProtectedResource

record issuer_registry =
  reg_entries :: "issuer_runtime list"
  reg_well_known :: "(rstr \<times> well_known_kind \<times> issuer_runtime) list"
  reg_public_paths :: "rstr list"
  reg_public_prefixes :: "rstr list"
  reg_unmatched_route_policy :: unmatched_route_policy

definition normalize_resource_path :: "rstr \<Rightarrow> rstr" where
  "normalize_resource_path path =
     (let trimmed = trim path;
          normalized = trim_matches (CHR ''/'') trimmed
      in if trimmed = [] \<or> trimmed = ''/'' \<or> normalized = [] then ''/'' else ''/'' @ normalized)"

fun insert_well_known_routes ::
  "(rstr \<times> well_known_kind \<times> issuer_runtime) list \<Rightarrow> rstr list \<Rightarrow> well_known_kind \<Rightarrow> issuer_runtime
     \<Rightarrow> (auth_surface_error, (rstr \<times> well_known_kind \<times> issuer_runtime) list) result" where
  "insert_well_known_routes m [] kind entry = Inr m"
| "insert_well_known_routes m (path # paths) kind entry =
     (if map_of m path \<noteq> None then Inl (DuplicateWellKnownRoute path)
      else insert_well_known_routes ((path, kind, entry) # m) paths kind entry)"

text \<open>The checks of one entry up to its runtime; the resource path has been normalised.\<close>

definition issuer_runtime_of ::
  "'u url_crate \<Rightarrow> rstr \<Rightarrow> bool \<Rightarrow> rstr list \<Rightarrow> rstr \<Rightarrow> issuer_entry \<Rightarrow> (auth_surface_error, issuer_runtime) result" where
  "issuer_runtime_of U base insecure seen_paths resource_path entry =
     (let m = ie_metadata entry;
          resource_url = (case ie_resource_url_override entry of
                            Some url \<Rightarrow> url | None \<Rightarrow> resource_url_from_base base resource_path);
          blank = (\<lambda>v field. if trim v = [] then Some (EmptyField field) else None);
          url = (\<lambda>v field. case validate_absolute_url U v insecure of
                             Inl err \<Rightarrow> Some (InvalidUrl field v (url_error_display err)) | Inr _ \<Rightarrow> None);
          opt_url = (\<lambda>v field. case v of None \<Rightarrow> None | Some s \<Rightarrow> url s field)
      in case first_error
           [blank (md_issuer m) ''issuer'',
            blank (md_authorization_endpoint m) ''authorization_endpoint'',
            blank (md_token_endpoint m) ''token_endpoint'',
            (if resource_path \<in> set seen_paths then Some (DuplicateResourcePath resource_path) else None),
            url (md_issuer m) ''issuer'',
            url (md_authorization_endpoint m) ''authorization_endpoint'',
            url (md_token_endpoint m) ''token_endpoint'',
            opt_url (md_registration_endpoint m) ''registration_endpoint'',
            opt_url (md_jwks_uri m) ''jwks_uri'',
            opt_url (md_introspection_endpoint m) ''introspection_endpoint'',
            opt_url (md_device_authorization_endpoint m) ''device_authorization_endpoint'',
            url resource_url ''resource_url'',
            (if resource_metadata_hint U resource_url = None then Some (InvalidResourceUrl resource_url) else None),
            validate_authorization_server_metadata m] of
         Some err \<Rightarrow> Inl err
       | None \<Rightarrow>
           Inr \<lparr>ir_resource_path = resource_path, ir_resource_url = resource_url,
                ir_resource_metadata_url = the (resource_metadata_hint U resource_url),
                ir_realm = ie_realm entry, ir_scopes_supported = ie_scopes_supported entry,
                ir_allowed_client_ids = ie_allowed_client_ids entry, ir_authenticator = ie_authenticator entry,
                ir_auth_metadata = m,
                ir_resource_metadata = resource_metadata_default resource_url [md_issuer m] (ie_scopes_supported entry),
                ir_issuer = md_issuer m\<rparr>)"

text \<open>The three well-known routes of an entry; without the root alias its path is filtered out.\<close>

definition register_well_known ::
  "bool \<Rightarrow> (rstr \<times> well_known_kind \<times> issuer_runtime) list \<Rightarrow> issuer_runtime
     \<Rightarrow> (auth_surface_error, (rstr \<times> well_known_kind \<times> issuer_runtime) list) result" where
  "register_well_known root_alias_allowed well_known runtime =
     (let path = ir_resource_path runtime;
          allow_root_alias = (root_alias_allowed \<or> path = ''/'');
          routes = (\<lambda>name. filter (\<lambda>p. allow_root_alias \<or> p \<noteq> ''/.well-known/'' @ name) (well_known_paths path name))
      in case insert_well_known_routes well_known (routes ''oauth-authorization-server'') AuthorizationServer runtime of
           Inl e \<Rightarrow> Inl e
         | Inr well_known \<Rightarrow>
             (case insert_well_known_routes well_known (routes ''openid-configuration'') OpenIdConfiguration runtime of
                Inl e \<Rightarrow> Inl e
              | Inr well_known \<Rightarrow>
                  insert_well_known_routes well_known (routes ''oauth-protected-resource'') ProtectedResource runtime))"

fun registry_entries ::
  "'u url_crate \<Rightarrow> rstr \<Rightarrow> bool \<Rightarrow> bool \<Rightarrow> issuer_runtime list \<Rightarrow> (rstr \<times> well_known_kind \<times> issuer_runtime) list
     \<Rightarrow> issuer_entry list
     \<Rightarrow> (auth_surface_error, issuer_runtime list \<times> (rstr \<times> well_known_kind \<times> issuer_runtime) list) result" where
  "registry_entries U base insecure root_alias_allowed entries well_known [] = Inr (entries, well_known)"
| "registry_entries U base insecure root_alias_allowed entries well_known (entry # rest) =
     (case issuer_runtime_of U base insecure (map ir_resource_path entries)
             (normalize_resource_path (ie_resource_path entry)) entry of
        Inl e \<Rightarrow> Inl e
      | Inr runtime \<Rightarrow>
          (case register_well_known root_alias_allowed well_known runtime of
             Inl e \<Rightarrow> Inl e
           | Inr well_known' \<Rightarrow>
               registry_entries U base insecure root_alias_allowed (entries @ [runtime]) well_known' rest))"

definition registry_new ::
  "'u url_crate \<Rightarrow> auth_surface_config \<Rightarrow> unmatched_route_policy \<Rightarrow> (auth_surface_error, issuer_registry) result" where
  "registry_new U config unmatched =
     (if cfg_entries config = [] then Inl EmptyRegistry
      else case validate_absolute_url U (public_base_url config) (allow_insecure_http config) of
        Inl err \<Rightarrow> Inl (InvalidUrl ''public_base_url'' (public_base_url config) (url_error_display err))
      | Inr _ \<Rightarrow>
          let root_alias_allowed = (case cfg_root_alias_policy config of
                RootEnabled \<Rightarrow> True | RootDisabled \<Rightarrow> False | RootAutomatic \<Rightarrow> length (cfg_entries config) = 1)
          in (case registry_entries U (public_base_url config) (allow_insecure_http config) root_alias_allowed
                     [] [] (cfg_entries config) of
                Inl e \<Rightarrow> Inl e
              | Inr (entries, well_known) \<Rightarrow>
                  Inr \<lparr>reg_entries = entries, reg_well_known = well_known,
                       reg_public_paths = map normalize_resource_path (cfg_public_paths config),
                       reg_public_prefixes = map normalize_resource_path (cfg_public_prefixes config),
                       reg_unmatched_route_policy = unmatched\<rparr>))"

section \<open>Request paths\<close>

definition path_matches_resource :: "rstr \<Rightarrow> rstr \<Rightarrow> bool" where
  "path_matches_resource path resource_path \<longleftrightarrow>
     resource_path = ''/'' \<or> path = resource_path
     \<or> starts_with path resource_path \<and> starts_with (drop (length resource_path) path) ''/''"

fun best_entry :: "rstr \<Rightarrow> issuer_runtime option \<Rightarrow> nat \<Rightarrow> issuer_runtime list \<Rightarrow> issuer_runtime option" where
  "best_entry path best best_len [] = best"
| "best_entry path best best_len (entry # rest) =
     (if path_matches_resource path (ir_resource_path entry) \<and> length (ir_resource_path entry) \<ge> best_len
      then best_entry path (Some entry) (length (ir_resource_path entry)) rest
      else best_entry path best best_len rest)"

definition match_entry :: "issuer_registry \<Rightarrow> rstr \<Rightarrow> issuer_runtime option" where
  "match_entry reg path = best_entry path None 0 (reg_entries reg)"

definition is_public_path :: "issuer_registry \<Rightarrow> rstr \<Rightarrow> bool" where
  "is_public_path reg path \<longleftrightarrow>
     path \<in> set (reg_public_paths reg)
     \<or> list_ex (\<lambda>p. p = ''/'' \<or> path = p \<or> starts_with path (p @ ''/'')) (reg_public_prefixes reg)"

fun decode_hex_pair :: "rstr \<Rightarrow> rstr \<Rightarrow> nat option" where
  "decode_hex_pair [h] [l] =
     (case hex_value h of None \<Rightarrow> None
      | Some hi \<Rightarrow> (case hex_value l of None \<Rightarrow> None | Some lo \<Rightarrow> Some (16 * hi + lo)))"
| "decode_hex_pair _ _ = None"

text \<open>The decoding loop on the scalars of the path.\<close>

fun decode_path :: "rstr list \<Rightarrow> rstr" where
  "decode_path [] = []"
| "decode_path (ch # chs) =
     (if ch = ''%''
      then (case chs of
              [] \<Rightarrow> ''%''
            | [hi] \<Rightarrow> ''%'' @ hi
            | hi # lo # rest \<Rightarrow>
                (case decode_hex_pair hi lo of
                   Some b \<Rightarrow> if b = 0x2F \<or> b = 0x5C then ''/'' else if b = 0x2E then ''.'' else ''%'' @ hi @ lo
                 | None \<Rightarrow> ''%'' @ hi @ lo) @ decode_path rest)
      else if ch = [CHR 0x5C] then ''/'' @ decode_path chs
      else ch @ decode_path chs)"

text \<open>One segment of the loop that resolves dot segments; \<open>Vec::pop\<close> on an empty vector does nothing.\<close>

definition push_segment :: "rstr \<Rightarrow> rstr list \<Rightarrow> rstr list" where
  "push_segment segment segments =
     (if segment = [] \<or> segment = ''.'' then segments
      else if segment = ''..'' then butlast segments
      else segments @ [segment])"

definition normalize_request_path :: "rstr \<Rightarrow> rstr" where
  "normalize_request_path path =
     (let segments = fold push_segment (split_on (CHR ''/'') (decode_path (utf8_chars path))) []
      in if segments = [] then ''/'' else concat (map (\<lambda>s. ''/'' @ s) segments))"

section \<open>Paths as segment lists\<close>

definition join_segments :: "rstr list \<Rightarrow> rstr" where
  "join_segments segments = concat (map (\<lambda>s. ''/'' @ s) segments)"

definition clean_segments :: "rstr list \<Rightarrow> bool" where
  "clean_segments segments \<longleftrightarrow>
     (\<forall>s \<in> set segments. s \<noteq> [] \<and> CHR ''/'' \<notin> set s \<and> s \<noteq> ''.'' \<and> s \<noteq> ''..'')"

definition request_segments :: "rstr \<Rightarrow> rstr list" where
  "request_segments path = fold push_segment (split_on (CHR ''/'') (decode_path (utf8_chars path))) []"

lemma join_segments_simps [simp]:
  "join_segments [] = []" "join_segments (s # ss) = CHR ''/'' # s @ join_segments ss"
  "join_segments (xs @ ys) = join_segments xs @ join_segments ys"
  by (simp_all add: join_segments_def)

lemma normalize_request_path_join:
  "normalize_request_path path =
     (if request_segments path = [] then ''/'' else join_segments (request_segments path))"
  unfolding normalize_request_path_def request_segments_def join_segments_def Let_def ..

lemma push_segment_clean:
  "CHR ''/'' \<notin> set s \<Longrightarrow> clean_segments ss \<Longrightarrow> clean_segments (push_segment s ss)"
  by (auto simp: clean_segments_def push_segment_def dest: in_set_butlastD)

lemma request_segments_clean: "clean_segments (request_segments path)"
proof -
  have "clean_segments (fold push_segment ss acc)"
    if "\<forall>s \<in> set ss. CHR ''/'' \<notin> set s" "clean_segments acc" for ss acc
    using that by (induction ss arbitrary: acc) (auto intro: push_segment_clean)
  note step = this
  show ?thesis unfolding request_segments_def
    by (rule step) (auto simp: clean_segments_def dest: split_on_no_sep)
qed

lemma join_split:
  "clean_segments ys \<Longrightarrow> join_segments ys = a @ CHR ''/'' # b \<Longrightarrow> \<exists>xs. prefix xs ys \<and> a = join_segments xs"
proof (induction ys arbitrary: a)
  case Nil
  then show ?case by simp
next
  case (Cons y ys)
  show ?case
  proof (cases a)
    case Nil
    then show ?thesis by (intro exI [of _ "[]"]) simp
  next
    case (Cons c a')
    have c: "c = CHR ''/''" and e: "y @ join_segments ys = a' @ CHR ''/'' # b"
      using Cons.prems(2) Cons by simp_all
    have y: "CHR ''/'' \<notin> set y" using Cons.prems(1) by (simp add: clean_segments_def)
    obtain a'' where a'': "a' = y @ a''" "join_segments ys = a'' @ CHR ''/'' # b"
    proof -
      from e obtain us where "y = a' @ us \<and> us @ join_segments ys = CHR ''/'' # b
          \<or> y @ us = a' \<and> join_segments ys = us @ CHR ''/'' # b"
        by (auto simp: append_eq_append_conv2)
      then show thesis using that y by (cases us) auto
    qed
    obtain xs where "prefix xs ys" "a'' = join_segments xs"
      using Cons.IH [OF _ a''(2)] Cons.prems(1) by (auto simp: clean_segments_def)
    then show ?thesis using a''(1) Cons c by (intro exI [of _ "y # xs"]) simp
  qed
qed

lemma join_segments_inject:
  "clean_segments xs \<Longrightarrow> clean_segments ys \<Longrightarrow> join_segments xs = join_segments ys \<Longrightarrow> xs = ys"
proof (induction xs arbitrary: ys)
  case Nil
  then show ?case by (cases ys) simp_all
next
  case (Cons x xs)
  then obtain y ys' where ys: "ys = y # ys'" by (cases ys) simp_all
  have e: "x @ join_segments xs = y @ join_segments ys'" using Cons.prems(3) ys by simp
  have tw: "takeWhile (\<lambda>c. c \<noteq> CHR ''/'') (s @ join_segments zs) = s" if "CHR ''/'' \<notin> set s" for s zs
    using that by (cases zs) (auto simp: takeWhile_append)
  have "x = y" using tw [of x xs] tw [of y ys'] e Cons.prems(1,2) ys by (simp add: clean_segments_def)
  then show ?case using Cons ys e by (simp add: clean_segments_def)
qed

text \<open>Matching a resource path against a request path is matching a prefix of its resolved segments.\<close>

definition owns_path :: "rstr \<Rightarrow> rstr list \<Rightarrow> bool" where
  "owns_path resource_path segments \<longleftrightarrow>
     resource_path = ''/'' \<or> (\<exists>xs. prefix xs segments \<and> resource_path = join_segments xs)"

lemma prefix_length_eq: "prefix a c \<Longrightarrow> prefix b c \<Longrightarrow> length a = length b \<Longrightarrow> a = b"
  by (auto simp: prefix_def append_eq_append_conv)

lemma owns_path_length:
  assumes "owns_path p1 ss" and "owns_path p2 ss" and "length p1 = length p2"
  shows "p1 = p2"
proof -
  let ?p = "if ss = [] then ''/'' else join_segments ss"
  have pre: "prefix p ?p" if "owns_path p ss" for p
    using that unfolding owns_path_def
  proof
    assume "p = ''/''"
    then show ?thesis by (cases ss) auto
  next
    assume "\<exists>xs. prefix xs ss \<and> p = join_segments xs"
    then show ?thesis by (auto simp: prefix_def)
  qed
  show ?thesis using prefix_length_eq [OF pre [OF assms(1)] pre [OF assms(2)] assms(3)] .
qed

lemma path_matches_segments:
  "path_matches_resource (normalize_request_path path) resource_path
     \<longleftrightarrow> owns_path resource_path (request_segments path)"
proof (cases "resource_path = ''/''")
  case True
  then show ?thesis by (simp add: path_matches_resource_def owns_path_def)
next
  case False
  let ?p = "normalize_request_path path" and ?ss = "request_segments path"
  have cl: "clean_segments ?ss" by (rule request_segments_clean)
  show ?thesis
  proof
    assume m: "path_matches_resource ?p resource_path"
    then consider (eq) "?p = resource_path" | (below) b where "?p = resource_path @ CHR ''/'' # b"
      using False by (auto simp: path_matches_resource_def prefix_def)
    then show "owns_path resource_path ?ss"
    proof cases
      case eq
      then show ?thesis using False by (auto simp: owns_path_def normalize_request_path_join split: if_splits)
    next
      case below
      show ?thesis
      proof (cases "?ss = []")
        case True
        then have "resource_path = []" using below by (simp add: normalize_request_path_join Cons_eq_append_conv)
        then show ?thesis unfolding owns_path_def by (intro disjI2 exI [of _ "[]"]) simp
      next
        case False
        then have "join_segments ?ss = resource_path @ CHR ''/'' # b"
          using below by (simp add: normalize_request_path_join)
        then show ?thesis using join_split [OF cl] unfolding owns_path_def by blast
      qed
    qed
  next
    assume "owns_path resource_path ?ss"
    then obtain xs zs where xs: "?ss = xs @ zs" "resource_path = join_segments xs"
      using False by (auto simp: owns_path_def prefix_def)
    show "path_matches_resource ?p resource_path"
    proof (cases zs)
      case Nil
      then show ?thesis using xs
        by (cases xs) (auto simp: path_matches_resource_def normalize_request_path_join)
    next
      case (Cons z zs')
      then have "?p = resource_path @ CHR ''/'' # z @ join_segments zs'"
        using xs by (simp add: normalize_request_path_join)
      then show ?thesis by (simp add: path_matches_resource_def)
    qed
  qed
qed

section \<open>The entry that applies\<close>

lemma best_entry_spec:
  assumes "best = None \<and> n = 0 \<or> (\<exists>b. best = Some b \<and> n = length (ir_resource_path b))"
  shows "case best_entry path best n es of
      None \<Rightarrow> best = None \<and> (\<forall>e \<in> set es. \<not> path_matches_resource path (ir_resource_path e))
    | Some r \<Rightarrow> (best = Some r \<or> r \<in> set es \<and> path_matches_resource path (ir_resource_path r))
        \<and> n \<le> length (ir_resource_path r)
        \<and> (\<forall>e \<in> set es. path_matches_resource path (ir_resource_path e) \<longrightarrow>
              length (ir_resource_path e) \<le> length (ir_resource_path r))"
  using assms
proof (induction es arbitrary: best n)
  case Nil
  then show ?case by (auto split: option.splits)
next
  case (Cons e es)
  show ?case
  proof (cases "path_matches_resource path (ir_resource_path e) \<and> length (ir_resource_path e) \<ge> n")
    case True
    then show ?thesis using Cons.IH [of "Some e" "length (ir_resource_path e)"]
      by (auto split: option.splits)
  next
    case False
    show ?thesis
    proof (cases "best_entry path best n es")
      case None
      then show ?thesis using Cons.IH [OF Cons.prems] False Cons.prems by auto
    next
      case (Some r)
      note IH = Cons.IH [OF Cons.prems, unfolded Some option.case]
      have "length (ir_resource_path e) \<le> length (ir_resource_path r)"
        if "path_matches_resource path (ir_resource_path e)"
        using that False IH by (metis le_trans nat_le_linear)
      moreover have "best_entry path best n (e # es) = Some r" using Some False by auto
      ultimately show ?thesis using IH by auto
    qed
  qed
qed

lemma match_entry_None:
  "match_entry reg path = None \<longleftrightarrow> (\<forall>e \<in> set (reg_entries reg). \<not> path_matches_resource path (ir_resource_path e))"
  using best_entry_spec [where best = None and n = 0 and path = path and es = "reg_entries reg"]
  by (auto simp: match_entry_def split: option.splits)

lemma match_entry_Some:
  "match_entry reg path = Some r \<Longrightarrow> r \<in> set (reg_entries reg) \<and> path_matches_resource path (ir_resource_path r)
     \<and> (\<forall>e \<in> set (reg_entries reg). path_matches_resource path (ir_resource_path e) \<longrightarrow>
          length (ir_resource_path e) \<le> length (ir_resource_path r))"
  using best_entry_spec [where best = None and n = 0 and path = path and es = "reg_entries reg"] by (auto simp: match_entry_def)

section \<open>Registries the constructor makes\<close>

definition registry_wf :: "issuer_registry \<Rightarrow> bool" where
  "registry_wf reg \<longleftrightarrow>
     distinct (map ir_resource_path (reg_entries reg)) \<and> distinct (map fst (reg_well_known reg))
     \<and> (\<forall>(path, kind, e) \<in> set (reg_well_known reg). e \<in> set (reg_entries reg))"

lemma insert_well_known_routes_wf:
  "insert_well_known_routes m paths kind e = Inr m' \<Longrightarrow> distinct (map fst m) \<Longrightarrow>
     distinct (map fst m') \<and> set m' = set m \<union> (\<lambda>p. (p, kind, e)) ` set paths"
  by (induction m paths kind e rule: insert_well_known_routes.induct)
    (auto split: if_splits simp: map_of_eq_None_iff)

lemma register_well_known_wf:
  assumes "register_well_known b wk e = Inr wk'" and "distinct (map fst wk)"
  shows "distinct (map fst wk') \<and> set wk \<subseteq> set wk' \<and> (\<forall>(path, kind, e') \<in> set wk'. (path, kind, e') \<in> set wk \<or> e' = e)"
  using assms
  by (auto simp: register_well_known_def Let_def split: sum.splits
      dest!: insert_well_known_routes_wf)

lemma first_error_None: "first_error cs = None \<longleftrightarrow> set cs \<subseteq> {None}"
  by (induction cs) (auto simp: first_error_def)

lemma case_error_Inr: "(case x of None \<Rightarrow> Inr r | Some err \<Rightarrow> Inl err) = Inr e \<longleftrightarrow> x = None \<and> r = e"
  by (auto split: option.splits)

lemma issuer_runtime_of_path:
  assumes "issuer_runtime_of U base insecure seen resource_path entry = Inr e"
  shows "ir_resource_path e = resource_path \<and> resource_path \<notin> set seen \<and> ir_authenticator e = ie_authenticator entry
    \<and> ir_allowed_client_ids e = ie_allowed_client_ids entry"
  using assms unfolding issuer_runtime_of_def Let_def case_error_Inr first_error_None by (auto split: if_splits)

lemma registry_entries_wf:
  assumes "registry_entries U base insecure b es wk entries = Inr (es', wk')"
    and "distinct (map ir_resource_path es)" and "distinct (map fst wk)" and "\<forall>(path, kind, e) \<in> set wk. e \<in> set es"
  shows "distinct (map ir_resource_path es') \<and> distinct (map fst wk') \<and> (\<forall>(path, kind, e) \<in> set wk'. e \<in> set es')
    \<and> map ir_resource_path es' = map ir_resource_path es @ map (normalize_resource_path \<circ> ie_resource_path) entries"
  using assms
proof (induction entries arbitrary: es wk)
  case Nil
  then show ?case by simp
next
  case (Cons entry entries)
  obtain e where e: "issuer_runtime_of U base insecure (map ir_resource_path es)
      (normalize_resource_path (ie_resource_path entry)) entry = Inr e"
    using Cons.prems(1) by (auto split: sum.splits)
  obtain wk1 where w: "register_well_known b wk e = Inr wk1"
    using Cons.prems(1) e by (auto split: sum.splits)
  have r: "registry_entries U base insecure b (es @ [e]) wk1 entries = Inr (es', wk')"
    using Cons.prems(1) e w by simp
  note p = issuer_runtime_of_path [OF e] and k = register_well_known_wf [OF w Cons.prems(3)]
  have d: "distinct (map ir_resource_path (es @ [e]))" using Cons.prems(2) p by auto
  have s: "\<forall>(path, kind, e') \<in> set wk1. e' \<in> set (es @ [e])" using k Cons.prems(4) by fastforce
  have w': "distinct (map fst wk1)" using k by blast
  note h = Cons.IH [OF r d w' s]
  then have "map ir_resource_path es' = map ir_resource_path es
      @ map (normalize_resource_path \<circ> ie_resource_path) (entry # entries)"
    using p by simp
  then show ?case using h by blast
qed

lemma registry_new_wf:
  assumes "registry_new U config unmatched = Inr reg"
  shows "registry_wf reg \<and> reg_unmatched_route_policy reg = unmatched
    \<and> map ir_resource_path (reg_entries reg) = map (normalize_resource_path \<circ> ie_resource_path) (cfg_entries config)"
proof -
  have start: "distinct (map ir_resource_path [])" "distinct (map fst ([] :: (rstr \<times> well_known_kind \<times> issuer_runtime) list))"
    "\<forall>(path, kind, e) \<in> set ([] :: (rstr \<times> well_known_kind \<times> issuer_runtime) list). e \<in> set []" by simp_all
  obtain b where r: "registry_entries U (public_base_url config) (allow_insecure_http config) b [] []
      (cfg_entries config) = Inr (reg_entries reg, reg_well_known reg)" and "reg_unmatched_route_policy reg = unmatched"
    using assms by (auto simp: registry_new_def Let_def split: if_splits sum.splits)
  then show ?thesis using registry_entries_wf [OF r start] unfolding registry_wf_def list.map append_Nil by blast
qed

section \<open>Root aliases\<close>

lemma well_known_not_root:
  assumes "trim p = p" and "p = CHR ''/'' # n" and "n \<noteq> []" and "hd n \<noteq> CHR ''/''" and "last n \<noteq> CHR ''/''"
  shows "well_known_paths p name = [''/.well-known/'' @ name @ ''/'' @ n]"
proof -
  have "trim_matches (CHR ''/'') p = trim_matches (CHR ''/'') n"
    using assms(2) by (simp add: trim_matches_def)
  also have "\<dots> = n" using assms(3-5) by (simp add: trim_matches_id)
  finally show ?thesis using assms(1,3) by (simp add: well_known_paths_def)
qed

lemma register_well_known_alias:
  assumes "p = normalize_resource_path q" and "trim p = p" and "ir_resource_path e = p"
  shows "register_well_known b wk e = register_well_known b' wk e"
proof (cases "p = ''/''")
  case True
  then show ?thesis using assms(3) by (simp add: register_well_known_def)
next
  case False
  then obtain n where n: "p = CHR ''/'' # n" "n \<noteq> []" "hd n \<noteq> CHR ''/''" "last n \<noteq> CHR ''/''"
    using assms(1) trim_matches_ends [of "CHR ''/''" "trim q"]
    by (auto simp: normalize_resource_path_def Let_def split: if_splits)
  have flt: "filter (\<lambda>r. b \<or> r \<noteq> ''/.well-known/'' @ name) (well_known_paths p name) = well_known_paths p name" for b name
    using well_known_not_root [OF assms(2) n] by simp
  show ?thesis unfolding register_well_known_def Let_def assms(3) flt ..
qed

lemma registry_entries_alias:
  "\<forall>entry \<in> set entries. trim (normalize_resource_path (ie_resource_path entry))
      = normalize_resource_path (ie_resource_path entry) \<Longrightarrow>
   registry_entries U base insecure b es wk entries = registry_entries U base insecure b' es wk entries"
proof (induction entries arbitrary: es wk)
  case Nil
  then show ?case by simp
next
  case (Cons entry entries)
  show ?case
  proof (cases "issuer_runtime_of U base insecure (map ir_resource_path es)
      (normalize_resource_path (ie_resource_path entry)) entry")
    case (Inl err)
    then show ?thesis by simp
  next
    case (Inr e)
    have "register_well_known b wk e = register_well_known b' wk e"
      by (rule register_well_known_alias [OF refl]) (use Cons.prems issuer_runtime_of_path [OF Inr] in auto)
    then show ?thesis using Inr Cons by (auto split: sum.splits)
  qed
qed

text \<open>
  The root alias policy has no effect: whatever it says, the registry is the same, and a resource below the root
  gets no route at the root well-known paths.  The only exception are resource paths that end in white space.
\<close>

lemma root_alias_policy_ignored:
  assumes "\<forall>entry \<in> set (cfg_entries config). trim (normalize_resource_path (ie_resource_path entry))
      = normalize_resource_path (ie_resource_path entry)"
  shows "registry_new U (config\<lparr>cfg_root_alias_policy := policy\<rparr>) unmatched = registry_new U config unmatched"
proof -
  let ?c = "config\<lparr>cfg_root_alias_policy := policy\<rparr>"
  have upd: "cfg_entries ?c = cfg_entries config" "public_base_url ?c = public_base_url config"
    "allow_insecure_http ?c = allow_insecure_http config" "cfg_root_alias_policy ?c = policy"
    "cfg_public_paths ?c = cfg_public_paths config" "cfg_public_prefixes ?c = cfg_public_prefixes config"
    by simp_all
  have entries: "registry_entries U base insecure b es wk (cfg_entries config)
      = registry_entries U base insecure False es wk (cfg_entries config)" for base insecure b es wk
    by (rule registry_entries_alias [OF assms])
  show ?thesis
    unfolding registry_new_def Let_def upd
    unfolding entries [of _ _ "case policy of RootAutomatic \<Rightarrow> length (cfg_entries config) = 1
        | RootEnabled \<Rightarrow> True | RootDisabled \<Rightarrow> False"]
      entries [of _ _ "case cfg_root_alias_policy config of RootAutomatic \<Rightarrow> length (cfg_entries config) = 1
        | RootEnabled \<Rightarrow> True | RootDisabled \<Rightarrow> False"] ..
qed

section \<open>Properties\<close>

text \<open>
  C12: the surface routes by resolved segments.  For every registry the constructor makes and every raw request
  path, percent-encoded dots, slashes and backslashes and dot segments included, the resolved path has no empty
  and no dot segment, and the entry the lookup returns is the one whose resource path is the longest segment
  prefix of the resolved path; no entry is returned exactly when no resource path is such a prefix.
\<close>

theorem surface_routing:
  assumes "registry_new U config unmatched = Inr reg"
  shows "clean_segments (request_segments raw)
    \<and> (match_entry reg (normalize_request_path raw) = Some e \<longleftrightarrow>
         e \<in> set (reg_entries reg) \<and> owns_path (ir_resource_path e) (request_segments raw)
         \<and> (\<forall>e' \<in> set (reg_entries reg). owns_path (ir_resource_path e') (request_segments raw) \<longrightarrow>
              length (ir_resource_path e') \<le> length (ir_resource_path e)))
    \<and> (match_entry reg (normalize_request_path raw) = None \<longleftrightarrow>
         (\<forall>e' \<in> set (reg_entries reg). \<not> owns_path (ir_resource_path e') (request_segments raw)))"
proof -
  let ?m = "match_entry reg (normalize_request_path raw)" and ?ss = "request_segments raw"
  have d: "distinct (map ir_resource_path (reg_entries reg))"
    using registry_new_wf [OF assms] unfolding registry_wf_def by blast
  have unique: "e1 = e2" if "e1 \<in> set (reg_entries reg)" "e2 \<in> set (reg_entries reg)"
      "owns_path (ir_resource_path e1) ?ss" "owns_path (ir_resource_path e2) ?ss"
      "length (ir_resource_path e1) = length (ir_resource_path e2)" for e1 e2
  proof -
    have "ir_resource_path e1 = ir_resource_path e2"
      using owns_path_length [OF that(3,4,5)] .
    then show ?thesis using d that(1,2) by (simp add: distinct_map inj_on_def)
  qed
  note found = match_entry_Some [of reg "normalize_request_path raw", unfolded path_matches_segments]
  have fwd: "e \<in> set (reg_entries reg) \<and> owns_path (ir_resource_path e) ?ss
      \<and> (\<forall>e' \<in> set (reg_entries reg). owns_path (ir_resource_path e') ?ss \<longrightarrow>
           length (ir_resource_path e') \<le> length (ir_resource_path e))" if "?m = Some e"
    using found [OF that] by blast
  have bwd: "?m = Some e" if e: "e \<in> set (reg_entries reg)" "owns_path (ir_resource_path e) ?ss"
      "\<forall>e' \<in> set (reg_entries reg). owns_path (ir_resource_path e') ?ss \<longrightarrow>
           length (ir_resource_path e') \<le> length (ir_resource_path e)"
  proof -
    obtain e2 where e2: "?m = Some e2"
      using e(1,2) match_entry_None [of reg "normalize_request_path raw"] path_matches_segments by blast
    then have "e2 = e" using found [OF e2] e by (intro unique) (auto intro: le_antisym)
    then show ?thesis using e2 by simp
  qed
  have none: "?m = None \<longleftrightarrow> (\<forall>e' \<in> set (reg_entries reg). \<not> owns_path (ir_resource_path e') ?ss)"
    unfolding match_entry_None path_matches_segments ..
  show ?thesis using request_segments_clean fwd bwd none by blast
qed

definition demo_urls :: "unit url_crate" where
  "demo_urls = \<lparr>url_parse = (\<lambda>_. Some ()), url_scheme = (\<lambda>_. ''https''), url_host_str = (\<lambda>_. Some ''h''),
     url_path = (\<lambda>_. ''/''), url_with_path = (\<lambda>_ p. ''https://h'' @ p)\<rparr>"

definition demo_entry :: "rstr \<Rightarrow> nat \<Rightarrow> issuer_entry" where
  "demo_entry path authenticator =
     \<lparr>ie_resource_path = path,
      ie_metadata = \<lparr>md_issuer = ''https://i'', md_authorization_endpoint = ''https://i/a'',
        md_token_endpoint = ''https://i/t'', md_registration_endpoint = None, md_jwks_uri = None,
        md_introspection_endpoint = None, md_device_authorization_endpoint = None, md_grant_types_supported = None,
        md_client_id_metadata_document_supported = None, md_token_endpoint_auth_methods_supported = None,
        md_code_challenge_methods_supported = None\<rparr>,
      ie_realm = ''mcp'', ie_scopes_supported = [], ie_allowed_client_ids = [], ie_authenticator = authenticator,
      ie_resource_url_override = None\<rparr>"

definition demo_surface :: auth_surface_config where
  "demo_surface =
     \<lparr>public_base_url = ''https://h'', cfg_entries = [demo_entry ''/mcp'' 0, demo_entry ''mcp/admin/'' 0],
      cfg_root_alias_policy = RootAutomatic, cfg_public_paths = [''/health''], cfg_public_prefixes = [],
      allow_insecure_http = False\<rparr>"

definition demo_registry :: issuer_registry where
  "demo_registry = projr (registry_new demo_urls demo_surface UnmatchedDeny)"

lemma demo_registry_new: "registry_new demo_urls demo_surface UnmatchedDeny = Inr demo_registry"
proof -
  have "\<not> isl (registry_new demo_urls demo_surface UnmatchedDeny)" by code_simp
  then show ?thesis by (simp add: demo_registry_def)
qed

definition demo_runtime :: "rstr \<Rightarrow> issuer_runtime" where
  "demo_runtime path =
     \<lparr>ir_resource_path = path, ir_resource_url = ''https://h'' @ path,
      ir_resource_metadata_url = ''https://h/.well-known/oauth-protected-resource'', ir_realm = ''mcp'',
      ir_scopes_supported = [], ir_allowed_client_ids = [], ir_authenticator = 0,
      ir_auth_metadata = ie_metadata (demo_entry path 0),
      ir_resource_metadata = resource_metadata_default (''https://h'' @ path) [''https://i''] [], ir_issuer = ''https://i''\<rparr>"

text \<open>The registry evaluated once, for the evaluations that follow.\<close>

lemma demo_registry_code [code]:
  "demo_registry =
     \<lparr>reg_entries = [demo_runtime ''/mcp'', demo_runtime ''/mcp/admin''],
      reg_well_known = concat (map (\<lambda>path.
        [(''/.well-known/oauth-protected-resource'' @ path, ProtectedResource, demo_runtime path),
         (''/.well-known/openid-configuration'' @ path, OpenIdConfiguration, demo_runtime path),
         (''/.well-known/oauth-authorization-server'' @ path, AuthorizationServer, demo_runtime path)]) [''/mcp/admin'', ''/mcp'']),
      reg_public_paths = [''/health''], reg_public_prefixes = [], reg_unmatched_route_policy = UnmatchedDeny\<rparr>"
  by code_simp

theorem surface_routing_witness:
  "\<exists>e. match_entry demo_registry (normalize_request_path ''/mcp/x/%2E%2e%2Fadmin/users'') = Some e
     \<and> ir_resource_path e = ''/mcp/admin''
     \<and> owns_path ''/mcp/admin'' (request_segments ''/mcp/x/%2E%2e%2Fadmin/users'')"
proof -
  let ?m = "match_entry demo_registry (normalize_request_path ''/mcp/x/%2E%2e%2Fadmin/users'')"
  have "map_option ir_resource_path ?m = Some ''/mcp/admin''" by code_simp
  then obtain e where e: "?m = Some e" "ir_resource_path e = ''/mcp/admin''" by auto
  then show ?thesis using surface_routing [OF demo_registry_new, of "''/mcp/x/%2E%2e%2Fadmin/users''" e] by auto
qed

end
