(* ===== verification/Auth_Claims.thy ===== *)
theory Auth_Claims
  imports Auth_Headers Ordered_Text "HOL-Library.AList"
begin

text \<open>
  Claim handling and configuration of the crate \<open>mcp-toolkit-auth\<close>: \<open>claims.rs\<close>, the records of
  \<open>config.rs\<close> and \<open>context.rs\<close>.  The settings in seconds are floating-point numbers in the source; the
  code tests their sign and turns them into durations, so they are whole milliseconds of any sign here.
  Debug events are not modelled; they do not influence any result.
\<close>

section \<open>Configuration\<close>

datatype auth_mode = Delegation | Jwks | Introspection

datatype client_auth_method = ClientSecretBasic | ClientSecretPost

record auth_config =
  cfg_mode :: auth_mode
  strict_oauth :: bool
  jwks_url :: "rstr option"
  cfg_issuer :: "rstr option"
  cfg_audience :: "rstr option"
  cfg_required_scopes :: "rstr list"
  actor_claim :: rstr
  introspection_url :: "rstr option"
  introspection_client_id :: "rstr option"
  introspection_client_secret :: "rstr option"
  introspection_auth_method :: client_auth_method
  introspection_cache_ttl :: int
  introspection_force :: bool
  delegation_secret :: "rstr option"
  delegation_issuer :: rstr
  delegation_audience :: rstr
  jti_ttl :: int
  jti_cache_size :: int
  jti_enforce_bearer :: bool
  clock_skew :: int

definition auth_config_default :: auth_config where
  "auth_config_default =
     \<lparr>cfg_mode = Jwks, strict_oauth = True, jwks_url = None, cfg_issuer = None, cfg_audience = None,
      cfg_required_scopes = [], actor_claim = ''sub'', introspection_url = None,
      introspection_client_id = None, introspection_client_secret = None,
      introspection_auth_method = ClientSecretBasic, introspection_cache_ttl = 0,
      introspection_force = False, delegation_secret = None, delegation_issuer = ''mcp-toolkit'',
      delegation_audience = ''mcp-toolkit'', jti_ttl = 300000, jti_cache_size = 5000,
      jti_enforce_bearer = False, clock_skew = 30000\<rparr>"

datatype auth_security_profile = L1ReadOnly | L2Strong | L3Boundary

fun apply_profile :: "auth_security_profile \<Rightarrow> auth_config \<Rightarrow> auth_config" where
  "apply_profile L1ReadOnly config =
     config\<lparr>cfg_mode := Jwks, strict_oauth := True, introspection_cache_ttl := 0, introspection_force := False,
            jti_ttl := 0, jti_cache_size := 0, jti_enforce_bearer := False\<rparr>"
| "apply_profile L2Strong config =
     config\<lparr>cfg_mode := Jwks, strict_oauth := True, introspection_cache_ttl := 60000, introspection_force := False,
            jti_ttl := 300000, jti_cache_size := 5000, jti_enforce_bearer := False\<rparr>"
| "apply_profile L3Boundary config =
     config\<lparr>cfg_mode := Introspection, strict_oauth := True, introspection_cache_ttl := 30000,
            introspection_force := False, jti_ttl := 300000, jti_cache_size := 5000,
            jti_enforce_bearer := False\<rparr>"

definition with_profile :: "auth_security_profile \<Rightarrow> auth_config" where
  "with_profile profile = apply_profile profile auth_config_default"

section \<open>Claims\<close>

definition json_get :: "json \<Rightarrow> rstr \<Rightarrow> json option" where
  "json_get v key = Option.bind (as_object v) (\<lambda>m. map_of m key)"

definition claim_str :: "json \<Rightarrow> rstr \<Rightarrow> rstr option" where
  "claim_str claims key = trimmed_non_empty (Option.bind (json_get claims key) as_str)"

definition has_confirmation_claim :: "json \<Rightarrow> bool" where
  "has_confirmation_claim claims \<longleftrightarrow> json_get claims ''cnf'' \<noteq> None"

definition trimmed_strings :: "rstr list \<Rightarrow> rstr list" where
  "trimmed_strings vs = filter (\<lambda>v. v \<noteq> []) (map trim vs)"

fun claim_list :: "json option \<Rightarrow> rstr list" where
  "claim_list (Some (JString value)) = trimmed_strings (split_whitespace value)"
| "claim_list (Some (JArray values)) = trimmed_strings (List.map_filter as_str values)"
| "claim_list _ = []"

definition auth_audiences :: "json \<Rightarrow> rstr list" where
  "auth_audiences claims = claim_list (json_get claims ''aud'')"

definition validate_issuer_audience :: "json \<Rightarrow> auth_config \<Rightarrow> (auth_error, unit) result" where
  "validate_issuer_audience claims config =
     (if (case cfg_issuer config of
            None \<Rightarrow> False | Some expected_issuer \<Rightarrow> claim_str claims ''iss'' \<noteq> Some expected_issuer)
      then Inl InvalidToken
      else if (case cfg_audience config of
                 None \<Rightarrow> False
               | Some expected_audience \<Rightarrow>
                   let audiences = auth_audiences claims in
                   audiences = [] \<or> \<not> list_ex (\<lambda>aud. aud = expected_audience) audiences)
      then Inl InvalidToken
      else Inr ())"

definition required_claims :: "rstr set" where
  "required_claims = {''exp'', ''sub'', ''aud'', ''iss''}"

datatype jwt_error_kind =
    ExpiredSignature | InvalidAudience | InvalidIssuer | InvalidSubject | MissingRequiredClaim rstr
  | ImmatureSignature | InvalidSignature
  | InvalidAlgorithm | InvalidAlgorithmName | MissingAlgorithm
  | InvalidKeyFormat | InvalidEcdsaKey | InvalidEddsaKey | InvalidRsaKey | Provider | RsaFailedSigning | Signing
  | JwtInvalidToken | Base64 | JsonError | Utf8 | OtherKind

definition invalid_bearer :: "rstr \<Rightarrow> auth_error" where
  "invalid_bearer reason = with_reason (auth_error_new ''Invalid bearer token.'') reason"

fun auth_error_from_jwt :: "jwt_error_kind \<Rightarrow> auth_error" where
  "auth_error_from_jwt ExpiredSignature = TokenExpired"
| "auth_error_from_jwt InvalidAudience = invalid_bearer ''invalid_audience''"
| "auth_error_from_jwt InvalidIssuer = invalid_bearer ''invalid_issuer''"
| "auth_error_from_jwt InvalidSubject = invalid_bearer ''invalid_subject''"
| "auth_error_from_jwt (MissingRequiredClaim _) = invalid_bearer ''missing_claim''"
| "auth_error_from_jwt ImmatureSignature = invalid_bearer ''immature_signature''"
| "auth_error_from_jwt InvalidSignature = invalid_bearer ''invalid_signature''"
| "auth_error_from_jwt InvalidAlgorithm = invalid_bearer ''invalid_algorithm''"
| "auth_error_from_jwt InvalidAlgorithmName = invalid_bearer ''invalid_algorithm''"
| "auth_error_from_jwt MissingAlgorithm = invalid_bearer ''invalid_algorithm''"
| "auth_error_from_jwt InvalidKeyFormat = invalid_bearer ''invalid_key''"
| "auth_error_from_jwt InvalidEcdsaKey = invalid_bearer ''invalid_key''"
| "auth_error_from_jwt InvalidEddsaKey = invalid_bearer ''invalid_key''"
| "auth_error_from_jwt InvalidRsaKey = invalid_bearer ''invalid_key''"
| "auth_error_from_jwt Provider = invalid_bearer ''invalid_key''"
| "auth_error_from_jwt RsaFailedSigning = invalid_bearer ''invalid_key''"
| "auth_error_from_jwt Signing = invalid_bearer ''invalid_key''"
| "auth_error_from_jwt JwtInvalidToken = invalid_bearer ''invalid_token''"
| "auth_error_from_jwt Base64 = invalid_bearer ''invalid_token''"
| "auth_error_from_jwt JsonError = invalid_bearer ''invalid_token''"
| "auth_error_from_jwt Utf8 = invalid_bearer ''invalid_token''"
| "auth_error_from_jwt OtherKind = InvalidToken"

definition extract_scopes :: "json \<Rightarrow> rstr list" where
  "extract_scopes claims =
     claim_list (case json_get claims ''scope'' of
                   Some v \<Rightarrow> Some v
                 | None \<Rightarrow> (case json_get claims ''scp'' of
                       Some v \<Rightarrow> Some v
                     | None \<Rightarrow> json_get claims ''scopes''))"

definition role_list :: "json option \<Rightarrow> rstr list" where
  "role_list roles = (case Option.bind roles as_array of
     None \<Rightarrow> [] | Some values \<Rightarrow> trimmed_strings (List.map_filter as_str values))"

definition extract_roles :: "json \<Rightarrow> rstr list" where
  "extract_roles claims =
     sort_dedup (
       (case Option.bind (json_get claims ''realm_access'') as_object of
          None \<Rightarrow> [] | Some realm_access \<Rightarrow> role_list (map_of realm_access ''roles''))
       @ (case Option.bind (json_get claims ''resource_access'') as_object of
            None \<Rightarrow> []
          | Some resource_access \<Rightarrow>
              concat (map (\<lambda>(_, client_access). role_list (json_get client_access ''roles'')) resource_access)))"

definition merge_claims :: "json \<Rightarrow> json \<Rightarrow> json" where
  "merge_claims p s =
     (case (as_object p, as_object s) of
        (Some primary_map, Some secondary_map) \<Rightarrow>
          let merged = fold (\<lambda>(key, value). AList.update key value) secondary_map primary_map in
          JObject (case map_of primary_map ''cnf'' of
                     Some confirmation \<Rightarrow> AList.update ''cnf'' confirmation merged
                   | None \<Rightarrow> merged)
      | _ \<Rightarrow> p)"

section \<open>Contexts\<close>

record auth_context =
  ctx_actor :: rstr
  ctx_scopes :: "rstr list"
  ctx_roles :: "rstr list"
  ctx_claims :: json
  ctx_azp :: "rstr option"
  ctx_subject :: "rstr option"
  ctx_token_ref :: rstr
  ctx_raw_token :: rstr

text \<open>The provenance and request markers are compared by address: each marker is a number of its own.\<close>

record verified_auth_context =
  verified_context :: auth_context
  authenticator_marker :: nat
  request_marker :: "nat option"

definition from_authenticator :: "auth_context \<Rightarrow> nat \<Rightarrow> verified_auth_context" where
  "from_authenticator context marker =
     \<lparr>verified_context = context, authenticator_marker = marker, request_marker = None\<rparr>"

definition bind_to_request :: "verified_auth_context \<Rightarrow> nat \<Rightarrow> verified_auth_context" where
  "bind_to_request v marker = v\<lparr>request_marker := Some marker\<rparr>"

definition is_bound_to_request :: "verified_auth_context \<Rightarrow> nat \<Rightarrow> bool" where
  "is_bound_to_request v marker \<longleftrightarrow> request_marker v = Some marker"

section \<open>Lemmas\<close>

lemma json_get_object [simp]: "json_get (JObject m) k = map_of m k"
  by (simp add: json_get_def)

lemma map_of_fold_update:
  "distinct (map fst s) \<Longrightarrow>
     map_of (fold (\<lambda>(key, value). AList.update key value) s p) k =
       (case map_of s k of Some v \<Rightarrow> Some v | None \<Rightarrow> map_of p k)"
proof (induction s arbitrary: p)
  case Nil
  then show ?case by simp
next
  case (Cons e s)
  obtain a b where e: "e = (a, b)" by (cases e)
  have n: "map_of s a = None" using Cons.prems e by (simp add: map_of_eq_None_iff)
  show ?case using Cons.IH [of "AList.update a b p"] Cons.prems e
    by (cases "k = a") (simp_all add: update_conv n split: option.split)
qed

lemma fold_update_keeps: "map_of p k \<noteq> None \<Longrightarrow> map_of (fold (\<lambda>(key, value). AList.update key value) s p) k \<noteq> None"
proof (induction s arbitrary: p)
  case Nil
  then show ?case by simp
next
  case (Cons e s)
  obtain a b where e: "e = (a, b)" by (cases e)
  have "map_of (AList.update a b p) k \<noteq> None" using Cons.prems by (simp add: update_conv)
  from Cons.IH [OF this] show ?case using e by simp
qed

lemma merge_claims_cnf:
  "json_get p ''cnf'' \<noteq> None \<Longrightarrow> json_get (merge_claims p s) ''cnf'' = json_get p ''cnf''"
  by (cases p; cases s) (auto simp: merge_claims_def json_get_def Let_def update_conv split: option.split)

end
