(* ===== verification/Auth_Providers.thy ===== *)
theory Auth_Providers
  imports Auth_Claims
begin

text \<open>
  The credential providers of the crate \<open>mcp-toolkit-auth\<close>: \<open>providers/introspection.rs\<close>,
  \<open>providers/jwks.rs\<close>, \<open>providers/delegation.rs\<close> and the bounded body reader of
  \<open>providers/mod.rs\<close>.  The HTTP client and its status texts, the JWT crate, the JSON parser, the SHA-256 reference of a token
  and the random jitter are fields of the environment record.  Locks are never poisoned, since nothing
  panics while holding one; a call takes the refresh lock and looks at the cache again before it fetches,
  which is one look here.
\<close>

section \<open>The environment\<close>

record http_response =
  resp_status :: nat
  resp_content_type :: "rstr option"
  resp_content_length :: "nat option"
  resp_chunks :: "(rstr, rstr) result list"

datatype jwt_algorithm = HS256 | HS384 | HS512 | RS256 | RS384 | RS512 | PS256 | PS384 | PS512 | ES256 | ES384 | EdDSA

datatype public_key_use = Signature | Encryption | OtherUse rstr

record 'm jwk =
  jwk_kid :: "rstr option"
  jwk_use :: "public_key_use option"
  jwk_material :: 'm

record jwt_header =
  hdr_alg :: jwt_algorithm
  hdr_kid :: "rstr option"

record jwt_validation =
  val_algorithms :: "jwt_algorithm list"
  val_issuer :: "rstr list option"
  val_audience :: "rstr list option"
  val_required :: "rstr set"
  val_leeway :: nat
  val_nbf :: bool

record ('m, 'k) provider_env =
  env_post :: "rstr \<Rightarrow> (rstr \<times> rstr) list \<Rightarrow> (rstr \<times> rstr) option \<Rightarrow> http_response option"
  env_get :: "rstr \<Rightarrow> http_response option"
  env_status_text :: "nat \<Rightarrow> rstr"
  env_parse_json :: "rstr \<Rightarrow> json option"
  env_parse_jwks :: "rstr \<Rightarrow> (rstr, 'm jwk list) result"
  env_token_ref :: "rstr \<Rightarrow> rstr"
  env_decode_header :: "rstr \<Rightarrow> (jwt_error_kind, jwt_header) result"
  env_key_from_secret :: "rstr \<Rightarrow> 'k"
  env_key_from_jwk :: "'m jwk \<Rightarrow> 'k option"
  env_decode :: "rstr \<Rightarrow> 'k \<Rightarrow> jwt_validation \<Rightarrow> (jwt_error_kind, json) result"
  env_jittered :: "nat \<Rightarrow> nat"
  env_first_key :: "(rstr \<times> json \<times> nat option) list \<Rightarrow> rstr"

text \<open>The clock readings of one call, in the order the code takes them.\<close>

record auth_clock =
  cache_get_now :: nat
  cache_set_now :: nat
  cache_set_epoch :: int
  jwks_get_now :: nat
  kid_miss_now :: nat
  fetch_now :: nat
  kid_fetch_now :: nat
  jti_now :: nat

fun read_body_loop :: "rstr \<Rightarrow> nat \<Rightarrow> rstr \<Rightarrow> (rstr, rstr) result list \<Rightarrow> (auth_error, rstr) result" where
  "read_body_loop label max_bytes body [] = Inr body"
| "read_body_loop label max_bytes body (chunk_result # stream) =
     (case chunk_result of
        Inl e \<Rightarrow> Inl (Generic (''Failed to read '' @ label @ '' response: '' @ e) 502 None None)
      | Inr chunk \<Rightarrow>
          if saturating_add u64_max (length body) (length chunk) > max_bytes
          then Inl (Generic (label @ '' response too large'') 502 None None)
          else read_body_loop label max_bytes (body @ chunk) stream)"

definition read_body_limited :: "http_response \<Rightarrow> nat \<Rightarrow> rstr \<Rightarrow> (auth_error, rstr) result" where
  "read_body_limited response max_bytes label = read_body_loop label max_bytes [] (resp_chunks response)"

section \<open>Introspection\<close>

definition INTROSPECTION_MAX_BYTES :: nat where
  "INTROSPECTION_MAX_BYTES = 1024 * 1024"

record introspection_cache =
  ic_ttl :: nat
  ic_capacity :: nat
  ic_entries :: "(rstr \<times> json \<times> nat option) list"

definition introspection_cache_new :: "nat \<Rightarrow> nat \<Rightarrow> introspection_cache" where
  "introspection_cache_new ttl capacity = \<lparr>ic_ttl = ttl, ic_capacity = capacity, ic_entries = []\<rparr>"

definition cache_get :: "introspection_cache \<Rightarrow> rstr \<Rightarrow> nat \<Rightarrow> json option" where
  "cache_get c hashed_token now =
     (if ic_ttl c = 0 then None
      else case map_of (ic_entries c) hashed_token of
             Some (payload, expires_at) \<Rightarrow>
               (case expires_at of
                  Some expiry \<Rightarrow> if now > expiry then None else Some payload
                | None \<Rightarrow> Some payload)
           | None \<Rightarrow> None)"

definition saturating_sub_i64 :: "int \<Rightarrow> int \<Rightarrow> int" where
  "saturating_sub_i64 a b = max (- (2 ^ 63)) (min (2 ^ 63 - 1) (a - b))"

definition cache_expiry :: "nat \<Rightarrow> int option \<Rightarrow> nat \<Rightarrow> int \<Rightarrow> nat option" where
  "cache_expiry ttl expo now_inst now_epoch =
     (case Option.bind expo (\<lambda>seconds.
             let remaining = saturating_sub_i64 seconds now_epoch in
             if remaining \<le> 0 then None
             else let expiry = now_inst + nat remaining * 1000; ttl_expiry = now_inst + ttl in
               if expiry < ttl_expiry then Some expiry else Some ttl_expiry) of
        Some t \<Rightarrow> Some t
      | None \<Rightarrow> Some (now_inst + ttl))"

definition cache_set ::
  "('m, 'k, 'z) provider_env_scheme \<Rightarrow> introspection_cache \<Rightarrow> rstr \<Rightarrow> json \<Rightarrow> int option \<Rightarrow> nat \<Rightarrow> int \<Rightarrow> introspection_cache" where
  "cache_set env c hashed_token payload expo now_inst now_epoch =
     (if ic_ttl c = 0 then c
      else let entries = filter (\<lambda>(_, _, expiry). case expiry of Some e \<Rightarrow> e > now_inst | None \<Rightarrow> True) (ic_entries c);
               entries = (if length entries \<ge> ic_capacity c \<and> entries \<noteq> []
                          then AList.delete (env_first_key env entries) entries else entries)
           in c\<lparr>ic_entries := AList.update hashed_token
                  (payload, cache_expiry (ic_ttl c) expo now_inst now_epoch) entries\<rparr>)"

text \<open>\<open>IntrospectionResponse\<close> and its derived conversions from and to JSON.\<close>

record introspection_response =
  ir_active :: bool
  ir_scope :: "rstr option"
  ir_sub :: "rstr option"
  ir_exp :: "int option"
  ir_client_id :: "rstr option"
  ir_azp :: "rstr option"
  ir_extra :: json_map

fun opt_string_field :: "json option \<Rightarrow> rstr option option" where
  "opt_string_field None = Some None"
| "opt_string_field (Some JNull) = Some None"
| "opt_string_field (Some (JString s)) = Some (Some s)"
| "opt_string_field _ = None"

fun opt_i64_field :: "json option \<Rightarrow> int option option" where
  "opt_i64_field None = Some None"
| "opt_i64_field (Some JNull) = Some None"
| "opt_i64_field (Some (JNumber (PosInt n))) = (if n < 2 ^ 63 then Some (Some (int n)) else None)"
| "opt_i64_field (Some (JNumber (NegInt i))) = (if - (2 ^ 63) \<le> i then Some (Some i) else None)"
| "opt_i64_field _ = None"

definition response_fields :: "rstr list" where
  "response_fields = [''active'', ''scope'', ''sub'', ''exp'', ''client_id'', ''azp'']"

definition response_from_json :: "json \<Rightarrow> introspection_response option" where
  "response_from_json v =
     Option.bind (as_object v) (\<lambda>m.
     Option.bind (Option.bind (map_of m ''active'') as_bool) (\<lambda>active.
     Option.bind (opt_string_field (map_of m ''scope'')) (\<lambda>scope.
     Option.bind (opt_string_field (map_of m ''sub'')) (\<lambda>sub.
     Option.bind (opt_i64_field (map_of m ''exp'')) (\<lambda>expo.
     Option.bind (opt_string_field (map_of m ''client_id'')) (\<lambda>client_id.
     Option.bind (opt_string_field (map_of m ''azp'')) (\<lambda>azp.
       Some \<lparr>ir_active = active, ir_scope = scope, ir_sub = sub, ir_exp = expo, ir_client_id = client_id,
             ir_azp = azp, ir_extra = filter (\<lambda>(k, _). k \<notin> set response_fields) m\<rparr>)))))))"

fun string_or_null :: "rstr option \<Rightarrow> json" where
  "string_or_null None = JNull"
| "string_or_null (Some s) = JString s"

fun int_or_null :: "int option \<Rightarrow> json" where
  "int_or_null None = JNull"
| "int_or_null (Some i) = JNumber (if 0 \<le> i then PosInt (nat i) else NegInt i)"

definition response_to_json :: "introspection_response \<Rightarrow> json" where
  "response_to_json r =
     JObject ([(''active'', JBool (ir_active r)), (''scope'', string_or_null (ir_scope r)),
               (''sub'', string_or_null (ir_sub r)), (''exp'', int_or_null (ir_exp r)),
               (''client_id'', string_or_null (ir_client_id r)), (''azp'', string_or_null (ir_azp r))]
              @ ir_extra r)"

definition introspection_failed :: auth_error where
  "introspection_failed = Generic ''Token introspection failed'' 401 None (Some ''introspection_failed'')"

text \<open>The request: form parameters and basic credentials by the configured method.\<close>

definition introspection_request :: "auth_config \<Rightarrow> rstr \<Rightarrow> (rstr \<times> rstr) list \<times> (rstr \<times> rstr) option" where
  "introspection_request config token =
     ([(''token'', token)]
      @ (if introspection_auth_method config = ClientSecretPost
         then (case introspection_client_id config of Some i \<Rightarrow> [(''client_id'', i)] | None \<Rightarrow> [])
              @ (case introspection_client_secret config of Some s \<Rightarrow> [(''client_secret'', s)] | None \<Rightarrow> [])
         else []),
      if introspection_auth_method config = ClientSecretBasic
      then (case (introspection_client_id config, introspection_client_secret config) of
              (Some i, Some s) \<Rightarrow> Some (i, s) | _ \<Rightarrow> None)
      else None)"

text \<open>From the response to the claims and the expiry they carry.\<close>

definition introspection_claims ::
  "('m, 'k, 'z) provider_env_scheme \<Rightarrow> auth_config \<Rightarrow> http_response option \<Rightarrow> (auth_error, json \<times> int option) result" where
  "introspection_claims env config response =
     (case response of
        None \<Rightarrow> Inl introspection_failed
      | Some response \<Rightarrow>
          if \<not> (200 \<le> resp_status response \<and> resp_status response \<le> 299) then Inl introspection_failed
          else if \<not> (case resp_content_type response of
                        Some v \<Rightarrow> contains_str ''application/json'' v | None \<Rightarrow> False)
          then Inl (Generic ''Introspection response was not JSON'' 502 None None)
          else if (case resp_content_length response of Some n \<Rightarrow> n | None \<Rightarrow> 0) > INTROSPECTION_MAX_BYTES
          then Inl (Generic ''Introspection response too large'' 502 None None)
          else case read_body_limited response INTROSPECTION_MAX_BYTES ''Introspection'' of
            Inl e \<Rightarrow> Inl e
          | Inr body \<Rightarrow>
              (case Option.bind (env_parse_json env body) response_from_json of
                 None \<Rightarrow> Inl (Generic ''Invalid introspection response'' 401 None (Some ''introspection_invalid_response''))
               | Some payload \<Rightarrow>
                   if \<not> ir_active payload
                   then Inl (Generic ''Token inactive'' 401 None (Some ''introspection_inactive''))
                   else let claims = response_to_json payload in
                     (case (if cfg_mode config = Introspection then validate_issuer_audience claims config else Inr ()) of
                        Inl e \<Rightarrow> Inl e
                      | Inr _ \<Rightarrow> Inr (claims, ir_exp payload))))"

definition introspect_token ::
  "('m, 'k, 'z) provider_env_scheme \<Rightarrow> auth_clock \<Rightarrow> auth_config \<Rightarrow> introspection_cache option \<Rightarrow> rstr
     \<Rightarrow> (auth_error, json) result \<times> introspection_cache option" where
  "introspect_token env clk config cache token =
     (case introspection_url config of
        None \<Rightarrow> (Inr JNull, cache)
      | Some url \<Rightarrow>
          let hashed_token = env_token_ref env token in
          (case Option.bind cache (\<lambda>c. cache_get c hashed_token (cache_get_now clk)) of
             Some cached \<Rightarrow> (Inr cached, cache)
           | None \<Rightarrow>
               let (form_params, basic) = introspection_request config token in
               (case introspection_claims env config (env_post env url form_params basic) of
                  Inl e \<Rightarrow> (Inl e, cache)
                | Inr (claims, expo) \<Rightarrow>
                    (Inr claims,
                     map_option (\<lambda>c. cache_set env c hashed_token claims expo (cache_set_now clk) (cache_set_epoch clk))
                       cache))))"

section \<open>Key sets\<close>

definition JWKS_MAX_BYTES :: nat where
  "JWKS_MAX_BYTES = 1024 * 1024"

definition JWKS_KID_MISS_REFRESH_COOLDOWN :: nat where
  "JWKS_KID_MISS_REFRESH_COOLDOWN = 30000"

record 'm jwks_cache =
  jwks_cache_url :: rstr
  jwks_ttl :: nat
  jwks_fetched_at :: "nat option"
  jwks_set :: "'m jwk list option"
  jwks_next_refresh_at :: "nat option"

definition jwks_cache_new :: "rstr \<Rightarrow> nat \<Rightarrow> 'm jwks_cache" where
  "jwks_cache_new url ttl =
     \<lparr>jwks_cache_url = url, jwks_ttl = ttl, jwks_fetched_at = None, jwks_set = None, jwks_next_refresh_at = None\<rparr>"

definition is_json_content_type :: "rstr \<Rightarrow> bool" where
  "is_json_content_type value =
     (let media_type = to_ascii_lowercase (trim (hd (split_on (CHR '';'') value))) in
      media_type = ''application/json''
      \<or> (CHR ''/'' \<in> set media_type
         \<and> suffix ''+json'' (rev (takeWhile (\<lambda>c. c \<noteq> CHR ''/'') (rev media_type)))))"

definition fetch_jwks :: "('m, 'k, 'z) provider_env_scheme \<Rightarrow> rstr \<Rightarrow> (auth_error, 'm jwk list) result" where
  "fetch_jwks env url =
     (case env_get env url of
        None \<Rightarrow> Inl (Generic ''JWKS provider unavailable'' 503 None (Some ''jwks_fetch_failed''))
      | Some response \<Rightarrow>
          if \<not> (200 \<le> resp_status response \<and> resp_status response \<le> 299)
          then if 500 \<le> resp_status response \<and> resp_status response \<le> 599
               then Inl (Generic ''JWKS provider unavailable'' 503 None (Some ''jwks_fetch_failed''))
               else Inl (Generic (''JWKS fetch failed with status '' @ env_status_text env (resp_status response)) 500 None None)
          else if \<not> (case resp_content_type response of Some v \<Rightarrow> is_json_content_type v | None \<Rightarrow> False)
          then Inl (Generic ''JWKS response was not JSON'' 502 None None)
          else if (case resp_content_length response of Some n \<Rightarrow> n | None \<Rightarrow> 0) > JWKS_MAX_BYTES
          then Inl (Generic ''JWKS response too large'' 502 None None)
          else case read_body_limited response JWKS_MAX_BYTES ''JWKS'' of
            Inl e \<Rightarrow> Inl e
          | Inr body \<Rightarrow>
              (case env_parse_jwks env body of
                 Inl e \<Rightarrow> Inl (Generic (''Failed to parse JWKS: '' @ e) 500 None None)
               | Inr keys \<Rightarrow> Inr keys))"

definition fetch_and_store ::
  "('m, 'k, 'z) provider_env_scheme \<Rightarrow> 'm jwks_cache \<Rightarrow> nat \<Rightarrow> (auth_error, 'm jwk list) result \<times> 'm jwks_cache" where
  "fetch_and_store env c now =
     (case fetch_jwks env (jwks_cache_url c) of
        Inl e \<Rightarrow> (Inl e, c)
      | Inr keys \<Rightarrow>
          (Inr keys, c\<lparr>jwks_set := Some keys, jwks_fetched_at := Some now,
                        jwks_next_refresh_at := Some (now + env_jittered env (jwks_ttl c))\<rparr>))"

definition jwks_get ::
  "('m, 'k, 'z) provider_env_scheme \<Rightarrow> auth_clock \<Rightarrow> 'm jwks_cache \<Rightarrow> (auth_error, 'm jwk list) result \<times> 'm jwks_cache" where
  "jwks_get env clk c =
     (case (jwks_set c, jwks_next_refresh_at c) of
        (Some keys, Some refresh_at) \<Rightarrow>
          if jwks_get_now clk < refresh_at then (Inr keys, c) else fetch_and_store env c (fetch_now clk)
      | _ \<Rightarrow> fetch_and_store env c (fetch_now clk))"

definition cached_set_within_kid_miss_cooldown :: "'m jwks_cache \<Rightarrow> nat \<Rightarrow> 'm jwk list option" where
  "cached_set_within_kid_miss_cooldown c now =
     (let cooldown = min (jwks_ttl c) JWKS_KID_MISS_REFRESH_COOLDOWN in
      if cooldown = 0 then None
      else case (jwks_set c, jwks_fetched_at c) of
             (Some keys, Some fetched_at) \<Rightarrow> if now - fetched_at < cooldown then Some keys else None
           | _ \<Rightarrow> None)"

definition refresh_on_kid_miss ::
  "('m, 'k, 'z) provider_env_scheme \<Rightarrow> auth_clock \<Rightarrow> 'm jwks_cache \<Rightarrow> (auth_error, 'm jwk list) result \<times> 'm jwks_cache" where
  "refresh_on_kid_miss env clk c =
     (case cached_set_within_kid_miss_cooldown c (kid_miss_now clk) of
        Some keys \<Rightarrow> (Inr keys, c)
      | None \<Rightarrow> fetch_and_store env c (kid_fetch_now clk))"

text \<open>The checks on the token once its key is looked up.\<close>

definition decode_with_key ::
  "('m, 'k, 'z) provider_env_scheme \<Rightarrow> auth_config \<Rightarrow> rstr \<Rightarrow> jwt_header \<Rightarrow> rstr \<Rightarrow> 'm jwk list \<Rightarrow> (auth_error, json) result" where
  "decode_with_key env config token header kid keys =
     (case find (\<lambda>key. jwk_kid key = Some kid) keys of
        None \<Rightarrow> Inl (invalid_bearer ''kid_not_found'')
      | Some key \<Rightarrow>
          if (case jwk_use key of Some u \<Rightarrow> u \<noteq> Signature | None \<Rightarrow> False) then Inl (invalid_bearer ''invalid_key_use'')
          else case env_key_from_jwk env key of
            None \<Rightarrow> Inl (invalid_bearer ''invalid_key'')
          | Some decoding_key \<Rightarrow>
              if hdr_alg header \<notin> {RS256, RS512, ES256, ES384} then Inl (invalid_bearer ''invalid_algorithm'')
              else case env_decode env token decoding_key
                     \<lparr>val_algorithms = [hdr_alg header], val_issuer = map_option (\<lambda>i. [i]) (cfg_issuer config),
                      val_audience = map_option (\<lambda>a. [a]) (cfg_audience config), val_required = required_claims,
                      val_leeway = nat (clock_skew config div 1000), val_nbf = True\<rparr> of
                     Inl e \<Rightarrow> Inl (auth_error_from_jwt e)
                   | Inr claims \<Rightarrow> Inr claims)"

definition decode_with_jwks ::
  "('m, 'k, 'z) provider_env_scheme \<Rightarrow> auth_clock \<Rightarrow> auth_config \<Rightarrow> 'm jwks_cache option \<Rightarrow> rstr
     \<Rightarrow> (auth_error, json) result \<times> 'm jwks_cache option" where
  "decode_with_jwks env clk config cache token =
     (case cache of
        None \<Rightarrow> (Inl (ConfigError ''JWKS client not configured.''), cache)
      | Some c \<Rightarrow>
          (case jwks_get env clk c of
             (Inl e, c) \<Rightarrow> (Inl e, Some c)
           | (Inr jwks, c) \<Rightarrow>
               (case env_decode_header env token of
                  Inl e \<Rightarrow> (Inl (auth_error_from_jwt e), Some c)
                | Inr header \<Rightarrow>
                    (case hdr_kid header of
                       None \<Rightarrow> (Inl (invalid_bearer ''missing_kid''), Some c)
                     | Some kid \<Rightarrow>
                         (case (if list_ex (\<lambda>key. jwk_kid key = Some kid) jwks then (Inr jwks, c)
                                else refresh_on_kid_miss env clk c) of
                            (Inl e, c) \<Rightarrow> (Inl e, Some c)
                          | (Inr jwks, c) \<Rightarrow> (decode_with_key env config token header kid jwks, Some c))))))"

section \<open>Delegation\<close>

definition decode_delegation ::
  "('m, 'k, 'z) provider_env_scheme \<Rightarrow> auth_config \<Rightarrow> rstr \<Rightarrow> (auth_error, json) result" where
  "decode_delegation env config token =
     (case delegation_secret config of
        None \<Rightarrow> Inl (ConfigError ''Delegation secret not configured.'')
      | Some secret \<Rightarrow>
          (case env_decode env token (env_key_from_secret env secret)
             \<lparr>val_algorithms = [HS256], val_issuer = Some [delegation_issuer config],
              val_audience = Some [delegation_audience config], val_required = required_claims,
              val_leeway = nat (clock_skew config div 1000), val_nbf = False\<rparr> of
             Inl e \<Rightarrow> Inl (auth_error_from_jwt e)
           | Inr claims \<Rightarrow> Inr claims))"

section \<open>Lemmas\<close>

lemma read_body_bounded: "length body \<le> n \<Longrightarrow> n < u64_max \<Longrightarrow> read_body_loop label n body cs = Inr out \<Longrightarrow> length out \<le> n"
  by (induction label n body cs rule: read_body_loop.induct)
    (auto simp: saturating_add_def split: sum.splits if_splits)

text \<open>
  A cached introspection result is served at most for the time to live, and no longer than its own expiry
  when that lies in the future.  An expiry that has already passed does not shorten it.
\<close>

lemma cache_expiry_bounds:
  "\<exists>t. cache_expiry ttl expo now epoch = Some t \<and> t \<le> now + ttl
     \<and> (\<forall>s. expo = Some s \<and> epoch < s \<and> s - epoch < 2 ^ 63 \<longrightarrow> t \<le> now + nat (s - epoch) * 1000)
     \<and> (\<forall>s. expo = Some s \<and> s \<le> epoch \<longrightarrow> t = now + ttl)"
  by (cases expo) (auto simp: cache_expiry_def saturating_sub_i64_def Let_def)

text \<open>Fields the server left out come back as null, and hide what a fallback would find.\<close>

lemma response_null_fields:
  "json_get (response_to_json r) ''azp'' \<noteq> None" "json_get (response_to_json r) ''scope'' \<noteq> None"
  "json_get (response_to_json r) ''sub'' \<noteq> None"
  by (simp_all add: response_to_json_def)

end
