(* ===== verification/Jti_Replay.thy ===== *)
theory Jti_Replay
  imports Auth_Headers "HOL-Library.AList"
begin

text \<open>
  Replay storage of \<open>replay.rs\<close> (crate \<open>mcp-toolkit-auth\<close>).  The hash map is an association list with
  distinct keys.  The first key of its iteration order, which the code evicts at capacity, is unspecified
  and therefore a parameter.  Clock readings are arguments.
\<close>

record jti_cache =
  jc_ttl :: nat
  jc_capacity :: nat
  jc_entries :: "(rstr \<times> nat) list"
  jc_calls_since_prune :: nat

definition jti_cache_new :: "nat \<Rightarrow> nat \<Rightarrow> jti_cache" where
  "jti_cache_new ttl capacity =
     \<lparr>jc_ttl = ttl, jc_capacity = capacity, jc_entries = [], jc_calls_since_prune = 0\<rparr>"

type_synonym first_key = "(rstr \<times> nat) list \<Rightarrow> rstr"

text \<open>The periodic prune.\<close>

definition jti_prune :: "jti_cache \<Rightarrow> nat \<Rightarrow> jti_cache" where
  "jti_prune c now =
     (if jc_calls_since_prune c + 1 \<ge> 100
      then c\<lparr>jc_entries := filter (\<lambda>(_, expiry). expiry > now) (jc_entries c), jc_calls_since_prune := 0\<rparr>
      else c\<lparr>jc_calls_since_prune := jc_calls_since_prune c + 1\<rparr>)"

definition jti_make_room :: "first_key \<Rightarrow> nat \<Rightarrow> (rstr \<times> nat) list \<Rightarrow> (rstr \<times> nat) list" where
  "jti_make_room pick capacity entries =
     (if length entries \<ge> capacity \<and> entries \<noteq> [] then AList.delete (pick entries) entries else entries)"

definition jti_seen :: "first_key \<Rightarrow> jti_cache \<Rightarrow> rstr \<Rightarrow> nat \<Rightarrow> bool \<times> jti_cache" where
  "jti_seen pick c jti now =
     (let c = jti_prune c now in
      case map_of (jc_entries c) jti of
        Some expiry \<Rightarrow>
          if expiry > now then (True, c)
          else (False, c\<lparr>jc_entries := AList.update jti (now + jc_ttl c)
                 (jti_make_room pick (jc_capacity c) (AList.delete jti (jc_entries c)))\<rparr>)
      | None \<Rightarrow>
          (False, c\<lparr>jc_entries := AList.update jti (now + jc_ttl c)
             (jti_make_room pick (jc_capacity c) (jc_entries c))\<rparr>))"

section \<open>The contract of a replay store\<close>

text \<open>
  What the authenticator relies on.  \<open>remembers s j t\<close>: the store refuses \<open>j\<close> before time \<open>t\<close>.
  \<open>room s\<close>: how many further identifiers can be recorded before anything unexpired is evicted.
\<close>

locale replay_store =
  fixes seen :: "'s \<Rightarrow> rstr \<Rightarrow> nat \<Rightarrow> bool \<times> 's"
    and ttl :: "'s \<Rightarrow> nat"
    and remembers :: "'s \<Rightarrow> rstr \<Rightarrow> nat \<Rightarrow> bool"
    and room :: "'s \<Rightarrow> nat"
    and ok :: "'s \<Rightarrow> bool"
  assumes seen_ok: "ok s \<Longrightarrow> ok (snd (seen s j now))"
    and seen_ttl: "ttl (snd (seen s j now)) = ttl s"
    and records: "ok s \<Longrightarrow> seen s j now = (False, s') \<Longrightarrow> remembers s' j (now + ttl s)"
    and detects: "ok s \<Longrightarrow> remembers s j t \<Longrightarrow> now < t \<Longrightarrow> fst (seen s j now)"
    and keeps: "ok s \<Longrightarrow> remembers s j t \<Longrightarrow> now < t \<Longrightarrow> 0 < room s \<Longrightarrow> remembers (snd (seen s j' now)) j t"
    and uses: "ok s \<Longrightarrow> room s \<le> Suc (room (snd (seen s j now)))"
begin

text \<open>A run of the store: identifiers with the clock readings of their calls.\<close>

definition run :: "(rstr \<times> nat) list \<Rightarrow> 's \<Rightarrow> 's" where
  "run calls s = fold (\<lambda>(j, now) s. snd (seen s j now)) calls s"

lemma run_ok: "ok s \<Longrightarrow> ok (run calls s)"
  unfolding run_def by (induction calls arbitrary: s) (auto simp: seen_ok)

lemma run_remembers:
  "ok s \<Longrightarrow> remembers s j t \<Longrightarrow> \<forall>(j', now) \<in> set calls. now < t \<Longrightarrow> length calls \<le> room s \<Longrightarrow>
     remembers (run calls s) j t"
proof (induction calls arbitrary: s)
  case Nil
  then show ?case by (simp add: run_def)
next
  case (Cons c calls)
  obtain j' now where c: "c = (j', now)" by (cases c)
  let ?s = "snd (seen s j' now)"
  have "remembers ?s j t" using Cons.prems c by (intro keeps) auto
  moreover have "length calls \<le> room ?s" using Cons.prems(4) uses [OF Cons.prems(1), of j' now] by simp
  ultimately have "remembers (run calls ?s) j t" using Cons.prems seen_ok by (intro Cons.IH) auto
  then show ?case by (simp add: run_def c)
qed

lemma run_room: "ok s \<Longrightarrow> room s \<le> length calls + room (run calls s)"
proof (induction calls arbitrary: s)
  case Nil
  then show ?case by (simp add: run_def)
next
  case (Cons c calls)
  obtain j now where c: "c = (j, now)" by (cases c)
  show ?case using Cons.IH [OF seen_ok [OF Cons.prems], of j now] uses [OF Cons.prems, of j now]
    by (simp add: run_def c)
qed

lemma run_ttl: "ttl (run calls s) = ttl s"
  unfolding run_def by (induction calls arbitrary: s) (auto simp: seen_ttl)

lemma run_append: "run (xs @ ys) s = run ys (run xs s)"
  by (simp add: run_def)

lemma replay_detected:
  assumes "ok s" and "seen s j t0 = (False, s')" and "\<forall>(j', now) \<in> set calls. now < t0 + ttl s"
    and "length calls \<le> room s'" and "now < t0 + ttl s"
  shows "fst (seen (run calls s') j now)"
proof -
  have ok: "ok s'" using seen_ok [OF assms(1), of j t0] assms(2) by simp
  have "remembers (run calls s') j (t0 + ttl s)"
    using run_remembers [OF ok records [OF assms(1,2)] assms(3,4)] .
  then show ?thesis using detects [OF run_ok [OF ok]] assms(5) by blast
qed

end

section \<open>The in-memory store\<close>

definition jti_ok :: "jti_cache \<Rightarrow> bool" where
  "jti_ok c \<longleftrightarrow> distinct (map fst (jc_entries c))"

definition jti_remembers :: "jti_cache \<Rightarrow> rstr \<Rightarrow> nat \<Rightarrow> bool" where
  "jti_remembers c j t \<longleftrightarrow> map_of (jc_entries c) j = Some t"

definition jti_room :: "jti_cache \<Rightarrow> nat" where
  "jti_room c = jc_capacity c - length (jc_entries c)"

lemma distinct_filter_keys: "distinct (map fst al) \<Longrightarrow> distinct (map fst (filter P al))"
  by (simp add: distinct_map_filter)

lemma map_of_filter_keeps:
  "distinct (map fst al) \<Longrightarrow> map_of al k = Some v \<Longrightarrow> P (k, v) \<Longrightarrow> map_of (filter P al) k = Some v"
  by (induction al) (auto split: if_splits)

lemma prune_facts:
  "jc_ttl (jti_prune c now) = jc_ttl c" "jc_capacity (jti_prune c now) = jc_capacity c"
  "jti_ok c \<Longrightarrow> jti_ok (jti_prune c now)"
  "length (jc_entries (jti_prune c now)) \<le> length (jc_entries c)"
  "jti_ok c \<Longrightarrow> jti_remembers c j t \<Longrightarrow> now < t \<Longrightarrow> jti_remembers (jti_prune c now) j t"
  by (auto simp: jti_prune_def jti_ok_def jti_remembers_def distinct_filter_keys map_of_filter_keeps)

lemma make_room_facts:
  "distinct (map fst es) \<Longrightarrow> distinct (map fst (jti_make_room pick cap es))"
  "length (jti_make_room pick cap es) \<le> length es"
  "length es < cap \<Longrightarrow> jti_make_room pick cap es = es"
  by (auto simp: jti_make_room_def distinct_delete length_delete_le)

lemma delete_facts:
  "length (AList.delete j es) \<le> length es" "distinct (map fst es) \<Longrightarrow> distinct (map fst (AList.delete j es))"
  by (simp_all add: length_delete_le distinct_delete)

interpretation in_memory: replay_store "jti_seen pick" jc_ttl jti_remembers jti_room jti_ok for pick
proof unfold_locales
  fix c j now assume "jti_ok c"
  then have "jti_ok (jti_prune c now)" by (rule prune_facts)
  then show "jti_ok (snd (jti_seen pick c j now))"
    by (auto simp: jti_seen_def jti_ok_def Let_def distinct_update make_room_facts delete_facts split: option.split)
next
  fix c j now show "jc_ttl (snd (jti_seen pick c j now)) = jc_ttl c"
    by (auto simp: jti_seen_def Let_def prune_facts split: option.split)
next
  fix c j now c' assume "jti_seen pick c j now = (False, c')"
  then show "jti_remembers c' j (now + jc_ttl c)"
    by (auto simp: jti_seen_def Let_def jti_remembers_def update_conv prune_facts split: option.splits if_splits)
next
  fix c j t now assume a: "jti_ok c" "jti_remembers c j t" "now < t"
  then have "jti_remembers (jti_prune c now) j t" by (rule prune_facts)
  then show "fst (jti_seen pick c j now)" using a(3) by (simp add: jti_seen_def Let_def jti_remembers_def)
next
  fix c j t now j' assume a: "jti_ok c" "jti_remembers c j t" "now < t" "0 < jti_room c"
  let ?c = "jti_prune c now"
  have r: "map_of (jc_entries ?c) j = Some t" using prune_facts(5) [OF a(1-3)] by (simp add: jti_remembers_def)
  have len: "length (jc_entries ?c) < jc_capacity ?c"
    using a(4) prune_facts(4) [of c now] by (simp add: jti_room_def prune_facts(2))
  then have "length (AList.delete j' (jc_entries ?c)) < jc_capacity ?c"
    using delete_facts(1) [of j' "jc_entries ?c"] by simp
  then show "jti_remembers (snd (jti_seen pick c j' now)) j t"
    using r len a(3)
    by (auto simp: jti_seen_def Let_def jti_remembers_def make_room_facts(3) update_conv delete_conv'
        split: option.split)
next
  fix c j now assume "jti_ok c"
  let ?c = "jti_prune c now"
  have l: "length (AList.update j x (jti_make_room pick cap es)) \<le> Suc (length es)" for x cap es
    using length_update_le [of j x "jti_make_room pick cap es"] make_room_facts(2) [of pick cap es] by simp
  have "length (jc_entries (snd (jti_seen pick c j now))) \<le> Suc (length (jc_entries ?c))"
    using l [of "now + jc_ttl ?c" "jc_capacity ?c" "jc_entries ?c"]
      l [of "now + jc_ttl ?c" "jc_capacity ?c" "AList.delete j (jc_entries ?c)"]
      delete_facts(1) [of j "jc_entries ?c"]
    by (auto simp: jti_seen_def Let_def split: option.split)
  moreover have "jc_capacity (snd (jti_seen pick c j now)) = jc_capacity c"
    by (auto simp: jti_seen_def Let_def prune_facts split: option.split)
  ultimately show "jti_room c \<le> Suc (jti_room (snd (jti_seen pick c j now)))"
    using prune_facts(4) [of c now] by (simp add: jti_room_def)
qed

text \<open>At capacity an unexpired identifier is evicted, after which its replay is admitted.\<close>

lemma replay_after_eviction:
  "fst (jti_seen (\<lambda>es. fst (hd es))
     (snd (jti_seen (\<lambda>es. fst (hd es)) (snd (jti_seen (\<lambda>es. fst (hd es)) (jti_cache_new 300000 1) ''a'' 0)) ''b'' 1))
     ''a'' 2) = False"
  by code_simp

end
