(* ===== verification/Authenticator.thy ===== *)
theory Authenticator
  imports Auth_Providers Jti_Replay
begin

text \<open>
  The authenticator of \<open>authenticator.rs\<close> (crate \<open>mcp-toolkit-auth\<close>): construction from a
  configuration, bearer authentication, and sender-constrained authentication with a DPoP proof.  Its state
  is the introspection cache, the key-set cache and the replay store; a call returns the new state.  A
  replay store supplied by the caller is a state with its own \<open>seen\<close> operation.  The DPoP verifier is a
  parameter: a tree of the replay-store calls it makes, each continued with the answer it gets.
\<close>

section \<open>State\<close>

datatype 'r replay_backend = Custom 'r | InMemory jti_cache

record ('m, 'k, 'r) auth_env = "('m, 'k) provider_env" +
  env_custom_seen :: "'r \<Rightarrow> rstr \<Rightarrow> nat \<Rightarrow> (rstr, bool) result \<times> 'r"
  env_jti_first_key :: first_key

record ('m, 'r) authenticator =
  auth_cfg :: auth_config
  jti_replay_store :: "'r replay_backend option"
  auth_introspection_cache :: "introspection_cache option"
  auth_jwks_cache :: "'m jwks_cache option"
  provenance_marker :: nat

fun replay_seen ::
  "('m, 'k, 'r) auth_env \<Rightarrow> 'r replay_backend \<Rightarrow> rstr \<Rightarrow> nat \<Rightarrow> (rstr, bool) result \<times> 'r replay_backend" where
  "replay_seen env (Custom r) jti now =
     (case env_custom_seen env r jti now of (result, r') \<Rightarrow> (result, Custom r'))"
| "replay_seen env (InMemory c) jti now =
     (case jti_seen (env_jti_first_key env) c jti now of (seen, c') \<Rightarrow> (Inr seen, InMemory c'))"

definition config_check :: "auth_config \<Rightarrow> bool \<Rightarrow> auth_error option" where
  "config_check config custom_jti_replay_store =
     (if cfg_mode config = Jwks
         \<and> (jwks_url config = None \<or> cfg_issuer config = None \<or> cfg_audience config = None)
      then Some (ConfigError ''JWKS auth requires jwks_url, issuer, and audience.'')
      else if cfg_mode config = Jwks \<and> introspection_url config \<noteq> None
         \<and> (introspection_client_id config = None \<or> introspection_client_secret config = None)
      then Some (ConfigError ''Introspection requires client_id and client_secret.'')
      else if cfg_mode config = Introspection \<and> introspection_url config = None
      then Some (ConfigError ''Introspection mode requires introspection_url.'')
      else if cfg_mode config = Delegation \<and> introspection_url config \<noteq> None
      then Some (ConfigError ''Introspection requires jwks or introspection auth mode.'')
      else if custom_jti_replay_store \<and> jti_ttl config \<le> 0
      then Some (ConfigError ''Custom JTI replay store requires positive jti_ttl_s.'')
      else if jti_enforce_bearer config \<and> \<not> custom_jti_replay_store
         \<and> (jti_ttl config \<le> 0 \<or> jti_cache_size config \<le> 0)
      then Some (ConfigError ''Bearer JTI replay enforcement requires positive jti_ttl_s and jti_cache_size.'')
      else None)"

definition authenticator_new ::
  "auth_config \<Rightarrow> 'r option \<Rightarrow> nat \<Rightarrow> (auth_error, ('m, 'r) authenticator) result" where
  "authenticator_new config custom marker =
     (case config_check config (custom \<noteq> None) of
        Some e \<Rightarrow> Inl e
      | None \<Rightarrow>
          Inr \<lparr>auth_cfg = config,
               jti_replay_store =
                 (if jti_ttl config > 0
                  then (case custom of
                          Some store \<Rightarrow> Some (Custom store)
                        | None \<Rightarrow>
                            if jti_cache_size config > 0
                            then Some (InMemory (jti_cache_new (nat (jti_ttl config)) (nat (jti_cache_size config))))
                            else None)
                  else None),
               auth_introspection_cache =
                 (if introspection_cache_ttl config > 0
                  then Some (introspection_cache_new (nat (introspection_cache_ttl config)) 10000) else None),
               auth_jwks_cache =
                 (if cfg_mode config = Jwks
                  then Some (jwks_cache_new (case jwks_url config of Some u \<Rightarrow> u | None \<Rightarrow> []) 300000) else None),
               provenance_marker = marker\<rparr>)"

section \<open>Authentication of a token\<close>

datatype token_binding = BearerOnly | SenderConstrained

definition confirmation_jkt :: "json \<Rightarrow> rstr option" where
  "confirmation_jkt claims =
     opt_filter (\<lambda>jkt. jkt \<noteq> [])
       (Option.bind (Option.bind (Option.bind (json_get claims ''cnf'') as_object) (\<lambda>cnf. map_of cnf ''jkt'')) as_str)"

definition confirmation_claim_mismatch :: auth_error where
  "confirmation_claim_mismatch =
     with_reason (with_code (auth_error_new ''Invalid bearer token.'') ''DPOP_CONFIRMATION_CLAIM_MISMATCH'')
       ''dpop_confirmation_mismatch''"

fun validate_confirmation_claim :: "json \<Rightarrow> token_binding \<Rightarrow> (auth_error, unit) result" where
  "validate_confirmation_claim claims BearerOnly =
     (if has_confirmation_claim claims
      then Inl (with_reason (with_code (auth_error_new ''Invalid bearer token.'') ''SENDER_CONSTRAINED_BEARER_TOKEN'')
             ''sender_constrained'')
      else Inr ())"
| "validate_confirmation_claim claims SenderConstrained =
     (if confirmation_jkt claims \<noteq> None then Inr () else Inl confirmation_claim_mismatch)"

text \<open>The verified claims by mode.\<close>

definition token_claims ::
  "('m, 'k, 'r) auth_env \<Rightarrow> auth_clock \<Rightarrow> ('m, 'r) authenticator \<Rightarrow> rstr
     \<Rightarrow> (auth_error, json) result \<times> ('m, 'r) authenticator" where
  "token_claims env clk a token =
     (let config = auth_cfg a in
      case cfg_mode config of
        Delegation \<Rightarrow> (decode_delegation env config token, a)
      | Jwks \<Rightarrow>
          if introspection_force config \<and> introspection_url config \<noteq> None
          then (case introspect_token env clk config (auth_introspection_cache a) token of
                  (r, cache) \<Rightarrow>
                    ((case r of
                        Inl e \<Rightarrow> Inl e
                      | Inr introspected \<Rightarrow>
                          (case validate_issuer_audience introspected config of
                             Inl e \<Rightarrow> Inl e | Inr _ \<Rightarrow> Inr introspected)),
                     a\<lparr>auth_introspection_cache := cache\<rparr>))
          else (case decode_with_jwks env clk config (auth_jwks_cache a) token of
                  (r, cache) \<Rightarrow> (r, a\<lparr>auth_jwks_cache := cache\<rparr>))
      | Introspection \<Rightarrow>
          (case introspect_token env clk config (auth_introspection_cache a) token of
             (r, cache) \<Rightarrow> (r, a\<lparr>auth_introspection_cache := cache\<rparr>)))"

text \<open>Introspection that enriches a decoded token.\<close>

definition enriched_claims ::
  "('m, 'k, 'r) auth_env \<Rightarrow> auth_clock \<Rightarrow> ('m, 'r) authenticator \<Rightarrow> rstr \<Rightarrow> json
     \<Rightarrow> (auth_error, json) result \<times> ('m, 'r) authenticator" where
  "enriched_claims env clk a token claims =
     (let config = auth_cfg a in
      if cfg_mode config = Jwks \<and> introspection_url config \<noteq> None \<and> \<not> introspection_force config
      then (case introspect_token env clk config (auth_introspection_cache a) token of
              (r, cache) \<Rightarrow>
                ((case r of Inl e \<Rightarrow> Inl e | Inr introspected \<Rightarrow> Inr (merge_claims claims introspected)),
                 a\<lparr>auth_introspection_cache := cache\<rparr>))
      else (Inr claims, a))"

definition missing_actor :: "rstr \<Rightarrow> auth_error" where
  "missing_actor claim =
     Generic (''Token missing actor claim ('' @ claim @ '')'') 401 (Some ''AUTH_MISSING_ACTOR'') (Some ''missing_actor'')"

definition claims_azp :: "json \<Rightarrow> rstr option" where
  "claims_azp claims =
     trimmed_non_empty
       (Option.bind (case json_get claims ''azp'' of Some v \<Rightarrow> Some v | None \<Rightarrow> json_get claims ''client_id'') as_str)"

text \<open>The replay check of bearer tokens.\<close>

definition check_replay ::
  "('m, 'k, 'r) auth_env \<Rightarrow> auth_clock \<Rightarrow> ('m, 'r) authenticator \<Rightarrow> json \<Rightarrow> token_binding
     \<Rightarrow> (auth_error, unit) result \<times> ('m, 'r) authenticator" where
  "check_replay env clk a claims binding =
     (if binding = BearerOnly \<and> jti_enforce_bearer (auth_cfg a)
      then (case jti_replay_store a of
              None \<Rightarrow> (Inl (ConfigError ''Bearer JTI replay enforcement requires an enabled replay store.''), a)
            | Some store \<Rightarrow>
                (case claim_str claims ''jti'' of
                   None \<Rightarrow> (Inl InvalidToken, a)
                 | Some jti \<Rightarrow>
                     (case replay_seen env store jti (jti_now clk) of
                        (r, store') \<Rightarrow>
                          ((case r of
                              Inl e \<Rightarrow> Inl (with_reason (with_code (with_status
                                         (auth_error_new (''JTI replay store failed: '' @ e)) 500)
                                         ''AUTH_REPLAY_STORE_ERROR'') ''replay_store_error'')
                            | Inr replayed \<Rightarrow> if replayed then Inl ReplayDetected else Inr ()),
                           a\<lparr>jti_replay_store := Some store'\<rparr>))))
      else (Inr (), a))"

text \<open>From validated claims to the context: actor, scopes, replay, in this order.\<close>

definition context_from_claims ::
  "('m, 'k, 'r) auth_env \<Rightarrow> auth_clock \<Rightarrow> ('m, 'r) authenticator \<Rightarrow> rstr \<Rightarrow> token_binding \<Rightarrow> json
     \<Rightarrow> (auth_error, auth_context) result \<times> ('m, 'r) authenticator" where
  "context_from_claims env clk a token binding claims =
     (case validate_confirmation_claim claims binding of
        Inl e \<Rightarrow> (Inl e, a)
      | Inr _ \<Rightarrow>
          (case claim_str claims (trim (actor_claim (auth_cfg a))) of
             None \<Rightarrow> (Inl (missing_actor (trim (actor_claim (auth_cfg a)))), a)
           | Some actor \<Rightarrow>
               let scopes = extract_scopes claims in
               if filter (\<lambda>scope. scope \<notin> set scopes) (cfg_required_scopes (auth_cfg a)) \<noteq> []
               then (Inl MissingScopes, a)
               else (case check_replay env clk a claims binding of
                       (Inl e, a') \<Rightarrow> (Inl e, a')
                     | (Inr _, a') \<Rightarrow>
                         (Inr \<lparr>ctx_actor = actor, ctx_scopes = sort_dedup scopes, ctx_roles = extract_roles claims,
                               ctx_claims = claims, ctx_azp = claims_azp claims, ctx_subject = claim_str claims ''sub'',
                               ctx_token_ref = env_token_ref env token, ctx_raw_token = token\<rparr>, a'))))"

definition authenticate_token_with_binding ::
  "('m, 'k, 'r) auth_env \<Rightarrow> auth_clock \<Rightarrow> ('m, 'r) authenticator \<Rightarrow> rstr \<Rightarrow> token_binding
     \<Rightarrow> (auth_error, auth_context) result \<times> ('m, 'r) authenticator" where
  "authenticate_token_with_binding env clk a token binding =
     (case token_claims env clk a token of
        (Inl e, a) \<Rightarrow> (Inl e, a)
      | (Inr claims, a) \<Rightarrow>
          (case enriched_claims env clk a token claims of
             (Inl e, a) \<Rightarrow> (Inl e, a)
           | (Inr claims, a) \<Rightarrow> context_from_claims env clk a token binding claims))"

definition issue_verified_context :: "('m, 'r) authenticator \<Rightarrow> auth_context \<Rightarrow> verified_auth_context" where
  "issue_verified_context a context = from_authenticator context (provenance_marker a)"

definition is_issued_by :: "verified_auth_context \<Rightarrow> ('m, 'r) authenticator \<Rightarrow> bool" where
  "is_issued_by v a \<longleftrightarrow> authenticator_marker v = provenance_marker a"

definition authenticate_token ::
  "('m, 'k, 'r) auth_env \<Rightarrow> auth_clock \<Rightarrow> ('m, 'r) authenticator \<Rightarrow> rstr
     \<Rightarrow> (auth_error, verified_auth_context) result \<times> ('m, 'r) authenticator" where
  "authenticate_token env clk a token =
     (case authenticate_token_with_binding env clk a token BearerOnly of
        (Inl e, a') \<Rightarrow> (Inl e, a')
      | (Inr context, a') \<Rightarrow> (Inr (issue_verified_context a' context), a'))"

definition authenticate_headers ::
  "('m, 'k, 'r) auth_env \<Rightarrow> auth_clock \<Rightarrow> ('m, 'r) authenticator \<Rightarrow> header_map
     \<Rightarrow> (auth_error, verified_auth_context) result \<times> ('m, 'r) authenticator" where
  "authenticate_headers env clk a headers =
     (case bearer_token headers (strict_oauth (auth_cfg a)) of
        None \<Rightarrow> (Inl MissingToken, a)
      | Some token \<Rightarrow> authenticate_token env clk a token)"

section \<open>Sender-constrained authentication\<close>

record replay_context =
  rc_jkt :: "rstr option"
  rc_rest :: rstr

datatype 'd dpop_run =
    DpopDone "('d, unit) result"
  | DpopInsert rstr replay_context "('d, bool) result \<Rightarrow> 'd dpop_run"

type_synonym ('d, 's) insert_once = "'s \<Rightarrow> rstr \<Rightarrow> replay_context \<Rightarrow> ('d, bool) result \<times> 's"

primrec run_dpop :: "('d, 's) insert_once \<Rightarrow> 'd dpop_run \<Rightarrow> 's \<Rightarrow> ('d, unit) result \<times> 's" where
  "run_dpop ins (DpopDone r) = (\<lambda>s. (r, s))"
| "run_dpop ins (DpopInsert jti_hash context k) =
     (\<lambda>s. case ins s jti_hash context of (r, s') \<Rightarrow> run_dpop ins (k r) s')"

text \<open>\<open>ConfirmationBoundReplayStore\<close>: the inner store and the mismatch flag.\<close>

definition guarded_insert_once :: "('d, 's) insert_once \<Rightarrow> rstr \<Rightarrow> ('d, 's \<times> bool) insert_once" where
  "guarded_insert_once ins expected_jkt s jti_hash context =
     (if rc_jkt context \<noteq> Some expected_jkt then (Inr False, (fst s, True))
      else case ins (fst s) jti_hash context of (r, inner) \<Rightarrow> (r, (inner, snd s)))"

datatype 'd sender_constrained_auth_error = Dpop 'd | Authentication auth_error

fun sc_dpop_error :: "'d sender_constrained_auth_error \<Rightarrow> 'd option" where
  "sc_dpop_error (Dpop e) = Some e"
| "sc_dpop_error (Authentication _) = None"

fun sc_auth_error :: "'d sender_constrained_auth_error \<Rightarrow> auth_error option" where
  "sc_auth_error (Dpop _) = None"
| "sc_auth_error (Authentication e) = Some e"

definition authenticate_sender_constrained_dpop ::
  "('m, 'k, 'r) auth_env \<Rightarrow> auth_clock \<Rightarrow> ('m, 'r) authenticator \<Rightarrow> rstr \<Rightarrow> rstr \<Rightarrow> rstr \<Rightarrow> rstr
     \<Rightarrow> (rstr \<Rightarrow> rstr \<Rightarrow> rstr \<Rightarrow> rstr option \<Rightarrow> 'd dpop_run) \<Rightarrow> ('d, 's) insert_once \<Rightarrow> 's
     \<Rightarrow> ('d sender_constrained_auth_error, verified_auth_context) result \<times> ('m, 'r) authenticator \<times> 's" where
  "authenticate_sender_constrained_dpop env clk a access_token pf expected_htu expected_htm verify ins s =
     (case authenticate_token_with_binding env clk a access_token SenderConstrained of
        (Inl e, a') \<Rightarrow> (Inl (Authentication e), a', s)
      | (Inr context, a') \<Rightarrow>
          (case confirmation_jkt (ctx_claims context) of
             None \<Rightarrow> (Inl (Authentication confirmation_claim_mismatch), a', s)
           | Some expected_jkt \<Rightarrow>
               (case run_dpop (guarded_insert_once ins expected_jkt)
                       (verify pf expected_htu expected_htm (Some access_token)) (s, False) of
                  (verification, (s', confirmation_mismatch)) \<Rightarrow>
                    ((if confirmation_mismatch then Inl (Authentication confirmation_claim_mismatch)
                      else case verification of
                             Inl e \<Rightarrow> Inl (Dpop e)
                           | Inr _ \<Rightarrow> Inr (issue_verified_context a' context)), a', s'))))"

section \<open>What a context says\<close>

lemma token_claims_frame:
  "token_claims env clk a token = (r, a') \<Longrightarrow>
     auth_cfg a' = auth_cfg a \<and> jti_replay_store a' = jti_replay_store a \<and> provenance_marker a' = provenance_marker a"
  by (auto simp: token_claims_def Let_def split: auth_mode.splits if_splits prod.splits)

lemma enriched_claims_frame:
  "enriched_claims env clk a token claims = (r, a') \<Longrightarrow>
     auth_cfg a' = auth_cfg a \<and> jti_replay_store a' = jti_replay_store a \<and> provenance_marker a' = provenance_marker a"
  by (auto simp: enriched_claims_def Let_def split: if_splits prod.splits)

lemma enriched_claims_cnf:
  "enriched_claims env clk a token claims = (Inr claims', a') \<Longrightarrow> json_get claims ''cnf'' \<noteq> None \<Longrightarrow>
     json_get claims' ''cnf'' = json_get claims ''cnf''"
  by (auto simp: enriched_claims_def Let_def merge_claims_cnf split: if_splits prod.splits sum.splits)

lemma check_replay_frame:
  "check_replay env clk a claims binding = (r, a') \<Longrightarrow>
     auth_cfg a' = auth_cfg a \<and> provenance_marker a' = provenance_marker a"
  by (auto simp: check_replay_def split: if_splits option.splits prod.splits)

text \<open>The context agrees with the claims it was made from.\<close>

definition context_sound :: "auth_config \<Rightarrow> token_binding \<Rightarrow> rstr \<Rightarrow> auth_context \<Rightarrow> bool" where
  "context_sound config binding token ctx \<longleftrightarrow>
     claim_str (ctx_claims ctx) (trim (actor_claim config)) = Some (ctx_actor ctx)
     \<and> sorted_wrt (<) (ctx_scopes ctx) \<and> set (ctx_scopes ctx) = set (extract_scopes (ctx_claims ctx))
     \<and> set (cfg_required_scopes config) \<subseteq> set (ctx_scopes ctx) \<and> ctx_raw_token ctx = token
     \<and> (case binding of
          BearerOnly \<Rightarrow> \<not> has_confirmation_claim (ctx_claims ctx)
        | SenderConstrained \<Rightarrow> confirmation_jkt (ctx_claims ctx) \<noteq> None)"

lemma context_from_claims_sound:
  assumes "context_from_claims env clk a token binding claims = (Inr ctx, a')"
  shows "context_sound (auth_cfg a) binding token ctx \<and> ctx_claims ctx = claims
     \<and> check_replay env clk a claims binding = (Inr (), a')"
proof -
  have missing: "filter (\<lambda>scope. scope \<notin> set xs) ys = [] \<longleftrightarrow> set ys \<subseteq> set xs" for xs ys :: "rstr list"
    by (auto simp: filter_empty_conv)
  from assms show ?thesis
    by (cases binding)
      (auto simp: context_from_claims_def context_sound_def Let_def missing sort_dedup_sorted
        split: if_splits option.splits sum.splits prod.splits)
qed

lemma authenticate_steps:
  assumes "authenticate_token_with_binding env clk a token binding = (Inr ctx, a')"
  obtains jwt a1 claims a2 where "token_claims env clk a token = (Inr jwt, a1)"
    "enriched_claims env clk a1 token jwt = (Inr claims, a2)"
    "context_from_claims env clk a2 token binding claims = (Inr ctx, a')"
  using assms by (auto simp: authenticate_token_with_binding_def split: prod.splits sum.splits)

section \<open>Replays\<close>

definition auth_run :: "('m, 'k, 'r) auth_env \<Rightarrow> (auth_clock \<times> rstr \<times> token_binding) list
    \<Rightarrow> ('m, 'r) authenticator \<Rightarrow> ('m, 'r) authenticator" where
  "auth_run env calls a =
     fold (\<lambda>(clk, token, binding) a. snd (authenticate_token_with_binding env clk a token binding)) calls a"

abbreviation jti_run :: "('m, 'k, 'r) auth_env \<Rightarrow> (rstr \<times> nat) list \<Rightarrow> jti_cache \<Rightarrow> jti_cache" where
  "jti_run env \<equiv> replay_store.run (jti_seen (env_jti_first_key env))"

lemma check_replay_store:
  assumes "jti_replay_store a = Some (InMemory c)"
  shows "\<exists>js. length js \<le> 1 \<and> (\<forall>(j, now) \<in> set js. now = jti_now clk)
     \<and> jti_replay_store (snd (check_replay env clk a claims binding)) = Some (InMemory (jti_run env js c))"
proof (cases "binding = BearerOnly \<and> jti_enforce_bearer (auth_cfg a)")
  case False
  then show ?thesis using assms
    by (intro exI [of _ "[]"]) (auto simp: check_replay_def in_memory.run_def)
next
  case True
  show ?thesis
  proof (cases "claim_str claims ''jti''")
    case None
    then show ?thesis using assms True
      by (intro exI [of _ "[]"]) (auto simp: check_replay_def in_memory.run_def)
  next
    case (Some j)
    then show ?thesis using assms True
      by (intro exI [of _ "[(j, jti_now clk)]"])
        (auto simp: check_replay_def in_memory.run_def split: prod.split)
  qed
qed

lemma context_from_claims_store:
  assumes "jti_replay_store a = Some (InMemory c)"
  shows "\<exists>js. length js \<le> 1 \<and> (\<forall>(j, now) \<in> set js. now = jti_now clk)
     \<and> jti_replay_store (snd (context_from_claims env clk a token binding claims)) = Some (InMemory (jti_run env js c))"
proof (cases "snd (context_from_claims env clk a token binding claims) = a")
  case True
  then show ?thesis using assms by (intro exI [of _ "[]"]) (simp add: in_memory.run_def)
next
  case False
  then have "snd (context_from_claims env clk a token binding claims) = snd (check_replay env clk a claims binding)"
    by (auto simp: context_from_claims_def Let_def split: sum.splits option.splits if_splits prod.splits)
  then show ?thesis using check_replay_store [OF assms] by metis
qed

lemma authenticate_store:
  assumes "jti_replay_store a = Some (InMemory c)"
  shows "\<exists>js. length js \<le> 1 \<and> (\<forall>(j, now) \<in> set js. now = jti_now clk)
     \<and> jti_replay_store (snd (authenticate_token_with_binding env clk a token binding)) = Some (InMemory (jti_run env js c))"
proof -
  obtain r1 a1 where t: "token_claims env clk a token = (r1, a1)" by fastforce
  have s1: "jti_replay_store a1 = Some (InMemory c)" using token_claims_frame [OF t] assms by simp
  have none: ?thesis if "jti_replay_store (snd (authenticate_token_with_binding env clk a token binding)) = Some (InMemory c)"
    using that by (intro exI [of _ "[]"]) (simp add: in_memory.run_def)
  show ?thesis
  proof (cases r1)
    case (Inl e)
    then show ?thesis using t s1 by (intro none) (simp add: authenticate_token_with_binding_def)
  next
    case (Inr jwt)
    obtain r2 a2 where e: "enriched_claims env clk a1 token jwt = (r2, a2)" by fastforce
    have s2: "jti_replay_store a2 = Some (InMemory c)" using enriched_claims_frame [OF e] s1 by simp
    show ?thesis
    proof (cases r2)
      case (Inl e')
      then show ?thesis using t e Inr s2 by (intro none) (simp add: authenticate_token_with_binding_def)
    next
      case r2: (Inr claims)
      then have "authenticate_token_with_binding env clk a token binding = context_from_claims env clk a2 token binding claims"
        using t e Inr by (simp add: authenticate_token_with_binding_def)
      then show ?thesis using context_from_claims_store [OF s2] by metis
    qed
  qed
qed

lemma context_from_claims_cfg: "auth_cfg (snd (context_from_claims env clk a token binding claims)) = auth_cfg a"
  by (auto simp: context_from_claims_def Let_def dest: check_replay_frame
      split: sum.split option.split prod.split)

lemmas claims_cfg =
  token_claims_frame [OF prod.collapse [symmetric], THEN conjunct1]
  enriched_claims_frame [OF prod.collapse [symmetric], THEN conjunct1]

lemma authenticate_cfg: "auth_cfg (snd (authenticate_token_with_binding env clk a token binding)) = auth_cfg a"
  by (simp add: authenticate_token_with_binding_def case_prod_unfold claims_cfg context_from_claims_cfg split: sum.split)

lemma auth_run_cfg: "auth_cfg (auth_run env calls a) = auth_cfg a"
  unfolding auth_run_def by (induction calls arbitrary: a) (auto simp: authenticate_cfg)

text \<open>An accepted bearer token has been recorded.\<close>

lemma accepted_bearer_recorded:
  assumes "authenticate_token_with_binding env clk a token BearerOnly = (Inr ctx, a')"
    and "jti_replay_store a = Some (InMemory c)" and "jti_enforce_bearer (auth_cfg a)"
  shows "\<exists>j c'. claim_str (ctx_claims ctx) ''jti'' = Some j
     \<and> jti_seen (env_jti_first_key env) c j (jti_now clk) = (False, c') \<and> jti_replay_store a' = Some (InMemory c')"
proof -
  obtain jwt a1 claims a2 where s: "token_claims env clk a token = (Inr jwt, a1)"
    "enriched_claims env clk a1 token jwt = (Inr claims, a2)"
    "context_from_claims env clk a2 token BearerOnly claims = (Inr ctx, a')"
    using authenticate_steps [OF assms(1)] .
  have "jti_replay_store a2 = Some (InMemory c)" "jti_enforce_bearer (auth_cfg a2)"
    using token_claims_frame [OF s(1)] enriched_claims_frame [OF s(2)] assms(2,3) by simp_all
  then show ?thesis using context_from_claims_sound [OF s(3)]
    by (auto simp: check_replay_def split: option.splits prod.splits if_splits)
qed

lemma auth_run_store:
  "jti_replay_store a = Some (InMemory c) \<Longrightarrow>
     \<exists>js. length js \<le> length calls \<and> (\<forall>(j, now) \<in> set js. \<exists>(clk, _, _) \<in> set calls. now = jti_now clk)
       \<and> jti_replay_store (auth_run env calls a) = Some (InMemory (jti_run env js c))"
proof (induction calls arbitrary: a c)
  case Nil
  then show ?case by (simp add: auth_run_def in_memory.run_def)
next
  case (Cons x calls)
  obtain clk token binding where x: "x = (clk, token, binding)" by (cases x)
  let ?a = "snd (authenticate_token_with_binding env clk a token binding)"
  obtain js where js: "length js \<le> 1" "\<forall>(j, now) \<in> set js. now = jti_now clk"
    "jti_replay_store ?a = Some (InMemory (jti_run env js c))"
    using authenticate_store [OF Cons.prems] by blast
  obtain ks where ks: "length ks \<le> length calls" "\<forall>(j, now) \<in> set ks. \<exists>(clk, _, _) \<in> set calls. now = jti_now clk"
    "jti_replay_store (auth_run env calls ?a) = Some (InMemory (jti_run env ks (jti_run env js c)))"
    using Cons.IH [OF js(3)] by blast
  show ?case using js ks x
    by (intro exI [of _ "js @ ks"]) (fastforce simp: auth_run_def in_memory.run_append)
qed

section \<open>The guarded replay store\<close>

text \<open>The calls a verifier makes in a run, with the answers it gets.\<close>

primrec dpop_trace :: "('d, 's) insert_once \<Rightarrow> 'd dpop_run \<Rightarrow> 's \<Rightarrow> (rstr \<times> replay_context \<times> ('d, bool) result) list" where
  "dpop_trace ins (DpopDone r) = (\<lambda>s. [])"
| "dpop_trace ins (DpopInsert jti_hash context k) =
     (\<lambda>s. case ins s jti_hash context of (r, s') \<Rightarrow> (jti_hash, context, r) # dpop_trace ins (k r) s')"

text \<open>
  Documented behaviour of the verifier: it accepts a proof only after the replay store has admitted its
  identifier.
\<close>

primrec accepts_only_admitted :: "'d dpop_run \<Rightarrow> bool" where
  "accepts_only_admitted (DpopDone r) = (case r of Inl _ \<Rightarrow> True | Inr _ \<Rightarrow> False)"
| "accepts_only_admitted (DpopInsert jti_hash context k) = (\<forall>r. r \<noteq> Inr True \<longrightarrow> accepts_only_admitted (k r))"

lemma guarded_flag:
  "snd (snd (run_dpop (guarded_insert_once ins jkt) tree (s, flag))) \<longleftrightarrow>
     flag \<or> (\<exists>(h, c, r) \<in> set (dpop_trace (guarded_insert_once ins jkt) tree (s, flag)). rc_jkt c \<noteq> Some jkt)"
proof (induction tree arbitrary: s flag)
  case (DpopDone r)
  then show ?case by simp
next
  case (DpopInsert h c k)
  obtain r s1 f1 where i: "guarded_insert_once ins jkt (s, flag) h c = (r, (s1, f1))" by (metis prod_cases3)
  then have "f1 \<longleftrightarrow> flag \<or> rc_jkt c \<noteq> Some jkt"
    by (auto simp: guarded_insert_once_def split: if_splits prod.splits)
  then show ?case using DpopInsert.IH [OF rangeI, of r s1 f1] i by auto
qed

lemma guarded_transparent:
  "\<not> snd (snd (run_dpop (guarded_insert_once ins jkt) tree (s, False))) \<Longrightarrow>
     run_dpop ins tree s = (fst (run_dpop (guarded_insert_once ins jkt) tree (s, False)),
       fst (snd (run_dpop (guarded_insert_once ins jkt) tree (s, False))))
     \<and> dpop_trace ins tree s = dpop_trace (guarded_insert_once ins jkt) tree (s, False)"
proof (induction tree arbitrary: s)
  case (DpopDone r)
  then show ?case by simp
next
  case (DpopInsert h c k)
  have jkt: "rc_jkt c = Some jkt"
    using DpopInsert.prems guarded_flag [of ins jkt "DpopInsert h c k" s False]
    by (auto split: prod.splits)
  obtain r s' where i: "ins s h c = (r, s')" by fastforce
  have "guarded_insert_once ins jkt (s, False) h c = (r, (s', False))" using jkt i by (simp add: guarded_insert_once_def)
  then show ?case using DpopInsert.IH [OF rangeI, of r s'] DpopInsert.prems i by simp
qed

lemma admitted_call:
  "accepts_only_admitted tree \<Longrightarrow> run_dpop ins tree s = (Inr u, s') \<Longrightarrow>
     \<exists>(h, c, r) \<in> set (dpop_trace ins tree s). r = Inr True"
proof (induction tree arbitrary: s)
  case (DpopDone r)
  then show ?case by auto
next
  case (DpopInsert h c k)
  obtain r s1 where i: "ins s h c = (r, s1)" by fastforce
  show ?case
  proof (cases "r = Inr True")
    case True
    then show ?thesis using i by simp
  next
    case False
    then have "accepts_only_admitted (k r)" using DpopInsert.prems(1) by simp
    then show ?thesis using DpopInsert.IH [OF rangeI, of r s1] DpopInsert.prems(2) i by auto
  qed
qed

section \<open>Properties\<close>


text \<open>Values for the witnesses: delegation tokens whose text is their identifier.\<close>

definition demo_env :: "(unit, unit, unit) auth_env" where
  "demo_env =
     \<lparr>env_post = (\<lambda>_ _ _. None), env_get = (\<lambda>_. None), env_status_text = show_nat, env_parse_json = (\<lambda>_. None),
      env_parse_jwks = (\<lambda>_. Inr []), env_token_ref = (\<lambda>token. token),
      env_decode_header = (\<lambda>_. Inl OtherKind), env_key_from_secret = (\<lambda>_. ()), env_key_from_jwk = (\<lambda>_. Some ()),
      env_decode = (\<lambda>token _ _. Inr (JObject [(''sub'', JString '' alice ''), (''jti'', JString token),
        (''scope'', JString ''b a'')])),
      env_jittered = (\<lambda>ttl. ttl), env_first_key = (\<lambda>es. fst (hd es)),
      env_custom_seen = (\<lambda>r _ _. (Inr False, r)), env_jti_first_key = (\<lambda>es. fst (hd es))\<rparr>"

definition demo_config :: auth_config where
  "demo_config = auth_config_default
     \<lparr>cfg_mode := Delegation, delegation_secret := Some ''s'', jti_enforce_bearer := True,
      cfg_required_scopes := [''a'']\<rparr>"

definition demo_authenticator :: "(unit, unit) authenticator" where
  "demo_authenticator =
     \<lparr>auth_cfg = demo_config, jti_replay_store = Some (InMemory (jti_cache_new 300000 5000)),
      auth_introspection_cache = None, auth_jwks_cache = None, provenance_marker = 7\<rparr>"

definition demo_clock :: "nat \<Rightarrow> auth_clock" where
  "demo_clock now = \<lparr>cache_get_now = now, cache_set_now = now, cache_set_epoch = 0, jwks_get_now = now,
     kid_miss_now = now, fetch_now = now, kid_fetch_now = now, jti_now = now\<rparr>"

definition demo_context :: "rstr \<Rightarrow> auth_context" where
  "demo_context token =
     \<lparr>ctx_actor = ''alice'', ctx_scopes = [''a'', ''b''], ctx_roles = [],
      ctx_claims = JObject [(''sub'', JString '' alice ''), (''jti'', JString token), (''scope'', JString ''b a'')],
      ctx_azp = None, ctx_subject = Some ''alice'', ctx_token_ref = token, ctx_raw_token = token\<rparr>"

lemma demo_authenticates:
  "fst (authenticate_token_with_binding demo_env (demo_clock 10) demo_authenticator ''t1'' BearerOnly)
     = Inr (demo_context ''t1'')"
  by code_simp


text \<open>
  C10: with replay enforcement and the in-memory store, an accepted bearer token identifier is not accepted
  again before its time to live has passed.  This holds after any earlier calls, with any calls in between (of
  both kinds, accepted or not, at clock readings in any order), whatever order the hash map iterates in, as
  long as the calls since construction fit the configured cache size, so that nothing is evicted.
\<close>

theorem bearer_replay_refused:
  assumes "authenticator_new config None marker = Inr a0" and "jti_enforce_bearer config"
    and "a = auth_run env before a0"
    and "authenticate_token_with_binding env clk1 a token1 BearerOnly = (Inr ctx1, a1)"
    and "\<forall>(clk, _, _) \<in> set between. jti_now clk < jti_now clk1 + nat (jti_ttl config)"
    and "jti_now clk2 < jti_now clk1 + nat (jti_ttl config)"
    and "length before + 1 + length between \<le> nat (jti_cache_size config)"
    and "authenticate_token_with_binding env clk2 (auth_run env between a1) token2 BearerOnly = (Inr ctx2, a2)"
  shows "claim_str (ctx_claims ctx2) ''jti'' \<noteq> claim_str (ctx_claims ctx1) ''jti''"
proof
  assume same: "claim_str (ctx_claims ctx2) ''jti'' = claim_str (ctx_claims ctx1) ''jti''"
  let ?pick = "env_jti_first_key env" and ?start = "jti_cache_new (nat (jti_ttl config)) (nat (jti_cache_size config))"
  have s0: "jti_replay_store a0 = Some (InMemory ?start)" and cfg0: "auth_cfg a0 = config"
    using assms(1,2) by (auto simp: authenticator_new_def config_check_def split: if_splits)
  obtain bs where bs: "length bs \<le> length before" "jti_replay_store a = Some (InMemory (jti_run env bs ?start))"
    using auth_run_store [OF s0] assms(3) by blast
  let ?mid = "jti_run env bs ?start"
  have ok0: "jti_ok ?start" by (simp add: jti_ok_def jti_cache_new_def)
  have ok: "jti_ok ?mid" by (rule in_memory.run_ok [OF ok0])
  have cfg: "auth_cfg a = config" using assms(3) cfg0 by (simp add: auth_run_cfg)
  have "auth_cfg a1 = auth_cfg a" using authenticate_cfg [of env clk1 a token1 BearerOnly] unfolding assms(4) by simp
  then have cfg1: "auth_cfg (auth_run env between a1) = config" using cfg by (simp add: auth_run_cfg)
  obtain j c1 where j: "claim_str (ctx_claims ctx1) ''jti'' = Some j"
    "jti_seen ?pick ?mid j (jti_now clk1) = (False, c1)" "jti_replay_store a1 = Some (InMemory c1)"
    using accepted_bearer_recorded [OF assms(4) bs(2)] cfg assms(2) by blast
  obtain ks where ks: "length ks \<le> length between"
    "\<forall>(j, now) \<in> set ks. \<exists>(clk, _, _) \<in> set between. now = jti_now clk"
    "jti_replay_store (auth_run env between a1) = Some (InMemory (jti_run env ks c1))"
    using auth_run_store [OF j(3)] by blast
  have ttl: "jc_ttl ?mid = nat (jti_ttl config)" using in_memory.run_ttl [of ?pick bs ?start] by (simp add: jti_cache_new_def)
  have "jti_room ?start \<le> length bs + jti_room ?mid" by (rule in_memory.run_room [OF ok0])
  moreover have "jti_room ?mid \<le> Suc (jti_room c1)" using in_memory.uses [OF ok, of ?pick j "jti_now clk1"] j(2) by simp
  ultimately have room: "length ks \<le> jti_room c1"
    using bs(1) ks(1) assms(7) by (simp add: jti_room_def jti_cache_new_def)
  have "fst (jti_seen ?pick (jti_run env ks c1) j (jti_now clk2))"
    by (rule in_memory.replay_detected [OF ok j(2) _ room])
      (use ks(2) assms(5,6) ttl in fastforce)+
  moreover obtain c2 where "jti_seen ?pick (jti_run env ks c1) j (jti_now clk2) = (False, c2)"
    using accepted_bearer_recorded [OF assms(8) ks(3)] cfg1 assms(2) same j(1) by auto
  ultimately show False by simp
qed

theorem bearer_replay_refused_witness:
  "claim_str (ctx_claims (demo_context ''t2'')) ''jti'' \<noteq> claim_str (ctx_claims (demo_context ''t1'')) ''jti''"
proof -
  let ?call = "\<lambda>t. authenticate_token_with_binding demo_env (demo_clock t)"
  have new: "authenticator_new demo_config None 7 = Inr demo_authenticator" by code_simp
  obtain a1 where one: "?call 10 demo_authenticator ''t1'' BearerOnly = (Inr (demo_context ''t1''), a1)"
    using demo_authenticates by (metis prod.collapse)
  have "fst (?call 30 (auth_run demo_env [(demo_clock 20, ''t1'', BearerOnly)]
      (snd (?call 10 demo_authenticator ''t1'' BearerOnly))) ''t2'' BearerOnly) = Inr (demo_context ''t2'')"
    by code_simp
  then obtain a2 where two: "?call 30 (auth_run demo_env [(demo_clock 20, ''t1'', BearerOnly)] a1) ''t2'' BearerOnly
      = (Inr (demo_context ''t2''), a2)"
    unfolding one snd_conv by (metis prod.collapse)
  show ?thesis
    by (rule bearer_replay_refused [OF new _ _ one _ _ _ two, where before = "[]"])
      (simp_all add: demo_config_def auth_config_default_def auth_run_def demo_clock_def)
qed

text \<open>
  C11: sender-constrained authentication binds the proof to the token.  When it succeeds, the verified claims
  carry a key thumbprint, every replay-store call the verifier made named exactly that key, at least one of them
  admitted a fresh proof identifier, and the guard was transparent: the verifier run on the unguarded store
  gives the same verdict and the same store.  When the verifier ever names another key, the call fails with the
  confirmation error whatever the verifier's verdict.
\<close>

theorem dpop_bound_to_token:
  assumes "accepts_only_admitted (verify pf htu htm (Some token))"
  shows "(authenticate_sender_constrained_dpop env clk a token pf htu htm verify ins s = (Inr v, a', s') \<longrightarrow>
      (\<exists>jkt. confirmation_jkt (ctx_claims (verified_context v)) = Some jkt
         \<and> run_dpop ins (verify pf htu htm (Some token)) s = (Inr (), s')
         \<and> (\<forall>(h, c, r) \<in> set (dpop_trace ins (verify pf htu htm (Some token)) s). rc_jkt c = Some jkt)
         \<and> (\<exists>(h, c, r) \<in> set (dpop_trace ins (verify pf htu htm (Some token)) s). r = Inr True)))
    \<and> (authenticate_token_with_binding env clk a token SenderConstrained = (Inr ctx, a1)
       \<and> confirmation_jkt (ctx_claims ctx) = Some key
       \<and> (\<exists>(h, c, r) \<in> set (dpop_trace (guarded_insert_once ins key) (verify pf htu htm (Some token)) (s, False)).
            rc_jkt c \<noteq> Some key)
       \<longrightarrow> fst (authenticate_sender_constrained_dpop env clk a token pf htu htm verify ins s)
             = Inl (Authentication confirmation_claim_mismatch))"
proof (intro conjI impI)
  let ?tree = "verify pf htu htm (Some token)"
  assume ok: "authenticate_sender_constrained_dpop env clk a token pf htu htm verify ins s = (Inr v, a', s')"
  obtain ctx where ctx: "authenticate_token_with_binding env clk a token SenderConstrained = (Inr ctx, a')"
    "v = issue_verified_context a' ctx"
    using ok by (auto simp: authenticate_sender_constrained_dpop_def
        split: prod.splits sum.splits option.splits if_splits)
  obtain jkt where jkt: "confirmation_jkt (ctx_claims ctx) = Some jkt"
    using ok ctx by (auto simp: authenticate_sender_constrained_dpop_def split: option.splits)
  let ?run = "run_dpop (guarded_insert_once ins jkt) ?tree (s, False)"
  have run: "\<not> snd (snd ?run)" "fst ?run = Inr ()" "fst (snd ?run) = s'"
    using ok ctx jkt by (auto simp: authenticate_sender_constrained_dpop_def split: prod.splits sum.splits if_splits)
  note same = guarded_transparent [OF run(1)]
  have r: "run_dpop ins ?tree s = (Inr (), s')" using same run by simp
  moreover have "\<forall>(h, c, r) \<in> set (dpop_trace ins ?tree s). rc_jkt c = Some jkt"
    using guarded_flag [of ins jkt ?tree s False] run(1) same by auto
  moreover note admitted_call [OF assms r]
  moreover have "confirmation_jkt (ctx_claims (verified_context v)) = Some jkt"
    using ctx(2) jkt by (simp add: issue_verified_context_def from_authenticator_def)
  ultimately show "\<exists>jkt. confirmation_jkt (ctx_claims (verified_context v)) = Some jkt
         \<and> run_dpop ins ?tree s = (Inr (), s')
         \<and> (\<forall>(h, c, r) \<in> set (dpop_trace ins ?tree s). rc_jkt c = Some jkt)
         \<and> (\<exists>(h, c, r) \<in> set (dpop_trace ins ?tree s). r = Inr True)" by blast
next
  let ?tree = "verify pf htu htm (Some token)"
  assume h: "authenticate_token_with_binding env clk a token SenderConstrained = (Inr ctx, a1)
       \<and> confirmation_jkt (ctx_claims ctx) = Some key
       \<and> (\<exists>(h, c, r) \<in> set (dpop_trace (guarded_insert_once ins key) ?tree (s, False)). rc_jkt c \<noteq> Some key)"
  then have "snd (snd (run_dpop (guarded_insert_once ins key) ?tree (s, False)))" by (simp add: guarded_flag)
  then show "fst (authenticate_sender_constrained_dpop env clk a token pf htu htm verify ins s)
             = Inl (Authentication confirmation_claim_mismatch)"
    using h by (auto simp: authenticate_sender_constrained_dpop_def split: prod.splits)
qed

definition demo_dpop_env :: "(unit, unit, unit) auth_env" where
  "demo_dpop_env = demo_env
     \<lparr>env_decode := (\<lambda>token _ _. Inr (JObject [(''sub'', JString ''alice''), (''scope'', JString ''a''),
        (''cnf'', JObject [(''jkt'', JString ''key1'')])]))\<rparr>"

definition demo_verify :: "rstr \<Rightarrow> rstr \<Rightarrow> rstr \<Rightarrow> rstr option \<Rightarrow> unit dpop_run" where
  "demo_verify pf htu htm token =
     DpopInsert ''h'' \<lparr>rc_jkt = Some pf, rc_rest = []\<rparr> (\<lambda>r. DpopDone (if r = Inr True then Inr () else Inl ()))"

definition demo_insert :: "(unit, rstr list) insert_once" where
  "demo_insert s h c = (if h \<in> set s then (Inr False, s) else (Inr True, h # s))"

definition demo_dpop_context :: verified_auth_context where
  "demo_dpop_context =
     \<lparr>verified_context =
        \<lparr>ctx_actor = ''alice'', ctx_scopes = [''a''], ctx_roles = [],
         ctx_claims = JObject [(''sub'', JString ''alice''), (''scope'', JString ''a''),
           (''cnf'', JObject [(''jkt'', JString ''key1'')])],
         ctx_azp = None, ctx_subject = Some ''alice'', ctx_token_ref = ''t'', ctx_raw_token = ''t''\<rparr>,
      authenticator_marker = 7, request_marker = None\<rparr>"

theorem dpop_bound_to_token_witness:
  "(\<exists>jkt. confirmation_jkt (ctx_claims (verified_context demo_dpop_context)) = Some jkt
      \<and> run_dpop demo_insert (demo_verify ''key1'' ''u'' ''m'' (Some ''t'')) [] = (Inr (), [''h'']))
   \<and> fst (authenticate_sender_constrained_dpop demo_dpop_env (demo_clock 1) demo_authenticator ''t'' ''key2'' ''u'' ''m''
        demo_verify demo_insert []) = Inl (Authentication confirmation_claim_mismatch)"
proof -
  let ?call = "\<lambda>pf. authenticate_sender_constrained_dpop demo_dpop_env (demo_clock 1) demo_authenticator ''t'' pf ''u'' ''m''
    demo_verify demo_insert []"
  have doc: "accepts_only_admitted (demo_verify pf ''u'' ''m'' (Some ''t''))" for pf
    by (simp add: demo_verify_def)
  have "fst (?call ''key1'') = Inr demo_dpop_context" "snd (snd (?call ''key1'')) = [''h'']" by code_simp+
  then obtain a' where one: "?call ''key1'' = (Inr demo_dpop_context, a', [''h''])" by (metis prod.collapse)
  have "fst (authenticate_token_with_binding demo_dpop_env (demo_clock 1) demo_authenticator ''t'' SenderConstrained)
      = Inr (verified_context demo_dpop_context)" by code_simp
  then obtain a1 where two: "authenticate_token_with_binding demo_dpop_env (demo_clock 1) demo_authenticator ''t''
      SenderConstrained = (Inr (verified_context demo_dpop_context), a1)" by (metis prod.collapse)
  have key: "confirmation_jkt (ctx_claims (verified_context demo_dpop_context)) = Some ''key1''" by code_simp
  have other: "\<exists>(h, c, r) \<in> set (dpop_trace (guarded_insert_once demo_insert ''key1'')
      (demo_verify ''key2'' ''u'' ''m'' (Some ''t'')) ([], False)). rc_jkt c \<noteq> Some ''key1''"
    by (simp add: demo_verify_def guarded_insert_once_def)
  show ?thesis
    using dpop_bound_to_token [where verify = demo_verify and pf = "''key1''" and htu = "''u''" and htm = "''m''"
        and token = "''t''" and env = demo_dpop_env and clk = "demo_clock 1" and a = demo_authenticator
        and ins = demo_insert and s = "[]" and v = demo_dpop_context and a' = a' and s' = "[''h'']", OF doc] one
      dpop_bound_to_token [where verify = demo_verify and pf = "''key2''" and htu = "''u''" and htm = "''m''"
        and token = "''t''" and env = demo_dpop_env and clk = "demo_clock 1" and a = demo_authenticator
        and ins = demo_insert and s = "[]" and ctx = "verified_context demo_dpop_context" and ?a1.0 = a1
        and key = "''key1''", OF doc] two key other
    by blast
qed

text \<open>
  An introspection response that leaves a field out comes back with that field null, and the merge lets null
  win.  So a response with nothing but \<open>active\<close>, which the standard allows, erases the subject of a verified
  token, and the token is refused for a missing actor.  The same null hides \<open>client_id\<close> from the authorized
  party, although the code falls back to it when \<open>azp\<close> is missing.
\<close>

definition demo_json_response :: http_response where
  "demo_json_response = \<lparr>resp_status = 200, resp_content_type = Some ''application/json'',
     resp_content_length = None, resp_chunks = []\<rparr>"

definition demo_jwks_env :: "json \<Rightarrow> (unit, unit, unit) auth_env" where
  "demo_jwks_env response = demo_env
     \<lparr>env_get := (\<lambda>_. Some demo_json_response), env_post := (\<lambda>_ _ _. Some demo_json_response),
      env_parse_json := (\<lambda>_. Some response),
      env_parse_jwks := (\<lambda>_. Inr [\<lparr>jwk_kid = Some ''k'', jwk_use = None, jwk_material = ()\<rparr>]),
      env_decode_header := (\<lambda>_. Inr \<lparr>hdr_alg = RS256, hdr_kid = Some ''k''\<rparr>)\<rparr>"

definition demo_jwks_config :: auth_config where
  "demo_jwks_config = auth_config_default
     \<lparr>jwks_url := Some ''u'', cfg_issuer := Some ''i'', cfg_audience := Some ''a'',
      introspection_url := Some ''v'', introspection_client_id := Some ''c'', introspection_client_secret := Some ''s''\<rparr>"

definition demo_outcome :: "auth_config \<Rightarrow> json \<Rightarrow> (auth_error, auth_context) result" where
  "demo_outcome config response =
     (case authenticator_new config None 7 of
        Inl e \<Rightarrow> Inl e
      | Inr a \<Rightarrow> fst (authenticate_token_with_binding (demo_jwks_env response) (demo_clock 1) a ''t'' BearerOnly))"

lemma minimal_introspection_erases_subject:
  "demo_outcome (demo_jwks_config\<lparr>introspection_url := None\<rparr>) JNull \<noteq> Inl (missing_actor ''sub'')
   \<and> demo_outcome demo_jwks_config (JObject [(''active'', JBool True)]) = Inl (missing_actor ''sub'')"
  by code_simp

lemma introspection_hides_client_id:
  "(case demo_outcome (demo_jwks_config\<lparr>cfg_mode := Introspection, cfg_issuer := None, cfg_audience := None\<rparr>)
       (JObject [(''active'', JBool True), (''sub'', JString ''alice''), (''client_id'', JString ''app'')]) of
      Inl _ \<Rightarrow> False
    | Inr ctx \<Rightarrow> ctx_azp ctx = None \<and> claim_str (ctx_claims ctx) ''client_id'' = Some ''app'')"
  by code_simp

end
