(* ===== verification/Auth_Surface.thy ===== *)
theory Auth_Surface
  imports Issuer_Registry Auth_Challenge Authenticator
begin

text \<open>
  The HTTP auth surface, \<open>surface.rs\<close> (crate \<open>mcp-toolkit-auth\<close>): the middleware that serves discovery
  documents, authenticates requests for protected resources and issues a single-use witness bound to the request.
  Requests and replies are records; their typed extensions are fields, and \<open>'d\<close> is the type of the policy
  decision that a later layer attaches.  The world holds what is shared by reference: the authenticators and the
  atomic state of every witness.  A witness and its request marker are created together and share a number.
  SHA-256 and the acceptance of header values are parameters; the failure observer is left out.
\<close>

section \<open>Requests, replies and the world\<close>

record http_uri =
  uri_path :: rstr
  uri_rest :: rstr

record auth_surface_context =
  sc_resource_path :: rstr
  sc_resource_url :: rstr
  sc_issuer :: rstr

record request_binding =
  bd_method :: rstr
  bd_uri :: http_uri
  bd_authorization_digest :: rstr
  bd_request_marker :: nat
  bd_lifecycle :: nat
  bd_surface_context :: "auth_surface_context option"

record 'd http_request =
  req_method :: rstr
  req_uri :: http_uri
  req_headers :: header_map
  ext_auth :: "auth_context option"
  ext_verified :: "verified_auth_context option"
  ext_surface :: "auth_surface_context option"
  ext_binding :: "request_binding option"
  ext_decision :: "'d option"

datatype reply_body = JsonBody json | TextBody rstr | EmptyBody

record 'd http_reply =
  reply_status :: nat
  reply_headers :: header_map
  reply_body :: reply_body
  reply_decision :: "'d option"

datatype lifecycle_state = RequestActive | RequestConsumed | RequestClosed

record ('m, 'r) surface_world =
  w_authenticators :: "('m, 'r) authenticator list"
  w_lifecycles :: "lifecycle_state list"

section \<open>Witnesses\<close>

definition u64_be_bytes :: "nat \<Rightarrow> rstr" where
  "u64_be_bytes n = map (\<lambda>i. char_of (n div 256 ^ i mod 256)) [7, 6, 5, 4, 3, 2, 1, 0]"

text \<open>What the hash is fed: the number of \<open>Authorization\<close> values, then each with its length.\<close>

definition authorization_input :: "header_map \<Rightarrow> rstr" where
  "authorization_input headers =
     (let vs = get_all headers ''authorization'' in
      u64_be_bytes (length vs) @ concat (map (\<lambda>v. u64_be_bytes (length v) @ v) vs))"

definition authorization_digest :: "(rstr \<Rightarrow> rstr) \<Rightarrow> header_map \<Rightarrow> rstr" where
  "authorization_digest sha headers = sha (authorization_input headers)"

definition binding_begin ::
  "(rstr \<Rightarrow> rstr) \<Rightarrow> 'd http_request \<Rightarrow> auth_surface_context option \<Rightarrow> ('m, 'r) surface_world
     \<Rightarrow> request_binding \<times> ('m, 'r) surface_world" where
  "binding_begin sha req surface w =
     (let n = length (w_lifecycles w) in
      (\<lparr>bd_method = req_method req, bd_uri = req_uri req,
        bd_authorization_digest = authorization_digest sha (req_headers req), bd_request_marker = n, bd_lifecycle = n,
        bd_surface_context = surface\<rparr>,
       w\<lparr>w_lifecycles := w_lifecycles w @ [RequestActive]\<rparr>))"

definition binding_matches :: "(rstr \<Rightarrow> rstr) \<Rightarrow> request_binding \<Rightarrow> 'd http_request \<Rightarrow> bool" where
  "binding_matches sha b req \<longleftrightarrow>
     bd_method b = req_method req \<and> bd_uri b = req_uri req
     \<and> bd_authorization_digest b = authorization_digest sha (req_headers req)"

definition binding_consume :: "request_binding \<Rightarrow> ('m, 'r) surface_world \<Rightarrow> bool \<times> ('m, 'r) surface_world" where
  "binding_consume b w =
     (let n = bd_lifecycle b in
      if n < length (w_lifecycles w) \<and> w_lifecycles w ! n = RequestActive
      then (True, w\<lparr>w_lifecycles := (w_lifecycles w)[n := RequestConsumed]\<rparr>)
      else (False, w))"

definition guard_drop :: "nat \<Rightarrow> ('m, 'r) surface_world \<Rightarrow> ('m, 'r) surface_world" where
  "guard_drop n w = w\<lparr>w_lifecycles := (w_lifecycles w)[n := RequestClosed]\<rparr>"

record verified_surface_request =
  vr_auth :: "auth_context option"
  vr_surface :: "auth_surface_context option"

definition consume_verified_request ::
  "(rstr \<Rightarrow> rstr) \<Rightarrow> 'd http_request \<Rightarrow> ('m, 'r) authenticator \<Rightarrow> ('m, 'r) surface_world
     \<Rightarrow> verified_surface_request option \<times> ('m, 'r) surface_world" where
  "consume_verified_request sha req authn w =
     (case ext_binding req of
        None \<Rightarrow> (None, w)
      | Some b \<Rightarrow>
          if \<not> binding_matches sha b req then (None, w)
          else (case bd_surface_context b of
            Some surface \<Rightarrow>
              (case ext_verified req of
                 None \<Rightarrow> (None, w)
               | Some context \<Rightarrow>
                   if \<not> is_issued_by context authn \<or> \<not> is_bound_to_request context (bd_request_marker b)
                   then (None, w)
                   else if ext_surface req \<noteq> Some surface then (None, w)
                   else (case binding_consume b w of
                           (False, w') \<Rightarrow> (None, w')
                         | (True, w') \<Rightarrow>
                             (Some \<lparr>vr_auth = Some (verified_context context), vr_surface = Some surface\<rparr>, w')))
          | None \<Rightarrow>
              if ext_verified req \<noteq> None \<or> ext_auth req \<noteq> None \<or> ext_surface req \<noteq> None then (None, w)
              else (case binding_consume b w of
                      (False, w') \<Rightarrow> (None, w')
                    | (True, w') \<Rightarrow> (Some \<lparr>vr_auth = None, vr_surface = None\<rparr>, w'))))"

section \<open>Replies\<close>

definition auth_metadata_json :: "authorization_server_metadata \<Rightarrow> json" where
  "auth_metadata_json m =
     (let opt = (\<lambda>name v. case v of None \<Rightarrow> [] | Some x \<Rightarrow> [(name, x)]);
          text = map_option JString;
          texts = map_option (\<lambda>xs. JArray (map JString xs))
      in JObject ([(''issuer'', JString (md_issuer m)),
           (''authorization_endpoint'', JString (md_authorization_endpoint m)),
           (''token_endpoint'', JString (md_token_endpoint m))]
         @ opt ''registration_endpoint'' (text (md_registration_endpoint m))
         @ opt ''jwks_uri'' (text (md_jwks_uri m))
         @ opt ''introspection_endpoint'' (text (md_introspection_endpoint m))
         @ opt ''device_authorization_endpoint'' (text (md_device_authorization_endpoint m))
         @ opt ''grant_types_supported'' (texts (md_grant_types_supported m))
         @ opt ''client_id_metadata_document_supported''
             (map_option JBool (md_client_id_metadata_document_supported m))
         @ opt ''token_endpoint_auth_methods_supported'' (texts (md_token_endpoint_auth_methods_supported m))
         @ opt ''code_challenge_methods_supported'' (texts (md_code_challenge_methods_supported m))))"

definition resource_metadata_json :: "resource_metadata \<Rightarrow> json" where
  "resource_metadata_json m =
     (let field = (\<lambda>name xs. if xs = [] then [] else [(name, JArray (map JString xs))])
      in JObject ((''resource'', JString (rm_resource m)) # field ''authorization_servers'' (rm_authorization_servers m)
           @ field ''scopes_supported'' (rm_scopes_supported m)
           @ field ''bearer_methods_supported'' (rm_bearer_methods_supported m)))"

definition well_known_response :: "(rstr \<Rightarrow> bool) \<Rightarrow> well_known_kind \<Rightarrow> issuer_runtime \<Rightarrow> 'd http_reply" where
  "well_known_response header_ok kind entry =
     (let document = (\<lambda>j. \<lparr>reply_status = 200, reply_headers = [(''content-type'', ''application/json'')],
                              reply_body = JsonBody j, reply_decision = None\<rparr>)
      in case kind of
           AuthorizationServer \<Rightarrow> document (auth_metadata_json (ir_auth_metadata entry))
         | ProtectedResource \<Rightarrow> document (resource_metadata_json (ir_resource_metadata entry))
         | OpenIdConfiguration \<Rightarrow>
             let location = oidc_metadata_url (ir_issuer entry) in
             \<lparr>reply_status = 307, reply_headers = (if header_ok location then [(''location'', location)] else []),
              reply_body = EmptyBody, reply_decision = None\<rparr>)"

definition auth_error_response :: "(rstr \<Rightarrow> bool) \<Rightarrow> rstr \<Rightarrow> rstr \<Rightarrow> rstr list \<Rightarrow> auth_error \<Rightarrow> 'd http_reply" where
  "auth_error_response header_ok realm metadata_url scopes_supported err =
     (let c = auth_error_contract_of err;
          code = contract_status_code c;
          status = (if 100 \<le> code \<and> code < 1000 then code else 401);
          challenge = build_bearer_challenge header_ok
            \<lparr>ch_realm = realm, ch_resource_metadata = Some metadata_url,
             ch_scope = (if scopes_supported = [] then None else Some (join_with '' '' scopes_supported)),
             ch_error = contract_bearer_error c, ch_error_description = contract_error_description c,
             ch_error_uri = None\<rparr>
      in \<lparr>reply_status = status,
          reply_headers = (if status = 401 \<or> status = 403 then [(''www-authenticate'', challenge)] else []),
          reply_body = TextBody (contract_public_message c), reply_decision = None\<rparr>)"

section \<open>The middleware\<close>

definition clear_request_state :: "'d http_request \<Rightarrow> 'd http_request" where
  "clear_request_state req = req\<lparr>ext_auth := None, ext_verified := None, ext_surface := None, ext_binding := None\<rparr>"

text \<open>Either a reply of the surface, or the request for the inner service with the witness its guard closes.\<close>

datatype 'd surface_outcome = Respond "'d http_reply" | Forward "'d http_request" nat

definition begin_public_request ::
  "(rstr \<Rightarrow> rstr) \<Rightarrow> 'd http_request \<Rightarrow> ('m, 'r) surface_world \<Rightarrow> 'd surface_outcome \<times> ('m, 'r) surface_world" where
  "begin_public_request sha req w =
     (case binding_begin sha req None w of (b, w') \<Rightarrow> (Forward (req\<lparr>ext_binding := Some b\<rparr>) (bd_lifecycle b), w'))"

text \<open>An authenticated request for a protected resource: the client allowlist, then the extensions.\<close>

definition admit_request ::
  "(rstr \<Rightarrow> rstr) \<Rightarrow> (rstr \<Rightarrow> bool) \<Rightarrow> issuer_runtime \<Rightarrow> 'd http_request \<Rightarrow> verified_auth_context
     \<Rightarrow> ('m, 'r) surface_world \<Rightarrow> 'd surface_outcome \<times> ('m, 'r) surface_world" where
  "admit_request sha header_ok entry req context w =
     (let azp = (case ctx_azp (verified_context context) of None \<Rightarrow> [] | Some a \<Rightarrow> a) in
      if ir_allowed_client_ids entry \<noteq> [] \<and> (azp = [] \<or> azp \<notin> set (ir_allowed_client_ids entry))
      then (Respond (auth_error_response header_ok (ir_realm entry) (ir_resource_metadata_url entry)
              (ir_scopes_supported entry)
              (with_reason (with_code (with_status (auth_error_new ''client_id is not allowed for this service'') 403)
                 ''AUTH_CLIENT_NOT_ALLOWED'') ''client_not_allowed'')), w)
      else let surface = \<lparr>sc_resource_path = ir_resource_path entry, sc_resource_url = ir_resource_url entry,
                          sc_issuer = ir_issuer entry\<rparr>
           in case binding_begin sha req (Some surface) w of
                (b, w') \<Rightarrow>
                  (Forward (req\<lparr>ext_auth := Some (verified_context context),
                                ext_verified := Some (bind_to_request context (bd_request_marker b)),
                                ext_surface := Some surface, ext_binding := Some b\<rparr>) (bd_lifecycle b), w'))"

definition surface_step ::
  "(rstr \<Rightarrow> rstr) \<Rightarrow> (rstr \<Rightarrow> bool) \<Rightarrow> ('m, 'k, 'r) auth_env \<Rightarrow> auth_clock \<Rightarrow> issuer_registry \<Rightarrow> 'd http_request
     \<Rightarrow> ('m, 'r) surface_world \<Rightarrow> 'd surface_outcome \<times> ('m, 'r) surface_world" where
  "surface_step sha header_ok env clk reg request w =
     (let req = clear_request_state request;
          path = normalize_request_path (uri_path (req_uri req))
      in case map_of (reg_well_known reg) path of
           Some (kind, entry) \<Rightarrow> (Respond (well_known_response header_ok kind entry), w)
         | None \<Rightarrow>
             if is_public_path reg path then begin_public_request sha req w
             else (case match_entry reg path of
               Some entry \<Rightarrow>
                 (case authenticate_headers env clk (w_authenticators w ! ir_authenticator entry) (req_headers req) of
                    (result, a) \<Rightarrow>
                      let w' = w\<lparr>w_authenticators := (w_authenticators w)[ir_authenticator entry := a]\<rparr>
                      in (case result of
                            Inr context \<Rightarrow> admit_request sha header_ok entry req context w'
                          | Inl err \<Rightarrow>
                              (Respond (auth_error_response header_ok (ir_realm entry) (ir_resource_metadata_url entry)
                                 (ir_scopes_supported entry) err), w')))
             | None \<Rightarrow>
                 if reg_unmatched_route_policy reg = UnmatchedDeny
                 then (Respond \<lparr>reply_status = 404, reply_headers = [], reply_body = EmptyBody, reply_decision = None\<rparr>, w)
                 else begin_public_request sha req w))"

text \<open>The service: the inner one runs while the guard is held.\<close>

definition surface_call ::
  "(rstr \<Rightarrow> rstr) \<Rightarrow> (rstr \<Rightarrow> bool) \<Rightarrow> ('m, 'k, 'r) auth_env \<Rightarrow> auth_clock \<Rightarrow> issuer_registry
     \<Rightarrow> ('d http_request \<Rightarrow> ('m, 'r) surface_world \<Rightarrow> ('e, 'd http_reply) result \<times> ('m, 'r) surface_world)
     \<Rightarrow> 'd http_request \<Rightarrow> ('m, 'r) surface_world \<Rightarrow> ('e, 'd http_reply) result \<times> ('m, 'r) surface_world" where
  "surface_call sha header_ok env clk reg inner_service req w =
     (case surface_step sha header_ok env clk reg req w of
        (Respond r, w') \<Rightarrow> (Inr r, w')
      | (Forward req' n, w') \<Rightarrow>
          (case inner_service req' w' of (result, w'') \<Rightarrow> (result, guard_drop n w'')))"

section \<open>What reaches the inner service\<close>

lemma authenticate_headers_sound:
  assumes "authenticate_headers env clk a headers = (Inr v, a')"
  shows "(\<exists>token. bearer_token headers (strict_oauth (auth_cfg a)) = Some token
           \<and> context_sound (auth_cfg a) BearerOnly token (verified_context v))
    \<and> is_issued_by v a \<and> request_marker v = None"
proof -
  obtain token ctx where t: "bearer_token headers (strict_oauth (auth_cfg a)) = Some token"
    and c: "authenticate_token_with_binding env clk a token BearerOnly = (Inr ctx, a')"
    and v: "v = issue_verified_context a' ctx"
    using assms by (auto simp: authenticate_headers_def authenticate_token_def split: option.splits prod.splits sum.splits)
  obtain jwt a1 claims a2 where s: "token_claims env clk a token = (Inr jwt, a1)"
    "enriched_claims env clk a1 token jwt = (Inr claims, a2)"
    "context_from_claims env clk a2 token BearerOnly claims = (Inr ctx, a')"
    using authenticate_steps [OF c] .
  note frame = token_claims_frame [OF s(1)] enriched_claims_frame [OF s(2)]
  note sound = context_from_claims_sound [OF s(3)]
  have "check_replay env clk a2 claims BearerOnly = (Inr (), a')" using sound by blast
  then have "provenance_marker a' = provenance_marker a" using check_replay_frame frame by metis
  moreover have "context_sound (auth_cfg a) BearerOnly token ctx" using sound frame by simp
  ultimately show ?thesis
    using t by (simp add: v is_issued_by_def issue_verified_context_def from_authenticator_def)
qed

lemma context_from_claims_marker:
  "provenance_marker (snd (context_from_claims env clk a token b claims)) = provenance_marker a"
  by (auto simp: context_from_claims_def Let_def dest: check_replay_frame split: sum.splits option.splits prod.splits)

lemma authenticate_marker:
  "provenance_marker (snd (authenticate_token_with_binding env clk a token b)) = provenance_marker a"
  by (auto simp: authenticate_token_with_binding_def context_from_claims_marker
      dest!: token_claims_frame enriched_claims_frame split: prod.splits sum.splits)

lemma authenticate_headers_marker:
  "provenance_marker (snd (authenticate_headers env clk a headers)) = provenance_marker a"
  using authenticate_marker [of env clk a _ BearerOnly]
  by (auto simp: authenticate_headers_def authenticate_token_def split: option.splits prod.splits sum.splits)
    (metis snd_conv)+

text \<open>A forwarded request: unchanged but for the extensions, which are those the surface issued.\<close>

definition issued_request :: "(rstr \<Rightarrow> rstr) \<Rightarrow> nat \<Rightarrow> 'd http_request \<Rightarrow> bool" where
  "issued_request sha n req \<longleftrightarrow>
     (\<exists>b. ext_binding req = Some b \<and> binding_matches sha b req \<and> bd_lifecycle b = n \<and> bd_request_marker b = n
        \<and> ext_surface req = bd_surface_context b
        \<and> (case bd_surface_context b of
             None \<Rightarrow> ext_auth req = None \<and> ext_verified req = None
           | Some _ \<Rightarrow> \<exists>v. ext_verified req = Some v \<and> request_marker v = Some n \<and> ext_auth req = Some (verified_context v)))"

lemma begin_public_step:
  assumes "begin_public_request sha (clear_request_state req) w = (out, w')"
  shows "\<exists>req'. out = Forward req' (length (w_lifecycles w)) \<and> issued_request sha (length (w_lifecycles w)) req'
    \<and> w_lifecycles w' = w_lifecycles w @ [RequestActive] \<and> w_authenticators w' = w_authenticators w
    \<and> ext_auth req' = None \<and> ext_verified req' = None \<and> ext_surface req' = None
    \<and> req_method req' = req_method req \<and> req_uri req' = req_uri req \<and> req_headers req' = req_headers req"
  using assms
  by (auto simp: begin_public_request_def binding_begin_def clear_request_state_def Let_def issued_request_def
      binding_matches_def)

definition client_allowed :: "issuer_runtime \<Rightarrow> auth_context \<Rightarrow> bool" where
  "client_allowed entry ctx \<longleftrightarrow>
     ir_allowed_client_ids entry = []
     \<or> (\<exists>client. ctx_azp ctx = Some client \<and> client \<noteq> [] \<and> client \<in> set (ir_allowed_client_ids entry))"

lemma admit_request_step:
  assumes "admit_request sha header_ok entry (clear_request_state req) v w = (Forward req' n, w')"
  shows "n = length (w_lifecycles w) \<and> issued_request sha n req' \<and> client_allowed entry (verified_context v)
    \<and> w_lifecycles w' = w_lifecycles w @ [RequestActive] \<and> w_authenticators w' = w_authenticators w
    \<and> ext_auth req' = Some (verified_context v) \<and> ext_verified req' = Some (bind_to_request v n)
    \<and> ext_surface req' = Some \<lparr>sc_resource_path = ir_resource_path entry, sc_resource_url = ir_resource_url entry,
                                sc_issuer = ir_issuer entry\<rparr>
    \<and> req_method req' = req_method req \<and> req_uri req' = req_uri req \<and> req_headers req' = req_headers req"
  using assms
  by (auto simp: admit_request_def binding_begin_def clear_request_state_def Let_def issued_request_def
      binding_matches_def bind_to_request_def client_allowed_def split: if_splits option.splits)

lemma admit_request_refused:
  "admit_request sha header_ok entry req v w = (Respond r, w') \<Longrightarrow> w' = w"
  by (auto simp: admit_request_def Let_def split: if_splits prod.splits)

lemma clear_request_simps [simp]:
  "req_headers (clear_request_state req) = req_headers req" "req_uri (clear_request_state req) = req_uri req"
  "req_method (clear_request_state req) = req_method req"
  by (simp_all add: clear_request_state_def)

lemma surface_step_Respond:
  assumes "surface_step sha header_ok env clk reg req w = (Respond r, w')"
  shows "w_lifecycles w' = w_lifecycles w"
  using assms begin_public_step [of sha req w "Respond r" w']
  by (auto simp: surface_step_def Let_def dest!: admit_request_refused
      split: option.splits prod.splits if_splits sum.splits)

lemma surface_step_Forward:
  assumes "surface_step sha header_ok env clk reg req w = (Forward req' n, w')"
  shows "n = length (w_lifecycles w)" and "issued_request sha n req'"
    and "w_lifecycles w' = w_lifecycles w @ [RequestActive]"
    and "req_method req' = req_method req" and "req_uri req' = req_uri req" and "req_headers req' = req_headers req"
  using assms begin_public_step [of sha req w "Forward req' n" w']
  by (auto simp: surface_step_def Let_def dest!: admit_request_step
      split: option.splits prod.splits if_splits sum.splits)

section \<open>The digest input is unambiguous\<close>

definition header_sizes_ok :: "header_map \<Rightarrow> bool" where
  "header_sizes_ok headers \<longleftrightarrow>
     length (get_all headers ''authorization'') < 2 ^ 64
     \<and> (\<forall>v \<in> set (get_all headers ''authorization''). length v < 2 ^ 64)"

lemma digits_determine:
  fixes n m :: nat
  shows "(\<forall>i < k. n div 256 ^ i mod 256 = m div 256 ^ i mod 256) \<Longrightarrow> n mod 256 ^ k = m mod 256 ^ k"
proof (induction k)
  case (Suc k)
  have "x mod 256 ^ Suc k = 256 ^ k * (x div 256 ^ k mod 256) + x mod 256 ^ k" for x :: nat
    using mod_mult2_eq [of x "256 ^ k" 256] by (simp add: mult.commute)
  then show ?case using Suc by simp
qed simp

lemma length_u64_be_bytes [simp]: "length (u64_be_bytes n) = 8"
  by (simp add: u64_be_bytes_def)

lemma u64_be_bytes_inj:
  assumes "u64_be_bytes n = u64_be_bytes m" and "n < 2 ^ 64" and "m < 2 ^ 64"
  shows "n = m"
proof -
  have byte_eq: "x mod 256 = y mod 256" if "char_of x = char_of y" for x y :: nat
    using arg_cong [OF that, of "of_char :: char \<Rightarrow> nat"] by simp
  have "\<forall>i \<in> set [7, 6, 5, 4, 3, 2, 1, 0]. char_of (n div 256 ^ i mod 256) = (char_of (m div 256 ^ i mod 256) :: char)"
    using assms(1) unfolding u64_be_bytes_def map_eq_conv .
  then have "\<forall>i \<in> set [7, 6, 5, 4, 3, 2, 1, 0]. n div 256 ^ i mod 256 = m div 256 ^ i mod 256"
    using byte_eq by fastforce
  moreover have "i \<in> set [7, 6, 5, 4, 3, 2, 1, 0]" if "i < 8" for i :: nat using that by auto
  ultimately have "n mod 256 ^ 8 = m mod 256 ^ 8" by (intro digits_determine) blast
  then show ?thesis using assms(2,3) by simp
qed

lemma encoded_values_inj:
  assumes "concat (map (\<lambda>v. u64_be_bytes (length v) @ v) vs) = concat (map (\<lambda>v. u64_be_bytes (length v) @ v) us)"
    and "length vs = length us" and "\<forall>v \<in> set vs. length v < 2 ^ 64" and "\<forall>v \<in> set us. length v < 2 ^ 64"
  shows "vs = us"
  using assms(2,1,3,4)
proof (induction rule: list_induct2)
  case (Cons v vs u us)
  then have e: "u64_be_bytes (length v) = u64_be_bytes (length u)" by simp
  then have "length v = length u" using u64_be_bytes_inj Cons.prems by simp
  then show ?case using Cons by simp
qed simp

lemma authorization_input_inj:
  assumes "authorization_input h1 = authorization_input h2" and "header_sizes_ok h1" and "header_sizes_ok h2"
  shows "get_all h1 ''authorization'' = get_all h2 ''authorization''"
proof -
  have "length (get_all h1 ''authorization'') = length (get_all h2 ''authorization'')"
    using assms u64_be_bytes_inj by (simp add: authorization_input_def header_sizes_ok_def Let_def)
  then show ?thesis
    using assms encoded_values_inj by (simp add: authorization_input_def header_sizes_ok_def Let_def)
qed

section \<open>Witnesses over interleaved requests\<close>

text \<open>
  Requests arrive, witnesses are consumed and guards are dropped in any order.  Code outside the crate can
  clone and mix the extensions of the requests it was given, but it cannot make a binding, and it cannot bind
  a context to a marker; a context it authenticates itself carries no marker.
\<close>

datatype 'd surface_event = Arrive auth_clock "'d http_request" | Consume "'d http_request" nat | Finish nat

datatype 'd witness_event = Consumed nat "'d http_request" verified_surface_request | Finished nat

record ('m, 'r, 'd) surface_run =
  sr_world :: "('m, 'r) surface_world"
  sr_issued :: "'d http_request list"
  sr_history :: "'d witness_event list"

definition unforged :: "'d http_request list \<Rightarrow> 'd http_request \<Rightarrow> bool" where
  "unforged issued req \<longleftrightarrow>
     (ext_binding req \<noteq> None \<longrightarrow> ext_binding req \<in> ext_binding ` set issued)
     \<and> (case ext_verified req of None \<Rightarrow> True
        | Some v \<Rightarrow> request_marker v = None \<or> ext_verified req \<in> ext_verified ` set issued)"

fun surface_event_step ::
  "(rstr \<Rightarrow> rstr) \<Rightarrow> (rstr \<Rightarrow> bool) \<Rightarrow> ('m, 'k, 'r) auth_env \<Rightarrow> issuer_registry \<Rightarrow> 'd surface_event
     \<Rightarrow> ('m, 'r, 'd) surface_run \<Rightarrow> ('m, 'r, 'd) surface_run" where
  "surface_event_step sha header_ok env reg (Arrive clk req) s =
     (case surface_step sha header_ok env clk reg req (sr_world s) of
        (Respond _, w) \<Rightarrow> s\<lparr>sr_world := w\<rparr>
      | (Forward req' _, w) \<Rightarrow> s\<lparr>sr_world := w, sr_issued := sr_issued s @ [req']\<rparr>)"
| "surface_event_step sha header_ok env reg (Consume req i) s =
     (if \<not> unforged (sr_issued s) req then s
      else case consume_verified_request sha req (w_authenticators (sr_world s) ! i) (sr_world s) of
             (None, w) \<Rightarrow> s\<lparr>sr_world := w\<rparr>
           | (Some v, w) \<Rightarrow>
               s\<lparr>sr_world := w, sr_history := Consumed (bd_lifecycle (the (ext_binding req))) req v # sr_history s\<rparr>)"
| "surface_event_step sha header_ok env reg (Finish n) s =
     (if length (sr_issued s) \<le> n then s
      else s\<lparr>sr_world := guard_drop n (sr_world s), sr_history := Finished n # sr_history s\<rparr>)"

text \<open>The newest event is first: a witness is consumed at most once, and not after its guard was dropped.\<close>

fun witness_order :: "'d witness_event list \<Rightarrow> bool" where
  "witness_order [] = True"
| "witness_order (Consumed n req v # older) =
     ((\<forall>req v. Consumed n req v \<notin> set older) \<and> Finished n \<notin> set older \<and> witness_order older)"
| "witness_order (Finished n # older) = witness_order older"

definition consumed_as_issued :: "(rstr \<Rightarrow> rstr) \<Rightarrow> 'd http_request list \<Rightarrow> 'd witness_event \<Rightarrow> bool" where
  "consumed_as_issued sha issued e \<longleftrightarrow>
     (case e of
        Finished n \<Rightarrow> n < length issued
      | Consumed n req v \<Rightarrow>
          n < length issued \<and> req_method req = req_method (issued ! n) \<and> req_uri req = req_uri (issued ! n)
          \<and> authorization_digest sha (req_headers req) = authorization_digest sha (req_headers (issued ! n))
          \<and> vr_auth v = ext_auth (issued ! n) \<and> vr_surface v = ext_surface (issued ! n))"

definition witness_inv :: "(rstr \<Rightarrow> rstr) \<Rightarrow> ('m, 'r, 'd) surface_run \<Rightarrow> bool" where
  "witness_inv sha s \<longleftrightarrow>
     length (w_lifecycles (sr_world s)) = length (sr_issued s)
     \<and> (\<forall>n < length (sr_issued s). issued_request sha n (sr_issued s ! n))
     \<and> (\<forall>e \<in> set (sr_history s). consumed_as_issued sha (sr_issued s) e)
     \<and> (\<forall>n < length (sr_issued s).
          (\<exists>req v. Consumed n req v \<in> set (sr_history s)) \<or> Finished n \<in> set (sr_history s) \<longrightarrow>
          w_lifecycles (sr_world s) ! n \<noteq> RequestActive)
     \<and> witness_order (sr_history s)"

lemma consume_Some:
  assumes "consume_verified_request sha req a w = (Some v, w')"
  obtains b where "ext_binding req = Some b" "binding_matches sha b req" "bd_lifecycle b < length (w_lifecycles w)"
    "w_lifecycles w ! bd_lifecycle b = RequestActive"
    "w' = w\<lparr>w_lifecycles := (w_lifecycles w)[bd_lifecycle b := RequestConsumed]\<rparr>"
    "vr_surface v = bd_surface_context b"
    "case bd_surface_context b of None \<Rightarrow> vr_auth v = None
     | Some _ \<Rightarrow> \<exists>c. ext_verified req = Some c \<and> is_issued_by c a \<and> request_marker c = Some (bd_request_marker b)
          \<and> vr_auth v = Some (verified_context c)"
  using assms
  by (auto simp: consume_verified_request_def binding_consume_def Let_def is_bound_to_request_def
      split: option.splits if_splits)

lemma consume_None:
  "consume_verified_request sha req a w = (None, w') \<Longrightarrow> w' = w"
  by (auto simp: consume_verified_request_def binding_consume_def Let_def split: option.splits if_splits)

lemma issued_bindings:
  assumes "\<forall>n < length issued. issued_request sha n (issued ! n)" and "unforged issued req"
    and "ext_binding req = Some b"
  shows "bd_lifecycle b < length issued \<and> ext_binding (issued ! bd_lifecycle b) = Some b"
proof -
  obtain r where "r \<in> set issued" "ext_binding r = Some b"
    using assms(2,3) by (force simp: unforged_def)
  then obtain m where m: "m < length issued" "ext_binding (issued ! m) = Some b" by (metis in_set_conv_nth)
  then have "bd_lifecycle b = m" using assms(1) by (auto simp: issued_request_def)
  then show ?thesis using m by simp
qed

lemma issued_contexts:
  assumes "\<forall>n < length issued. issued_request sha n (issued ! n)" and "unforged issued req"
    and "ext_verified req = Some c" and "request_marker c = Some n"
  shows "n < length issued \<and> ext_verified (issued ! n) = Some c"
proof -
  obtain r where "r \<in> set issued" "ext_verified r = Some c"
    using assms(2,3,4) by (force simp: unforged_def)
  then obtain m where m: "m < length issued" "ext_verified (issued ! m) = Some c" by (metis in_set_conv_nth)
  then have "request_marker c = Some m" using assms(1) by (force simp: issued_request_def split: option.splits)
  then show ?thesis using m assms(4) by simp
qed

lemma consumption_as_issued:
  assumes "\<forall>n < length issued. issued_request sha n (issued ! n)" and "unforged issued req"
    and "consume_verified_request sha req a w = (Some v, w')"
  shows "consumed_as_issued sha issued (Consumed (bd_lifecycle (the (ext_binding req))) req v)"
proof -
  obtain b where b: "ext_binding req = Some b" "binding_matches sha b req" "vr_surface v = bd_surface_context b"
    and c: "case bd_surface_context b of None \<Rightarrow> vr_auth v = None
     | Some _ \<Rightarrow> \<exists>c. ext_verified req = Some c \<and> is_issued_by c a \<and> request_marker c = Some (bd_request_marker b)
          \<and> vr_auth v = Some (verified_context c)"
    using consume_Some [OF assms(3)] by blast
  let ?n = "bd_lifecycle b" and ?r = "issued ! bd_lifecycle b"
  have n: "?n < length issued" "ext_binding ?r = Some b" using issued_bindings [OF assms(1,2) b(1)] by auto
  then have r: "binding_matches sha b ?r" "bd_request_marker b = ?n" "ext_surface ?r = bd_surface_context b"
    and x: "case bd_surface_context b of
             None \<Rightarrow> ext_auth ?r = None \<and> ext_verified ?r = None
           | Some _ \<Rightarrow> \<exists>v. ext_verified ?r = Some v \<and> request_marker v = Some ?n \<and> ext_auth ?r = Some (verified_context v)"
    using assms(1) by (auto simp: issued_request_def)
  have "vr_auth v = ext_auth ?r"
  proof (cases "bd_surface_context b")
    case None
    then show ?thesis using c x by simp
  next
    case (Some sc)
    then obtain ctx where "ext_verified req = Some ctx" "request_marker ctx = Some ?n"
      "vr_auth v = Some (verified_context ctx)" using c r(2) by auto
    then show ?thesis using issued_contexts [OF assms(1,2)] x Some by force
  qed
  then show ?thesis using b n r by (simp add: consumed_as_issued_def binding_matches_def)
qed

lemma consumed_as_issued_append:
  "consumed_as_issued sha issued e \<Longrightarrow> consumed_as_issued sha (issued @ [r]) e"
  by (auto simp: consumed_as_issued_def nth_append split: witness_event.splits)

lemma consumed_as_issued_Finished [simp]: "consumed_as_issued sha issued (Finished n) \<longleftrightarrow> n < length issued"
  by (simp add: consumed_as_issued_def)

lemma consumed_as_issued_bound: "consumed_as_issued sha issued (Consumed n req v) \<Longrightarrow> n < length issued"
  by (simp add: consumed_as_issued_def)

lemma witness_inv_issue:
  assumes inv: "witness_inv sha s" and l: "w_lifecycles w = w_lifecycles (sr_world s) @ [RequestActive]"
    and r: "issued_request sha (length (sr_issued s)) r"
  shows "witness_inv sha (s\<lparr>sr_world := w, sr_issued := sr_issued s @ [r]\<rparr>)"
proof -
  let ?len = "length (sr_issued s)"
  have old: "length (w_lifecycles (sr_world s)) = ?len" "\<forall>e \<in> set (sr_history s). consumed_as_issued sha (sr_issued s) e"
    using inv by (simp_all add: witness_inv_def)
  have fresh: "Consumed ?len req v \<notin> set (sr_history s)" "Finished ?len \<notin> set (sr_history s)" for req v
    using old(2) consumed_as_issued_bound consumed_as_issued_Finished by blast+
  show ?thesis
    using inv l r old fresh by (simp add: witness_inv_def nth_append less_Suc_eq consumed_as_issued_append all_conj_distrib)
qed

lemma witness_inv_arrive:
  assumes "witness_inv sha s"
  shows "witness_inv sha (surface_event_step sha header_ok env reg (Arrive clk req) s)"
proof (cases "surface_step sha header_ok env clk reg req (sr_world s)")
  case (Pair out w)
  show ?thesis
  proof (cases out)
    case (Respond r)
    then show ?thesis using assms Pair surface_step_Respond [OF Pair [unfolded Respond]] by (simp add: witness_inv_def)
  next
    case (Forward req' n)
    note f = surface_step_Forward [OF Pair [unfolded Forward]]
    have "n = length (sr_issued s)" using f(1) assms by (simp add: witness_inv_def)
    then show ?thesis using witness_inv_issue [OF assms f(3)] f(2) Pair Forward by simp
  qed
qed

lemma witness_inv_consumed:
  assumes inv: "witness_inv sha s" and n: "n < length (sr_issued s)" "w_lifecycles (sr_world s) ! n = RequestActive"
    and c: "consumed_as_issued sha (sr_issued s) (Consumed n req v)"
    and w: "w = (sr_world s)\<lparr>w_lifecycles := (w_lifecycles (sr_world s))[n := RequestConsumed]\<rparr>"
  shows "witness_inv sha (s\<lparr>sr_world := w, sr_history := Consumed n req v # sr_history s\<rparr>)"
proof -
  have fresh: "Consumed n req v \<notin> set (sr_history s)" "Finished n \<notin> set (sr_history s)" for req v
    using inv n unfolding witness_inv_def by blast+
  have ended: "\<forall>m < length (sr_issued s). (\<exists>req v. Consumed m req v \<in> set (sr_history s)) \<or> Finished m \<in> set (sr_history s) \<longrightarrow>
      w_lifecycles (sr_world s) ! m \<noteq> RequestActive" and len: "length (w_lifecycles (sr_world s)) = length (sr_issued s)"
    using inv unfolding witness_inv_def by blast+
  have "\<forall>m < length (sr_issued s). (\<exists>req' v'. Consumed m req' v' \<in> set (Consumed n req v # sr_history s))
      \<or> Finished m \<in> set (Consumed n req v # sr_history s) \<longrightarrow> w_lifecycles w ! m \<noteq> RequestActive"
    using ended len n(1) by (auto simp: w nth_list_update)
  then show ?thesis using inv c fresh unfolding witness_inv_def by (simp add: w)
qed

lemma witness_inv_consume:
  assumes "witness_inv sha s"
  shows "witness_inv sha (surface_event_step sha header_ok env reg (Consume req i) s)"
proof (cases "unforged (sr_issued s) req")
  case u: True
  let ?a = "w_authenticators (sr_world s) ! i"
  obtain res w where c: "consume_verified_request sha req ?a (sr_world s) = (res, w)" by (rule prod.exhaust)
  show ?thesis
  proof (cases res)
    case None
    then have "w = sr_world s" using consume_None c by blast
    then show ?thesis using assms c u None by simp
  next
    case (Some v)
    obtain b where b: "ext_binding req = Some b" "bd_lifecycle b < length (w_lifecycles (sr_world s))"
      "w_lifecycles (sr_world s) ! bd_lifecycle b = RequestActive"
      "w = (sr_world s)\<lparr>w_lifecycles := (w_lifecycles (sr_world s))[bd_lifecycle b := RequestConsumed]\<rparr>"
      using consume_Some [OF c [unfolded Some]] by blast
    have "consumed_as_issued sha (sr_issued s) (Consumed (bd_lifecycle b) req v)"
      using consumption_as_issued [OF _ u c [unfolded Some]] assms b(1) by (simp add: witness_inv_def)
    note step = witness_inv_consumed [OF assms _ b(3) this b(4)]
    have "bd_lifecycle b < length (sr_issued s)" using b(2) assms by (simp add: witness_inv_def)
    then show ?thesis using step c Some u b(1) by simp
  qed
qed (use assms in simp)

lemma witness_inv_finish:
  assumes "witness_inv sha s"
  shows "witness_inv sha (surface_event_step sha header_ok env reg (Finish n) s)"
  using assms by (auto simp: witness_inv_def guard_drop_def nth_list_update)

definition surface_start :: "('m, 'r, 'd) surface_run \<Rightarrow> bool" where
  "surface_start s \<longleftrightarrow> w_lifecycles (sr_world s) = [] \<and> sr_issued s = [] \<and> sr_history s = []"

lemma witness_start: "surface_start s \<Longrightarrow> witness_inv sha s"
  by (simp add: surface_start_def witness_inv_def)

lemma witness_inv_step: "witness_inv sha s \<Longrightarrow> witness_inv sha (surface_event_step sha header_ok env reg e s)"
  by (cases e) (blast intro: witness_inv_arrive witness_inv_consume witness_inv_finish)+

interpretation witness_run: invariant_machine surface_start "surface_event_step sha header_ok env reg" "witness_inv sha"
  for sha header_ok env reg
  by unfold_locales (auto simp: witness_start intro: witness_inv_step)

text \<open>The requests whose headers a run has hashed.\<close>

definition run_requests :: "('m, 'r, 'd) surface_run \<Rightarrow> 'd http_request list" where
  "run_requests s =
     sr_issued s @ concat (map (\<lambda>e. case e of Consumed _ r _ \<Rightarrow> [r] | Finished _ \<Rightarrow> []) (sr_history s))"

section \<open>A fresh witness is accepted\<close>

lemma surface_step_authenticated:
  assumes "surface_step sha header_ok env clk reg req w = (Forward req' n, w')" and "ext_surface req' = Some sc"
  obtains e v a where "map_of (reg_well_known reg) (normalize_request_path (uri_path (req_uri req))) = None"
    "\<not> is_public_path reg (normalize_request_path (uri_path (req_uri req)))"
    "match_entry reg (normalize_request_path (uri_path (req_uri req))) = Some e"
    "authenticate_headers env clk (w_authenticators w ! ir_authenticator e) (req_headers req) = (Inr v, a)"
    "client_allowed e (verified_context v)" "ext_auth req' = Some (verified_context v)"
    "ext_verified req' = Some (bind_to_request v n)"
    "sc = \<lparr>sc_resource_path = ir_resource_path e, sc_resource_url = ir_resource_url e, sc_issuer = ir_issuer e\<rparr>"
    "w_authenticators w' = (w_authenticators w)[ir_authenticator e := a]"
  using assms begin_public_step [of sha req w "Forward req' n" w']
  by (auto simp: surface_step_def Let_def dest!: admit_request_step
      split: option.splits prod.splits if_splits sum.splits)

lemma surface_step_public:
  assumes "surface_step sha header_ok env clk reg req w = (Forward req' n, w')" and "ext_surface req' = None"
  shows "ext_auth req' = None \<and> ext_verified req' = None
    \<and> map_of (reg_well_known reg) (normalize_request_path (uri_path (req_uri req))) = None
    \<and> (is_public_path reg (normalize_request_path (uri_path (req_uri req)))
       \<or> reg_unmatched_route_policy reg \<noteq> UnmatchedDeny
         \<and> match_entry reg (normalize_request_path (uri_path (req_uri req))) = None)"
  using assms begin_public_step [of sha req w "Forward req' n" w']
  by (auto simp: surface_step_def Let_def dest!: admit_request_step
      split: option.splits prod.splits if_splits sum.splits)

lemma fresh_witness_accepted:
  assumes step: "surface_step sha header_ok env clk reg req w = (Forward req' n, w')"
    and issuer: "\<And>e. match_entry reg (normalize_request_path (uri_path (req_uri req))) = Some e \<Longrightarrow>
      provenance_marker authn = provenance_marker (w_authenticators w ! ir_authenticator e)"
    and same: "ext_binding r = ext_binding req'" "ext_verified r = ext_verified req'" "ext_auth r = ext_auth req'"
      "ext_surface r = ext_surface req'" "req_method r = req_method req'" "req_uri r = req_uri req'"
      "req_headers r = req_headers req'"
  shows "consume_verified_request sha r authn w' =
    (Some \<lparr>vr_auth = ext_auth req', vr_surface = ext_surface req'\<rparr>,
     w'\<lparr>w_lifecycles := w_lifecycles w @ [RequestConsumed]\<rparr>)"
proof -
  note f = surface_step_Forward [OF step]
  obtain b where b: "ext_binding req' = Some b" "binding_matches sha b req'" "bd_lifecycle b = n" "bd_request_marker b = n"
    "ext_surface req' = bd_surface_context b" using f(2) by (auto simp: issued_request_def)
  have m: "binding_matches sha b r" using b(2) same by (simp add: binding_matches_def)
  have c: "binding_consume b w' = (True, w'\<lparr>w_lifecycles := w_lifecycles w @ [RequestConsumed]\<rparr>)"
    using f(1,3) b(3) by (simp add: binding_consume_def)
  show ?thesis
  proof (cases "ext_surface req'")
    case None
    then show ?thesis using surface_step_public [OF step None] b m c same by (simp add: consume_verified_request_def)
  next
    case (Some sc)
    from step Some obtain e v a where e: "match_entry reg (normalize_request_path (uri_path (req_uri req))) = Some e"
      "authenticate_headers env clk (w_authenticators w ! ir_authenticator e) (req_headers req) = (Inr v, a)"
      "ext_auth req' = Some (verified_context v)" "ext_verified req' = Some (bind_to_request v n)"
      by (rule surface_step_authenticated)
    have "is_issued_by (bind_to_request v n) authn"
      using authenticate_headers_sound [OF e(2)] issuer [OF e(1)] by (simp add: is_issued_by_def bind_to_request_def)
    moreover have "is_bound_to_request (bind_to_request v n) n" "verified_context (bind_to_request v n) = verified_context v"
      by (simp_all add: is_bound_to_request_def bind_to_request_def)
    moreover have "bd_surface_context b = Some sc" using b(5) Some by simp
    ultimately show ?thesis using b m c same e Some by (simp add: consume_verified_request_def)
  qed
qed

section \<open>Properties\<close>


text \<open>Values for the witnesses.\<close>

definition demo_http_request :: "rstr \<Rightarrow> 'd http_request" where
  "demo_http_request path =
     \<lparr>req_method = ''POST'', req_uri = \<lparr>uri_path = path, uri_rest = []\<rparr>,
      req_headers = [(''authorization'', ''Bearer t1'')], ext_auth = None, ext_verified = None, ext_surface = None,
      ext_binding = None, ext_decision = None\<rparr>"

definition demo_world :: "(unit, unit) surface_world" where
  "demo_world = \<lparr>w_authenticators = [demo_authenticator], w_lifecycles = []\<rparr>"

definition demo_surface_step :: "rstr \<Rightarrow> unit surface_outcome \<times> (unit, unit) surface_world" where
  "demo_surface_step path =
     surface_step (\<lambda>x. x) (\<lambda>_. True) demo_env (demo_clock 10) demo_registry (demo_http_request path) demo_world"

definition demo_forwarded :: "rstr \<Rightarrow> unit http_request" where
  "demo_forwarded path = (case demo_surface_step path of (Forward r _, _) \<Rightarrow> r | (Respond _, _) \<Rightarrow> demo_http_request path)"

lemma demo_forwards:
  "\<exists>n w'. surface_step (\<lambda>x. x) (\<lambda>_. True) demo_env (demo_clock 10) demo_registry (demo_http_request ''/mcp/%2e/tools'') demo_world
     = (Forward (demo_forwarded ''/mcp/%2e/tools'') n, w')"
proof -
  have "case demo_surface_step ''/mcp/%2e/tools'' of (Forward _ _, _) \<Rightarrow> True | (Respond _, _) \<Rightarrow> False" by code_simp
  then show ?thesis
    unfolding demo_surface_step_def [symmetric] demo_forwarded_def by (auto split: prod.splits surface_outcome.splits)
qed


text \<open>
  The decision is made on the resolved path, but the inner service is given the raw one: a path that lies under
  a protected resource as it stands is forwarded without authentication when its dot segments lead out of it.
\<close>

lemma dot_segments_forwarded_raw:
  "ext_auth (demo_forwarded ''/mcp/%2e%2E/health'') = None \<and> ext_binding (demo_forwarded ''/mcp/%2e%2E/health'') \<noteq> None
   \<and> uri_path (req_uri (demo_forwarded ''/mcp/%2e%2E/health'')) = ''/mcp/%2e%2E/health''
   \<and> list_ex (\<lambda>e. path_matches_resource ''/mcp/%2e%2E/health'' (ir_resource_path e)) (reg_entries demo_registry)"
  by (intro conjI; code_simp)

text \<open>
  C4: a witness is used at most once and only as it was issued.  However arrivals, consumptions and the ends
  of requests interleave, and whichever extensions the code behind the surface mixes and replays, every
  successful consumption belongs to one forwarded request, not consumed before and still running; the
  presented request has its method, target and Authorization values, and the context and resource handed out are
  the ones the surface attached to it.  The hash is only assumed to have no collision among the inputs of the run.
\<close>

theorem witness_single_use:
  assumes "surface_start s0" and "s = fold (surface_event_step sha header_ok env reg) events s0"
    and "inj_on sha ((authorization_input \<circ> req_headers) ` set (run_requests s))"
    and "\<forall>r \<in> set (run_requests s). header_sizes_ok (req_headers r)"
  shows "witness_order (sr_history s)
    \<and> (\<forall>n r v. Consumed n r v \<in> set (sr_history s) \<longrightarrow>
         n < length (sr_issued s) \<and> req_method r = req_method (sr_issued s ! n) \<and> req_uri r = req_uri (sr_issued s ! n)
         \<and> get_all (req_headers r) ''authorization'' = get_all (req_headers (sr_issued s ! n)) ''authorization''
         \<and> vr_auth v = ext_auth (sr_issued s ! n) \<and> vr_surface v = ext_surface (sr_issued s ! n))"
proof -
  have inv: "witness_inv sha s" unfolding assms(2) by (rule witness_run.run_inv [OF assms(1)])
  have auth: "get_all (req_headers r) ''authorization'' = get_all (req_headers (sr_issued s ! n)) ''authorization''"
    if c: "Consumed n r v \<in> set (sr_history s)" "consumed_as_issued sha (sr_issued s) (Consumed n r v)" for n r v
  proof -
    have i: "sr_issued s ! n \<in> set (run_requests s)" "r \<in> set (run_requests s)"
      using c by (force simp: consumed_as_issued_def run_requests_def split: witness_event.splits)+
    have "sha (authorization_input (req_headers r)) = sha (authorization_input (req_headers (sr_issued s ! n)))"
      using c(2) by (simp add: consumed_as_issued_def authorization_digest_def)
    then have "authorization_input (req_headers r) = authorization_input (req_headers (sr_issued s ! n))"
      using inj_onD [OF assms(3), of "authorization_input (req_headers r)"] i by simp
    then show ?thesis using assms(4) i by (intro authorization_input_inj) blast+
  qed
  have "witness_order (sr_history s)" and h: "\<forall>e \<in> set (sr_history s). consumed_as_issued sha (sr_issued s) e"
    using inv by (simp_all add: witness_inv_def)
  then show ?thesis using auth by (fastforce simp: consumed_as_issued_def)
qed

definition demo_run :: "(unit, unit, unit) surface_run" where
  "demo_run =
     fold (surface_event_step (\<lambda>x. x) (\<lambda>_. True) demo_env demo_registry)
       [Arrive (demo_clock 10) (demo_http_request ''/mcp/x''), Arrive (demo_clock 10) (demo_http_request ''/health''),
        Consume (demo_forwarded ''/mcp/x'') 0, Consume (demo_forwarded ''/mcp/x'') 0, Finish 0, Finish 1]
       \<lparr>sr_world = demo_world, sr_issued = [], sr_history = []\<rparr>"

theorem witness_single_use_witness:
  "\<exists>r v. sr_history demo_run = [Finished 1, Finished 0, Consumed 0 r v]
     \<and> vr_auth v = ext_auth (sr_issued demo_run ! 0) \<and> ext_auth (sr_issued demo_run ! 0) = Some (demo_context ''t1'')"
proof -
  have kind_cases: "case_witness_event (\<lambda>n _ _. (True, n)) (Pair False) e = (k, m) \<Longrightarrow>
      (\<And>r v. k \<Longrightarrow> e = Consumed m r v \<Longrightarrow> P) \<Longrightarrow> (\<not> k \<Longrightarrow> e = Finished m \<Longrightarrow> P) \<Longrightarrow> P"
    for e :: "unit witness_event" and k m P by (cases e) auto
  have h: "map (case_witness_event (\<lambda>n _ _. (True, n)) (Pair False)) (sr_history demo_run) = [(False, 1), (False, 0), (True, 0)]"
    by code_simp
  then obtain r v where rv: "sr_history demo_run = [Finished 1, Finished 0, Consumed 0 r v]"
    by (auto simp: map_eq_Cons_conv elim!: kind_cases)
  have start: "surface_start \<lparr>sr_world = demo_world, sr_issued = ([] :: unit http_request list), sr_history = []\<rparr>"
    by (simp add: surface_start_def demo_world_def)
  have sizes: "\<forall>r \<in> set (run_requests demo_run). header_sizes_ok (req_headers r)" by code_simp
  have "ext_auth (sr_issued demo_run ! 0) = Some (demo_context ''t1'')" by code_simp
  moreover have "vr_auth v = ext_auth (sr_issued demo_run ! 0)"
    using witness_single_use [OF start demo_run_def _ sizes] rv by (simp add: inj_on_def)
  ultimately show ?thesis using rv by blast
qed

end
