(* ===== verification/Policy_Authority.thy ===== *)
theory Policy_Authority
  imports Policy_Decision
begin

text \<open>
  Policy authorities of \<open>mcp-toolkit-policy-runtime\<close>: the decision envelope with its provenance, the requirement
  that checks it, the closure-backed and the kernel-backed authority and the hello-server profiles
  (\<open>policy_authority.rs\<close>), and the route/scope boundary (\<open>route_scope.rs\<close>).  An authority is a function from
  requests to envelopes; the SPARK evaluators behind the foreign interface are parameters.
\<close>

section \<open>Envelopes and provenance\<close>

datatype policy_runtime_mode = Rust | SparkPrefer | SparkRequired

record policy_authority_decision =
  pd_allow :: bool
  pd_code :: "rstr option"
  pd_reason :: "rstr option"
  pd_decision_source :: rstr
  pd_runtime_mode :: policy_runtime_mode
  pd_policy_contract_version :: "rstr option"
  pd_required_scopes :: "rstr list option"

definition from_policy_decision ::
  "decision \<Rightarrow> rstr \<Rightarrow> policy_runtime_mode \<Rightarrow> rstr option \<Rightarrow> policy_authority_decision" where
  "from_policy_decision d source mode version =
     \<lparr>pd_allow = d_allow d, pd_code = d_code d, pd_reason = d_reason d, pd_decision_source = source,
      pd_runtime_mode = mode, pd_policy_contract_version = version, pd_required_scopes = d_required_scopes d\<rparr>"

record policy_provenance_requirement =
  expected_decision_source :: "rstr option"
  expected_decision_source_prefix :: "rstr option"
  allowed_runtime_modes :: "policy_runtime_mode list"
  expected_policy_contract_version :: "rstr option"

definition requirement_new :: policy_provenance_requirement where
  "requirement_new = \<lparr>expected_decision_source = None, expected_decision_source_prefix = None,
     allowed_runtime_modes = [], expected_policy_contract_version = None\<rparr>"

definition require_decision_source :: "rstr \<Rightarrow> policy_provenance_requirement \<Rightarrow> policy_provenance_requirement" where
  "require_decision_source source r = r\<lparr>expected_decision_source := Some source\<rparr>"

definition require_decision_source_prefix :: "rstr \<Rightarrow> policy_provenance_requirement \<Rightarrow> policy_provenance_requirement" where
  "require_decision_source_prefix p r = r\<lparr>expected_decision_source_prefix := Some p\<rparr>"

definition allow_runtime_mode ::
  "policy_runtime_mode \<Rightarrow> policy_provenance_requirement \<Rightarrow> policy_provenance_requirement" where
  "allow_runtime_mode mode r =
     (if mode \<in> set (allowed_runtime_modes r) then r
      else r\<lparr>allowed_runtime_modes := allowed_runtime_modes r @ [mode]\<rparr>)"

definition require_contract_version :: "rstr \<Rightarrow> policy_provenance_requirement \<Rightarrow> policy_provenance_requirement" where
  "require_contract_version version r = r\<lparr>expected_policy_contract_version := Some version\<rparr>"

datatype policy_provenance_error =
    DecisionSourceMismatch rstr rstr
  | DecisionSourcePrefixMismatch rstr rstr
  | RuntimeModeNotAllowed "policy_runtime_mode list" policy_runtime_mode
  | PolicyContractVersionMissing rstr
  | PolicyContractVersionMismatch rstr rstr

text \<open>\<open>Debug\<close> of a mode and of a list of modes.\<close>

fun mode_debug :: "policy_runtime_mode \<Rightarrow> rstr" where
  "mode_debug Rust = ''Rust''"
| "mode_debug SparkPrefer = ''SparkPrefer''"
| "mode_debug SparkRequired = ''SparkRequired''"

definition modes_debug :: "policy_runtime_mode list \<Rightarrow> rstr" where
  "modes_debug ms =
     ''['' @ (case ms of [] \<Rightarrow> [] | m # rest \<Rightarrow> mode_debug m @ concat (map (\<lambda>m. '', '' @ mode_debug m) rest)) @ '']''"

fun provenance_error_display :: "policy_provenance_error \<Rightarrow> rstr" where
  "provenance_error_display (DecisionSourceMismatch expected actual) =
     ''decision source mismatch: expected '' @ [CHR 0x27] @ expected @ [CHR 0x27] @ '', got '' @ [CHR 0x27] @ actual @ [CHR 0x27]"
| "provenance_error_display (DecisionSourcePrefixMismatch expected_prefix actual) =
     ''decision source prefix mismatch: expected prefix '' @ [CHR 0x27] @ expected_prefix @ [CHR 0x27] @ '', got ''
       @ [CHR 0x27] @ actual @ [CHR 0x27]"
| "provenance_error_display (RuntimeModeNotAllowed allowed actual) =
     ''runtime mode '' @ [CHR 0x27] @ mode_debug actual @ [CHR 0x27] @ '' is not in allowed set '' @ modes_debug allowed"
| "provenance_error_display (PolicyContractVersionMissing expected) =
     ''policy contract version missing: expected '' @ [CHR 0x27] @ expected @ [CHR 0x27]"
| "provenance_error_display (PolicyContractVersionMismatch expected actual) =
     ''policy contract version mismatch: expected '' @ [CHR 0x27] @ expected @ [CHR 0x27] @ '', got ''
       @ [CHR 0x27] @ actual @ [CHR 0x27]"

definition validate_provenance ::
  "policy_provenance_requirement \<Rightarrow> policy_authority_decision \<Rightarrow> (policy_provenance_error, unit) result" where
  "validate_provenance r d =
     (let source = pd_decision_source d;
          source_error = (case expected_decision_source r of
              Some expected \<Rightarrow> if source \<noteq> expected then Some (DecisionSourceMismatch expected source) else None
            | None \<Rightarrow> None);
          prefix_error = (case expected_decision_source_prefix r of
              Some p \<Rightarrow>
                if source \<noteq> p \<and> \<not> (starts_with source p \<and> starts_with (drop (length p) source) ''.'')
                then Some (DecisionSourcePrefixMismatch p source) else None
            | None \<Rightarrow> None);
          modes = allowed_runtime_modes r;
          mode_error = (if modes \<noteq> [] \<and> pd_runtime_mode d \<notin> set modes
                        then Some (RuntimeModeNotAllowed modes (pd_runtime_mode d)) else None);
          version_error = (case expected_policy_contract_version r of
              Some expected \<Rightarrow>
                (case pd_policy_contract_version d of
                   None \<Rightarrow> Some (PolicyContractVersionMissing expected)
                 | Some actual \<Rightarrow>
                     if actual \<noteq> expected then Some (PolicyContractVersionMismatch expected actual) else None)
            | None \<Rightarrow> None)
      in case source_error of Some e \<Rightarrow> Inl e
       | None \<Rightarrow> (case prefix_error of Some e \<Rightarrow> Inl e
       | None \<Rightarrow> (case mode_error of Some e \<Rightarrow> Inl e
       | None \<Rightarrow> (case version_error of Some e \<Rightarrow> Inl e
       | None \<Rightarrow> Inr ()))))"

section \<open>Authorities\<close>

record 'i closure_policy_authority =
  ca_decision_source :: rstr
  ca_runtime_mode :: policy_runtime_mode
  ca_policy_contract_version :: "rstr option"
  ca_evaluator :: "'i \<Rightarrow> decision"

definition closure_evaluate :: "'i closure_policy_authority \<Rightarrow> 'i \<Rightarrow> policy_authority_decision" where
  "closure_evaluate a request =
     from_policy_decision (ca_evaluator a request) (ca_decision_source a) (ca_runtime_mode a)
       (ca_policy_contract_version a)"

record 'i kernel_policy_authority =
  ka_decision_source :: rstr
  ka_runtime_mode :: policy_runtime_mode
  ka_policy_contract_version :: "rstr option"
  ka_rust_evaluator :: "'i \<Rightarrow> decision"
  ka_spark_evaluator :: "'i \<Rightarrow> (rstr, decision) result"

definition evaluate_rust :: "'i kernel_policy_authority \<Rightarrow> 'i \<Rightarrow> policy_authority_decision" where
  "evaluate_rust a request =
     from_policy_decision (ka_rust_evaluator a request) (ka_decision_source a @ ''.rust'') (ka_runtime_mode a)
       (ka_policy_contract_version a)"

definition evaluate_spark :: "'i kernel_policy_authority \<Rightarrow> 'i \<Rightarrow> (rstr, policy_authority_decision) result" where
  "evaluate_spark a request =
     (case ka_spark_evaluator a request of
        Inl e \<Rightarrow> Inl e
      | Inr d \<Rightarrow> Inr (from_policy_decision d (ka_decision_source a @ ''.spark'') (ka_runtime_mode a)
                        (ka_policy_contract_version a)))"

definition evaluate_spark_required_failure :: "'i kernel_policy_authority \<Rightarrow> policy_authority_decision" where
  "evaluate_spark_required_failure a =
     from_policy_decision (decision_deny SparkRuntimeUnavailable (Some ''spark_runtime_unavailable''))
       (ka_decision_source a @ ''.spark_unavailable'') (ka_runtime_mode a) (ka_policy_contract_version a)"

definition kernel_evaluate :: "'i kernel_policy_authority \<Rightarrow> 'i \<Rightarrow> policy_authority_decision" where
  "kernel_evaluate a request =
     (case ka_runtime_mode a of
        Rust \<Rightarrow> evaluate_rust a request
      | SparkPrefer \<Rightarrow> (case evaluate_spark a request of Inr d \<Rightarrow> d | Inl _ \<Rightarrow> evaluate_rust a request)
      | SparkRequired \<Rightarrow>
          (case evaluate_spark a request of Inr d \<Rightarrow> d | Inl _ \<Rightarrow> evaluate_spark_required_failure a))"

section \<open>Hello-server profiles\<close>

datatype hello_server_profile = Minimal | Secure | Regulated

record hello_policy_request =
  hello_route :: rstr
  hello_authenticated :: bool
  hello_required_scope :: "rstr option"
  hello_granted_scopes :: "rstr list"

definition evaluate_secure_hello_request :: "hello_policy_request \<Rightarrow> decision" where
  "evaluate_secure_hello_request r =
     (if \<not> hello_authenticated r then decision_deny MissingToken (Some ''missing_token'')
      else case hello_required_scope r of
             Some required \<Rightarrow>
               if required \<notin> set (hello_granted_scopes r)
               then decision_deny MissingScopes (Some ''required_scope_missing'') else decision_allow
           | None \<Rightarrow> decision_allow)"

definition evaluate_regulated_hello_request :: "hello_policy_request \<Rightarrow> decision" where
  "evaluate_regulated_hello_request r =
     (if hello_route r \<noteq> ''/mcp'' \<and> \<not> starts_with (hello_route r) ''/mcp/''
      then decision_deny InvalidPath (Some ''regulated_route_required'')
      else if hello_required_scope r = None then decision_deny MissingScopes (Some ''required_scope_unset'')
      else evaluate_secure_hello_request r)"

fun evaluate_hello_request :: "hello_server_profile \<Rightarrow> hello_policy_request \<Rightarrow> decision" where
  "evaluate_hello_request Minimal r = decision_allow"
| "evaluate_hello_request Secure r = evaluate_secure_hello_request r"
| "evaluate_hello_request Regulated r = evaluate_regulated_hello_request r"

definition hello_server_policy_authority :: "hello_server_profile \<Rightarrow> hello_policy_request closure_policy_authority" where
  "hello_server_policy_authority profile =
     \<lparr>ca_decision_source = ''mcp_toolkit_policy_runtime.hello_server'', ca_runtime_mode = Rust,
      ca_policy_contract_version = None, ca_evaluator = evaluate_hello_request profile\<rparr>"

section \<open>The route/scope boundary\<close>

record route_scope_config =
  rs_allowed_paths :: "rstr list"
  rs_allowed_methods :: "rstr list"
  rs_required_scopes :: "rstr list"
  rs_decision_source :: rstr
  rs_policy_contract_version :: rstr

record route_scope_request =
  rsq_method :: rstr
  rsq_path :: rstr
  rsq_authenticated :: bool
  rsq_granted_scopes :: "rstr list"

definition route_scope_normalize_path :: "rstr \<Rightarrow> rstr" where
  "route_scope_normalize_path path =
     (let path = trim path in
      if path = [] \<or> path = ''/'' then ''/'' else ''/'' @ trim_matches (CHR ''/'') path)"

definition push_unique :: "'a \<Rightarrow> 'a list \<Rightarrow> 'a list" where
  "push_unique v out = (if v \<in> set out then out else out @ [v])"

definition normalize_values :: "rstr list \<Rightarrow> bool \<Rightarrow> rstr list" where
  "normalize_values values uppercase =
     fold (\<lambda>v out. let v = trim v in
             if v = [] then out else push_unique (if uppercase then to_ascii_uppercase v else v) out) values []"

definition normalize_paths :: "rstr list \<Rightarrow> rstr list" where
  "normalize_paths values =
     fold (\<lambda>v out. let v = trim v in
             if v = [] then out else push_unique (route_scope_normalize_path v) out) values []"

definition route_scope_config_new :: "rstr list \<Rightarrow> rstr list \<Rightarrow> rstr list \<Rightarrow> route_scope_config" where
  "route_scope_config_new paths methods scopes =
     \<lparr>rs_allowed_paths = normalize_paths paths, rs_allowed_methods = normalize_values methods True,
      rs_required_scopes = normalize_values scopes False,
      rs_decision_source = ''mcp_toolkit_policy_runtime.route_scope'',
      rs_policy_contract_version = ''mcp-toolkit/route-scope/v1''\<rparr>"

definition with_decision_source :: "rstr \<Rightarrow> route_scope_config \<Rightarrow> route_scope_config" where
  "with_decision_source source c = (if trim source = [] then c else c\<lparr>rs_decision_source := trim source\<rparr>)"

definition with_contract_version :: "rstr \<Rightarrow> route_scope_config \<Rightarrow> route_scope_config" where
  "with_contract_version version c =
     (if trim version = [] then c else c\<lparr>rs_policy_contract_version := trim version\<rparr>)"

definition route_scope_request_new :: "rstr \<Rightarrow> rstr \<Rightarrow> bool \<Rightarrow> rstr list \<Rightarrow> route_scope_request" where
  "route_scope_request_new method path authenticated granted =
     \<lparr>rsq_method = to_ascii_uppercase (trim method), rsq_path = route_scope_normalize_path path,
      rsq_authenticated = authenticated, rsq_granted_scopes = normalize_values granted False\<rparr>"

definition evaluate_route_scope :: "route_scope_config \<Rightarrow> route_scope_request \<Rightarrow> decision" where
  "evaluate_route_scope c r =
     (if \<not> rsq_authenticated r then decision_deny MissingToken (Some ''missing_auth_context'')
      else if rsq_path r \<notin> set (rs_allowed_paths c) then decision_deny InvalidPath (Some ''route_not_allowed'')
      else if rsq_method r \<notin> set (rs_allowed_methods c) then decision_deny InvalidInput (Some ''method_not_allowed'')
      else if filter (\<lambda>scope. scope \<notin> set (rsq_granted_scopes r)) (rs_required_scopes c) \<noteq> []
      then with_required_scopes (decision_deny MissingScopes (Some ''required_scope_missing'')) (rs_required_scopes c)
      else with_required_scopes decision_allow (rs_required_scopes c))"

definition route_scope_policy_authority :: "route_scope_config \<Rightarrow> route_scope_request closure_policy_authority" where
  "route_scope_policy_authority c =
     \<lparr>ca_decision_source = rs_decision_source c, ca_runtime_mode = Rust,
      ca_policy_contract_version = Some (rs_policy_contract_version c), ca_evaluator = evaluate_route_scope c\<rparr>"

section \<open>Lemmas\<close>

lemma from_policy_decision_simps [simp]:
  "pd_allow (from_policy_decision d s m v) = d_allow d"
  "pd_decision_source (from_policy_decision d s m v) = s"
  "pd_runtime_mode (from_policy_decision d s m v) = m"
  "pd_policy_contract_version (from_policy_decision d s m v) = v"
  by (simp_all add: from_policy_decision_def)

lemma push_unique_set [simp]: "set (push_unique v out) = insert v (set out)"
  by (auto simp: push_unique_def)

lemma set_normalize_values:
  "set (normalize_values vs u) = {if u then to_ascii_uppercase (trim v) else trim v | v. v \<in> set vs \<and> trim v \<noteq> []}"
proof -
  have "set (fold (\<lambda>v out. let v = trim v in
             if v = [] then out else push_unique (if u then to_ascii_uppercase v else v) out) vs acc)
      = set acc \<union> {if u then to_ascii_uppercase (trim v) else trim v | v. v \<in> set vs \<and> trim v \<noteq> []}" for acc
    by (induction vs arbitrary: acc) (auto simp: Let_def)
  from this [of "[]"] show ?thesis by (simp add: normalize_values_def)
qed

lemma set_normalize_paths:
  "set (normalize_paths vs) = {route_scope_normalize_path (trim v) | v. v \<in> set vs \<and> trim v \<noteq> []}"
proof -
  have "set (fold (\<lambda>v out. let v = trim v in if v = [] then out else push_unique (route_scope_normalize_path v) out) vs acc)
      = set acc \<union> {route_scope_normalize_path (trim v) | v. v \<in> set vs \<and> trim v \<noteq> []}" for acc
    by (induction vs arbitrary: acc) (auto simp: Let_def)
  from this [of "[]"] show ?thesis by (simp add: normalize_paths_def)
qed

lemma validate_provenance_iff:
  "validate_provenance r d = Inr () \<longleftrightarrow>
     (\<forall>s. expected_decision_source r = Some s \<longrightarrow> pd_decision_source d = s)
     \<and> (\<forall>p. expected_decision_source_prefix r = Some p \<longrightarrow>
          pd_decision_source d = p \<or> (\<exists>t. pd_decision_source d = p @ ''.'' @ t))
     \<and> (allowed_runtime_modes r = [] \<or> pd_runtime_mode d \<in> set (allowed_runtime_modes r))
     \<and> (\<forall>v. expected_policy_contract_version r = Some v \<longrightarrow> pd_policy_contract_version d = Some v)"
proof -
  have child: "starts_with s p \<and> starts_with (drop (length p) s) ''.'' \<longleftrightarrow> (\<exists>t. s = p @ ''.'' @ t)" for s p
    by (auto simp: prefix_def)
  show ?thesis unfolding validate_provenance_def Let_def child by (auto split: option.splits)
qed

interpretation hello_gate: decision_gate "evaluate_hello_request profile" for profile
  by unfold_locales
    (cases profile; auto simp: evaluate_secure_hello_request_def evaluate_regulated_hello_request_def split: option.splits)

lemma route_scope_refusal_lists_scopes:
  "d_code (evaluate_route_scope c r) = Some (code_as_str MissingScopes) \<Longrightarrow>
     d_required_scopes (evaluate_route_scope c r) = Some (rs_required_scopes c)"
  by (auto simp: evaluate_route_scope_def decision_defs split: if_splits)

lemma kernel_evaluate_cases:
  obtains (rust) "kernel_evaluate a r = evaluate_rust a r"
      "ka_runtime_mode a = Rust \<or> ka_runtime_mode a = SparkPrefer \<and> isl (ka_spark_evaluator a r)"
    | (spark) d where "ka_spark_evaluator a r = Inr d" "ka_runtime_mode a \<noteq> Rust"
      "kernel_evaluate a r = from_policy_decision d (ka_decision_source a @ ''.spark'') (ka_runtime_mode a)
         (ka_policy_contract_version a)"
    | (refused) "kernel_evaluate a r = evaluate_spark_required_failure a" "ka_runtime_mode a = SparkRequired"
      "isl (ka_spark_evaluator a r)"
  by (cases "ka_runtime_mode a"; cases "ka_spark_evaluator a r") (auto simp: kernel_evaluate_def evaluate_spark_def)

lemma kernel_evaluate_source:
  "pd_decision_source (kernel_evaluate a r) = ka_decision_source a @ ''.spark'' \<longleftrightarrow>
     ka_runtime_mode a \<noteq> Rust \<and> \<not> isl (ka_spark_evaluator a r)"
  by (rule kernel_evaluate_cases [of a r]) (auto simp: evaluate_rust_def evaluate_spark_required_failure_def)

lemma kernel_evaluate_namespace: "\<exists>t. pd_decision_source (kernel_evaluate a r) = ka_decision_source a @ ''.'' @ t"
  by (rule kernel_evaluate_cases [of a r]) (auto simp: evaluate_rust_def evaluate_spark_required_failure_def)

lemma kernel_evaluate_mode: "pd_runtime_mode (kernel_evaluate a r) = ka_runtime_mode a"
  by (rule kernel_evaluate_cases [of a r]) (auto simp: evaluate_rust_def evaluate_spark_required_failure_def)

section \<open>Properties\<close>


definition demo_kernel_authority :: "bool kernel_policy_authority" where
  "demo_kernel_authority =
     \<lparr>ka_decision_source = ''demo'', ka_runtime_mode = SparkRequired, ka_policy_contract_version = None,
      ka_rust_evaluator = (\<lambda>_. decision_allow),
      ka_spark_evaluator = (\<lambda>up. if up then Inr decision_allow else Inl ''no library'')\<rparr>"


text \<open>
  The route/scope boundary admits exactly the requests its configuration names.  Whatever spelling the
  configuration and the request use, a request is allowed if and only if it is authenticated, its normalised path is that of
  a nonblank configured path, its method in upper case is that of a configured method, and every nonblank required
  scope is among the granted ones; an empty list of paths or methods admits nothing.
\<close>

lemma route_scope_iff:
  "d_allow (evaluate_route_scope (route_scope_config_new paths methods scopes)
      (route_scope_request_new method path authenticated granted)) \<longleftrightarrow>
   authenticated
   \<and> (\<exists>p \<in> set paths. trim p \<noteq> [] \<and> route_scope_normalize_path p = route_scope_normalize_path path)
   \<and> (\<exists>m \<in> set methods. trim m \<noteq> [] \<and> to_ascii_uppercase (trim m) = to_ascii_uppercase (trim method))
   \<and> trim ` {s \<in> set scopes. trim s \<noteq> []} \<subseteq> trim ` set granted"
proof -
  have missing: "filter (\<lambda>s. s \<notin> set xs) ys = [] \<longleftrightarrow> set ys \<subseteq> set xs" for xs ys :: "rstr list"
    by (auto simp: filter_empty_conv)
  have path: "route_scope_normalize_path (trim v) = route_scope_normalize_path v" for v
    by (simp add: route_scope_normalize_path_def)
  show ?thesis
    unfolding evaluate_route_scope_def missing
    by (auto simp: route_scope_config_new_def route_scope_request_new_def set_normalize_values set_normalize_paths path)
qed

end
