(* ===== verification/Http_Policy.thy ===== *)
theory Http_Policy
  imports Auth_Surface Policy_Authority
begin

text \<open>
  The HTTP policy gate, \<open>http_policy.rs\<close> (crate \<open>mcp-toolkit-policy-runtime\<close>): it consumes the witness of the auth
  surface, maps the sanitised context to the request type of a policy authority, and dispatches or refuses.  The
  authority, the mapper and the deny handler are arguments, as they are type parameters of the layer.  The last part
  composes the gate with the surface in front of it.
\<close>

section \<open>The context of a policy request\<close>

record policy_http_auth_context =
  pa_actor :: rstr
  pa_scopes :: "rstr list"
  pa_roles :: "rstr list"
  pa_azp :: "rstr option"
  pa_subject :: "rstr option"
  pa_claims :: json

definition policy_auth_of :: "auth_context \<Rightarrow> policy_http_auth_context" where
  "policy_auth_of c =
     \<lparr>pa_actor = ctx_actor c, pa_scopes = ctx_scopes c, pa_roles = ctx_roles c, pa_azp = ctx_azp c,
      pa_subject = ctx_subject c, pa_claims = ctx_claims c\<rparr>"

record policy_http_surface_context =
  ps_resource_path :: rstr
  ps_resource_url :: rstr
  ps_issuer :: rstr

definition policy_surface_of :: "auth_surface_context \<Rightarrow> policy_http_surface_context" where
  "policy_surface_of s =
     \<lparr>ps_resource_path = sc_resource_path s, ps_resource_url = sc_resource_url s, ps_issuer = sc_issuer s\<rparr>"

record policy_http_request_context =
  pr_method :: rstr
  pr_path :: rstr
  pr_auth :: "policy_http_auth_context option"
  pr_surface :: "policy_http_surface_context option"

definition consume_from_request ::
  "(rstr \<Rightarrow> rstr) \<Rightarrow> 'd http_request \<Rightarrow> ('m, 'r) authenticator \<Rightarrow> ('m, 'r) surface_world
     \<Rightarrow> (policy_http_request_context \<times> auth_context option) option \<times> ('m, 'r) surface_world" where
  "consume_from_request sha req authn w =
     (case consume_verified_request sha req authn w of
        (None, w') \<Rightarrow> (None, w')
      | (Some v, w') \<Rightarrow>
          (Some (\<lparr>pr_method = req_method req, pr_path = uri_path (req_uri req),
                  pr_auth = map_option policy_auth_of (vr_auth v),
                  pr_surface = map_option policy_surface_of (vr_surface v)\<rparr>, vr_auth v), w'))"

section \<open>Refusals\<close>

fun runtime_mode_label :: "policy_runtime_mode \<Rightarrow> rstr" where
  "runtime_mode_label Rust = ''rust''"
| "runtime_mode_label SparkPrefer = ''spark_prefer''"
| "runtime_mode_label SparkRequired = ''spark_required''"

definition json_deny_response :: "policy_authority_decision \<Rightarrow> policy_authority_decision http_reply" where
  "json_deny_response d =
     (let opt = (\<lambda>name v. case v of None \<Rightarrow> [] | Some s \<Rightarrow> [(name, JString s)]) in
      \<lparr>reply_status = 403, reply_headers = [(''content-type'', ''application/json'')],
       reply_body = JsonBody (JObject ([(''error'', JString ''policy_denied'')] @ opt ''code'' (pd_code d)
         @ opt ''reason'' (pd_reason d) @ [(''decision_source'', JString (pd_decision_source d)),
           (''runtime_mode'', JString (runtime_mode_label (pd_runtime_mode d)))]
         @ opt ''policy_contract_version'' (pd_policy_contract_version d))),
       reply_decision = None\<rparr>)"

definition invalid_auth_surface_decision :: policy_authority_decision where
  "invalid_auth_surface_decision =
     from_policy_decision (decision_deny InvalidInput (Some ''auth_surface_request_unverified''))
       ''http_policy.auth_surface'' Rust None"

section \<open>The gate\<close>

record 'i policy_gate =
  pg_authority :: "'i \<Rightarrow> policy_authority_decision"
  pg_mapper :: "policy_http_request_context \<Rightarrow> 'i"
  pg_deny_response :: "policy_authority_decision \<Rightarrow> policy_authority_decision http_reply"
  pg_authenticator :: nat

definition policy_call ::
  "(rstr \<Rightarrow> rstr) \<Rightarrow> 'i policy_gate
     \<Rightarrow> (policy_authority_decision http_request \<Rightarrow> ('m, 'r) surface_world
          \<Rightarrow> ('e, policy_authority_decision http_reply) result \<times> ('m, 'r) surface_world)
     \<Rightarrow> policy_authority_decision http_request \<Rightarrow> ('m, 'r) surface_world
     \<Rightarrow> ('e, policy_authority_decision http_reply) result \<times> ('m, 'r) surface_world" where
  "policy_call sha g inner_service req w =
     (case consume_from_request sha req (w_authenticators w ! pg_authenticator g) w of
        (None, w') \<Rightarrow>
          let d = invalid_auth_surface_decision
          in (Inr ((pg_deny_response g d)\<lparr>reply_decision := Some d\<rparr>), w')
      | (Some (context, current_auth), w') \<Rightarrow>
          let d = pg_authority g (pg_mapper g context) in
          if pd_allow d
          then inner_service (req\<lparr>ext_auth := current_auth, ext_decision := Some d\<rparr>) w'
          else (Inr ((pg_deny_response g d)\<lparr>reply_decision := Some d\<rparr>), w'))"

section \<open>Lemmas\<close>

text \<open>What the mapper is shown of a forwarded request.\<close>

definition policy_view :: "'d http_request \<Rightarrow> policy_http_request_context" where
  "policy_view req =
     \<lparr>pr_method = req_method req, pr_path = uri_path (req_uri req), pr_auth = map_option policy_auth_of (ext_auth req),
      pr_surface = map_option policy_surface_of (ext_surface req)\<rparr>"

lemma unverified_never_mapped:
  assumes "fst (consume_verified_request sha req (w_authenticators w ! k) w) = None"
  shows "policy_call sha \<lparr>pg_authority = a, pg_mapper = m, pg_deny_response = deny, pg_authenticator = k\<rparr> inner_service req w
    = (Inr ((deny invalid_auth_surface_decision)\<lparr>reply_decision := Some invalid_auth_surface_decision\<rparr>), w)"
proof -
  obtain w' where c: "consume_verified_request sha req (w_authenticators w ! k) w = (None, w')"
    using assms by (metis prod.collapse)
  then have "w' = w" by (rule consume_None)
  then show ?thesis using c by (simp add: policy_call_def consume_from_request_def Let_def)
qed

lemma no_binding_never_mapped:
  "ext_binding req = None \<Longrightarrow> fst (consume_verified_request sha req a w) = None"
  by (simp add: consume_verified_request_def)

lemma consumed_binding_refused:
  assumes "ext_binding req = Some b" and "w_lifecycles w ! bd_lifecycle b \<noteq> RequestActive"
  shows "fst (consume_verified_request sha req a w) = None"
  using assms by (auto simp: consume_verified_request_def binding_consume_def Let_def split: option.splits)

lemma policy_call_fresh:
  assumes step: "surface_step sha header_ok env clk reg req w = (Forward req' n, w')"
    and issuer: "\<And>e. match_entry reg (normalize_request_path (uri_path (req_uri req))) = Some e \<Longrightarrow>
      ir_authenticator e = pg_authenticator g \<and> pg_authenticator g < length (w_authenticators w)"
  shows "policy_call sha g inner_service req' w' =
    (let d = pg_authority g (pg_mapper g (policy_view req'));
         w1 = w'\<lparr>w_lifecycles := w_lifecycles w @ [RequestConsumed]\<rparr>
     in if pd_allow d then inner_service (req'\<lparr>ext_decision := Some d\<rparr>) w1
        else (Inr ((pg_deny_response g d)\<lparr>reply_decision := Some d\<rparr>), w1))"
proof -
  let ?k = "pg_authenticator g" and ?path = "normalize_request_path (uri_path (req_uri req))"
  have marker: "provenance_marker (w_authenticators w' ! ?k) = provenance_marker (w_authenticators w ! ir_authenticator e)"
    if e: "match_entry reg ?path = Some e" for e
    using step e issuer [OF e]
    by (auto simp: surface_step_def Let_def admit_request_def binding_begin_def begin_public_request_def
        split: option.splits prod.splits if_splits sum.splits)
      (metis authenticate_headers_marker snd_conv)+
  have "consume_verified_request sha req' (w_authenticators w' ! ?k) w' =
      (Some \<lparr>vr_auth = ext_auth req', vr_surface = ext_surface req'\<rparr>,
       w'\<lparr>w_lifecycles := w_lifecycles w @ [RequestConsumed]\<rparr>)"
    by (rule fresh_witness_accepted [OF step]) (simp_all add: marker)
  then show ?thesis
    by (simp add: policy_call_def consume_from_request_def Let_def policy_view_def)
qed

section \<open>Properties\<close>

text \<open>
  C7: the surface and the gate behind it compose into one decision.  When the gate is given the authenticator of the
  matched entry, every request the surface forwards reaches the authority exactly once, with the method and raw path of the
  request and the context the surface has just verified; the application is called if and only if the authority allows, with
  that context and that decision attached; and otherwise the reply is the deny handler's.  The witness is closed
  afterwards.
\<close>

theorem surface_gate_composition:
  assumes "\<And>e. match_entry reg (normalize_request_path (uri_path (req_uri req))) = Some e \<Longrightarrow>
      ir_authenticator e = pg_authenticator g \<and> pg_authenticator g < length (w_authenticators w)"
  shows "surface_call sha header_ok env clk reg (policy_call sha g application) req w =
    (case surface_step sha header_ok env clk reg req w of
       (Respond r, w') \<Rightarrow> (Inr r, w')
     | (Forward req' n, w') \<Rightarrow>
         let d = pg_authority g (pg_mapper g (policy_view req'));
             w1 = w'\<lparr>w_lifecycles := w_lifecycles w @ [RequestConsumed]\<rparr>
         in if pd_allow d
            then (case application (req'\<lparr>ext_decision := Some d\<rparr>) w1 of (result, w2) \<Rightarrow> (result, guard_drop n w2))
            else (Inr ((pg_deny_response g d)\<lparr>reply_decision := Some d\<rparr>),
                  w'\<lparr>w_lifecycles := w_lifecycles w @ [RequestClosed]\<rparr>))"
proof (cases "surface_step sha header_ok env clk reg req w")
  case (Pair out w')
  show ?thesis
  proof (cases out)
    case (Respond r)
    then show ?thesis using Pair by (simp add: surface_call_def)
  next
    case (Forward req' n)
    note step = Pair [unfolded Forward]
    have n: "n = length (w_lifecycles w)" by (rule surface_step_Forward(1) [OF step])
    show ?thesis
      using policy_call_fresh [OF step, of g application] assms
      by (auto simp: surface_call_def step Let_def guard_drop_def n)
  qed
qed

text \<open>Values for the witness: a route/scope boundary in front of an application that answers 200.\<close>

definition demo_gate :: "route_scope_request policy_gate" where
  "demo_gate =
     \<lparr>pg_authority = closure_evaluate (route_scope_policy_authority (route_scope_config_new [''mcp/''] [''post''] ['' a ''])),
      pg_mapper = (\<lambda>c. route_scope_request_new (pr_method c) (pr_path c) (pr_auth c \<noteq> None)
        (case pr_auth c of None \<Rightarrow> [] | Some a \<Rightarrow> pa_scopes a)),
      pg_deny_response = json_deny_response, pg_authenticator = 0\<rparr>"

definition demo_application ::
  "policy_authority_decision http_request \<Rightarrow> (unit, unit) surface_world
     \<Rightarrow> (unit, policy_authority_decision http_reply) result \<times> (unit, unit) surface_world" where
  "demo_application req w =
     (Inr \<lparr>reply_status = 200, reply_headers = [], reply_body = EmptyBody, reply_decision = ext_decision req\<rparr>, w)"

definition demo_stack ::
  "rstr \<Rightarrow> (unit, policy_authority_decision http_reply) result \<times> (unit, unit) surface_world" where
  "demo_stack path =
     surface_call (\<lambda>x. x) (\<lambda>_. True) demo_env (demo_clock 10) demo_registry
       (policy_call (\<lambda>x. x) demo_gate demo_application) (demo_http_request path) demo_world"

theorem surface_gate_composition_witness:
  "map_sum (\<lambda>_. ()) reply_status (fst (demo_stack ''/mcp'')) = Inr 200
   \<and> map_sum (\<lambda>_. ()) reply_status (fst (demo_stack ''/mcp/x'')) = Inr 403
   \<and> map_sum (\<lambda>_. ()) reply_status (fst (demo_stack ''/x'')) = Inr 404"
proof -
  have k: "\<forall>e \<in> set (reg_entries demo_registry). ir_authenticator e = 0" by code_simp
  have issuer: "ir_authenticator e = pg_authenticator demo_gate
      \<and> pg_authenticator demo_gate < length (w_authenticators (demo_world :: (unit, unit) surface_world))"
    if "match_entry demo_registry p = Some e" for p e
    using k match_entry_Some [OF that] by (simp add: demo_gate_def demo_world_def)
  have stack: "demo_stack path =
      (case surface_step (\<lambda>x. x) (\<lambda>_. True) demo_env (demo_clock 10) demo_registry (demo_http_request path) demo_world of
         (Respond r, w') \<Rightarrow> (Inr r, w')
       | (Forward req' n, w') \<Rightarrow>
           let d = pg_authority demo_gate (pg_mapper demo_gate (policy_view req'));
               w1 = w'\<lparr>w_lifecycles := w_lifecycles (demo_world :: (unit, unit) surface_world) @ [RequestConsumed]\<rparr>
           in if pd_allow d
              then (case demo_application (req'\<lparr>ext_decision := Some d\<rparr>) w1 of (result, w2) \<Rightarrow> (result, guard_drop n w2))
              else (Inr ((pg_deny_response demo_gate d)\<lparr>reply_decision := Some d\<rparr>),
                    w'\<lparr>w_lifecycles := w_lifecycles (demo_world :: (unit, unit) surface_world) @ [RequestClosed]\<rparr>))" for path
    unfolding demo_stack_def by (rule surface_gate_composition) (rule issuer)
  show ?thesis unfolding stack by (intro conjI; code_simp)
qed

text \<open>Two gates in a row: the second finds the witness consumed and refuses.\<close>

lemma stacked_gates_refuse:
  assumes step: "surface_step sha header_ok env clk reg req w = (Forward req' n, w')"
    and issuer: "\<And>e. match_entry reg (normalize_request_path (uri_path (req_uri req))) = Some e \<Longrightarrow>
      ir_authenticator e = pg_authenticator g \<and> pg_authenticator g < length (w_authenticators w)"
    and allow: "pd_allow (pg_authority g (pg_mapper g (policy_view req')))"
  shows "fst (surface_call sha header_ok env clk reg (policy_call sha g (policy_call sha g2 application)) req w) =
    Inr ((pg_deny_response g2 invalid_auth_surface_decision)\<lparr>reply_decision := Some invalid_auth_surface_decision\<rparr>)"
proof -
  note f = surface_step_Forward [OF step]
  obtain b where b: "ext_binding req' = Some b" "bd_lifecycle b = n" using f(2) by (auto simp: issued_request_def)
  let ?d = "pg_authority g (pg_mapper g (policy_view req'))"
  let ?w1 = "w'\<lparr>w_lifecycles := w_lifecycles w @ [RequestConsumed]\<rparr>"
  have "fst (consume_verified_request sha (req'\<lparr>ext_decision := Some ?d\<rparr>) (w_authenticators ?w1 ! pg_authenticator g2) ?w1) = None"
    by (rule consumed_binding_refused [of _ b]) (simp_all add: b f(1))
  then have "policy_call sha g2 application (req'\<lparr>ext_decision := Some ?d\<rparr>) ?w1 =
      (Inr ((pg_deny_response g2 invalid_auth_surface_decision)\<lparr>reply_decision := Some invalid_auth_surface_decision\<rparr>), ?w1)"
    using unverified_never_mapped [of sha "req'\<lparr>ext_decision := Some ?d\<rparr>" ?w1 "pg_authenticator g2" "pg_authority g2"
        "pg_mapper g2" "pg_deny_response g2" application] by (cases g2) simp
  then show ?thesis
    using policy_call_fresh [OF step, of g "policy_call sha g2 application"] issuer allow
    by (simp add: surface_call_def step Let_def)
qed

end
