(* ===== verification/Control_Plane.thy ===== *)
theory Control_Plane
  imports Http_Policy Embed
begin

text \<open>
  The auth control plane, \<open>auth_control_plane.rs\<close> (crate \<open>mcp-toolkit-policy-runtime\<close>): the canonical request
  envelope, the mapper from the HTTP context to it, and the authority that checks the envelope before it delegates to the
  embedded policy kernel of \<open>Embed\<close>.  The limits of the policy core stay a parameter.
\<close>

section \<open>The envelope\<close>

datatype token_mode = TokenNone | TokenBearer | TokenSenderConstrained | TokenOpaque | TokenSystem

datatype health_status_exposure = Protected | PublicReadOnly

record cp_principal =
  cpp_kind :: "rstr option"
  cpp_id :: "rstr option"
  cpp_tenant :: "rstr option"
  cpp_act_as :: "bool option"
  cpp_roles :: "rstr list option"

record cp_client =
  cpc_client_id :: "rstr option"
  cpc_azp :: "rstr option"

record cp_resource =
  cpr_kind :: "rstr option"
  cpr_project_id :: "rstr option"
  cpr_tenant_id :: "rstr option"
  cpr_id :: "rstr option"

record cp_session =
  cps_session_id :: "rstr option"
  cps_project_id :: "rstr option"
  cps_bound_subject :: "rstr option"
  cps_bound_actor :: "rstr option"
  cps_state :: "rstr option"

record cp_request =
  cpq_method :: "rstr option"
  cpq_path :: "rstr option"
  cpq_tool :: "rstr option"
  cpq_action :: "rstr option"

record cp_exchange =
  x_mode :: "rstr option"
  x_requester_client :: "rstr option"
  x_subject_present :: "bool option"
  x_source_audience :: "rstr option"
  x_requested_audience :: "rstr option"
  x_requested_scopes :: "rstr list option"
  x_endpoint :: "rstr option"
  x_sql_key :: "rstr option"
  x_selected_project_id :: "rstr option"
  x_subject_claim_project_ids :: "rstr list option"
  x_subject_token_kind :: "rstr option"
  x_requested_token_type :: "rstr option"
  x_proof_profile :: "rstr option"
  x_actor_chain_present :: "bool option"
  x_resource_parameter_present :: "bool option"
  x_refresh_token_requested :: "bool option"
  x_requested_ttl_seconds :: "nat option"
  x_subject_token_remaining_ttl_seconds :: "nat option"
  x_max_ttl_seconds :: "nat option"
  x_system_fallback_allowed :: "bool option"
  x_das_must_revalidate :: "bool option"
  x_audit_subject :: "rstr option"
  x_audit_actor_client :: "rstr option"
  x_exchange_id :: "rstr option"

record cp_introspection =
  in_active :: "bool option"
  in_cache_state :: "rstr option"
  in_subject :: "rstr option"
  in_actor :: "rstr option"
  in_issuer :: "rstr option"
  in_audiences :: "rstr list option"
  in_scopes :: "rstr list option"
  in_client_id :: "rstr option"
  in_project_id :: "rstr option"
  in_sender_constrained :: "bool option"
  in_cnf_thumbprint_match :: "bool option"
  in_ttl_seconds :: "nat option"

record cp_token =
  cpt_mode :: "token_mode option"
  cpt_exchange :: "cp_exchange option"
  cpt_introspection :: "cp_introspection option"

record cp_proof =
  pf_sender_constrained :: "bool option"
  pf_dpop_valid :: "bool option"
  pf_cnf_thumbprint_match :: "bool option"
  pf_replay_ok :: "bool option"

record cp_delegation =
  dg_subject :: "rstr option"
  dg_actor :: "rstr option"
  dg_audience :: "rstr option"
  dg_scopes :: "rstr list option"
  dg_resource :: "rstr option"
  dg_expires_at :: "rstr option"
  dg_exchange_id :: "rstr option"

record cp_risk =
  risk_level :: "rstr option"
  risk_admin_action :: "bool option"
  risk_write_action :: "bool option"

record cp_observation =
  obs_intent :: "rstr option"
  obs_data_class :: "rstr option"

record cp_input =
  cp_schema_version :: "rstr option"
  cp_subject :: "cp_principal option"
  cp_actor :: "cp_principal option"
  cp_issuer :: "rstr option"
  cp_audiences :: "rstr list option"
  cp_client_of :: "cp_client option"
  cp_scopes :: "rstr list option"
  cp_resource_of :: "cp_resource option"
  cp_session_of :: "cp_session option"
  cp_request_of :: "cp_request option"
  cp_token_of :: "cp_token option"
  cp_proof_of :: "cp_proof option"
  cp_delegations :: "cp_delegation list option"
  cp_risk_of :: "cp_risk option"
  cp_observation_of :: "cp_observation option"

definition CONTRACT_VERSION :: rstr where
  "CONTRACT_VERSION = ''auth-control-plane/v1''"

section \<open>Reading the envelope\<close>

definition token_mode_of :: "cp_input \<Rightarrow> token_mode option" where
  "token_mode_of input = Option.bind (cp_token_of input) cpt_mode"

definition principal_id :: "cp_principal option \<Rightarrow> rstr option" where
  "principal_id p = trimmed_non_empty (Option.bind p cpp_id)"

definition request_action :: "cp_input \<Rightarrow> rstr option" where
  "request_action input = trimmed_non_empty (Option.bind (cp_request_of input) cpq_action)"

definition request_method_path :: "cp_input \<Rightarrow> (decision, rstr \<times> rstr) result" where
  "request_method_path input =
     (case cp_request_of input of
        None \<Rightarrow> Inl (decision_deny InvalidInput (Some ''request_missing''))
      | Some request \<Rightarrow>
          (case trimmed_non_empty (cpq_method request) of
             None \<Rightarrow> Inl (decision_deny InvalidInput (Some ''method_missing''))
           | Some method \<Rightarrow>
               (case trimmed_non_empty (cpq_path request) of
                  None \<Rightarrow> Inl (decision_deny InvalidInput (Some ''path_missing''))
                | Some path \<Rightarrow> Inr (method, path))))"

definition audience_value :: "rstr list \<Rightarrow> json" where
  "audience_value audiences =
     (case audiences of [a] \<Rightarrow> JString a | _ \<Rightarrow> JArray (map JString audiences))"

definition claims_from_control_plane_input :: "cp_input \<Rightarrow> json_map" where
  "claims_from_control_plane_input input =
     (let opt = (\<lambda>name v. case v of None \<Rightarrow> [] | Some x \<Rightarrow> [(name, x)])
      in opt ''iss'' (map_option JString (cp_issuer input))
         @ opt ''aud'' (map_option audience_value (cp_audiences input))
         @ opt ''client_id'' (map_option JString (Option.bind (cp_client_of input) cpc_client_id))
         @ opt ''azp'' (map_option JString (Option.bind (cp_client_of input) cpc_azp))
         @ opt ''sub'' (map_option JString (Option.bind (cp_subject input) cpp_id)))"

definition to_generic_request :: "cp_input \<Rightarrow> (decision, generic_policy_request) result" where
  "to_generic_request input =
     (case request_method_path input of
        Inl d \<Rightarrow> Inl d
      | Inr (method, path) \<Rightarrow>
          (case cp_scopes input of
             None \<Rightarrow> Inl (decision_deny MissingScopes (Some ''scopes_missing''))
           | Some scopes \<Rightarrow>
               Inr ((with_token_scopes scopes (request_new method path))
                      \<lparr>rq_claims := claims_from_control_plane_input input\<rparr>)))"

section \<open>The checks of the authority\<close>

definition validate_session_binding :: "cp_input \<Rightarrow> rstr \<Rightarrow> rstr \<Rightarrow> decision option" where
  "validate_session_binding input subject_id actor_id =
     (let resource_project = trimmed_non_empty (Option.bind (cp_resource_of input) cpr_project_id) in
      case cp_session_of input of
        None \<Rightarrow> None
      | Some session \<Rightarrow>
          if (case (resource_project, cps_project_id session) of
                (Some rp, Some sp) \<Rightarrow> trim sp \<noteq> rp | _ \<Rightarrow> False)
          then Some (decision_deny CapabilityMismatch (Some ''project_binding_mismatch''))
          else if (case trimmed_non_empty (cps_bound_subject session) of Some b \<Rightarrow> b \<noteq> subject_id | None \<Rightarrow> False)
          then Some (decision_deny CapabilityMismatch (Some ''session_subject_mismatch''))
          else if (case trimmed_non_empty (cps_bound_actor session) of Some b \<Rightarrow> b \<noteq> actor_id | None \<Rightarrow> False)
          then Some (decision_deny CapabilityMismatch (Some ''session_actor_mismatch''))
          else None)"

definition validate_token_exchange :: "cp_input \<Rightarrow> decision option" where
  "validate_token_exchange input =
     (let exchange = Option.bind (cp_token_of input) cpt_exchange in
      if request_action input \<noteq> Some ''token.exchange''
      then (if exchange \<noteq> None then Some (decision_deny CapabilityMismatch (Some ''exchange_not_allowed'')) else None)
      else case exchange of
             None \<Rightarrow> Some (decision_deny CapabilityMissing (Some ''audit_binding_missing''))
           | Some x \<Rightarrow>
               if trimmed_non_empty (x_audit_subject x) = None \<or> trimmed_non_empty (x_audit_actor_client x) = None
                  \<or> trimmed_non_empty (x_exchange_id x) = None \<or> x_das_must_revalidate x \<noteq> Some True
               then Some (decision_deny CapabilityMissing (Some ''audit_binding_missing''))
               else None)"

definition validate_sender_constraint :: "cp_input \<Rightarrow> token_mode \<Rightarrow> decision option" where
  "validate_sender_constraint input mode =
     (if mode \<noteq> TokenSenderConstrained then None
      else case cp_proof_of input of
             None \<Rightarrow> Some (decision_deny InvalidInput (Some ''sender_constraint''))
           | Some proof \<Rightarrow>
               if pf_sender_constrained proof = Some True
                  \<and> (pf_dpop_valid proof = Some True \<or> pf_cnf_thumbprint_match proof = Some True)
                  \<and> pf_replay_ok proof \<noteq> Some False
               then None
               else Some (decision_deny InvalidInput (Some ''sender_constraint'')))"

definition cp_is_read_method :: "rstr \<Rightarrow> bool" where
  "cp_is_read_method method \<longleftrightarrow> to_ascii_uppercase (trim method) \<in> {''GET'', ''HEAD'', ''OPTIONS''}"

fun collapse_slashes :: "bool \<Rightarrow> rstr \<Rightarrow> rstr" where
  "collapse_slashes previous_was_slash [] = []"
| "collapse_slashes previous_was_slash (ch # chs) =
     (if ch = CHR ''/'' then (if previous_was_slash then [] else [ch]) @ collapse_slashes True chs
      else ch # collapse_slashes False chs)"

definition cp_normalize_path :: "rstr \<Rightarrow> rstr" where
  "cp_normalize_path path =
     (let trimmed = trim path in
      if trimmed = [] then ''/''
      else let normalized = (if starts_with trimmed ''/'' then [] else ''/'') @ collapse_slashes False trimmed
           in if length normalized > 1 then trim_end_char (CHR ''/'') normalized else normalized)"

definition is_health_or_status_path :: "rstr \<Rightarrow> bool" where
  "is_health_or_status_path path \<longleftrightarrow>
     cp_normalize_path path
       \<in> {''/health'', ''/healthz'', ''/ready'', ''/readiness'', ''/live'', ''/liveness'', ''/status''}"

definition is_health_status_read :: "cp_input \<Rightarrow> bool" where
  "is_health_status_read input =
     (case request_method_path input of
        Inl _ \<Rightarrow> False
      | Inr (method, path) \<Rightarrow> cp_is_read_method method \<and> is_health_or_status_path path)"

section \<open>The authority\<close>

record cp_authority =
  au_decision_source :: rstr
  au_runtime_mode :: policy_runtime_mode
  au_policy_contract_version :: rstr
  au_kernel :: embedded_policy_kernel
  au_health_status_exposure :: health_status_exposure

definition cp_authority_new :: "embedded_policy_kernel \<Rightarrow> cp_authority" where
  "cp_authority_new k =
     \<lparr>au_decision_source = ''mcp_toolkit_policy_runtime.auth_control_plane'', au_runtime_mode = Rust,
      au_policy_contract_version = CONTRACT_VERSION, au_kernel = k, au_health_status_exposure = Protected\<rparr>"

definition evaluate_policy :: "boundary \<Rightarrow> cp_authority \<Rightarrow> cp_input \<Rightarrow> decision" where
  "evaluate_policy lim a input =
     (if cp_schema_version input \<noteq> Some CONTRACT_VERSION
      then decision_deny InvalidInput (Some ''contract_version'')
      else if au_health_status_exposure a = PublicReadOnly \<and> is_health_status_read input then decision_allow
      else if token_mode_of input \<in> {None, Some TokenNone} then decision_deny MissingToken (Some ''token_missing'')
      else let mode = the (token_mode_of input) in
      case principal_id (cp_subject input) of
        None \<Rightarrow> decision_deny MissingToken (Some ''subject_missing'')
      | Some subject_id \<Rightarrow>
          (case principal_id (cp_actor input) of
             None \<Rightarrow> decision_deny MissingToken (Some ''actor_missing'')
           | Some actor_id \<Rightarrow>
               if mode = TokenSystem \<and> request_action input \<noteq> Some ''system.run''
               then decision_deny SystemTokenForbidden (Some ''system_token_forbidden'')
               else (case validate_session_binding input subject_id actor_id of Some d \<Rightarrow> d
               | None \<Rightarrow> (case validate_token_exchange input of Some d \<Rightarrow> d
               | None \<Rightarrow> (case validate_sender_constraint input mode of Some d \<Rightarrow> d
               | None \<Rightarrow> (case to_generic_request input of
                            Inl d \<Rightarrow> d
                          | Inr request \<Rightarrow> authorize lim (au_kernel a) request))))))"

definition cp_evaluate :: "boundary \<Rightarrow> cp_authority \<Rightarrow> cp_input \<Rightarrow> policy_authority_decision" where
  "cp_evaluate lim a input =
     from_policy_decision (evaluate_policy lim a input) (au_decision_source a) (au_runtime_mode a)
       (Some (au_policy_contract_version a))"

record cp_authority_builder =
  ab_decision_source :: rstr
  ab_runtime_mode :: policy_runtime_mode
  ab_policy_contract_version :: rstr
  ab_kernel :: embedded_policy_kernel_builder
  ab_health_status_exposure :: health_status_exposure

definition cp_builder_default :: cp_authority_builder where
  "cp_builder_default =
     \<lparr>ab_decision_source = ''mcp_toolkit_policy_runtime.auth_control_plane'', ab_runtime_mode = Rust,
      ab_policy_contract_version = CONTRACT_VERSION, ab_kernel = kernel_builder_default,
      ab_health_status_exposure = Protected\<rparr>"

text \<open>One fluent builder call; those on the kernel are calls of the kernel's own builder.\<close>

datatype cp_option =
    CpSource rstr | CpMode policy_runtime_mode | CpVersion rstr | CpKernel kernel_option | CpHealth health_status_exposure

fun cp_builder_step :: "cp_option \<Rightarrow> cp_authority_builder \<Rightarrow> cp_authority_builder" where
  "cp_builder_step (CpSource s) b = b\<lparr>ab_decision_source := s\<rparr>"
| "cp_builder_step (CpMode m) b = b\<lparr>ab_runtime_mode := m\<rparr>"
| "cp_builder_step (CpVersion v) b = b\<lparr>ab_policy_contract_version := v\<rparr>"
| "cp_builder_step (CpKernel k) b = b\<lparr>ab_kernel := kernel_builder_step k (ab_kernel b)\<rparr>"
| "cp_builder_step (CpHealth e) b = b\<lparr>ab_health_status_exposure := e\<rparr>"

definition cp_authority_build :: "cp_authority_builder \<Rightarrow> cp_authority" where
  "cp_authority_build b =
     \<lparr>au_decision_source = ab_decision_source b, au_runtime_mode = ab_runtime_mode b,
      au_policy_contract_version = ab_policy_contract_version b, au_kernel = kernel_build (ab_kernel b),
      au_health_status_exposure = ab_health_status_exposure b\<rparr>"

section \<open>Claims in the envelope\<close>

definition claim_bool :: "json \<Rightarrow> rstr \<Rightarrow> bool option" where
  "claim_bool v key = Option.bind (json_get v key) as_bool"

definition claim_u64 :: "json \<Rightarrow> rstr \<Rightarrow> nat option" where
  "claim_u64 v key = (case json_get v key of Some (JNumber (PosInt n)) \<Rightarrow> Some n | _ \<Rightarrow> None)"

definition non_empty_vec :: "'a list \<Rightarrow> 'a list option" where
  "non_empty_vec xs = (if xs = [] then None else Some xs)"

definition split_scope_string :: "rstr \<Rightarrow> rstr list option" where
  "split_scope_string v = non_empty_vec (filter (\<lambda>s. s \<noteq> []) (map trim (split_whitespace v)))"

definition claim_string_vec :: "json \<Rightarrow> rstr \<Rightarrow> rstr list option" where
  "claim_string_vec v key =
     (case json_get v key of
        Some (JString inner) \<Rightarrow> split_scope_string inner
      | Some (JArray values) \<Rightarrow> non_empty_vec (filter (\<lambda>s. s \<noteq> []) (map trim (List.map_filter as_str values)))
      | _ \<Rightarrow> None)"

definition claim_exchange :: "json \<Rightarrow> cp_exchange option" where
  "claim_exchange v =
     map_option (\<lambda>x.
       \<lparr>x_mode = claim_str x ''mode'', x_requester_client = claim_str x ''requester_client'',
        x_subject_present = claim_bool x ''subject_present'', x_source_audience = claim_str x ''source_audience'',
        x_requested_audience = claim_str x ''requested_audience'',
        x_requested_scopes = claim_string_vec x ''requested_scopes'', x_endpoint = claim_str x ''endpoint'',
        x_sql_key = claim_str x ''sql_key'', x_selected_project_id = claim_str x ''selected_project_id'',
        x_subject_claim_project_ids = claim_string_vec x ''subject_claim_project_ids'',
        x_subject_token_kind = claim_str x ''subject_token_kind'',
        x_requested_token_type = claim_str x ''requested_token_type'', x_proof_profile = claim_str x ''proof_profile'',
        x_actor_chain_present = claim_bool x ''actor_chain_present'',
        x_resource_parameter_present = claim_bool x ''resource_parameter_present'',
        x_refresh_token_requested = claim_bool x ''refresh_token_requested'',
        x_requested_ttl_seconds = claim_u64 x ''requested_ttl_seconds'',
        x_subject_token_remaining_ttl_seconds = claim_u64 x ''subject_token_remaining_ttl_seconds'',
        x_max_ttl_seconds = claim_u64 x ''max_ttl_seconds'',
        x_system_fallback_allowed = claim_bool x ''system_fallback_allowed'',
        x_das_must_revalidate = claim_bool x ''das_must_revalidate'', x_audit_subject = claim_str x ''audit_subject'',
        x_audit_actor_client = claim_str x ''audit_actor_client'', x_exchange_id = claim_str x ''exchange_id''\<rparr>)
       (case json_get v ''token_exchange'' of Some x \<Rightarrow> Some x | None \<Rightarrow> json_get v ''exchange'')"

definition claim_introspection :: "json \<Rightarrow> cp_introspection option" where
  "claim_introspection v =
     map_option (\<lambda>i.
       \<lparr>in_active = claim_bool i ''active'', in_cache_state = claim_str i ''cache_state'', in_subject = claim_str i ''subject'',
        in_actor = claim_str i ''actor'', in_issuer = claim_str i ''issuer'', in_audiences = claim_string_vec i ''audiences'',
        in_scopes = claim_string_vec i ''scopes'', in_client_id = claim_str i ''client_id'',
        in_project_id = claim_str i ''project_id'', in_sender_constrained = claim_bool i ''sender_constrained'',
        in_cnf_thumbprint_match = claim_bool i ''cnf_thumbprint_match'', in_ttl_seconds = claim_u64 i ''ttl_seconds''\<rparr>)
       (json_get v ''introspection'')"

definition claim_proof :: "json \<Rightarrow> cp_proof" where
  "claim_proof v =
     (let proof = (case json_get v ''proof'' of Some p \<Rightarrow> p | None \<Rightarrow> v) in
      \<lparr>pf_sender_constrained = claim_bool proof ''sender_constrained'', pf_dpop_valid = claim_bool proof ''dpop_valid'',
       pf_cnf_thumbprint_match = claim_bool proof ''cnf_thumbprint_match'', pf_replay_ok = claim_bool proof ''replay_ok''\<rparr>)"

definition claim_delegations :: "json \<Rightarrow> cp_delegation list option" where
  "claim_delegations v =
     Option.bind (json_get v ''delegation'') (\<lambda>raw.
       Option.bind (as_array raw) (\<lambda>entries.
         non_empty_vec (List.map_filter (\<lambda>e.
           if as_object e = None then None
           else Some \<lparr>dg_subject = claim_str e ''subject'', dg_actor = claim_str e ''actor'',
                      dg_audience = claim_str e ''audience'', dg_scopes = claim_string_vec e ''scopes'',
                      dg_resource = claim_str e ''resource'', dg_expires_at = claim_str e ''expires_at'',
                      dg_exchange_id = claim_str e ''exchange_id''\<rparr>) entries)))"

section \<open>The HTTP mapper\<close>

definition infer_action :: "rstr \<Rightarrow> rstr \<Rightarrow> rstr" where
  "infer_action method path =
     (let normalized = to_ascii_lowercase (cp_normalize_path path) in
      if normalized \<in> {''/health'', ''/healthz'', ''/ready'', ''/readiness'', ''/live'', ''/liveness''} then ''health.read''
      else if normalized = ''/status'' then ''status.read''
      else if suffix ''/token/exchange'' normalized \<or> suffix ''/token-exchange'' normalized then ''token.exchange''
      else if suffix ''/tools/list'' normalized \<or> cp_is_read_method method \<and> suffix ''/tools'' normalized then ''tool.list''
      else if suffix ''/tools/call'' normalized then ''tool.call''
      else if suffix ''/resources/read'' normalized then ''resource.read''
      else if suffix ''/prompts/get'' normalized then ''prompt.get''
      else if cp_is_read_method method then ''http.read'' else ''http.write'')"

definition infer_tool_from_path :: "rstr \<Rightarrow> rstr option" where
  "infer_tool_from_path path =
     (case after_str ''/tools/'' (cp_normalize_path path) of
        None \<Rightarrow> None
      | Some tail \<Rightarrow>
          let v = trim (hd (split_on (CHR ''/'') tail)) in
          if v \<in> {[], ''list'', ''call''} then None else Some v)"

definition classify_risk :: "rstr \<Rightarrow> rstr \<Rightarrow> rstr \<Rightarrow> cp_risk" where
  "classify_risk method path action =
     (let normalized = to_ascii_lowercase (cp_normalize_path path);
          write_action = (\<not> cp_is_read_method method \<or> action = ''tool.call'' \<or> action = ''token.exchange'');
          admin_action = (contains_str ''/admin/'' normalized \<or> suffix ''/admin'' normalized \<or> action = ''token.exchange'')
      in \<lparr>risk_level = Some (if admin_action then ''admin'' else if write_action then ''write'' else ''read''),
          risk_admin_action = Some admin_action, risk_write_action = Some write_action\<rparr>)"

definition observation_for_action :: "rstr \<Rightarrow> cp_observation option" where
  "observation_for_action action =
     (if action = ''health.read'' then Some \<lparr>obs_intent = Some ''health'', obs_data_class = Some ''service_status''\<rparr>
      else if action = ''status.read'' then Some \<lparr>obs_intent = Some ''status'', obs_data_class = Some ''service_status''\<rparr>
      else None)"

record cp_http_mapper =
  hm_token_mode :: token_mode
  hm_resource_kind :: rstr
  hm_project_id_claim :: rstr
  hm_session_id_claim :: rstr
  hm_tool_claim :: rstr
  hm_resource_id_claim :: rstr

definition http_mapper_default :: cp_http_mapper where
  "http_mapper_default =
     \<lparr>hm_token_mode = TokenBearer, hm_resource_kind = ''mcp'', hm_project_id_claim = ''project_id'',
      hm_session_id_claim = ''sid'', hm_tool_claim = ''tool'', hm_resource_id_claim = ''resource_id''\<rparr>"

text \<open>One fluent call on the mapper.\<close>

datatype mapper_option =
    MapTokenMode token_mode | MapResourceKind rstr | MapProjectIdClaim rstr | MapSessionIdClaim rstr | MapToolClaim rstr
  | MapResourceIdClaim rstr

fun http_mapper_step :: "mapper_option \<Rightarrow> cp_http_mapper \<Rightarrow> cp_http_mapper" where
  "http_mapper_step (MapTokenMode mode) m = m\<lparr>hm_token_mode := mode\<rparr>"
| "http_mapper_step (MapResourceKind kind) m = m\<lparr>hm_resource_kind := kind\<rparr>"
| "http_mapper_step (MapProjectIdClaim claim) m = m\<lparr>hm_project_id_claim := claim\<rparr>"
| "http_mapper_step (MapSessionIdClaim claim) m = m\<lparr>hm_session_id_claim := claim\<rparr>"
| "http_mapper_step (MapToolClaim claim) m = m\<lparr>hm_tool_claim := claim\<rparr>"
| "http_mapper_step (MapResourceIdClaim claim) m = m\<lparr>hm_resource_id_claim := claim\<rparr>"

text \<open>\<open>Option::or_else\<close>.\<close>

definition or_else :: "'a option \<Rightarrow> 'a option \<Rightarrow> 'a option" where
  "or_else x y = (case x of Some v \<Rightarrow> Some v | None \<Rightarrow> y)"

definition map_request :: "cp_http_mapper \<Rightarrow> policy_http_request_context \<Rightarrow> cp_input" where
  "map_request m c =
     (let auth = pr_auth c;
          claims = map_option pa_claims auth;
          text = (\<lambda>key. Option.bind claims (\<lambda>v. claim_str v key));
          project_id = text (hm_project_id_claim m);
          subject_id = or_else (or_else (Option.bind auth pa_subject) (text ''sub'')) (map_option pa_actor auth);
          action = infer_action (pr_method c) (pr_path c);
          who = (\<lambda>kind i. map_option (\<lambda>a. \<lparr>cpp_kind = Some kind, cpp_id = i, cpp_tenant = text ''tenant_id'',
                   cpp_act_as = None, cpp_roles = non_empty_vec (pa_roles a)\<rparr>) auth)
      in \<lparr>cp_schema_version = Some CONTRACT_VERSION,
          cp_subject = who ''user'' subject_id,
          cp_actor = who ''actor'' (map_option pa_actor auth),
          cp_issuer = or_else (map_option ps_issuer (pr_surface c)) (text ''iss''),
          cp_audiences = Option.bind claims (\<lambda>v. claim_string_vec v ''aud''),
          cp_client_of = map_option (\<lambda>a. \<lparr>cpc_client_id = or_else (pa_azp a) (text ''client_id''), cpc_azp = pa_azp a\<rparr>) auth,
          cp_scopes = map_option pa_scopes auth,
          cp_resource_of = Some \<lparr>cpr_kind = Some (hm_resource_kind m), cpr_project_id = project_id,
            cpr_tenant_id = text ''tenant_id'',
            cpr_id = or_else (text (hm_resource_id_claim m)) (map_option ps_resource_url (pr_surface c))\<rparr>,
          cp_session_of = Some \<lparr>cps_session_id = or_else (text (hm_session_id_claim m)) (text ''session_id''),
            cps_project_id = project_id, cps_bound_subject = text ''bound_subject'', cps_bound_actor = text ''bound_actor'',
            cps_state = text ''session_state''\<rparr>,
          cp_request_of = Some \<lparr>cpq_method = Some (pr_method c), cpq_path = Some (pr_path c),
            cpq_tool = or_else (text (hm_tool_claim m)) (infer_tool_from_path (pr_path c)), cpq_action = Some action\<rparr>,
          cp_token_of = Some \<lparr>cpt_mode = map_option (\<lambda>_. hm_token_mode m) auth,
            cpt_exchange = Option.bind claims claim_exchange, cpt_introspection = Option.bind claims claim_introspection\<rparr>,
          cp_proof_of = map_option claim_proof claims,
          cp_delegations = Option.bind claims claim_delegations,
          cp_risk_of = Some (classify_risk (pr_method c) (pr_path c) action),
          cp_observation_of = observation_for_action action\<rparr>)"

section \<open>Lemmas\<close>

lemma trimmed_non_empty_trimmed [simp]: "trimmed_non_empty (trimmed_non_empty x) = trimmed_non_empty x"
  by (cases x) (auto simp: trimmed_non_empty_def opt_filter_def)

lemma trimmed_non_empty_claim [simp]: "trimmed_non_empty (claim_str v key) = claim_str v key"
  by (simp add: claim_str_def)

lemma infer_action_known:
  "infer_action method path \<in> {''health.read'', ''status.read'', ''token.exchange'', ''tool.list'', ''tool.call'',
     ''resource.read'', ''prompt.get'', ''http.read'', ''http.write''}"
  unfolding infer_action_def Let_def by (simp only: split: if_splits) simp

lemma action_of_mapped: "request_action (map_request m c) = Some (infer_action (pr_method c) (pr_path c))"
proof -
  have "trimmed_non_empty (Some a) = Some a" if "a \<in> {''health.read'', ''status.read'', ''token.exchange'', ''tool.list'',
      ''tool.call'', ''resource.read'', ''prompt.get'', ''http.read'', ''http.write''}" for a
    using that by (elim insertE) (simp_all, code_simp+)
  from this [OF infer_action_known] show ?thesis by (simp add: request_action_def map_request_def Let_def)
qed

text \<open>The subject the mapper projects: the subject of the context, else the claim, else the actor.\<close>

definition mapped_subject :: "policy_http_auth_context \<Rightarrow> rstr option" where
  "mapped_subject auth =
     trimmed_non_empty (or_else (or_else (pa_subject auth) (claim_str (pa_claims auth) ''sub'')) (Some (pa_actor auth)))"

definition session_bound :: "json \<Rightarrow> rstr \<Rightarrow> rstr \<Rightarrow> bool" where
  "session_bound claims subject_id actor_id \<longleftrightarrow>
     claim_str claims ''bound_subject'' \<in> {None, Some subject_id} \<and> claim_str claims ''bound_actor'' \<in> {None, Some actor_id}"

definition exchange_audited :: "json \<Rightarrow> bool" where
  "exchange_audited x \<longleftrightarrow>
     claim_str x ''audit_subject'' \<noteq> None \<and> claim_str x ''audit_actor_client'' \<noteq> None
     \<and> claim_str x ''exchange_id'' \<noteq> None \<and> claim_bool x ''das_must_revalidate'' = Some True"

definition exchange_claim :: "json \<Rightarrow> json option" where
  "exchange_claim claims = or_else (json_get claims ''token_exchange'') (json_get claims ''exchange'')"

definition sender_proved :: "cp_proof \<Rightarrow> bool" where
  "sender_proved p \<longleftrightarrow>
     pf_sender_constrained p = Some True
     \<and> (pf_dpop_valid p = Some True \<or> pf_cnf_thumbprint_match p = Some True) \<and> pf_replay_ok p \<noteq> Some False"

lemma mapped_simps:
  "cp_schema_version (map_request m c) = Some CONTRACT_VERSION"
  "token_mode_of (map_request m c) = map_option (\<lambda>_. hm_token_mode m) (pr_auth c)"
  "cp_scopes (map_request m c) = map_option pa_scopes (pr_auth c)"
  "cp_proof_of (map_request m c) = map_option (claim_proof \<circ> pa_claims) (pr_auth c)"
  by (simp_all add: map_request_def token_mode_of_def Let_def option.map_comp)

lemma mapped_principals:
  assumes "pr_auth c = Some auth"
  shows "principal_id (cp_subject (map_request m c)) = mapped_subject auth"
    and "principal_id (cp_actor (map_request m c)) = trimmed_non_empty (Some (pa_actor auth))"
  using assms by (simp_all add: map_request_def Let_def principal_id_def mapped_subject_def)

text \<open>The mapper takes both project identifiers from the same claim, so they never disagree.\<close>

lemma mapped_session_binding:
  assumes "pr_auth c = Some auth"
  shows "validate_session_binding (map_request m c) subject_id actor_id = None
    \<longleftrightarrow> session_bound (pa_claims auth) subject_id actor_id"
    and "validate_session_binding (map_request m c) subject_id actor_id
      \<noteq> Some (decision_deny CapabilityMismatch (Some ''project_binding_mismatch''))"
proof -
  have t: "claim_str v k = Some x \<Longrightarrow> trim x = x" for v k x
    by (auto simp: claim_str_def trimmed_non_empty_def opt_filter_def split: option.splits if_splits)
  note defs = validate_session_binding_def map_request_def Let_def session_bound_def
  show "validate_session_binding (map_request m c) subject_id actor_id = None
    \<longleftrightarrow> session_bound (pa_claims auth) subject_id actor_id"
    using assms by (auto simp: defs t split: option.splits)
  show "validate_session_binding (map_request m c) subject_id actor_id
      \<noteq> Some (decision_deny CapabilityMismatch (Some ''project_binding_mismatch''))"
    using assms by (auto simp: defs t split: option.splits)
qed

lemma mapped_exchange:
  assumes "pr_auth c = Some auth"
  shows "validate_token_exchange (map_request m c) = None \<longleftrightarrow>
    (case exchange_claim (pa_claims auth) of
       None \<Rightarrow> infer_action (pr_method c) (pr_path c) \<noteq> ''token.exchange''
     | Some x \<Rightarrow> infer_action (pr_method c) (pr_path c) = ''token.exchange'' \<and> exchange_audited x)"
proof -
  have x: "Option.bind (cp_token_of (map_request m c)) cpt_exchange = claim_exchange (pa_claims auth)"
    using assms by (simp add: map_request_def Let_def)
  have e: "claim_exchange (pa_claims auth) = None \<longleftrightarrow> exchange_claim (pa_claims auth) = None"
    by (simp add: claim_exchange_def exchange_claim_def or_else_def)
  show ?thesis
    unfolding validate_token_exchange_def Let_def x action_of_mapped
    by (auto simp: claim_exchange_def exchange_claim_def or_else_def exchange_audited_def split: option.splits)
qed

lemma mapped_constraint:
  assumes "pr_auth c = Some auth"
  shows "validate_sender_constraint (map_request m c) mode = None \<longleftrightarrow>
    (mode = TokenSenderConstrained \<longrightarrow> sender_proved (claim_proof (pa_claims auth)))"
  using assms by (auto simp: validate_sender_constraint_def mapped_simps sender_proved_def)

definition projected_request :: "cp_http_mapper \<Rightarrow> policy_http_request_context \<Rightarrow> rstr list \<Rightarrow> generic_policy_request" where
  "projected_request m c scopes =
     \<lparr>rq_method = trim (pr_method c), rq_path = trim (pr_path c), rq_token_scopes = scopes,
      rq_claims = claims_from_control_plane_input (map_request m c)\<rparr>"

lemma mapped_method_path:
  "request_method_path (map_request m c) =
     (if trim (pr_method c) = [] then Inl (decision_deny InvalidInput (Some ''method_missing''))
      else if trim (pr_path c) = [] then Inl (decision_deny InvalidInput (Some ''path_missing''))
      else Inr (trim (pr_method c), trim (pr_path c)))"
  by (simp add: request_method_path_def map_request_def Let_def trimmed_non_empty_def opt_filter_def)

lemma mapped_generic:
  assumes "pr_auth c = Some auth"
  shows "(case to_generic_request (map_request m c) of Inl d \<Rightarrow> d_allow d | Inr r \<Rightarrow> d_allow (authorize lim k r))
    \<longleftrightarrow> trim (pr_method c) \<noteq> [] \<and> trim (pr_path c) \<noteq> [] \<and> d_allow (authorize lim k (projected_request m c (pa_scopes auth)))"
  using assms
  by (simp add: to_generic_request_def mapped_method_path mapped_simps with_token_scopes_def request_new_def
      projected_request_def)

lemma health_read_mapped:
  "is_health_status_read (map_request m c) \<longleftrightarrow> cp_is_read_method (pr_method c) \<and> is_health_or_status_path (pr_path c)"
proof -
  have "cp_is_read_method (pr_method c) \<Longrightarrow> trim (pr_method c) \<noteq> []"
    by (auto simp: cp_is_read_method_def to_ascii_uppercase_def)
  moreover have "is_health_or_status_path (pr_path c) \<Longrightarrow> trim (pr_path c) \<noteq> []"
    by (auto simp: is_health_or_status_path_def cp_normalize_path_def)
  moreover have "cp_is_read_method (trim s) = cp_is_read_method s" "cp_normalize_path (trim s) = cp_normalize_path s" for s
    by (simp_all add: cp_is_read_method_def cp_normalize_path_def)
  ultimately show ?thesis
    by (auto simp: is_health_status_read_def mapped_method_path is_health_or_status_path_def)
qed

lemma validations_deny [simp]:
  "validate_session_binding input s a = Some d \<Longrightarrow> \<not> d_allow d"
  "validate_token_exchange input = Some d \<Longrightarrow> \<not> d_allow d"
  "validate_sender_constraint input mode = Some d \<Longrightarrow> \<not> d_allow d"
  by (auto simp: validate_session_binding_def validate_token_exchange_def validate_sender_constraint_def Let_def
      split: option.splits if_splits)

lemma evaluate_allow_iff:
  "d_allow (evaluate_policy lim a input) \<longleftrightarrow>
     cp_schema_version input = Some CONTRACT_VERSION
     \<and> (au_health_status_exposure a = PublicReadOnly \<and> is_health_status_read input
        \<or> (\<exists>mode subject_id actor_id. token_mode_of input = Some mode \<and> mode \<noteq> TokenNone
             \<and> principal_id (cp_subject input) = Some subject_id \<and> principal_id (cp_actor input) = Some actor_id
             \<and> (mode = TokenSystem \<longrightarrow> request_action input = Some ''system.run'')
             \<and> validate_session_binding input subject_id actor_id = None \<and> validate_token_exchange input = None
             \<and> validate_sender_constraint input mode = None
             \<and> (case to_generic_request input of Inl d \<Rightarrow> d_allow d | Inr r \<Rightarrow> d_allow (authorize lim (au_kernel a) r))))"
  by (cases "token_mode_of input"; cases "principal_id (cp_subject input)"; cases "principal_id (cp_actor input)")
    (auto simp: evaluate_policy_def Let_def split: option.splits sum.splits)

section \<open>Properties\<close>

text \<open>
  C8: the control plane admits an HTTP request exactly when every binding holds.  Through the HTTP mapper the authority
  allows if and only if the request is a health or status read and these are configured public, or: it is
  authenticated; the projected token mode is neither none nor system; the subject and the actor are not blank and are the
  ones the session is bound to; an exchange claim is there exactly on an exchange request, and is audited; a
  sender-constrained token has its proof; and the embedded kernel authorises the projected method, path, scopes and claims.
\<close>

theorem control_plane_http_iff:
  "d_allow (evaluate_policy lim a (map_request m c)) \<longleftrightarrow>
     au_health_status_exposure a = PublicReadOnly \<and> cp_is_read_method (pr_method c) \<and> is_health_or_status_path (pr_path c)
     \<or> (\<exists>auth subject_id. pr_auth c = Some auth \<and> hm_token_mode m \<notin> {TokenNone, TokenSystem}
          \<and> mapped_subject auth = Some subject_id \<and> trim (pa_actor auth) \<noteq> []
          \<and> session_bound (pa_claims auth) subject_id (trim (pa_actor auth))
          \<and> (case exchange_claim (pa_claims auth) of
               None \<Rightarrow> infer_action (pr_method c) (pr_path c) \<noteq> ''token.exchange''
             | Some x \<Rightarrow> infer_action (pr_method c) (pr_path c) = ''token.exchange'' \<and> exchange_audited x)
          \<and> (hm_token_mode m \<noteq> TokenSenderConstrained \<or> sender_proved (claim_proof (pa_claims auth)))
          \<and> trim (pr_method c) \<noteq> [] \<and> trim (pr_path c) \<noteq> []
          \<and> d_allow (authorize lim (au_kernel a) (projected_request m c (pa_scopes auth))))"
proof (cases "pr_auth c")
  case None
  then show ?thesis by (simp add: evaluate_allow_iff mapped_simps health_read_mapped)
next
  case (Some auth)
  have sys: "infer_action (pr_method c) (pr_path c) \<noteq> ''system.run''" using infer_action_known [of "pr_method c" "pr_path c"] by auto
  have actor: "principal_id (cp_actor (map_request m c)) = Some x \<longleftrightarrow> trim (pa_actor auth) \<noteq> [] \<and> x = trim (pa_actor auth)" for x
    by (auto simp: mapped_principals [OF Some] trimmed_non_empty_def opt_filter_def)
  show ?thesis
    unfolding evaluate_allow_iff mapped_simps health_read_mapped action_of_mapped actor mapped_principals(1) [OF Some]
      mapped_session_binding(1) [OF Some] mapped_exchange [OF Some] mapped_constraint [OF Some] mapped_generic [OF Some]
    using sys by (auto simp: Some)
qed

definition demo_policy_context :: "rstr \<Rightarrow> policy_http_request_context" where
  "demo_policy_context subject =
     \<lparr>pr_method = ''GET'', pr_path = ''/mcp/tools'',
      pr_auth = Some \<lparr>pa_actor = ''svc'', pa_scopes = [''mcp:read''], pa_roles = [], pa_azp = None, pa_subject = Some subject,
        pa_claims = JObject [(''bound_subject'', JString ''alice''), (''aud'', JArray [JString ''svc other''])]\<rparr>,
      pr_surface = Some \<lparr>ps_resource_path = ''/mcp'', ps_resource_url = ''https://h/mcp'', ps_issuer = ''https://i''\<rparr>\<rparr>"

theorem control_plane_http_iff_witness:
  "\<exists>auth. pr_auth (demo_policy_context '' alice '') = Some auth \<and> session_bound (pa_claims auth) ''alice'' ''svc''"
proof -
  have a: "d_allow (evaluate_policy fallback_boundary (cp_authority_new (kernel_of []))
      (map_request http_mapper_default (demo_policy_context '' alice '')))" by code_simp
  have t: "mapped_subject (the (pr_auth (demo_policy_context '' alice ''))) = Some ''alice''"
    "trim (pa_actor (the (pr_auth (demo_policy_context '' alice '')))) = ''svc''" by code_simp+
  show ?thesis
    using a [unfolded control_plane_http_iff] t by (auto simp: cp_authority_new_def)
qed

text \<open>
  A single audience is projected as a string, which the kernel splits at white space: a token whose only audience is
  the one element \<open>svc other\<close> is refused for the audience \<open>svc\<close> on its own claims and admitted through the
  control plane.
\<close>

lemma single_audience_is_split:
  "\<not> d_allow (enforce_claims fallback_boundary
       \<lparr>expected_issuer = None, expected_audience = Some ''svc'', allowed_azp = []\<rparr>
       [(''aud'', JArray [JString ''svc other''])])
   \<and> d_allow (evaluate_policy fallback_boundary (cp_authority_new (kernel_of [OptAudience ''svc'']))
       (map_request http_mapper_default (demo_policy_context ''alice'')))"
  by (intro conjI; code_simp)

text \<open>A mapper in system mode is refused on every request, since it never infers the system action.\<close>

lemma system_mode_never_admitted:
  assumes "hm_token_mode m = TokenSystem" and "au_health_status_exposure a = Protected"
  shows "\<not> d_allow (evaluate_policy lim a (map_request m c))"
proof -
  have "infer_action (pr_method c) (pr_path c) \<noteq> ''system.run''" using infer_action_known [of "pr_method c" "pr_path c"] by auto
  then show ?thesis using assms by (simp add: evaluate_allow_iff mapped_simps action_of_mapped)
qed

lemma protected_kernel_authorised:
  assumes "d_allow (evaluate_policy lim a (map_request m c))" and "au_health_status_exposure a = Protected"
  obtains auth where "pr_auth c = Some auth" "d_allow (authorize lim (au_kernel a) (projected_request m c (pa_scopes auth)))"
proof (cases "pr_auth c")
  case None
  then show ?thesis using assms by (simp add: evaluate_allow_iff mapped_simps)
next
  case (Some auth)
  then show ?thesis using assms that by (auto simp: evaluate_allow_iff mapped_generic [OF Some])
qed

end
