(* ===== verification/Kernel_Adapters.thy ===== *)
theory Kernel_Adapters
  imports Policy_Authority Http_Path Claims Sql_Policy
begin

text \<open>
  The Rust policy kernels behind the runtime's authorities, \<open>lib.rs\<close> of \<open>mcp-toolkit-policy-kernel-adapters\<close>: the
  gateway decision with its scope families, the data-access query decision and the observability decision, and the
  four kernel-backed authorities of \<open>policy_authority.rs\<close> built from them.  The claim limits and the delimiter
  check are the same text as in the policy core, so the definitions of \<open>Claims\<close> and \<open>Http_Path\<close> serve both.
\<close>

section \<open>Scope families\<close>

datatype scope_family_kind =
    Users | Groups | Roles | Clients | ClientScopes | Idp | Events | Tokens | Observability | Realm

definition path_segments :: "rstr \<Rightarrow> rstr list" where
  "path_segments path = filter (\<lambda>s. s \<noteq> []) (split_on (CHR ''/'') (trim_matches (CHR ''/'') path))"

definition scope_for_rw :: "bool \<Rightarrow> rstr \<Rightarrow> rstr \<Rightarrow> rstr list" where
  "scope_for_rw is_read read_scope write_scope = (if is_read then [read_scope] else [write_scope])"

definition is_client_secret_path :: "rstr list \<Rightarrow> bool" where
  "is_client_secret_path segments \<longleftrightarrow> ''client-secret'' \<in> set segments"

text \<open>\<open>slice::get\<close>.\<close>

definition segment_at :: "rstr list \<Rightarrow> nat \<Rightarrow> rstr option" where
  "segment_at segments i = (if i < length segments then Some (segments ! i) else None)"

definition admin_realm_scope :: "rstr list \<Rightarrow> scope_family_kind option" where
  "admin_realm_scope segments =
     (if segment_at segments 0 \<noteq> Some ''admin'' \<or> segment_at segments 1 \<noteq> Some ''realms'' then None
      else case segment_at segments 3 of
        None \<Rightarrow> None
      | Some s \<Rightarrow> map_of
          [(''users'', Users), (''groups'', Groups), (''roles'', Roles), (''roles-by-id'', Roles), (''clients'', Clients),
           (''client-scopes'', ClientScopes), (''identity-provider'', Idp), (''events'', Events), (''sessions'', Tokens),
           (''user-sessions'', Tokens), (''offline-sessions'', Tokens), (''client-session-stats'', Tokens),
           (''attack-detection'', Observability), (''serverinfo'', Observability), (''metrics'', Observability),
           (''realm'', Realm)] s)"

definition scope_family :: "rstr list \<Rightarrow> scope_family_kind" where
  "scope_family segments =
     (case admin_realm_scope segments of
        Some family \<Rightarrow> family
      | None \<Rightarrow>
          (case segment_at segments 1 of
             None \<Rightarrow> Realm
           | Some s \<Rightarrow>
               (case map_of
                  [(''users'', Users), (''groups'', Groups), (''roles'', Roles), (''roles-by-id'', Roles), (''clients'', Clients),
                   (''client-scopes'', ClientScopes), (''identity-provider'', Idp), (''events'', Events), (''sessions'', Tokens),
                   (''user-sessions'', Tokens), (''offline-sessions'', Tokens), (''client-session-stats'', Tokens),
                   (''attack-detection'', Observability), (''serverinfo'', Observability), (''metrics'', Observability)] s of
                  Some family \<Rightarrow> family
                | None \<Rightarrow> Realm)))"

definition kernel_required_scopes :: "rstr \<Rightarrow> rstr \<Rightarrow> rstr list" where
  "kernel_required_scopes method path =
     (let segments = path_segments path;
          is_read = (method \<in> {''GET'', ''HEAD'', ''OPTIONS''})
      in case scope_family segments of
           Users \<Rightarrow> scope_for_rw is_read ''keycloak-admin:users:read'' ''keycloak-admin:users:write''
         | Groups \<Rightarrow> scope_for_rw is_read ''keycloak-admin:groups:read'' ''keycloak-admin:groups:write''
         | Roles \<Rightarrow> scope_for_rw is_read ''keycloak-admin:roles:read'' ''keycloak-admin:roles:write''
         | Clients \<Rightarrow>
             if is_client_secret_path segments then [''keycloak-admin:clients:secrets'']
             else scope_for_rw is_read ''keycloak-admin:clients:read'' ''keycloak-admin:clients:write''
         | ClientScopes \<Rightarrow>
             scope_for_rw is_read ''keycloak-admin:client-scopes:read'' ''keycloak-admin:client-scopes:write''
         | Idp \<Rightarrow> scope_for_rw is_read ''keycloak-admin:idp:read'' ''keycloak-admin:idp:write''
         | Events \<Rightarrow> scope_for_rw is_read ''keycloak-admin:events:read'' ''keycloak-admin:events:admin''
         | Realm \<Rightarrow> scope_for_rw is_read ''keycloak-admin:realm:read'' ''keycloak-admin:realm:write''
         | Tokens \<Rightarrow> if is_read then [''keycloak-admin:tokens:read''] else [''keycloak-admin:realm:admin'']
         | Observability \<Rightarrow> [''keycloak-admin:observability:read''])"

section \<open>The gateway decision\<close>

record gateway_decision_input =
  gw_method :: rstr
  gw_path :: rstr
  gw_token_scopes :: "rstr list"
  gw_claims :: json_map
  gw_cfg :: claims_cfg

definition gateway_input_within_boundary_limits :: "boundary \<Rightarrow> gateway_decision_input \<Rightarrow> bool" where
  "gateway_input_within_boundary_limits lim i \<longleftrightarrow>
     string_within_boundary_limit lim (gw_method i) \<and> string_within_boundary_limit lim (gw_path i)
     \<and> list_within_boundary_limits lim (gw_token_scopes i)
     \<and> optional_string_within_boundary_limit lim (expected_issuer (gw_cfg i))
     \<and> optional_string_within_boundary_limit lim (expected_audience (gw_cfg i))
     \<and> list_within_boundary_limits lim (allowed_azp (gw_cfg i))
     \<and> normalized_claim_string_within_limits lim (gw_claims i) ''iss''
     \<and> normalized_claim_string_within_limits lim (gw_claims i) ''azp''
     \<and> normalized_claim_string_within_limits lim (gw_claims i) ''client_id''
     \<and> normalized_claim_audience_within_limits lim (gw_claims i)"

definition kernel_gateway_path_denied :: "rstr \<Rightarrow> rstr list \<Rightarrow> bool" where
  "kernel_gateway_path_denied path segments \<longleftrightarrow>
     CHR '';'' \<in> set path \<or> CHR ''?'' \<in> set path \<or> CHR ''#'' \<in> set path \<or> CHR 0x5C \<in> set path
     \<or> contains_encoded_delimiter path \<or> list_ex (\<lambda>s. s = ''.'' \<or> s = ''..'') segments"

definition gateway_decision :: "boundary \<Rightarrow> gateway_decision_input \<Rightarrow> decision" where
  "gateway_decision lim i =
     (if \<not> gateway_input_within_boundary_limits lim i then decision_deny InvalidInput (Some ''boundary_limits'')
      else let claims_decision = enforce_claims lim (gw_cfg i) (gw_claims i) in
      if \<not> d_allow claims_decision then claims_decision
      else let segments = path_segments (gw_path i) in
      if kernel_gateway_path_denied (gw_path i) segments then decision_deny InvalidPath None
      else if segments = [] then decision_deny MissingRealm None
      else let scopes = kernel_required_scopes (gw_method i) (gw_path i) in
      if list_ex (\<lambda>scope. scope \<notin> set (gw_token_scopes i)) scopes then decision_deny MissingScopes None
      else with_required_scopes decision_allow scopes)"

section \<open>The data-access decisions\<close>

record das_auth_input =
  das_scopes :: "rstr list"
  das_roles :: "rstr list"
  das_azp :: "rstr option"
  das_is_system :: bool
  das_claims :: json_map
  das_project_id :: int

record das_cfg_input =
  write_implies_read :: bool
  system_allow_endpoints :: "rstr list"
  system_allow_sql_keys :: "rstr list"
  devtools_roles :: "rstr list"
  delegation_mode :: bool

datatype sql_access = AccessRead | AccessWrite

datatype sql_risk = RiskLow | RiskHigh

datatype quorum_state = QuorumOk | QuorumIsMissing | QuorumIsStale | QuorumDisabled

record das_query_input =
  q_endpoint :: rstr
  q_sql_key :: rstr
  q_params_hash :: rstr
  q_access :: sql_access
  q_risk :: sql_risk
  q_quorum_state :: quorum_state

record das_decision_input =
  dd_auth :: das_auth_input
  dd_cfg :: das_cfg_input
  dd_query :: das_query_input
  dd_allowlist :: "rstr list"

record das_observability_input =
  do_auth :: das_auth_input
  do_cfg :: das_cfg_input
  do_endpoint :: rstr

definition das_auth_within_boundary_limits :: "boundary \<Rightarrow> das_auth_input \<Rightarrow> bool" where
  "das_auth_within_boundary_limits lim a \<longleftrightarrow>
     list_within_boundary_limits lim (das_scopes a) \<and> list_within_boundary_limits lim (das_roles a)
     \<and> optional_string_within_boundary_limit lim (das_azp a)
     \<and> optional_string_within_boundary_limit lim (get_str (das_claims a) ''sql_key'')
     \<and> optional_string_within_boundary_limit lim (get_str (das_claims a) ''params_hash'')
     \<and> das_project_id a \<ge> 0"

definition das_cfg_within_boundary_limits :: "boundary \<Rightarrow> das_cfg_input \<Rightarrow> bool" where
  "das_cfg_within_boundary_limits lim c \<longleftrightarrow>
     list_within_boundary_limits lim (system_allow_endpoints c)
     \<and> list_within_boundary_limits lim (system_allow_sql_keys c) \<and> list_within_boundary_limits lim (devtools_roles c)"

definition das_query_within_boundary_limits :: "boundary \<Rightarrow> das_query_input \<Rightarrow> bool" where
  "das_query_within_boundary_limits lim q \<longleftrightarrow>
     string_within_boundary_limit lim (q_endpoint q) \<and> string_within_boundary_limit lim (q_sql_key q)
     \<and> string_within_boundary_limit lim (q_params_hash q)"

definition das_query_input_within_boundary_limits :: "boundary \<Rightarrow> das_decision_input \<Rightarrow> bool" where
  "das_query_input_within_boundary_limits lim i \<longleftrightarrow>
     das_auth_within_boundary_limits lim (dd_auth i) \<and> das_cfg_within_boundary_limits lim (dd_cfg i)
     \<and> das_query_within_boundary_limits lim (dd_query i) \<and> list_within_boundary_limits lim (dd_allowlist i)"

definition das_observability_input_within_boundary_limits :: "boundary \<Rightarrow> das_observability_input \<Rightarrow> bool" where
  "das_observability_input_within_boundary_limits lim i \<longleftrightarrow>
     das_auth_within_boundary_limits lim (do_auth i) \<and> das_cfg_within_boundary_limits lim (do_cfg i)
     \<and> string_within_boundary_limit lim (do_endpoint i)"

definition das_query_decision :: "boundary \<Rightarrow> das_decision_input \<Rightarrow> decision" where
  "das_query_decision lim i =
     (let auth = dd_auth i; cfg = dd_cfg i; q = dd_query i in
      if \<not> das_query_input_within_boundary_limits lim i then decision_deny InvalidInput (Some ''boundary_limits'')
      else if das_is_system auth \<and> q_endpoint q \<notin> set (system_allow_endpoints cfg)
      then decision_deny SystemTokenForbidden None
      else if das_is_system auth \<and> q_endpoint q = ''query''
        \<and> (system_allow_sql_keys cfg = [] \<or> q_sql_key q \<notin> set (system_allow_sql_keys cfg))
      then decision_deny SystemTokenForbidden None
      else if q_sql_key q \<notin> set (dd_allowlist i) then decision_deny AllowlistDenied None
      else if \<not> (case q_access q of
                 AccessWrite \<Rightarrow> ''ops:write'' \<in> set (das_scopes auth)
               | AccessRead \<Rightarrow> ''ops:read'' \<in> set (das_scopes auth)
                   \<or> write_implies_read cfg \<and> ''ops:write'' \<in> set (das_scopes auth))
      then decision_deny MissingScopes None
      else if q_quorum_state q \<in> {QuorumIsMissing, QuorumIsStale} \<and> (q_risk q = RiskHigh \<or> q_access q = AccessWrite)
      then decision_deny (case q_quorum_state q of QuorumIsStale \<Rightarrow> QuorumStale | _ \<Rightarrow> QuorumMissing) None
      else if delegation_mode cfg
      then (let expected_key = get_str (das_claims auth) ''sql_key'';
                expected_hash = get_str (das_claims auth) ''params_hash''
            in if expected_key = None \<or> expected_hash = None then decision_deny CapabilityMissing None
               else if expected_key \<noteq> Some (q_sql_key q) \<or> expected_hash \<noteq> Some (q_params_hash q)
               then decision_deny CapabilityMismatch None
               else decision_allow)
      else decision_allow)"

definition das_observability_decision :: "boundary \<Rightarrow> das_observability_input \<Rightarrow> decision" where
  "das_observability_decision lim i =
     (let auth = do_auth i; cfg = do_cfg i in
      if \<not> das_observability_input_within_boundary_limits lim i
      then decision_deny InvalidInput (Some ''boundary_limits'')
      else if das_is_system auth
      then (if do_endpoint i \<notin> set (system_allow_endpoints cfg) then decision_deny SystemTokenForbidden None
            else decision_allow)
      else if devtools_roles cfg = [] then decision_deny MissingRoles None
      else if list_ex (\<lambda>role. role \<in> set (devtools_roles cfg)) (das_roles auth) then decision_allow
      else decision_deny MissingRoles None)"

section \<open>The kernel-backed authorities\<close>

definition kernel_authority_new ::
  "rstr \<Rightarrow> policy_runtime_mode \<Rightarrow> rstr option \<Rightarrow> ('i \<Rightarrow> decision) \<Rightarrow> ('i \<Rightarrow> (rstr, decision) result)
     \<Rightarrow> 'i kernel_policy_authority" where
  "kernel_authority_new source mode version rust spark =
     \<lparr>ka_decision_source = source, ka_runtime_mode = mode, ka_policy_contract_version = version,
      ka_rust_evaluator = rust, ka_spark_evaluator = spark\<rparr>"

definition sql_restricted_policy_authority where
  "sql_restricted_policy_authority re lim spark mode =
     kernel_authority_new ''mcp_toolkit_policy_runtime.sql_restricted'' mode (Some SQL_POLICY_CONTRACT_VERSION)
       (sql_restricted_policy_decision re lim) spark"

definition gateway_policy_authority where
  "gateway_policy_authority lim spark mode =
     kernel_authority_new ''mcp_toolkit_policy_runtime.gateway'' mode None (gateway_decision lim) spark"

definition das_query_policy_authority where
  "das_query_policy_authority lim spark mode =
     kernel_authority_new ''mcp_toolkit_policy_runtime.das_query'' mode None (das_query_decision lim) spark"

definition das_observability_policy_authority where
  "das_observability_policy_authority lim spark mode =
     kernel_authority_new ''mcp_toolkit_policy_runtime.das_observability'' mode None (das_observability_decision lim) spark"

section \<open>The gates\<close>

lemma enforce_claims_wf: "decision_wf (enforce_claims lim cfg claims)"
  using claims_gate.gate_wf [of lim "(cfg, claims)"] by simp

interpretation gateway_gate: decision_gate "gateway_decision lim" for lim
  by unfold_locales (auto simp: gateway_decision_def Let_def enforce_claims_wf)

interpretation das_query_gate: decision_gate "das_query_decision lim" for lim
  by unfold_locales (auto simp: das_query_decision_def Let_def)

interpretation das_observability_gate: decision_gate "das_observability_decision lim" for lim
  by unfold_locales (auto simp: das_observability_decision_def Let_def)

section \<open>Properties\<close>

text \<open>
  A data-access query is allowed exactly when every control agrees.  The input is within the limits; the statement key is
  on the allowlist; a system token is used only for its endpoints and, for queries, its keys; the access needs its
  scope; a write or a high-risk read needs a quorum that is neither missing nor stale; and a delegated token names this
  very statement and these very parameters.
\<close>

lemma das_query_iff:
  "d_allow (das_query_decision lim i) \<longleftrightarrow>
     das_query_input_within_boundary_limits lim i
     \<and> q_sql_key (dd_query i) \<in> set (dd_allowlist i)
     \<and> (das_is_system (dd_auth i) \<longrightarrow>
          q_endpoint (dd_query i) \<in> set (system_allow_endpoints (dd_cfg i))
          \<and> (q_endpoint (dd_query i) = ''query'' \<longrightarrow> q_sql_key (dd_query i) \<in> set (system_allow_sql_keys (dd_cfg i))))
     \<and> (''ops:write'' \<in> set (das_scopes (dd_auth i)) \<and> (q_access (dd_query i) = AccessWrite \<or> write_implies_read (dd_cfg i))
        \<or> ''ops:read'' \<in> set (das_scopes (dd_auth i)) \<and> q_access (dd_query i) = AccessRead)
     \<and> (q_quorum_state (dd_query i) \<in> {QuorumOk, QuorumDisabled}
        \<or> q_access (dd_query i) = AccessRead \<and> q_risk (dd_query i) = RiskLow)
     \<and> (delegation_mode (dd_cfg i) \<longrightarrow>
          map_of (das_claims (dd_auth i)) ''sql_key'' = Some (JString (q_sql_key (dd_query i)))
          \<and> map_of (das_claims (dd_auth i)) ''params_hash'' = Some (JString (q_params_hash (dd_query i))))"
proof -
  have claim: "get_str m k = Some s \<longleftrightarrow> map_of m k = Some (JString s)" for m k s
    by (auto simp: get_str_def bind_eq_Some_conv)
  show ?thesis
    unfolding das_query_decision_def Let_def
    by (cases "q_access (dd_query i)"; cases "q_risk (dd_query i)"; cases "q_quorum_state (dd_query i)")
      (simp_all add: claim [symmetric], (auto)?)
qed

lemma required_scope_single: "\<exists>s. kernel_required_scopes method path = [s]"
  by (auto simp: kernel_required_scopes_def Let_def scope_for_rw_def split: scope_family_kind.splits)

lemma read_scope_kinds:
  assumes "s \<in> set (kernel_required_scopes method path)" and "suffix '':read'' s"
  shows "method \<in> {''GET'', ''HEAD'', ''OPTIONS''} \<or> scope_family (path_segments path) = Observability"
  using assms
  by (auto simp: kernel_required_scopes_def Let_def scope_for_rw_def suffix_def split: scope_family_kind.splits if_splits)

lemma gateway_allow_iff:
  "d_allow (gateway_decision lim i) \<longleftrightarrow>
     gateway_input_within_boundary_limits lim i \<and> d_allow (enforce_claims lim (gw_cfg i) (gw_claims i))
     \<and> \<not> kernel_gateway_path_denied (gw_path i) (path_segments (gw_path i)) \<and> path_segments (gw_path i) \<noteq> []
     \<and> set (kernel_required_scopes (gw_method i) (gw_path i)) \<subseteq> set (gw_token_scopes i)"
  by (auto simp: gateway_decision_def Let_def list_ex_iff)

text \<open>
  C14: the gateway kernel admits only what the claims and one scope cover.  An allowed request has claims that meet the
  configured issuer, audience and client; its path has a segment, no dot segment, no delimiter and no encoded one; the
  single scope of its family and method is held by the token and reported; and a token that holds only read scopes is
  never allowed a method other than GET, HEAD or OPTIONS, except on the observability paths.
\<close>

theorem gateway_confinement:
  assumes "d_allow (gateway_decision lim i)"
  shows "claims_admitted (gw_cfg i) (gw_claims i)
    \<and> path_segments (gw_path i) \<noteq> [] \<and> set (path_segments (gw_path i)) \<inter> {''.'', ''..''} = {}
    \<and> set (gw_path i) \<inter> {CHR '';'', CHR ''?'', CHR ''#'', CHR 0x5C} = {} \<and> \<not> contains_encoded_delimiter (gw_path i)
    \<and> (\<exists>scope \<in> set (gw_token_scopes i). kernel_required_scopes (gw_method i) (gw_path i) = [scope]
         \<and> d_required_scopes (gateway_decision lim i) = Some [scope])
    \<and> ((\<forall>s \<in> set (gw_token_scopes i). suffix '':read'' s) \<longrightarrow>
         gw_method i \<in> {''GET'', ''HEAD'', ''OPTIONS''} \<or> scope_family (path_segments (gw_path i)) = Observability)"
proof -
  note a = assms [unfolded gateway_allow_iff]
  obtain s where s: "kernel_required_scopes (gw_method i) (gw_path i) = [s]" using required_scope_single by blast
  then have m: "s \<in> set (gw_token_scopes i)" using a by simp
  have "d_required_scopes (gateway_decision lim i) = Some [s]"
    using assms s a by (auto simp: gateway_decision_def Let_def list_ex_iff with_required_scopes_def)
  moreover have "gw_method i \<in> {''GET'', ''HEAD'', ''OPTIONS''} \<or> scope_family (path_segments (gw_path i)) = Observability"
    if "\<forall>s \<in> set (gw_token_scopes i). suffix '':read'' s"
    using read_scope_kinds [of s "gw_method i" "gw_path i"] s m that by simp
  moreover have "claims_admitted (gw_cfg i) (gw_claims i)" using a by (simp add: enforce_claims_allow_iff)
  moreover have "set (path_segments (gw_path i)) \<inter> {''.'', ''..''} = {}"
    "set (gw_path i) \<inter> {CHR '';'', CHR ''?'', CHR ''#'', CHR 0x5C} = {}" "\<not> contains_encoded_delimiter (gw_path i)"
    using a unfolding kernel_gateway_path_denied_def list_ex_iff by blast+
  ultimately show ?thesis using s m a by blast
qed

definition demo_gateway :: "rstr \<Rightarrow> rstr \<Rightarrow> rstr \<Rightarrow> gateway_decision_input" where
  "demo_gateway method path scope =
     \<lparr>gw_method = method, gw_path = path, gw_token_scopes = [scope], gw_claims = [(''iss'', JString ''i'')],
      gw_cfg = \<lparr>expected_issuer = Some ''i'', expected_audience = None, allowed_azp = []\<rparr>\<rparr>"

theorem gateway_confinement_witness:
  "claims_admitted (gw_cfg (demo_gateway ''GET'' ''/admin/realms/r/users/1'' ''keycloak-admin:users:read''))
     [(''iss'', JString ''i'')]
   \<and> kernel_required_scopes ''GET'' ''/admin/realms/r/users/1'' = [''keycloak-admin:users:read'']"
proof -
  let ?i = "demo_gateway ''GET'' ''/admin/realms/r/users/1'' ''keycloak-admin:users:read''"
  have "d_allow (gateway_decision fallback_boundary ?i)" by code_simp
  from gateway_confinement [OF this] show ?thesis by (auto simp: demo_gateway_def)
qed

text \<open>
  Two consequences of the tables.  A percent-encoded letter hides the family, and any unknown path needs only the realm
  scope; and the observability family asks for its read scope whatever the method.
\<close>

lemma encoded_segment_falls_back_to_realm:
  "d_required_scopes (gateway_decision fallback_boundary
     (demo_gateway ''GET'' ''/admin/realms/r/%75sers'' ''keycloak-admin:realm:read'')) = Some [''keycloak-admin:realm:read'']
   \<and> d_allow (gateway_decision fallback_boundary
     (demo_gateway ''GET'' ''/admin/realms/r/no-such-family'' ''keycloak-admin:realm:read''))"
  by code_simp

lemma observability_write_with_read_scope:
  "d_allow (gateway_decision fallback_boundary
     (demo_gateway ''DELETE'' ''/admin/realms/r/attack-detection/brute-force/users'' ''keycloak-admin:observability:read''))"
  by code_simp

end
