(* ===== verification/Capability_Guard.thy ===== *)
theory Capability_Guard
  imports Prelude "HOL-Library.AList"
begin

text \<open>
  The capability guard, \<open>capability_guard.rs\<close> (crate \<open>mcp-toolkit-policy-runtime\<close>): a bounded cache of successful
  capability checks with a time to live, and the marks of refreshes in flight.  The two hash maps are association lists
  with distinct keys; instants and durations are nanoseconds.  Every reading of the clock is an argument, in the
  order of the calls: the two of the prunings and the one of the insertion.  A poisoned lock is a flag of the guard.
\<close>

section \<open>State and operations\<close>

record 'k capability_guard =
  cg_ttl :: nat
  cg_max_entries :: nat
  cg_verified :: "('k \<times> nat) list"
  cg_in_flight :: "('k \<times> nat) list"
  cg_poisoned :: bool

datatype capability_refresh_state = FreshSuccess | StartRefresh | RefreshInFlight

record capability_guard_error =
  cge_code :: rstr
  cge_reason :: rstr
  cge_message :: rstr

definition guard_unavailable :: capability_guard_error where
  "guard_unavailable =
     \<lparr>cge_code = ''CAPABILITY_GUARD_UNAVAILABLE'', cge_reason = ''guard_unavailable'',
      cge_message = ''capability guard is unavailable''\<rparr>"

definition INFLIGHT_REFRESH_TTL :: nat where
  "INFLIGHT_REFRESH_TTL = 5 * 10 ^ 9"

record guard_clock =
  prune_verified_now :: nat
  prune_in_flight_now :: nat
  insert_now :: nat

definition guard_new :: "nat \<Rightarrow> nat \<Rightarrow> 'k capability_guard" where
  "guard_new ttl max_entries =
     \<lparr>cg_ttl = ttl, cg_max_entries = max max_entries 1, cg_verified = [], cg_in_flight = [], cg_poisoned = False\<rparr>"

definition prune_expired :: "('k \<times> nat) list \<Rightarrow> nat \<Rightarrow> nat \<Rightarrow> ('k \<times> nat) list" where
  "prune_expired m ttl now = (if ttl = 0 then [] else filter (\<lambda>(_, recorded_at). now - recorded_at \<le> ttl) m)"

definition record_verified :: "('k \<times> nat) list \<Rightarrow> 'k \<Rightarrow> nat \<Rightarrow> nat \<Rightarrow> ('k \<times> nat) list" where
  "record_verified verified capability max_entries now =
     (if map_of verified capability = None \<and> length verified \<ge> max_entries then verified
      else AList.update capability now verified)"

definition pruned :: "guard_clock \<Rightarrow> 'k capability_guard \<Rightarrow> 'k capability_guard" where
  "pruned clk g =
     g\<lparr>cg_verified := prune_expired (cg_verified g) (cg_ttl g) (prune_verified_now clk),
       cg_in_flight := prune_expired (cg_in_flight g) INFLIGHT_REFRESH_TTL (prune_in_flight_now clk)\<rparr>"

definition has_fresh_success ::
  "guard_clock \<Rightarrow> 'k capability_guard \<Rightarrow> 'k \<Rightarrow> (capability_guard_error, bool) result \<times> 'k capability_guard" where
  "has_fresh_success clk g capability =
     (if cg_poisoned g then (Inl guard_unavailable, g)
      else let g = pruned clk g in (Inr (map_of (cg_verified g) capability \<noteq> None), g))"

definition begin_refresh ::
  "guard_clock \<Rightarrow> 'k capability_guard \<Rightarrow> 'k
     \<Rightarrow> (capability_guard_error, capability_refresh_state) result \<times> 'k capability_guard" where
  "begin_refresh clk g capability =
     (if cg_poisoned g then (Inl guard_unavailable, g)
      else let g = pruned clk g in
      if map_of (cg_verified g) capability \<noteq> None then (Inr FreshSuccess, g)
      else if map_of (cg_in_flight g) capability \<noteq> None then (Inr RefreshInFlight, g)
      else (Inr StartRefresh, g\<lparr>cg_in_flight := AList.update capability (insert_now clk) (cg_in_flight g)\<rparr>))"

definition complete_refresh ::
  "guard_clock \<Rightarrow> 'k capability_guard \<Rightarrow> 'k \<Rightarrow> bool \<Rightarrow> (capability_guard_error, unit) result \<times> 'k capability_guard" where
  "complete_refresh clk g capability verified_success =
     (if cg_poisoned g then (Inl guard_unavailable, g)
      else let g = pruned clk g;
               g = g\<lparr>cg_in_flight := AList.delete capability (cg_in_flight g)\<rparr>
           in (Inr (), if verified_success
                 then g\<lparr>cg_verified := record_verified (cg_verified g) capability (cg_max_entries g) (insert_now clk)\<rparr>
                 else g))"

definition guard_invalidate ::
  "'k capability_guard \<Rightarrow> 'k \<Rightarrow> (capability_guard_error, unit) result \<times> 'k capability_guard" where
  "guard_invalidate g capability =
     (if cg_poisoned g then (Inl guard_unavailable, g)
      else (Inr (), g\<lparr>cg_verified := AList.delete capability (cg_verified g)\<rparr>))"

definition record_success ::
  "guard_clock \<Rightarrow> 'k capability_guard \<Rightarrow> 'k \<Rightarrow> (capability_guard_error, unit) result \<times> 'k capability_guard" where
  "record_success clk g capability =
     (if cg_poisoned g then (Inl guard_unavailable, g)
      else let verified = prune_expired (cg_verified g) (cg_ttl g) (prune_verified_now clk)
           in (Inr (), g\<lparr>cg_verified := record_verified verified capability (cg_max_entries g) (insert_now clk)\<rparr>))"

section \<open>Runs\<close>

datatype 'k guard_op = HasFresh 'k | Begin 'k | Complete 'k bool | Invalidate 'k | RecordOp 'k

fun guard_step :: "guard_clock \<times> 'k guard_op \<Rightarrow> 'k capability_guard \<Rightarrow> 'k capability_guard" where
  "guard_step (clk, HasFresh k) g = snd (has_fresh_success clk g k)"
| "guard_step (clk, Begin k) g = snd (begin_refresh clk g k)"
| "guard_step (clk, Complete k ok) g = snd (complete_refresh clk g k ok)"
| "guard_step (clk, Invalidate k) g = snd (guard_invalidate g k)"
| "guard_step (clk, RecordOp k) g = snd (record_success clk g k)"

text \<open>An operation that asserts a success of a capability.\<close>

definition asserts_success :: "'k \<Rightarrow> 'k guard_op \<Rightarrow> bool" where
  "asserts_success k op \<longleftrightarrow> op = Complete k True \<or> op = RecordOp k"

definition guard_inv :: "'k capability_guard \<Rightarrow> bool" where
  "guard_inv g \<longleftrightarrow>
     distinct (map fst (cg_verified g)) \<and> distinct (map fst (cg_in_flight g))
     \<and> length (cg_verified g) \<le> cg_max_entries g \<and> 1 \<le> cg_max_entries g"

lemma prune_expired_subset: "set (prune_expired m ttl now) \<subseteq> set m"
  by (auto simp: prune_expired_def)

lemma prune_expired_distinct: "distinct (map fst m) \<Longrightarrow> distinct (map fst (prune_expired m ttl now))"
  by (simp add: prune_expired_def distinct_map_filter)

lemma prune_expired_length: "length (prune_expired m ttl now) \<le> length m"
  by (simp add: prune_expired_def)

lemma prune_expired_Some:
  assumes "distinct (map fst m)"
  shows "map_of (prune_expired m ttl now) k = Some t \<longleftrightarrow> ttl \<noteq> 0 \<and> map_of m k = Some t \<and> now - t \<le> ttl"
  unfolding map_of_eq_Some_iff [OF assms] map_of_eq_Some_iff [OF prune_expired_distinct [OF assms]]
  by (auto simp: prune_expired_def)

lemma record_verified_distinct:
  "distinct (map fst m) \<Longrightarrow> distinct (map fst (record_verified m k n now))"
  by (simp add: record_verified_def distinct_update)

lemma length_alist_update:
  "length (AList.update k v m) = (if map_of m k = None then Suc (length m) else length m)"
  by (induction m) auto

lemma record_verified_length:
  "length m \<le> n \<Longrightarrow> 1 \<le> n \<Longrightarrow> length (record_verified m k n now) \<le> n"
  by (auto simp: record_verified_def length_alist_update)

lemmas guard_op_defs = has_fresh_success_def begin_refresh_def complete_refresh_def guard_invalidate_def record_success_def
  pruned_def Let_def

lemma guard_inv_verified:
  "guard_inv g \<Longrightarrow> distinct (map fst m) \<Longrightarrow> length m \<le> cg_max_entries g \<Longrightarrow> guard_inv (g\<lparr>cg_verified := m\<rparr>)"
  by (simp add: guard_inv_def)

lemma guard_inv_in_flight: "guard_inv g \<Longrightarrow> distinct (map fst m) \<Longrightarrow> guard_inv (g\<lparr>cg_in_flight := m\<rparr>)"
  by (simp add: guard_inv_def)

lemma guard_inv_pruned: "guard_inv g \<Longrightarrow> guard_inv (pruned clk g)"
  unfolding guard_inv_def pruned_def by (simp add: prune_expired_distinct le_trans [OF prune_expired_length])

lemma guard_inv_recorded:
  assumes "guard_inv g" and "distinct (map fst m)" and "length m \<le> cg_max_entries g"
  shows "guard_inv (g\<lparr>cg_verified := record_verified m k (cg_max_entries g) now\<rparr>)"
  using assms by (intro guard_inv_verified record_verified_distinct record_verified_length) (auto simp: guard_inv_def)

lemma guard_inv_step:
  assumes inv: "guard_inv g"
  shows "guard_inv (guard_step e g)"
proof -
  obtain clk op where e: "e = (clk, op)" by (rule prod.exhaust)
  let ?p = "pruned clk g"
  have p: "guard_inv ?p" by (rule guard_inv_pruned [OF inv])
  have d: "distinct (map fst (cg_verified g))" "distinct (map fst (cg_verified ?p))" "distinct (map fst (cg_in_flight ?p))"
    "length (cg_verified ?p) \<le> cg_max_entries ?p" "length (cg_verified g) \<le> cg_max_entries g"
    using inv p by (simp_all add: guard_inv_def)
  have started: "guard_inv (?p\<lparr>cg_in_flight := AList.update k n (cg_in_flight ?p)\<rparr>)" for k n
    by (intro guard_inv_in_flight p distinct_update d)
  have complete: "guard_inv (?p\<lparr>cg_in_flight := AList.delete k (cg_in_flight ?p)\<rparr>)" for k
    by (intro guard_inv_in_flight p distinct_delete d)
  have recorded: "guard_inv (?p\<lparr>cg_in_flight := AList.delete k (cg_in_flight ?p),
      cg_verified := record_verified (cg_verified ?p) k (cg_max_entries ?p) n\<rparr>)" for k n
    using guard_inv_recorded [OF complete [of k] d(2), of k n] d(4) by simp
  have dropped: "guard_inv (g\<lparr>cg_verified := AList.delete k (cg_verified g)\<rparr>)" for k
    using d(5) by (intro guard_inv_verified inv distinct_delete d(1)) (rule le_trans [OF length_delete_le])
  have success: "guard_inv (g\<lparr>cg_verified := record_verified (prune_expired (cg_verified g) t n) k (cg_max_entries g) m\<rparr>)"
    for t n k m
    using d(5) by (intro guard_inv_recorded inv prune_expired_distinct d(1)) (rule le_trans [OF prune_expired_length])
  show ?thesis
    by (cases op) (simp_all add: e has_fresh_success_def begin_refresh_def complete_refresh_def guard_invalidate_def
        record_success_def Let_def inv p started complete recorded dropped success)
qed

lemma guard_inv_new: "guard_inv (guard_new ttl n)"
  by (simp add: guard_new_def guard_inv_def)

interpretation guard_machine: invariant_machine "\<lambda>g. \<exists>ttl n. g = guard_new ttl n" guard_step guard_inv
  by unfold_locales (auto intro: guard_inv_new guard_inv_step)

section \<open>Successes\<close>

text \<open>
  Why an entry is in the cache: some operation of the history asserted it, at the recorded instant, and the
  capability was not invalidated since.
\<close>

definition asserted :: "(guard_clock \<times> 'k guard_op) list \<Rightarrow> 'k \<Rightarrow> nat \<Rightarrow> bool" where
  "asserted h k t \<longleftrightarrow>
     (\<exists>before clk op after. h = before @ (clk, op) # after \<and> asserts_success k op \<and> insert_now clk = t
        \<and> (\<forall>(_, op') \<in> set after. op' \<noteq> Invalidate k))"

lemma asserted_snoc: "asserted h k t \<Longrightarrow> op \<noteq> Invalidate k \<Longrightarrow> asserted (h @ [(clk, op)]) k t"
  unfolding asserted_def by (elim exE conjE) (rule exI, rule exI, rule exI, rule exI, rule conjI, simp, auto)

lemma asserted_now: "asserts_success k op \<Longrightarrow> asserted (h @ [(clk, op)]) k (insert_now clk)"
  unfolding asserted_def by (rule exI [of _ h], rule exI [of _ clk], rule exI [of _ op], rule exI [of _ "[]"]) simp

lemma record_verified_Some:
  "map_of (record_verified m k n now) c = Some t \<Longrightarrow> map_of m c = Some t \<or> c = k \<and> t = now"
  by (auto simp: record_verified_def update_conv split: if_splits)

lemma step_verified_Some:
  assumes inv: "guard_inv g" and s: "map_of (cg_verified (guard_step (clk, op) g)) c = Some t"
  shows "map_of (cg_verified g) c = Some t \<and> op \<noteq> Invalidate c \<or> asserts_success c op \<and> t = insert_now clk \<or> cg_poisoned g"
proof -
  have d: "distinct (map fst (cg_verified g))" using inv by (simp add: guard_inv_def)
  have p: "map_of (cg_verified (pruned clk g)) c = Some t \<Longrightarrow> map_of (cg_verified g) c = Some t" for c t
    by (simp add: pruned_def prune_expired_Some [OF d])
  have q: "map_of (prune_expired (cg_verified g) l n) c = Some t \<Longrightarrow> map_of (cg_verified g) c = Some t" for l n c t
    by (simp add: prune_expired_Some [OF d])
  show ?thesis
  proof (cases "cg_poisoned g")
    case False
    then show ?thesis using s
      by (cases op) (auto simp: has_fresh_success_def begin_refresh_def complete_refresh_def guard_invalidate_def
          record_success_def Let_def asserts_success_def delete_conv' dest: p q dest!: record_verified_Some split: if_splits)
  qed simp
qed

lemma guard_step_frame:
  "cg_ttl (guard_step e g) = cg_ttl g \<and> cg_max_entries (guard_step e g) = cg_max_entries g
   \<and> cg_poisoned (guard_step e g) = cg_poisoned g"
  by (cases e; cases "snd e")
    (auto simp: has_fresh_success_def begin_refresh_def complete_refresh_def guard_invalidate_def record_success_def
      pruned_def Let_def)

lemma guard_run_frame:
  "cg_ttl (fold guard_step h g) = cg_ttl g \<and> cg_max_entries (fold guard_step h g) = cg_max_entries g
   \<and> cg_poisoned (fold guard_step h g) = cg_poisoned g"
  by (induction h arbitrary: g) (simp_all add: guard_step_frame)

lemma verified_asserted:
  "map_of (cg_verified (fold guard_step h (guard_new ttl n))) k = Some t \<Longrightarrow> asserted h k t"
proof (induction h arbitrary: k t rule: rev_induct)
  case Nil
  then show ?case by (simp add: guard_new_def)
next
  case (snoc e h)
  let ?g = "fold guard_step h (guard_new ttl n)"
  obtain clk op where e: "e = (clk, op)" by (rule prod.exhaust)
  have inv: "guard_inv ?g" by (rule guard_machine.run_inv) blast
  have "\<not> cg_poisoned ?g" using guard_run_frame [of h "guard_new ttl n"] by (simp add: guard_new_def)
  then have "map_of (cg_verified ?g) k = Some t \<and> op \<noteq> Invalidate k \<or> asserts_success k op \<and> t = insert_now clk"
    using step_verified_Some [OF inv, of clk op k t] snoc.prems e by auto
  then show ?case using snoc.IH asserted_snoc asserted_now e by metis
qed

section \<open>Refreshes in flight\<close>

lemma in_flight_kept:
  assumes inv: "guard_inv g" and f: "map_of (cg_in_flight g) k = Some t" and p: "\<not> cg_poisoned g"
    and op: "\<And>ok. op \<noteq> Complete k ok" and now: "prune_in_flight_now clk \<le> t + INFLIGHT_REFRESH_TTL"
  shows "map_of (cg_in_flight (guard_step (clk, op) g)) k = Some t"
proof -
  have d: "distinct (map fst (cg_in_flight g))" using inv by (simp add: guard_inv_def)
  have q: "map_of (prune_expired (cg_in_flight g) INFLIGHT_REFRESH_TTL (prune_in_flight_now clk)) k = Some t"
    using f now by (simp add: prune_expired_Some [OF d] INFLIGHT_REFRESH_TTL_def)
  then have r: "map_of (cg_in_flight (pruned clk g)) k = Some t" by (simp add: pruned_def)
  show ?thesis
  proof (cases op)
    case (Begin k')
    then show ?thesis using p r by (auto simp: begin_refresh_def Let_def update_conv split: if_splits)
  next
    case (Complete k' ok)
    then show ?thesis using p r op by (auto simp: complete_refresh_def Let_def delete_conv')
  qed (use p r f in \<open>auto simp: has_fresh_success_def guard_invalidate_def record_success_def Let_def\<close>)
qed

lemma in_flight_run:
  assumes "guard_inv g" and "map_of (cg_in_flight g) k = Some t" and "\<not> cg_poisoned g"
    and "\<forall>(clk, op) \<in> set h. (\<forall>ok. op \<noteq> Complete k ok) \<and> prune_in_flight_now clk \<le> t + INFLIGHT_REFRESH_TTL"
  shows "map_of (cg_in_flight (fold guard_step h g)) k = Some t"
  using assms
proof (induction h arbitrary: g)
  case (Cons e h)
  obtain clk op where e: "e = (clk, op)" by (rule prod.exhaust)
  have "map_of (cg_in_flight (guard_step (clk, op) g)) k = Some t"
    using Cons.prems e by (intro in_flight_kept) auto
  moreover have "guard_inv (guard_step e g)" "\<not> cg_poisoned (guard_step e g)"
    using Cons.prems(1,3) by (simp_all add: guard_inv_step guard_step_frame)
  ultimately show ?case using Cons.IH [of "guard_step e g"] Cons.prems(4) e by simp
qed simp

section \<open>Properties\<close>

text \<open>
  C38: a cached success is recent, asserted and not withdrawn, and the cache is bounded.  After any operations on a new
  guard, at any clock readings, it holds no more entries than configured (one at least); and it reports a fresh success only
  if the time to live is not zero and some earlier operation asserted a success of this capability no longer ago than the
  time to live, with no invalidation of it in between.
\<close>

theorem fresh_success_justified:
  assumes "g = fold guard_step h (guard_new ttl n)"
  shows "length (cg_verified g) \<le> max n 1
    \<and> (fst (has_fresh_success clk g k) = Inr True \<longrightarrow>
         ttl \<noteq> 0 \<and> (\<exists>t. asserted h k t \<and> prune_verified_now clk \<le> t + ttl))"
proof -
  have inv: "guard_inv g" unfolding assms by (rule guard_machine.run_inv) blast
  then have d: "distinct (map fst (cg_verified g))" by (simp add: guard_inv_def)
  have frame: "cg_ttl g = ttl" "cg_max_entries g = max n 1" "\<not> cg_poisoned g"
    using guard_run_frame [of h "guard_new ttl n"] by (simp_all add: assms guard_new_def)
  have "ttl \<noteq> 0 \<and> (\<exists>t. asserted h k t \<and> prune_verified_now clk \<le> t + ttl)"
    if "fst (has_fresh_success clk g k) = Inr True"
  proof -
    have "map_of (prune_expired (cg_verified g) ttl (prune_verified_now clk)) k \<noteq> None"
      using that frame(3) by (simp add: has_fresh_success_def pruned_def Let_def frame(1))
    then obtain t where "map_of (prune_expired (cg_verified g) ttl (prune_verified_now clk)) k = Some t" by blast
    then have t: "ttl \<noteq> 0" "map_of (cg_verified g) k = Some t" "prune_verified_now clk - t \<le> ttl"
      by (simp_all add: prune_expired_Some [OF d])
    then have "asserted h k t" using verified_asserted assms by metis
    moreover have "prune_verified_now clk \<le> t + ttl" using t(3) by simp
    ultimately show ?thesis using t(1) by blast
  qed
  then show ?thesis using inv frame by (simp add: guard_inv_def)
qed

definition demo_guard_clock :: "nat \<Rightarrow> guard_clock" where
  "demo_guard_clock now = \<lparr>prune_verified_now = now, prune_in_flight_now = now, insert_now = now\<rparr>"

theorem fresh_success_justified_witness:
  "\<exists>t. asserted [(demo_guard_clock 5, RecordOp ''c'')] ''c'' t \<and> 9 \<le> t + 10"
proof -
  have "fst (has_fresh_success (demo_guard_clock 9)
      (fold guard_step [(demo_guard_clock 5, RecordOp ''c'')] (guard_new 10 4)) ''c'') = Inr True" by code_simp
  then show ?thesis
    using fresh_success_justified [OF refl, of "[(demo_guard_clock 5, RecordOp ''c'')]" 10 4 "demo_guard_clock 9" "''c''"]
    by (simp add: demo_guard_clock_def)
qed

text \<open>
  C39: refreshes are single-flighted.  Once a caller has been told to start the refresh of a capability, no other caller is
  told so, whatever operations other callers perform in between, until the refresh is completed or more than five
  seconds have passed since it was started.
\<close>

theorem refresh_single_flight:
  assumes "g = fold guard_step h (guard_new ttl n)"
    and "begin_refresh clk1 g k = (Inr StartRefresh, g1)"
    and "\<forall>(clk, op) \<in> set between. (\<forall>ok. op \<noteq> Complete k ok)
           \<and> prune_in_flight_now clk \<le> insert_now clk1 + INFLIGHT_REFRESH_TTL"
    and "prune_in_flight_now clk2 \<le> insert_now clk1 + INFLIGHT_REFRESH_TTL"
  shows "fst (begin_refresh clk2 (fold guard_step between g1) k) \<in> {Inr FreshSuccess, Inr RefreshInFlight}"
proof -
  have inv: "guard_inv g" unfolding assms(1) by (rule guard_machine.run_inv) blast
  have np: "\<not> cg_poisoned g" using guard_run_frame [of h "guard_new ttl n"] by (simp add: assms(1) guard_new_def)
  have g1: "g1 = guard_step (clk1, Begin k) g" using assms(2) by simp
  have inv1: "guard_inv g1" unfolding g1 by (rule guard_inv_step [OF inv])
  have np1: "\<not> cg_poisoned g1" unfolding g1 using guard_step_frame [of "(clk1, Begin k)" g] np by argo
  have f1: "map_of (cg_in_flight g1) k = Some (insert_now clk1)"
    using assms(2) np by (auto simp: begin_refresh_def Let_def update_conv split: if_splits)
  let ?g2 = "fold guard_step between g1"
  have f2: "map_of (cg_in_flight ?g2) k = Some (insert_now clk1)" by (rule in_flight_run [OF inv1 f1 np1 assms(3)])
  have inv2: "guard_inv ?g2" by (rule guard_machine.fold_inv [OF inv1])
  then have d: "distinct (map fst (cg_in_flight ?g2))" by (simp add: guard_inv_def)
  have "map_of (cg_in_flight (pruned clk2 ?g2)) k = Some (insert_now clk1)"
    using f2 assms(4) by (simp add: pruned_def prune_expired_Some [OF d] INFLIGHT_REFRESH_TTL_def)
  moreover have "\<not> cg_poisoned ?g2" using np1 by (simp add: guard_run_frame)
  ultimately show ?thesis by (auto simp: begin_refresh_def Let_def)
qed

theorem refresh_single_flight_witness:
  "fst (begin_refresh (demo_guard_clock 7)
      (fold guard_step [(demo_guard_clock 6, Complete ''d'' True)]
        (snd (begin_refresh (demo_guard_clock 5) (guard_new 10 4) ''c''))) ''c'') \<in> {Inr FreshSuccess, Inr RefreshInFlight}"
proof -
  have "begin_refresh (demo_guard_clock 5) (fold guard_step [] (guard_new 10 4)) ''c''
      = (Inr StartRefresh, snd (begin_refresh (demo_guard_clock 5) (guard_new 10 4) ''c''))" by code_simp
  from refresh_single_flight [OF refl this, of "[(demo_guard_clock 6, Complete ''d'' True)]" "demo_guard_clock 7"]
  show ?thesis by (simp add: demo_guard_clock_def INFLIGHT_REFRESH_TTL_def)
qed

text \<open>An invalidation does not reach a refresh that is already under way: its success is recorded afterwards.\<close>

lemma invalidate_misses_in_flight:
  "fst (has_fresh_success (demo_guard_clock 4)
     (fold guard_step [(demo_guard_clock 1, Begin ''c''), (demo_guard_clock 2, Invalidate ''c''),
        (demo_guard_clock 3, Complete ''c'' True)] (guard_new 10 4)) ''c'') = Inr True"
  by code_simp

end
