(* ===== verification/Tool_Inventory.thy ===== *)
theory Tool_Inventory
  imports Guarded_Action Json Ordered_Text
begin

text \<open>
  The tool inventory of \<open>tool_inventory.rs\<close> (crate \<open>mcp-toolkit-core\<close>), first half: capabilities,
  inventory policies and their decisions, catalog profiles and entries, and the two registries,
  \<open>ToolInventory\<close> (a hash map, here an association list) and \<open>ToolCatalog\<close> (vectors kept sorted).
  A \<open>HashSet<String>\<close> is a finite set of strings.  JSON artifacts list their members in the order of
  the \<open>json!\<close> literal; they are only read by key.
\<close>

section \<open>Bounded text\<close>

definition truncate_search_text :: "rstr \<Rightarrow> nat \<Rightarrow> rstr \<times> bool" where
  "truncate_search_text v max_chars =
     (concat (take max_chars (utf8_chars v)), drop max_chars (utf8_chars v) \<noteq> [])"

definition alphanumeric_scalar :: "rstr \<Rightarrow> bool" where
  "alphanumeric_scalar ch = (case ch of [c] \<Rightarrow> is_ascii_alphanumeric c | _ \<Rightarrow> False)"

definition truncate_search_text_at_token_boundary :: "rstr \<Rightarrow> nat \<Rightarrow> rstr \<times> bool" where
  "truncate_search_text_at_token_boundary v max_chars =
     (let bounded = take max_chars (utf8_chars v); rest = drop max_chars (utf8_chars v) in
      if rest \<noteq> [] \<and> alphanumeric_scalar (hd rest) \<and> bounded \<noteq> [] \<and> alphanumeric_scalar (last bounded)
      then (concat (rev (dropWhile alphanumeric_scalar (rev bounded))), True)
      else (concat bounded, rest \<noteq> []))"

section \<open>Capabilities\<close>

definition OPERATOR_TOOLS_FEATURE_FLAG :: rstr where
  "OPERATOR_TOOLS_FEATURE_FLAG = ''operator_tools''"

definition READ_ONLY_PROFILE_KEY :: rstr where
  "READ_ONLY_PROFILE_KEY = ''read_only''"

definition OPERATOR_PROFILE_KEY :: rstr where
  "OPERATOR_PROFILE_KEY = ''operator''"

definition RANKED_SEARCH_MAX_ACTION_LEXEMES_PER_CAPABILITY :: nat where
  "RANKED_SEARCH_MAX_ACTION_LEXEMES_PER_CAPABILITY = 32"

definition RANKED_SEARCH_MIN_ACTION_LEXEME_CHARS :: nat where
  "RANKED_SEARCH_MIN_ACTION_LEXEME_CHARS = 3"

definition RANKED_SEARCH_MAX_ACTION_LEXEME_CHARS :: nat where
  "RANKED_SEARCH_MAX_ACTION_LEXEME_CHARS = 64"

datatype tool_operation = Op_List | Op_Call

datatype tool_exposure = Expose_All | List_Only | Call_Only | Exposure_Disabled

fun exposure_allows :: "tool_exposure \<Rightarrow> tool_operation \<Rightarrow> bool" where
  "exposure_allows Expose_All _ = True"
| "exposure_allows List_Only Op_List = True"
| "exposure_allows Call_Only Op_Call = True"
| "exposure_allows _ _ = False"

record tool_discovery_metadata =
  disc_description :: rstr
  disc_keywords :: "rstr list"

definition discovery_new :: "rstr \<Rightarrow> rstr list \<Rightarrow> tool_discovery_metadata" where
  "discovery_new description keywords =
     \<lparr>disc_description = description,
      disc_keywords = sort_dedup (filter (\<lambda>k. k \<noteq> []) (map (\<lambda>k. to_ascii_lowercase (trim k)) keywords))\<rparr>"

record tool_capability =
  cap_name :: rstr
  cap_group :: "rstr option"
  cap_read_only :: bool
  cap_feature_flag :: "rstr option"
  cap_exposure :: tool_exposure
  cap_discovery :: "tool_discovery_metadata option"
  cap_risk_posture :: "posture option"
  cap_action_lexemes :: "rstr set"
  cap_action_lexemes_truncated :: bool

definition capability_new :: "rstr \<Rightarrow> tool_capability" where
  "capability_new name =
     \<lparr>cap_name = name, cap_group = None, cap_read_only = False, cap_feature_flag = None,
      cap_exposure = Expose_All, cap_discovery = None, cap_risk_posture = None,
      cap_action_lexemes = {}, cap_action_lexemes_truncated = False\<rparr>"

definition cap_with_group :: "rstr \<Rightarrow> tool_capability \<Rightarrow> tool_capability" where
  "cap_with_group label c = c\<lparr>cap_group := Some label\<rparr>"

definition cap_with_read_only :: "bool \<Rightarrow> tool_capability \<Rightarrow> tool_capability" where
  "cap_with_read_only read_only c = c\<lparr>cap_read_only := read_only\<rparr>"

definition cap_with_feature_flag :: "rstr \<Rightarrow> tool_capability \<Rightarrow> tool_capability" where
  "cap_with_feature_flag flag c = c\<lparr>cap_feature_flag := Some flag\<rparr>"

definition cap_with_operator_profile_gate :: "tool_capability \<Rightarrow> tool_capability" where
  "cap_with_operator_profile_gate = cap_with_feature_flag OPERATOR_TOOLS_FEATURE_FLAG"

definition cap_with_exposure :: "tool_exposure \<Rightarrow> tool_capability \<Rightarrow> tool_capability" where
  "cap_with_exposure exposure c = c\<lparr>cap_exposure := exposure\<rparr>"

definition cap_with_discovery :: "tool_discovery_metadata \<Rightarrow> tool_capability \<Rightarrow> tool_capability" where
  "cap_with_discovery discovery c = c\<lparr>cap_discovery := Some discovery\<rparr>"

definition cap_with_risk_posture :: "posture \<Rightarrow> tool_capability \<Rightarrow> tool_capability" where
  "cap_with_risk_posture risk c = c\<lparr>cap_read_only := is_read_only risk, cap_risk_posture := Some risk\<rparr>"

fun add_action_lexemes :: "nat \<Rightarrow> rstr list \<Rightarrow> tool_capability \<Rightarrow> tool_capability" where
  "add_action_lexemes index [] c = c"
| "add_action_lexemes index (raw # rest) c =
     (if index = RANKED_SEARCH_MAX_ACTION_LEXEMES_PER_CAPABILITY
      then c\<lparr>cap_action_lexemes_truncated := True\<rparr>
      else case truncate_search_text raw RANKED_SEARCH_MAX_ACTION_LEXEME_CHARS of (bounded, truncated) \<Rightarrow>
        let lexeme = to_ascii_lowercase (trim bounded) in
        if truncated \<or> length lexeme < RANKED_SEARCH_MIN_ACTION_LEXEME_CHARS
           \<or> \<not> list_all is_ascii_alphanumeric lexeme
        then add_action_lexemes (Suc index) rest (c\<lparr>cap_action_lexemes_truncated := True\<rparr>)
        else if card (cap_action_lexemes c) = RANKED_SEARCH_MAX_ACTION_LEXEMES_PER_CAPABILITY
                \<and> lexeme \<notin> cap_action_lexemes c
        then add_action_lexemes (Suc index) rest (c\<lparr>cap_action_lexemes_truncated := True\<rparr>)
        else add_action_lexemes (Suc index) rest (c\<lparr>cap_action_lexemes := insert lexeme (cap_action_lexemes c)\<rparr>))"

definition cap_with_action_lexemes :: "rstr list \<Rightarrow> tool_capability \<Rightarrow> tool_capability" where
  "cap_with_action_lexemes lexemes c =
     add_action_lexemes 0 (take (RANKED_SEARCH_MAX_ACTION_LEXEMES_PER_CAPABILITY + 1) lexemes) c"

section \<open>Errors and normalised identifiers\<close>

record tool_inventory_error =
  tie_code :: rstr
  tie_message :: rstr

definition duplicate_name :: "rstr \<Rightarrow> tool_inventory_error" where
  "duplicate_name name =
     \<lparr>tie_code = ''TOOL_INVENTORY_DUPLICATE_NAME'',
      tie_message = ''tool inventory contains duplicate registration for '' @ quoted name\<rparr>"

definition duplicate_profile :: "rstr \<Rightarrow> tool_inventory_error" where
  "duplicate_profile key =
     \<lparr>tie_code = ''TOOL_CATALOG_DUPLICATE_PROFILE'',
      tie_message = ''tool catalog contains duplicate profile '' @ quoted key\<rparr>"

definition unknown_profile :: "rstr \<Rightarrow> tool_inventory_error" where
  "unknown_profile key =
     \<lparr>tie_code = ''TOOL_CATALOG_UNKNOWN_PROFILE'',
      tie_message = ''tool catalog does not contain profile '' @ quoted key\<rparr>"

definition invalid_value :: "rstr \<Rightarrow> rstr \<Rightarrow> tool_inventory_error" where
  "invalid_value field v =
     \<lparr>tie_code = ''TOOL_INVENTORY_INVALID_VALUE'',
      tie_message = field @ '' must not be empty; got '' @ quoted v\<rparr>"

definition tool_inventory_error_display :: "tool_inventory_error \<Rightarrow> rstr" where
  "tool_inventory_error_display e = tie_code e @ '': '' @ tie_message e"

definition normalize_non_empty :: "rstr \<Rightarrow> rstr \<Rightarrow> (tool_inventory_error, rstr) result" where
  "normalize_non_empty field v = (if trim v = [] then Inl (invalid_value field v) else Inr (trim v))"

fun normalize_each :: "rstr \<Rightarrow> rstr list \<Rightarrow> (tool_inventory_error, rstr list) result" where
  "normalize_each field [] = Inr []"
| "normalize_each field (v # vs) =
     and_then (normalize_non_empty field v) (\<lambda>x. and_then (normalize_each field vs) (\<lambda>xs. Inr (x # xs)))"

definition normalize_non_empty_list :: "rstr \<Rightarrow> rstr list \<Rightarrow> (tool_inventory_error, rstr list) result" where
  "normalize_non_empty_list field vs = and_then (normalize_each field vs) (\<lambda>xs. Inr (sort_dedup xs))"

definition normalize_option :: "rstr \<Rightarrow> rstr option \<Rightarrow> (tool_inventory_error, rstr option) result" where
  "normalize_option field v =
     (case v of Some raw \<Rightarrow> and_then (normalize_non_empty field raw) (\<lambda>x. Inr (Some x)) | None \<Rightarrow> Inr None)"

definition sorted_set :: "rstr set \<Rightarrow> rstr list" where
  "sorted_set vs = sorted_list_of_set vs"

definition sorted_optional_set :: "rstr set option \<Rightarrow> rstr list option" where
  "sorted_optional_set vs = map_option sorted_set vs"

section \<open>Policies and decisions\<close>

record tool_inventory_policy =
  pol_allowed_groups :: "rstr set option"
  pol_read_only_only :: bool
  pol_enabled_feature_flags :: "rstr set"
  pol_include_unregistered :: bool

definition policy_default :: tool_inventory_policy where
  "policy_default =
     \<lparr>pol_allowed_groups = None, pol_read_only_only = False, pol_enabled_feature_flags = {},
      pol_include_unregistered = False\<rparr>"

definition trimmed_set :: "rstr list \<Rightarrow> rstr set" where
  "trimmed_set vs = set (filter (\<lambda>v. v \<noteq> []) (map trim vs))"

definition policy_with_allowed_groups :: "rstr list \<Rightarrow> tool_inventory_policy \<Rightarrow> tool_inventory_policy" where
  "policy_with_allowed_groups groups p =
     p\<lparr>pol_allowed_groups := (if trimmed_set groups = {} then None else Some (trimmed_set groups))\<rparr>"

definition policy_with_feature_flags :: "rstr list \<Rightarrow> tool_inventory_policy \<Rightarrow> tool_inventory_policy" where
  "policy_with_feature_flags flags p = p\<lparr>pol_enabled_feature_flags := trimmed_set flags\<rparr>"

definition policy_with_read_only_only :: "bool \<Rightarrow> tool_inventory_policy \<Rightarrow> tool_inventory_policy" where
  "policy_with_read_only_only b p = p\<lparr>pol_read_only_only := b\<rparr>"

definition policy_with_include_unregistered :: "bool \<Rightarrow> tool_inventory_policy \<Rightarrow> tool_inventory_policy" where
  "policy_with_include_unregistered b p = p\<lparr>pol_include_unregistered := b\<rparr>"

definition policy_strict :: tool_inventory_policy where
  "policy_strict = policy_default\<lparr>pol_include_unregistered := False\<rparr>"

definition policy_permissive :: tool_inventory_policy where
  "policy_permissive = policy_default\<lparr>pol_include_unregistered := True\<rparr>"

definition policy_strict_operator :: tool_inventory_policy where
  "policy_strict_operator = policy_with_feature_flags [OPERATOR_TOOLS_FEATURE_FLAG] policy_strict"

definition policy_strict_read_only :: tool_inventory_policy where
  "policy_strict_read_only = policy_with_read_only_only True policy_strict"

datatype denial_reason =
    BlankToolName | UnregisteredTool | ExposureDisabled | ReadOnlyProfile | GroupNotAllowed
  | FeatureFlagDisabled

fun denial_code :: "denial_reason \<Rightarrow> rstr" where
  "denial_code BlankToolName = ''TOOL_DENIED_BLANK_NAME''"
| "denial_code UnregisteredTool = ''TOOL_DENIED_UNREGISTERED''"
| "denial_code ExposureDisabled = ''TOOL_DENIED_EXPOSURE_DISABLED''"
| "denial_code ReadOnlyProfile = ''TOOL_DENIED_READ_ONLY_PROFILE''"
| "denial_code GroupNotAllowed = ''TOOL_DENIED_GROUP_NOT_ALLOWED''"
| "denial_code FeatureFlagDisabled = ''TOOL_DENIED_FEATURE_FLAG_DISABLED''"

fun denial_message :: "denial_reason \<Rightarrow> rstr" where
  "denial_message BlankToolName = ''tool name is empty''"
| "denial_message UnregisteredTool = ''tool is not registered in the catalog''"
| "denial_message ExposureDisabled = ''tool is not exposed for this MCP operation''"
| "denial_message ReadOnlyProfile = ''active profile allows read-only tools only''"
| "denial_message GroupNotAllowed = ''active profile does not include this tool group''"
| "denial_message FeatureFlagDisabled = ''active profile has not enabled this tool feature flag''"

definition denial_reason_for :: "tool_inventory_policy \<Rightarrow> tool_capability \<Rightarrow> tool_operation \<Rightarrow> denial_reason option" where
  "denial_reason_for p c operation =
     (if \<not> exposure_allows (cap_exposure c) operation then Some ExposureDisabled
      else if pol_read_only_only p \<and> \<not> cap_read_only c then Some ReadOnlyProfile
      else if (case pol_allowed_groups p of
                 None \<Rightarrow> False
               | Some groups \<Rightarrow> (case cap_group c of None \<Rightarrow> True | Some label \<Rightarrow> label \<notin> groups))
      then Some GroupNotAllowed
      else if (case cap_feature_flag c of None \<Rightarrow> False | Some flag \<Rightarrow> flag \<notin> pol_enabled_feature_flags p)
      then Some FeatureFlagDisabled
      else None)"

definition allows_capability :: "tool_inventory_policy \<Rightarrow> tool_capability \<Rightarrow> tool_operation \<Rightarrow> bool" where
  "allows_capability p c operation \<longleftrightarrow> denial_reason_for p c operation = None"

record tool_inventory_decision =
  tid_tool_name :: rstr
  tid_operation :: tool_operation
  tid_profile_key :: "rstr option"
  tid_allowed :: bool
  tid_denial_reason :: "denial_reason option"

definition tid_permit :: "rstr \<Rightarrow> tool_operation \<Rightarrow> rstr option \<Rightarrow> tool_inventory_decision" where
  "tid_permit name operation profile_key =
     \<lparr>tid_tool_name = name, tid_operation = operation, tid_profile_key = profile_key,
      tid_allowed = True, tid_denial_reason = None\<rparr>"

definition tid_denied :: "rstr \<Rightarrow> tool_operation \<Rightarrow> rstr option \<Rightarrow> denial_reason \<Rightarrow> tool_inventory_decision" where
  "tid_denied name operation profile_key reason =
     \<lparr>tid_tool_name = name, tid_operation = operation, tid_profile_key = profile_key,
      tid_allowed = False, tid_denial_reason = Some reason\<rparr>"

definition caller_message :: "tool_inventory_decision \<Rightarrow> rstr" where
  "caller_message d =
     (case tid_denial_reason d of
        Some reason \<Rightarrow> denial_code reason @ '': '' @ denial_message reason @ '' for `'' @ tid_tool_name d @ ''`''
      | None \<Rightarrow> ''tool `'' @ tid_tool_name d @ ''` is allowed'')"

fun operation_label :: "tool_operation \<Rightarrow> rstr" where
  "operation_label Op_List = ''list''"
| "operation_label Op_Call = ''call''"

fun exposure_label :: "tool_exposure \<Rightarrow> rstr" where
  "exposure_label Expose_All = ''all''"
| "exposure_label List_Only = ''list_only''"
| "exposure_label Call_Only = ''call_only''"
| "exposure_label Exposure_Disabled = ''disabled''"

definition opt_value :: "('a \<Rightarrow> json) \<Rightarrow> 'a option \<Rightarrow> json" where
  "opt_value f x = (case x of None \<Rightarrow> JNull | Some v \<Rightarrow> f v)"

definition strings_value :: "rstr list \<Rightarrow> json" where
  "strings_value xs = JArray (map JString xs)"

definition count_value :: "nat \<Rightarrow> json" where
  "count_value n = JNumber (PosInt n)"

definition decision_to_value :: "tool_inventory_decision \<Rightarrow> json" where
  "decision_to_value d =
     JObject
       [(''schema'', JString ''mcp_tool_inventory_decision''),
        (''version'', count_value 1),
        (''tool_name'', JString (tid_tool_name d)),
        (''operation'', JString (operation_label (tid_operation d))),
        (''profile_key'', opt_value JString (tid_profile_key d)),
        (''allowed'', JBool (tid_allowed d)),
        (''denial'', opt_value (\<lambda>reason. JObject
           [(''code'', JString (denial_code reason)), (''message'', JString (denial_message reason))])
           (tid_denial_reason d))]"

section \<open>Catalog profiles\<close>

record tool_catalog_profile =
  prof_key :: rstr
  prof_title :: rstr
  prof_description :: rstr
  prof_instructions :: "rstr option"
  prof_policy :: tool_inventory_policy
  prof_required_tools :: "rstr list"
  prof_required_groups :: "rstr list"

definition profile_new :: "rstr \<Rightarrow> rstr \<Rightarrow> rstr \<Rightarrow> (tool_inventory_error, tool_catalog_profile) result" where
  "profile_new key title description =
     and_then (normalize_non_empty ''catalog profile key'' key) (\<lambda>k.
     and_then (normalize_non_empty ''catalog profile title'' title) (\<lambda>t.
     and_then (normalize_non_empty ''catalog profile description'' description) (\<lambda>d.
       Inr \<lparr>prof_key = k, prof_title = t, prof_description = d, prof_instructions = None,
            prof_policy = policy_strict, prof_required_tools = [], prof_required_groups = []\<rparr>)))"

definition read_only_default :: tool_catalog_profile where
  "read_only_default =
     \<lparr>prof_key = READ_ONLY_PROFILE_KEY, prof_title = ''Read-only'',
      prof_description = ''Default profile that exposes read-only tools only.'',
      prof_instructions = Some ''Enable an explicit operator profile before exposing mutation tools.'',
      prof_policy = policy_strict_read_only, prof_required_tools = [], prof_required_groups = []\<rparr>"

definition operator_default :: tool_catalog_profile where
  "operator_default =
     \<lparr>prof_key = OPERATOR_PROFILE_KEY, prof_title = ''Operator'',
      prof_description = ''Opt-in profile for reviewed operator and mutation tools.'',
      prof_instructions = Some ''Use only for trusted operators with matching provider permissions.'',
      prof_policy = policy_strict_operator, prof_required_tools = [], prof_required_groups = []\<rparr>"

definition profile_with_instructions :: "rstr \<Rightarrow> tool_catalog_profile \<Rightarrow> tool_catalog_profile" where
  "profile_with_instructions instructions p =
     p\<lparr>prof_instructions := (if trim instructions = [] then None else Some (trim instructions))\<rparr>"

definition profile_with_policy :: "tool_inventory_policy \<Rightarrow> tool_catalog_profile \<Rightarrow> tool_catalog_profile" where
  "profile_with_policy pol p = p\<lparr>prof_policy := pol\<rparr>"

definition profile_with_required_tools ::
  "rstr list \<Rightarrow> tool_catalog_profile \<Rightarrow> (tool_inventory_error, tool_catalog_profile) result" where
  "profile_with_required_tools tools p =
     and_then (normalize_non_empty_list ''required tool'' tools) (\<lambda>ts. Inr (p\<lparr>prof_required_tools := ts\<rparr>))"

definition profile_with_required_groups ::
  "rstr list \<Rightarrow> tool_catalog_profile \<Rightarrow> (tool_inventory_error, tool_catalog_profile) result" where
  "profile_with_required_groups groups p =
     and_then (normalize_non_empty_list ''required group'' groups) (\<lambda>gs. Inr (p\<lparr>prof_required_groups := gs\<rparr>))"

definition policy_value :: "tool_inventory_policy \<Rightarrow> json" where
  "policy_value p =
     JObject
       [(''allowed_groups'', opt_value strings_value (sorted_optional_set (pol_allowed_groups p))),
        (''read_only_only'', JBool (pol_read_only_only p)),
        (''include_unregistered'', JBool (pol_include_unregistered p)),
        (''enabled_feature_flags'', strings_value (sorted_set (pol_enabled_feature_flags p)))]"

definition profile_value :: "tool_catalog_profile \<Rightarrow> json" where
  "profile_value p =
     JObject
       [(''key'', JString (prof_key p)), (''title'', JString (prof_title p)),
        (''description'', JString (prof_description p)),
        (''instructions'', opt_value JString (prof_instructions p)),
        (''required_tools'', strings_value (prof_required_tools p)),
        (''required_groups'', strings_value (prof_required_groups p)),
        (''policy'', policy_value (prof_policy p))]"

record tool_catalog_contract =
  con_profile_key :: rstr
  con_title :: rstr
  con_description :: rstr
  con_instructions :: "rstr option"
  con_operation :: tool_operation
  con_tool_names :: "rstr list"
  con_groups :: "rstr list"
  con_required_tools :: "rstr list"
  con_missing_required_tools :: "rstr list"
  con_required_groups :: "rstr list"
  con_missing_required_groups :: "rstr list"
  con_allowed_groups :: "rstr list option"
  con_read_only_only :: bool
  con_include_unregistered :: bool
  con_enabled_feature_flags :: "rstr list"

definition is_satisfied :: "tool_catalog_contract \<Rightarrow> bool" where
  "is_satisfied c \<longleftrightarrow> con_missing_required_tools c = [] \<and> con_missing_required_groups c = []"

definition contract_to_value :: "tool_catalog_contract \<Rightarrow> json" where
  "contract_to_value c =
     JObject
       [(''schema'', JString ''mcp_tool_catalog_profile_contract''),
        (''version'', count_value 1),
        (''profile'', JObject
           [(''key'', JString (con_profile_key c)), (''title'', JString (con_title c)),
            (''description'', JString (con_description c)),
            (''instructions'', opt_value JString (con_instructions c))]),
        (''operation'', JString (operation_label (con_operation c))),
        (''tool_count'', count_value (length (con_tool_names c))),
        (''tool_names'', strings_value (con_tool_names c)),
        (''groups'', strings_value (con_groups c)),
        (''requirements'', JObject
           [(''required_tools'', strings_value (con_required_tools c)),
            (''missing_required_tools'', strings_value (con_missing_required_tools c)),
            (''required_groups'', strings_value (con_required_groups c)),
            (''missing_required_groups'', strings_value (con_missing_required_groups c)),
            (''satisfied'', JBool (is_satisfied c))]),
        (''policy'', JObject
           [(''allowed_groups'', opt_value strings_value (con_allowed_groups c)),
            (''read_only_only'', JBool (con_read_only_only c)),
            (''include_unregistered'', JBool (con_include_unregistered c)),
            (''enabled_feature_flags'', strings_value (con_enabled_feature_flags c))])]"

section \<open>The inventory\<close>

record tool_inventory =
  inv_entries :: "(rstr \<times> tool_capability) list"

definition inventory_new :: tool_inventory where
  "inventory_new = \<lparr>inv_entries = []\<rparr>"

definition inventory_register ::
  "tool_capability \<Rightarrow> tool_inventory \<Rightarrow> (tool_inventory_error, tool_inventory) result" where
  "inventory_register c store =
     and_then (normalize_non_empty ''tool name'' (cap_name c)) (\<lambda>name.
       if map_of (inv_entries store) name \<noteq> None then Inl (duplicate_name name)
       else
         and_then (normalize_option ''tool group'' (cap_group c)) (\<lambda>label.
         and_then (normalize_option ''feature flag'' (cap_feature_flag c)) (\<lambda>flag.
           Inr (store\<lparr>inv_entries := AList.update name
                  (c\<lparr>cap_name := name, cap_group := label, cap_feature_flag := flag\<rparr>) (inv_entries store)\<rparr>))))"

fun register_capabilities ::
  "tool_capability list \<Rightarrow> tool_inventory \<Rightarrow> (tool_inventory_error, tool_inventory) result" where
  "register_capabilities [] store = Inr store"
| "register_capabilities (c # cs) store = and_then (inventory_register c store) (register_capabilities cs)"

definition from_capabilities :: "tool_capability list \<Rightarrow> (tool_inventory_error, tool_inventory) result" where
  "from_capabilities cs = register_capabilities cs inventory_new"

definition inventory_capability :: "tool_inventory \<Rightarrow> rstr \<Rightarrow> tool_capability option" where
  "inventory_capability store name = map_of (inv_entries store) (trim name)"

definition capabilities :: "tool_inventory \<Rightarrow> tool_capability list" where
  "capabilities store = sort_key cap_name (map snd (inv_entries store))"

definition decision_inner ::
  "tool_inventory \<Rightarrow> rstr \<Rightarrow> tool_operation \<Rightarrow> tool_inventory_policy \<Rightarrow> rstr option \<Rightarrow> tool_inventory_decision" where
  "decision_inner store name operation p profile_key =
     (let trimmed = trim name in
      if trimmed = [] then tid_denied trimmed operation profile_key BlankToolName
      else case map_of (inv_entries store) trimmed of
             Some c \<Rightarrow> (case denial_reason_for p c operation of
                          Some reason \<Rightarrow> tid_denied trimmed operation profile_key reason
                        | None \<Rightarrow> tid_permit trimmed operation profile_key)
           | None \<Rightarrow> if pol_include_unregistered p then tid_permit trimmed operation profile_key
                     else tid_denied trimmed operation profile_key UnregisteredTool)"

definition inventory_decision ::
  "tool_inventory \<Rightarrow> rstr \<Rightarrow> tool_operation \<Rightarrow> tool_inventory_policy \<Rightarrow> tool_inventory_decision" where
  "inventory_decision store name operation p = decision_inner store name operation p None"

definition decision_for_profile ::
  "tool_inventory \<Rightarrow> rstr \<Rightarrow> tool_operation \<Rightarrow> tool_catalog_profile \<Rightarrow> tool_inventory_decision" where
  "decision_for_profile store name operation profile =
     decision_inner store name operation (prof_policy profile) (Some (prof_key profile))"

definition is_allowed :: "tool_inventory \<Rightarrow> rstr \<Rightarrow> tool_operation \<Rightarrow> tool_inventory_policy \<Rightarrow> bool" where
  "is_allowed store name operation p = tid_allowed (inventory_decision store name operation p)"

definition filter_tools ::
  "tool_inventory \<Rightarrow> 't list \<Rightarrow> tool_operation \<Rightarrow> tool_inventory_policy \<Rightarrow> ('t \<Rightarrow> rstr) \<Rightarrow> 't list" where
  "filter_tools store tools operation p tool_name = filter (\<lambda>tool. is_allowed store (tool_name tool) operation p) tools"

definition filter_tools_for_profile ::
  "tool_inventory \<Rightarrow> 't list \<Rightarrow> tool_operation \<Rightarrow> tool_catalog_profile \<Rightarrow> ('t \<Rightarrow> rstr) \<Rightarrow> 't list" where
  "filter_tools_for_profile store tools operation profile tool_name =
     filter_tools store tools operation (prof_policy profile) tool_name"

definition catalog_contract :: "tool_inventory \<Rightarrow> tool_catalog_profile \<Rightarrow> tool_operation \<Rightarrow> tool_catalog_contract" where
  "catalog_contract store profile operation =
     (let visible = filter (\<lambda>c. allows_capability (prof_policy profile) c operation) (capabilities store);
          tool_names = sort (map cap_name visible);
          groups = sort_dedup (List.map_filter cap_group visible)
      in \<lparr>con_profile_key = prof_key profile, con_title = prof_title profile,
          con_description = prof_description profile, con_instructions = prof_instructions profile,
          con_operation = operation, con_tool_names = tool_names, con_groups = groups,
          con_required_tools = prof_required_tools profile,
          con_missing_required_tools = filter (\<lambda>tool. binary_search tool_names tool = None) (prof_required_tools profile),
          con_required_groups = prof_required_groups profile,
          con_missing_required_groups = filter (\<lambda>label. binary_search groups label = None) (prof_required_groups profile),
          con_allowed_groups = sorted_optional_set (pol_allowed_groups (prof_policy profile)),
          con_read_only_only = pol_read_only_only (prof_policy profile),
          con_include_unregistered = pol_include_unregistered (prof_policy profile),
          con_enabled_feature_flags = sorted_set (pol_enabled_feature_flags (prof_policy profile))\<rparr>)"

section \<open>The catalog\<close>

record tool_catalog_example =
  ex_title :: rstr
  ex_request :: json
  ex_response :: "json option"

definition example_new :: "rstr \<Rightarrow> json \<Rightarrow> (tool_inventory_error, tool_catalog_example) result" where
  "example_new title request =
     and_then (normalize_non_empty ''tool example title'' title) (\<lambda>t.
       Inr \<lparr>ex_title = t, ex_request = request, ex_response = None\<rparr>)"

definition example_with_response :: "json \<Rightarrow> tool_catalog_example \<Rightarrow> tool_catalog_example" where
  "example_with_response response x = x\<lparr>ex_response := Some response\<rparr>"

record tool_catalog_entry =
  ent_capability :: tool_capability
  ent_input_schema :: "json option"
  ent_output_schema :: "json option"
  ent_examples :: "tool_catalog_example list"
  ent_handler :: "rstr option"
  ent_tags :: "rstr list"

abbreviation ent_name :: "tool_catalog_entry \<Rightarrow> rstr" where
  "ent_name e \<equiv> cap_name (ent_capability e)"

definition entry_new :: "rstr \<Rightarrow> tool_catalog_entry" where
  "entry_new name =
     \<lparr>ent_capability = capability_new name, ent_input_schema = None, ent_output_schema = None,
      ent_examples = [], ent_handler = None, ent_tags = []\<rparr>"

text \<open>
  The builders that only pass to the capability (\<open>with_group\<close>, \<open>with_read_only\<close>, \<open>with_feature_flag\<close>,
  \<open>with_operator_profile_gate\<close>, \<open>with_exposure\<close>, \<open>with_discovery\<close>, \<open>with_risk_posture\<close>,
  \<open>with_action_lexemes\<close>) apply the capability's builder of that name.
\<close>

definition entry_on_capability :: "(tool_capability \<Rightarrow> tool_capability) \<Rightarrow> tool_catalog_entry \<Rightarrow> tool_catalog_entry" where
  "entry_on_capability f e = e\<lparr>ent_capability := f (ent_capability e)\<rparr>"

definition entry_with_input_schema :: "json \<Rightarrow> tool_catalog_entry \<Rightarrow> tool_catalog_entry" where
  "entry_with_input_schema schema e = e\<lparr>ent_input_schema := Some schema\<rparr>"

definition entry_with_output_schema :: "json \<Rightarrow> tool_catalog_entry \<Rightarrow> tool_catalog_entry" where
  "entry_with_output_schema schema e = e\<lparr>ent_output_schema := Some schema\<rparr>"

definition entry_with_handler :: "rstr \<Rightarrow> tool_catalog_entry \<Rightarrow> (tool_inventory_error, tool_catalog_entry) result" where
  "entry_with_handler handler e =
     and_then (normalize_non_empty ''tool handler'' handler) (\<lambda>h. Inr (e\<lparr>ent_handler := Some h\<rparr>))"

definition entry_with_tags :: "rstr list \<Rightarrow> tool_catalog_entry \<Rightarrow> (tool_inventory_error, tool_catalog_entry) result" where
  "entry_with_tags tags e =
     and_then (normalize_non_empty_list ''tool tag'' tags) (\<lambda>ts. Inr (e\<lparr>ent_tags := ts\<rparr>))"

definition entry_with_example :: "tool_catalog_example \<Rightarrow> tool_catalog_entry \<Rightarrow> tool_catalog_entry" where
  "entry_with_example x e = e\<lparr>ent_examples := ent_examples e @ [x]\<rparr>"

record tool_catalog =
  cat_entries :: "tool_catalog_entry list"
  cat_profiles :: "tool_catalog_profile list"

definition catalog_new :: tool_catalog where
  "catalog_new = \<lparr>cat_entries = [], cat_profiles = []\<rparr>"

definition catalog_register ::
  "tool_catalog_entry \<Rightarrow> tool_catalog \<Rightarrow> (tool_inventory_error, tool_catalog) result" where
  "catalog_register e cat =
     (let c = ent_capability e in
      and_then (normalize_non_empty ''tool name'' (cap_name c)) (\<lambda>name.
        if list_ex (\<lambda>x. ent_name x = name) (cat_entries cat) then Inl (duplicate_name name)
        else
          and_then (normalize_option ''tool group'' (cap_group c)) (\<lambda>label.
          and_then (normalize_option ''feature flag'' (cap_feature_flag c)) (\<lambda>flag.
          and_then (normalize_option ''tool handler'' (ent_handler e)) (\<lambda>handler.
          and_then (normalize_non_empty_list ''tool tag'' (ent_tags e)) (\<lambda>tags.
            let e' = e\<lparr>ent_capability := c\<lparr>cap_name := name, cap_group := label, cap_feature_flag := flag\<rparr>,
                       ent_handler := handler, ent_tags := tags\<rparr>
            in Inr (cat\<lparr>cat_entries := sort_key ent_name (cat_entries cat @ [e'])\<rparr>)))))))"

fun register_entries ::
  "tool_catalog_entry list \<Rightarrow> tool_catalog \<Rightarrow> (tool_inventory_error, tool_catalog) result" where
  "register_entries [] cat = Inr cat"
| "register_entries (e # es) cat = and_then (catalog_register e cat) (register_entries es)"

definition from_entries :: "tool_catalog_entry list \<Rightarrow> (tool_inventory_error, tool_catalog) result" where
  "from_entries es = register_entries es catalog_new"

definition register_profile ::
  "tool_catalog_profile \<Rightarrow> tool_catalog \<Rightarrow> (tool_inventory_error, tool_catalog) result" where
  "register_profile profile cat =
     (if list_ex (\<lambda>existing. prof_key existing = prof_key profile) (cat_profiles cat)
      then Inl (duplicate_profile (prof_key profile))
      else Inr (cat\<lparr>cat_profiles := sort_key prof_key (cat_profiles cat @ [profile])\<rparr>))"

text \<open>
  \<open>register_standard_profiles\<close> mutates the catalog in place: when the operator profile is refused, the
  read-only profile has already been added.  The catalog after the call is returned next to the result.
\<close>

definition register_standard_profiles ::
  "rstr list \<Rightarrow> tool_catalog \<Rightarrow> (tool_inventory_error, unit) result \<times> tool_catalog" where
  "register_standard_profiles read_only_groups cat =
     (case and_then (normalize_non_empty_list ''read-only profile group'' read_only_groups) (\<lambda>groups.
             if groups = [] then Inr read_only_default
             else profile_with_required_groups groups
                    (profile_with_policy (policy_with_allowed_groups groups policy_strict_read_only) read_only_default)) of
        Inl e \<Rightarrow> (Inl e, cat)
      | Inr read_only_profile \<Rightarrow>
          (case register_profile read_only_profile cat of
             Inl e \<Rightarrow> (Inl e, cat)
           | Inr cat' \<Rightarrow>
               (case register_profile operator_default cat' of
                  Inl e \<Rightarrow> (Inl e, cat')
                | Inr cat'' \<Rightarrow> (Inr (), cat''))))"

definition catalog_profile :: "tool_catalog \<Rightarrow> rstr \<Rightarrow> tool_catalog_profile option" where
  "catalog_profile cat key = find (\<lambda>profile. prof_key profile = trim key) (cat_profiles cat)"

definition require_profile :: "tool_catalog \<Rightarrow> rstr \<Rightarrow> (tool_inventory_error, tool_catalog_profile) result" where
  "require_profile cat key =
     and_then (normalize_non_empty ''catalog profile key'' key) (\<lambda>k.
       case catalog_profile cat k of Some profile \<Rightarrow> Inr profile | None \<Rightarrow> Inl (unknown_profile k))"

definition catalog_entry :: "tool_catalog \<Rightarrow> rstr \<Rightarrow> tool_catalog_entry option" where
  "catalog_entry cat name = find (\<lambda>e. ent_name e = trim name) (cat_entries cat)"

definition catalog_inventory :: "tool_catalog \<Rightarrow> tool_inventory" where
  "catalog_inventory cat =
     \<lparr>inv_entries = fold (\<lambda>e m. AList.update (ent_name e) (ent_capability e) m) (cat_entries cat) []\<rparr>"

definition entry_schema :: "tool_catalog_entry \<Rightarrow> json_map" where
  "entry_schema e =
     (case ent_input_schema e of Some s \<Rightarrow> [(''input'', s)] | None \<Rightarrow> [])
     @ (case ent_output_schema e of Some s \<Rightarrow> [(''output'', s)] | None \<Rightarrow> [])"

definition schemas_for_entries :: "tool_catalog_entry list \<Rightarrow> json" where
  "schemas_for_entries es =
     JObject (fold (\<lambda>e m. if entry_schema e = [] then m
                          else AList.update (ent_name e) (JObject (entry_schema e)) m) es [])"

definition schemas_by_tool :: "tool_catalog \<Rightarrow> json" where
  "schemas_by_tool cat = schemas_for_entries (cat_entries cat)"

definition schemas_by_tool_names :: "tool_catalog \<Rightarrow> rstr list \<Rightarrow> json" where
  "schemas_by_tool_names cat names =
     (let wanted = trimmed_set names in
      if wanted = {} then JObject []
      else schemas_for_entries (filter (\<lambda>e. ent_name e \<in> wanted) (cat_entries cat)))"

definition profile_contracts :: "tool_catalog \<Rightarrow> tool_operation \<Rightarrow> tool_catalog_contract list" where
  "profile_contracts cat operation =
     map (\<lambda>profile. catalog_contract (catalog_inventory cat) profile operation) (cat_profiles cat)"

definition posture_value :: "posture \<Rightarrow> json" where
  "posture_value p =
     JObject
       [(''operation_class'', JString (operation_class_str (operation_class p))),
        (''requires_runtime_enablement'', JBool (requires_runtime_enablement p)),
        (''writes_enabled_by_default'', JBool (writes_enabled_by_default p)),
        (''post_apply_readback_required'', JBool (post_apply_readback_required p))]"

definition discovery_value :: "tool_discovery_metadata \<Rightarrow> json" where
  "discovery_value d =
     JObject [(''description'', JString (disc_description d)), (''keywords'', strings_value (disc_keywords d))]"

definition example_value :: "tool_catalog_example \<Rightarrow> json" where
  "example_value x =
     JObject [(''title'', JString (ex_title x)), (''request'', ex_request x),
              (''response'', opt_value (\<lambda>v. v) (ex_response x))]"

definition catalog_entry_value :: "tool_catalog_entry \<Rightarrow> json" where
  "catalog_entry_value e =
     (let c = ent_capability e in
      JObject
        [(''name'', JString (cap_name c)),
         (''group'', opt_value JString (cap_group c)),
         (''read_only'', JBool (cap_read_only c)),
         (''feature_flag'', opt_value JString (cap_feature_flag c)),
         (''exposure'', JString (exposure_label (cap_exposure c))),
         (''discovery'', opt_value discovery_value (cap_discovery c)),
         (''risk_posture'', opt_value posture_value (cap_risk_posture c)),
         (''action_lexemes'', strings_value (sorted_set (cap_action_lexemes c))),
         (''action_lexemes_truncated'', JBool (cap_action_lexemes_truncated c)),
         (''handler'', opt_value JString (ent_handler e)),
         (''tags'', strings_value (ent_tags e)),
         (''input_schema'', opt_value (\<lambda>v. v) (ent_input_schema e)),
         (''output_schema'', opt_value (\<lambda>v. v) (ent_output_schema e)),
         (''examples'', JArray (map example_value (ent_examples e)))])"

definition catalog_to_value :: "tool_catalog \<Rightarrow> json" where
  "catalog_to_value cat =
     JObject
       [(''schema'', JString ''mcp_tool_catalog''),
        (''version'', count_value 1),
        (''tools'', JArray (map catalog_entry_value (cat_entries cat))),
        (''profiles'', JArray (map profile_value (cat_profiles cat))),
        (''schemas'', schemas_by_tool cat)]"

section \<open>Well-formed registries\<close>

definition normalized_name :: "rstr \<Rightarrow> bool" where
  "normalized_name s \<longleftrightarrow> s \<noteq> [] \<and> trim s = s"

definition capability_wf :: "tool_capability \<Rightarrow> bool" where
  "capability_wf c \<longleftrightarrow>
     normalized_name (cap_name c) \<and> pred_option normalized_name (cap_group c)
     \<and> pred_option normalized_name (cap_feature_flag c)"

definition inventory_wf :: "tool_inventory \<Rightarrow> bool" where
  "inventory_wf store \<longleftrightarrow>
     distinct (map fst (inv_entries store))
     \<and> (\<forall>(name, c) \<in> set (inv_entries store). name = cap_name c \<and> capability_wf c)"

definition entry_wf :: "tool_catalog_entry \<Rightarrow> bool" where
  "entry_wf e \<longleftrightarrow>
     capability_wf (ent_capability e) \<and> pred_option normalized_name (ent_handler e)
     \<and> sorted_wrt (<) (ent_tags e) \<and> list_all normalized_name (ent_tags e)"

definition catalog_wf :: "tool_catalog \<Rightarrow> bool" where
  "catalog_wf cat \<longleftrightarrow>
     sorted_wrt (<) (map ent_name (cat_entries cat)) \<and> list_all entry_wf (cat_entries cat)
     \<and> sorted_wrt (<) (map prof_key (cat_profiles cat))"

text \<open>What registration makes of an entry, and when it accepts one.\<close>

definition normalized_capability :: "tool_capability \<Rightarrow> tool_capability" where
  "normalized_capability c =
     c\<lparr>cap_name := trim (cap_name c), cap_group := map_option trim (cap_group c),
       cap_feature_flag := map_option trim (cap_feature_flag c)\<rparr>"

definition normalized_entry :: "tool_catalog_entry \<Rightarrow> tool_catalog_entry" where
  "normalized_entry e =
     e\<lparr>ent_capability := normalized_capability (ent_capability e),
       ent_handler := map_option trim (ent_handler e), ent_tags := sort_dedup (map trim (ent_tags e))\<rparr>"

definition capability_valid :: "tool_capability \<Rightarrow> bool" where
  "capability_valid c \<longleftrightarrow>
     \<not> is_blank (cap_name c) \<and> pred_option (\<lambda>g. \<not> is_blank g) (cap_group c)
     \<and> pred_option (\<lambda>f. \<not> is_blank f) (cap_feature_flag c)"

definition entry_valid :: "tool_catalog_entry \<Rightarrow> bool" where
  "entry_valid e \<longleftrightarrow>
     capability_valid (ent_capability e) \<and> pred_option (\<lambda>h. \<not> is_blank h) (ent_handler e)
     \<and> list_all (\<lambda>t. \<not> is_blank t) (ent_tags e)"

lemma normalize_non_empty_Inr [simp]:
  "normalize_non_empty field v = Inr x \<longleftrightarrow> x = trim v \<and> \<not> is_blank v"
  by (auto simp: normalize_non_empty_def)

lemma normalize_non_empty_Inl [simp]:
  "normalize_non_empty field v = Inl e \<longleftrightarrow> e = invalid_value field v \<and> is_blank v"
  by (auto simp: normalize_non_empty_def)

lemma normalize_option_Inr [simp]:
  "normalize_option field v = Inr w \<longleftrightarrow> w = map_option trim v \<and> pred_option (\<lambda>x. \<not> is_blank x) v"
  by (auto simp: normalize_option_def split: option.splits)

lemma normalize_each_Inr [simp]:
  "normalize_each field vs = Inr xs \<longleftrightarrow> xs = map trim vs \<and> list_all (\<lambda>v. \<not> is_blank v) vs"
  by (induction vs arbitrary: xs) auto

lemma normalize_non_empty_list_Inr [simp]:
  "normalize_non_empty_list field vs = Inr xs
     \<longleftrightarrow> xs = sort_dedup (map trim vs) \<and> list_all (\<lambda>v. \<not> is_blank v) vs"
  by (auto simp: normalize_non_empty_list_def)

lemma normalized_trim [simp]: "normalized_name (trim v) \<longleftrightarrow> \<not> is_blank v"
  by (simp add: normalized_name_def)

lemma capability_wf_normalized: "capability_valid c \<Longrightarrow> capability_wf (normalized_capability c)"
  by (cases "cap_group c"; cases "cap_feature_flag c")
     (simp_all add: capability_valid_def capability_wf_def normalized_capability_def)

lemma entry_wf_normalized: "entry_valid e \<Longrightarrow> entry_wf (normalized_entry e)"
  by (cases "ent_handler e")
     (simp_all add: entry_valid_def entry_wf_def normalized_entry_def capability_wf_normalized sort_dedup_sorted
       list_all_iff)

lemma inventory_register_Inr:
  "inventory_register c store = Inr store' \<longleftrightarrow>
     capability_valid c \<and> map_of (inv_entries store) (trim (cap_name c)) = None
     \<and> store' = store\<lparr>inv_entries := AList.update (trim (cap_name c)) (normalized_capability c) (inv_entries store)\<rparr>"
  by (auto simp: inventory_register_def capability_valid_def normalized_capability_def)

lemma catalog_register_Inr:
  "catalog_register e cat = Inr cat' \<longleftrightarrow>
     entry_valid e \<and> \<not> list_ex (\<lambda>x. ent_name x = trim (ent_name e)) (cat_entries cat)
     \<and> cat' = cat\<lparr>cat_entries := sort_key ent_name (cat_entries cat @ [normalized_entry e])\<rparr>"
  by (auto simp: catalog_register_def entry_valid_def capability_valid_def normalized_entry_def
      normalized_capability_def Let_def)

lemma normalized_capability_name [simp]: "cap_name (normalized_capability c) = trim (cap_name c)"
  by (simp add: normalized_capability_def)

lemma normalized_entry_capability [simp]:
  "ent_capability (normalized_entry e) = normalized_capability (ent_capability e)"
  by (simp add: normalized_entry_def)

lemma catalog_register_wf: "catalog_wf cat \<Longrightarrow> catalog_register e cat = Inr cat' \<Longrightarrow> catalog_wf cat'"
  by (auto simp: catalog_wf_def catalog_register_Inr entry_wf_normalized list_all_iff list_ex_iff
      intro!: strict_sorted_push)

lemma register_profile_wf: "catalog_wf cat \<Longrightarrow> register_profile p cat = Inr cat' \<Longrightarrow> catalog_wf cat'"
  by (auto simp: catalog_wf_def register_profile_def list_ex_iff split: if_splits intro!: strict_sorted_push)

lemma register_standard_profiles_wf: "catalog_wf cat \<Longrightarrow> catalog_wf (snd (register_standard_profiles groups cat))"
  unfolding register_standard_profiles_def
  by (auto split: sum.split intro: register_profile_wf)

lemma catalog_new_wf [simp]: "catalog_wf catalog_new"
  by (simp add: catalog_wf_def catalog_new_def)

lemma inventory_new_wf [simp]: "inventory_wf inventory_new"
  by (simp add: inventory_wf_def inventory_new_def)

lemma inventory_register_wf: "inventory_wf store \<Longrightarrow> inventory_register c store = Inr store' \<Longrightarrow> inventory_wf store'"
  using set_alist_update [of "trim (cap_name c)" "normalized_capability c" "inv_entries store"]
  by (auto simp: inventory_wf_def inventory_register_Inr distinct_update dest!: subsetD capability_wf_normalized)

text \<open>The operations of a catalog as a machine.\<close>

datatype catalog_op =
    RegisterEntry tool_catalog_entry | RegisterProfile tool_catalog_profile | RegisterStandard "rstr list"

fun catalog_step :: "catalog_op \<Rightarrow> tool_catalog \<Rightarrow> tool_catalog" where
  "catalog_step (RegisterEntry e) cat = (case catalog_register e cat of Inl _ \<Rightarrow> cat | Inr cat' \<Rightarrow> cat')"
| "catalog_step (RegisterProfile p) cat = (case register_profile p cat of Inl _ \<Rightarrow> cat | Inr cat' \<Rightarrow> cat')"
| "catalog_step (RegisterStandard groups) cat = snd (register_standard_profiles groups cat)"

interpretation catalog_machine: invariant_machine "\<lambda>cat. cat = catalog_new" catalog_step catalog_wf
proof unfold_locales
  fix cat assume wf: "catalog_wf cat"
  fix op show "catalog_wf (catalog_step op cat)"
    by (cases op) (auto simp: wf catalog_register_wf [OF wf] register_profile_wf [OF wf]
        register_standard_profiles_wf [OF wf] split: sum.split)
qed simp

section \<open>The inventory of a catalog\<close>

lemma update_fresh: "k \<notin> fst ` set m \<Longrightarrow> AList.update k v m = m @ [(k, v)]"
  by (induction m) auto

lemma fold_update_entries:
  "distinct (map fst m @ map ent_name es) \<Longrightarrow>
     fold (\<lambda>e m. AList.update (ent_name e) (ent_capability e) m) es m
       = m @ map (\<lambda>e. (ent_name e, ent_capability e)) es"
  by (induction es arbitrary: m) (simp_all add: update_fresh)

lemma catalog_names_distinct: "catalog_wf cat \<Longrightarrow> distinct (map ent_name (cat_entries cat))"
  by (simp add: catalog_wf_def strict_sorted_iff)

lemma catalog_inventory_entries:
  "catalog_wf cat \<Longrightarrow>
     inv_entries (catalog_inventory cat) = map (\<lambda>e. (ent_name e, ent_capability e)) (cat_entries cat)"
  using fold_update_entries [of "[]" "cat_entries cat"] by (simp add: catalog_inventory_def catalog_names_distinct)

lemma catalog_inventory_wf: "catalog_wf cat \<Longrightarrow> inventory_wf (catalog_inventory cat)"
  by (auto simp: inventory_wf_def catalog_inventory_entries catalog_names_distinct comp_def)
     (auto simp: catalog_wf_def entry_wf_def list_all_iff)

lemma catalog_capabilities:
  "catalog_wf cat \<Longrightarrow> capabilities (catalog_inventory cat) = map ent_capability (cat_entries cat)"
  by (auto simp: capabilities_def catalog_inventory_entries catalog_wf_def strict_sorted_iff comp_def
      intro!: sort_key_id_if_sorted)

lemma map_of_entries:
  "map_of (map (\<lambda>e. (ent_name e, ent_capability e)) es) k
     = map_option ent_capability (find (\<lambda>e. ent_name e = k) es)"
  by (induction es) auto

lemma sort_key_push:
  fixes f :: "'a \<Rightarrow> 'b :: linorder"
  assumes "distinct (map f (xs @ ys))"
  shows "sort_key f (sort_key f xs @ ys) = sort_key f (xs @ ys)"
proof (rule map_sorted_distinct_set_unique [of f])
  show "inj_on f (set (sort_key f (sort_key f xs @ ys)) \<union> set (sort_key f (xs @ ys)))"
    using assms by (simp only: set_sort set_append Un_absorb distinct_map)
  have d: "distinct (map f (sort_key f zs)) \<longleftrightarrow> distinct (map f zs)" for zs :: "'a list"
    by (simp only: distinct_map distinct_sort set_sort)
  show "distinct (map f (sort_key f (xs @ ys)))" using assms by (simp only: d)
  show "distinct (map f (sort_key f (sort_key f xs @ ys)))"
    using assms by (simp only: d map_append distinct_append set_map set_sort)
qed simp_all

lemma capabilities_unique:
  assumes "inventory_wf s" and "inventory_wf t" and eq: "map_of (inv_entries s) = map_of (inv_entries t)"
  shows "capabilities s = capabilities t"
proof -
  have wf: "distinct (map cap_name (map snd (inv_entries u)))" if "inventory_wf u" for u
  proof -
    have "map cap_name (map snd (inv_entries u)) = map fst (inv_entries u)"
      using that by (auto simp: inventory_wf_def)
    then show ?thesis using that by (simp only: inventory_wf_def)
  qed
  have st: "set (map snd (inv_entries s)) = set (map snd (inv_entries t))"
    using eq assms(1,2) by (simp add: inventory_wf_def map_of_inject_set)
  have d: "distinct (map cap_name (capabilities u))" if "inventory_wf u" for u
    using wf [OF that] by (simp only: capabilities_def distinct_map distinct_sort set_sort)
  have c: "set (capabilities u) = set (map snd (inv_entries u))" for u
    by (simp only: capabilities_def set_sort)
  have "inj_on cap_name (set (capabilities s))" using d [OF assms(1)] by (simp only: distinct_map)
  moreover have "set (capabilities s) = set (capabilities t)" using st by (simp only: c)
  moreover have "sorted (map cap_name (capabilities s))" "sorted (map cap_name (capabilities t))"
    by (simp_all only: capabilities_def sorted_sort_key)
  ultimately show ?thesis
    using d [OF assms(1)] d [OF assms(2)] by (intro map_sorted_distinct_set_unique [of cap_name]) simp_all
qed

text \<open>The two registries hold the same capabilities.\<close>

definition same_tools :: "tool_catalog \<Rightarrow> tool_inventory \<Rightarrow> bool" where
  "same_tools cat store \<longleftrightarrow>
     catalog_wf cat \<and> inventory_wf store \<and> map_of (inv_entries store) = map_of (inv_entries (catalog_inventory cat))"

text \<open>The checks of a catalog entry that the inventory does not have.\<close>

definition has_blank_extra :: "tool_catalog_entry \<Rightarrow> bool" where
  "has_blank_extra e \<longleftrightarrow>
     (case ent_handler e of None \<Rightarrow> False | Some h \<Rightarrow> is_blank h) \<or> list_ex is_blank (ent_tags e)"

lemma map_of_catalog_inventory:
  "catalog_wf cat \<Longrightarrow>
     map_of (inv_entries (catalog_inventory cat)) k = map_option ent_capability (find (\<lambda>e. ent_name e = k) (cat_entries cat))"
  by (simp add: catalog_inventory_entries map_of_entries)

lemma map_of_catalog_inventory_None:
  "catalog_wf cat \<Longrightarrow>
     map_of (inv_entries (catalog_inventory cat)) k = None \<longleftrightarrow> \<not> list_ex (\<lambda>e. ent_name e = k) (cat_entries cat)"
  by (auto simp: map_of_catalog_inventory find_None_iff list_ex_iff)

lemma catalog_register_inventory:
  assumes wf: "catalog_wf cat" and reg: "catalog_register e cat = Inr cat'"
  shows "map_of (inv_entries (catalog_inventory cat')) =
    (map_of (inv_entries (catalog_inventory cat)))(trim (ent_name e) \<mapsto> normalized_capability (ent_capability e))"
proof -
  let ?f = "\<lambda>e. (ent_name e, ent_capability e)"
  have wf': "catalog_wf cat'" by (rule catalog_register_wf [OF wf reg])
  have fresh: "\<not> list_ex (\<lambda>x. ent_name x = trim (ent_name e)) (cat_entries cat)"
    and entries: "cat_entries cat' = sort_key ent_name (cat_entries cat @ [normalized_entry e])"
    using reg by (auto simp: catalog_register_Inr)
  have "distinct (map fst (map ?f (cat_entries cat')))"
    using catalog_names_distinct [OF wf'] by (simp add: comp_def)
  moreover have "distinct (map fst (map ?f (normalized_entry e # cat_entries cat)))"
    using catalog_names_distinct [OF wf] fresh by (auto simp: comp_def list_ex_iff)
  moreover have "set (map ?f (cat_entries cat')) = set (map ?f (normalized_entry e # cat_entries cat))"
    by (simp add: entries)
  ultimately have "map_of (map ?f (cat_entries cat')) = map_of (map ?f (normalized_entry e # cat_entries cat))"
    by (simp only: map_of_inject_set)
  then show ?thesis by (simp add: catalog_inventory_entries wf wf')
qed

lemma same_tools_step:
  assumes same: "same_tools cat store"
  shows "case catalog_register e cat of
      Inr cat' \<Rightarrow> (\<exists>store'. inventory_register (ent_capability e) store = Inr store' \<and> same_tools cat' store')
    | Inl err \<Rightarrow> inventory_register (ent_capability e) store = Inl err \<or> has_blank_extra e"
proof -
  have dup: "map_of (inv_entries store) k \<noteq> None \<longleftrightarrow> list_ex (\<lambda>x. ent_name x = k) (cat_entries cat)" for k
    using same by (simp add: same_tools_def map_of_catalog_inventory_None)
  show ?thesis
  proof (cases "catalog_register e cat")
    case (Inr cat')
    then have reg: "inventory_register (ent_capability e) store = Inr (store\<lparr>inv_entries :=
        AList.update (trim (ent_name e)) (normalized_capability (ent_capability e)) (inv_entries store)\<rparr>)"
      using dup [of "trim (ent_name e)"] by (simp add: catalog_register_Inr inventory_register_Inr entry_valid_def)
    moreover have "same_tools cat' (store\<lparr>inv_entries :=
        AList.update (trim (ent_name e)) (normalized_capability (ent_capability e)) (inv_entries store)\<rparr>)"
      using same catalog_register_wf [OF _ Inr] inventory_register_wf [OF _ reg] catalog_register_inventory [OF _ Inr]
      by (simp add: same_tools_def update_conv')
    ultimately show ?thesis using Inr by simp
  next
    case (Inl err)
    have tags: "list_ex is_blank (ent_tags e)" if "normalize_non_empty_list field (ent_tags e) = Inl x" for field x
    proof (rule ccontr)
      assume "\<not> list_ex is_blank (ent_tags e)"
      then have "normalize_non_empty_list field (ent_tags e) = Inr (sort_dedup (map trim (ent_tags e)))"
        by (simp add: list_ex_iff list_all_iff)
      with that show False by simp
    qed
    have handler: "(case ent_handler e of None \<Rightarrow> False | Some h \<Rightarrow> is_blank h)"
      if "normalize_option field (ent_handler e) = Inl x" for field x
      using that by (auto simp: normalize_option_def split: option.splits)
    have "inventory_register (ent_capability e) store = Inl err \<or> has_blank_extra e"
      using Inl dup [of "trim (ent_name e)"]
      by (auto simp: catalog_register_def inventory_register_def Let_def has_blank_extra_def
          dest: tags handler split: if_splits)
    then show ?thesis using Inl by simp
  qed
qed

lemma same_tools_run:
  "same_tools cat store \<Longrightarrow>
    (case register_entries es cat of
       Inr cat' \<Rightarrow> (\<exists>store'. register_capabilities (map ent_capability es) store = Inr store' \<and> same_tools cat' store')
     | Inl err \<Rightarrow> register_capabilities (map ent_capability es) store = Inl err \<or> list_ex has_blank_extra es)"
proof (induction es arbitrary: cat store)
  case (Cons e es)
  show ?case
  proof (cases "catalog_register e cat")
    case (Inl err)
    then show ?thesis using same_tools_step [OF Cons.prems, of e] by auto
  next
    case (Inr cat')
    then obtain store' where "inventory_register (ent_capability e) store = Inr store'" "same_tools cat' store'"
      using same_tools_step [OF Cons.prems, of e] by auto
    then show ?thesis using Inr Cons.IH [of cat' store'] by (auto split: sum.splits)
  qed
qed simp

text \<open>
  C18: The catalog is a refinement of the inventory: registering a list of entries in a catalog and
  registering their capabilities in an inventory succeed together and then hold the same capability
  under every name, listed in the same order; when the catalog refuses, the inventory refuses with the
  same error, unless an entry has a blank handler or tag, which only the catalog checks.
\<close>

theorem catalog_refines_inventory:
  "case from_entries es of
     Inr cat \<Rightarrow>
       (\<exists>store. from_capabilities (map ent_capability es) = Inr store
          \<and> map_of (inv_entries store) = map_of (inv_entries (catalog_inventory cat))
          \<and> capabilities store = map ent_capability (cat_entries cat))
   | Inl err \<Rightarrow>
       from_capabilities (map ent_capability es) = Inl err \<or> list_ex has_blank_extra es"
proof -
  have start: "same_tools catalog_new inventory_new"
    by (simp add: same_tools_def inventory_new_def [symmetric]) (simp add: catalog_inventory_def catalog_new_def inventory_new_def)
  show ?thesis
  proof (cases "from_entries es")
    case (Inl err)
    then show ?thesis using same_tools_run [OF start, of es] by (simp add: from_entries_def from_capabilities_def)
  next
    case (Inr cat)
    then obtain store where store: "register_capabilities (map ent_capability es) inventory_new = Inr store"
      and same: "same_tools cat store"
      using same_tools_run [OF start, of es] by (auto simp: from_entries_def)
    have "capabilities store = map ent_capability (cat_entries cat)"
      using same capabilities_unique [of store "catalog_inventory cat"]
      by (simp add: same_tools_def catalog_inventory_wf catalog_capabilities)
    then show ?thesis using Inr store same by (simp add: from_capabilities_def same_tools_def)
  qed
qed

section \<open>Which declarations a catalog accepts\<close>

lemma list_ex_name: "list_ex (\<lambda>x. ent_name x = k) es \<longleftrightarrow> k \<in> set (map ent_name es)"
  by (induction es) auto

lemma register_entries_Inr:
  "catalog_wf cat \<Longrightarrow>
     register_entries es cat = Inr cat' \<longleftrightarrow>
       list_all entry_valid es \<and> distinct (map ent_name (cat_entries cat) @ map (\<lambda>e. trim (ent_name e)) es)
       \<and> cat' = cat\<lparr>cat_entries := sort_key ent_name (cat_entries cat @ map normalized_entry es)\<rparr>"
proof (induction es arbitrary: cat)
  case Nil
  then have "sort_key ent_name (cat_entries cat) = cat_entries cat"
    by (simp add: catalog_wf_def strict_sorted_iff sort_key_id_if_sorted)
  with Nil show ?case by (auto simp: catalog_names_distinct)
next
  case (Cons e es)
  show ?case
  proof (cases "catalog_register e cat")
    case (Inl err)
    have "\<not> (entry_valid e \<and> \<not> list_ex (\<lambda>x. ent_name x = trim (ent_name e)) (cat_entries cat))"
    proof
      assume "entry_valid e \<and> \<not> list_ex (\<lambda>x. ent_name x = trim (ent_name e)) (cat_entries cat)"
      then have "catalog_register e cat = Inr (cat\<lparr>cat_entries := sort_key ent_name (cat_entries cat @ [normalized_entry e])\<rparr>)"
        by (simp add: catalog_register_Inr)
      with Inl show False by simp
    qed
    then show ?thesis using Inl unfolding list_ex_name by auto
  next
    case (Inr cat1)
    let ?x = "normalized_entry e"
    have cat1: "cat1 = cat\<lparr>cat_entries := sort_key ent_name (cat_entries cat @ [?x])\<rparr>"
      and valid: "entry_valid e" and fresh: "\<not> list_ex (\<lambda>x. ent_name x = trim (ent_name e)) (cat_entries cat)"
      using Inr by (simp_all add: catalog_register_Inr)
    have wf1: "catalog_wf cat1" by (rule catalog_register_wf [OF Cons.prems Inr])
    have names: "distinct (map ent_name (cat_entries cat1) @ map (\<lambda>e. trim (ent_name e)) es)
        \<longleftrightarrow> distinct (map ent_name (cat_entries cat) @ map (\<lambda>e. trim (ent_name e)) (e # es))"
      using catalog_names_distinct [OF Cons.prems] catalog_names_distinct [OF wf1] fresh
      unfolding list_ex_name by (auto simp: cat1)
    have sorted: "sort_key ent_name (cat_entries cat1 @ map normalized_entry es)
        = sort_key ent_name (cat_entries cat @ map normalized_entry (e # es))"
      if "distinct (map ent_name (cat_entries cat) @ map (\<lambda>e. trim (ent_name e)) (e # es))"
      using sort_key_push [of ent_name "cat_entries cat @ [?x]" "map normalized_entry es"] that
      by (auto simp: cat1 comp_def)
    show ?thesis
      using Inr Cons.IH [OF wf1, of ] names sorted valid by (auto simp: cat1)
  qed
qed

text \<open>
  C19: \<open>ToolCatalog::from_entries\<close> accepts a list of declarations exactly when every entry is valid (no
  blank name, group, feature flag, handler or tag) and no two names agree after trimming, and then
  the catalog holds exactly the normalised entries, in the order of their names.
\<close>

theorem from_entries_exact:
  "from_entries es = Inr cat \<longleftrightarrow>
     list_all entry_valid es \<and> distinct (map (\<lambda>e. trim (ent_name e)) es)
     \<and> cat = \<lparr>cat_entries = sort_key ent_name (map normalized_entry es), cat_profiles = []\<rparr>"
  by (simp add: from_entries_def register_entries_Inr) (simp add: catalog_new_def)

section \<open>Profile contracts\<close>

lemma inventory_lookup_iff:
  "inventory_wf store \<Longrightarrow>
     c \<in> set (capabilities store) \<longleftrightarrow> map_of (inv_entries store) (cap_name c) = Some c"
  by (force simp: capabilities_def inventory_wf_def map_of_eq_Some_iff)

lemma inventory_lookup_wf:
  "inventory_wf store \<Longrightarrow> map_of (inv_entries store) n = Some c \<Longrightarrow> n = cap_name c \<and> capability_wf c"
  by (auto simp: inventory_wf_def dest: map_of_SomeD)

lemma decision_registered:
  "inventory_wf store \<Longrightarrow> map_of (inv_entries store) n = Some c \<Longrightarrow>
     tid_allowed (decision_inner store n operation p key) \<longleftrightarrow> allows_capability p c operation"
  using inventory_lookup_wf [of store n c]
  by (auto simp: decision_inner_def capability_wf_def normalized_name_def allows_capability_def tid_permit_def
      tid_denied_def Let_def split: option.split)

lemma visible_iff:
  assumes "inventory_wf store"
  shows "c \<in> set (filter (\<lambda>c. allows_capability (prof_policy profile) c operation) (capabilities store)) \<longleftrightarrow>
    map_of (inv_entries store) (cap_name c) = Some c
    \<and> tid_allowed (decision_for_profile store (cap_name c) operation profile)"
  using decision_registered [OF assms, of "cap_name c" c]
  by (auto simp: inventory_lookup_iff [OF assms] decision_for_profile_def)

lemma capabilities_sorted:
  "inventory_wf store \<Longrightarrow> sorted_wrt (<) (map cap_name (capabilities store))"
proof -
  assume wf: "inventory_wf store"
  then have names: "map cap_name (map snd (inv_entries store)) = map fst (inv_entries store)"
    by (auto simp: inventory_wf_def)
  then have "distinct (map cap_name (map snd (inv_entries store)))"
    using wf by (simp only: inventory_wf_def)
  then have "distinct (map cap_name (capabilities store))"
    by (simp only: capabilities_def distinct_map distinct_sort set_sort)
  then show ?thesis by (simp add: strict_sorted_iff capabilities_def)
qed

lemma contract_names:
  assumes wf: "inventory_wf store"
  shows "con_tool_names (catalog_contract store profile operation) =
    map cap_name (filter (\<lambda>c. allows_capability (prof_policy profile) c operation) (capabilities store))"
proof -
  have "sorted (map cap_name (filter (\<lambda>c. allows_capability (prof_policy profile) c operation) (capabilities store)))"
    using capabilities_sorted [OF wf] by (intro sorted_filter) (simp add: strict_sorted_iff)
  then show ?thesis by (simp add: catalog_contract_def Let_def sorted_sort_id)
qed

lemma set_map_filter_option: "y \<in> set (List.map_filter f xs) \<longleftrightarrow> (\<exists>x \<in> set xs. f x = Some y)"
  by (induction xs) (auto simp: List.map_filter_simps split: option.splits)

text \<open>
  C21: The contract that a probe reads tells the truth about the decisions: the listed tools are exactly
  the registered tools that \<open>decision_for_profile\<close> allows for the operation, strictly sorted; the listed
  groups are exactly the groups of those tools; and the contract is satisfied exactly when every
  required tool is one of them and every required group has one of them.
\<close>

theorem contract_truthful:
  assumes wf: "inventory_wf store"
  shows "sorted_wrt (<) (con_tool_names (catalog_contract store profile operation))
    \<and> set (con_tool_names (catalog_contract store profile operation)) =
        {n. map_of (inv_entries store) n \<noteq> None \<and> tid_allowed (decision_for_profile store n operation profile)}
    \<and> set (con_groups (catalog_contract store profile operation)) =
        {g. \<exists>n c. map_of (inv_entries store) n = Some c \<and> cap_group c = Some g
               \<and> tid_allowed (decision_for_profile store n operation profile)}
    \<and> (is_satisfied (catalog_contract store profile operation) \<longleftrightarrow>
         (\<forall>n \<in> set (prof_required_tools profile).
            map_of (inv_entries store) n \<noteq> None \<and> tid_allowed (decision_for_profile store n operation profile))
         \<and> (\<forall>g \<in> set (prof_required_groups profile).
              \<exists>n c. map_of (inv_entries store) n = Some c \<and> cap_group c = Some g
                \<and> tid_allowed (decision_for_profile store n operation profile)))"
proof -
  let ?k = "catalog_contract store profile operation"
  let ?v = "filter (\<lambda>c. allows_capability (prof_policy profile) c operation) (capabilities store)"
  have sorted: "sorted_wrt (<) (con_tool_names ?k)"
    unfolding contract_names [OF wf] using capabilities_sorted [OF wf] by (simp add: sorted_wrt_map sorted_wrt_filter)
  have names: "n \<in> set (con_tool_names ?k) \<longleftrightarrow>
      map_of (inv_entries store) n \<noteq> None \<and> tid_allowed (decision_for_profile store n operation profile)" for n
    using visible_iff [OF wf, of _ profile operation] inventory_lookup_wf [OF wf, of n]
    unfolding contract_names [OF wf] set_map by (auto simp: image_iff)
  have groups: "g \<in> set (con_groups ?k) \<longleftrightarrow>
      (\<exists>n c. map_of (inv_entries store) n = Some c \<and> cap_group c = Some g
         \<and> tid_allowed (decision_for_profile store n operation profile))" for g
  proof -
    have "g \<in> set (con_groups ?k) \<longleftrightarrow> (\<exists>c \<in> set ?v. cap_group c = Some g)"
      by (simp add: catalog_contract_def Let_def set_map_filter_option)
    also have "\<dots> \<longleftrightarrow> (\<exists>n c. map_of (inv_entries store) n = Some c \<and> cap_group c = Some g
         \<and> tid_allowed (decision_for_profile store n operation profile))"
      unfolding Bex_def visible_iff [OF wf] using inventory_lookup_wf [OF wf] by blast
    finally show ?thesis .
  qed
  have "sorted (con_groups ?k)"
    using sort_dedup_sorted by (simp add: catalog_contract_def Let_def strict_sorted_iff)
  then have satisfied: "is_satisfied ?k \<longleftrightarrow>
      (\<forall>n \<in> set (prof_required_tools profile). n \<in> set (con_tool_names ?k))
      \<and> (\<forall>g \<in> set (prof_required_groups profile). g \<in> set (con_groups ?k))"
    using sorted binary_search_iff [of "con_tool_names ?k"] binary_search_iff [of "con_groups ?k"]
    by (auto simp: is_satisfied_def catalog_contract_def Let_def filter_empty_conv strict_sorted_iff)
  show ?thesis using sorted names groups satisfied by auto
qed

text \<open>Values for the witnesses: a tool that reads, a tool that writes, and an operator tool.\<close>

definition demo_entries :: "tool_catalog_entry list" where
  "demo_entries =
     [entry_on_capability (cap_with_group ''ads'' \<circ> cap_with_risk_posture posture_mutating) (entry_new ''ads.update''),
      entry_on_capability (cap_with_group ''ads'' \<circ> cap_with_read_only True) (entry_new '' ads.list ''),
      entry_on_capability (cap_with_operator_profile_gate \<circ> cap_with_read_only True) (entry_new ''ops.audit'')]"

definition demo_catalog :: tool_catalog where
  "demo_catalog = (case from_entries demo_entries of Inr cat \<Rightarrow> cat | Inl _ \<Rightarrow> catalog_new)"

lemma demo_catalog_wf: "catalog_wf demo_catalog"
proof -
  have "catalog_wf cat" if "register_entries es cat0 = Inr cat" "catalog_wf cat0" for es cat cat0
    using that by (induction es arbitrary: cat0) (auto intro: catalog_register_wf)
  then show ?thesis by (auto simp: demo_catalog_def from_entries_def split: sum.split)
qed

theorem contract_truthful_witness:
  "con_tool_names (catalog_contract (catalog_inventory demo_catalog) read_only_default Op_Call) = [''ads.list'']
   \<and> {n. map_of (inv_entries (catalog_inventory demo_catalog)) n \<noteq> None
         \<and> tid_allowed (decision_for_profile (catalog_inventory demo_catalog) n Op_Call read_only_default)} = {''ads.list''}"
proof -
  have "con_tool_names (catalog_contract (catalog_inventory demo_catalog) read_only_default Op_Call) = [''ads.list'']"
    by code_simp
  then show ?thesis
    using contract_truthful [OF catalog_inventory_wf [OF demo_catalog_wf], of read_only_default Op_Call] by auto
qed

section \<open>The standard profiles\<close>

lemma find_unique_key:
  "distinct (map f xs) \<Longrightarrow> x \<in> set xs \<Longrightarrow> find (\<lambda>y. f y = f x) xs = Some x"
  by (induction xs) (auto simp: image_iff)

lemma trim_profile_keys [simp]:
  "trim READ_ONLY_PROFILE_KEY = READ_ONLY_PROFILE_KEY" "trim OPERATOR_PROFILE_KEY = OPERATOR_PROFILE_KEY"
  by code_simp+

lemma register_profile_Inr:
  "register_profile p cat = Inr cat' \<longleftrightarrow>
     \<not> list_ex (\<lambda>q. prof_key q = prof_key p) (cat_profiles cat)
     \<and> cat' = cat\<lparr>cat_profiles := sort_key prof_key (cat_profiles cat @ [p])\<rparr>"
  by (auto simp: register_profile_def)

lemma registered_profile_found:
  assumes "catalog_wf cat" and "p \<in> set (cat_profiles cat)" and "trim (prof_key p) = prof_key p"
  shows "catalog_profile cat (prof_key p) = Some p"
  using find_unique_key [of prof_key "cat_profiles cat" p] assms
  by (simp add: catalog_profile_def catalog_wf_def strict_sorted_iff)

text \<open>The read-only profile that \<open>register_standard_profiles\<close> adds.\<close>

definition standard_read_only :: "rstr list \<Rightarrow> tool_catalog_profile" where
  "standard_read_only groups =
     (if groups = [] then read_only_default
      else (read_only_default\<lparr>prof_policy := policy_with_allowed_groups (sort_dedup (map trim groups)) policy_strict_read_only,
            prof_required_groups := sort_dedup (map trim groups)\<rparr>))"

lemma sort_dedup_Nil [simp]: "sort_dedup xs = [] \<longleftrightarrow> xs = []"
  by (metis set_empty sort_dedup_set)

lemma sort_dedup_trim_idem: "sort_dedup (map trim (sort_dedup (map trim xs))) = sort_dedup (map trim xs)"
  by (simp add: sort_dedup_eq_iff image_image)

lemma register_standard_profiles_ok:
  assumes "register_standard_profiles groups cat = (Inr (), cat')"
  shows "set (cat_profiles cat') = insert operator_default (insert (standard_read_only groups) (set (cat_profiles cat)))"
    and "cat_entries cat' = cat_entries cat"
    and "list_all (\<lambda>g. \<not> is_blank g) groups"
  using assms
  by (auto simp: register_standard_profiles_def register_profile_Inr profile_with_required_groups_def
      standard_read_only_def profile_with_policy_def sort_dedup_trim_idem split: sum.splits if_splits)

text \<open>
  C20: The generated read-only profile is safe: after \<open>register_standard_profiles\<close> succeeds, both standard
  profiles are found under their keys, and a tool that the read-only profile allows, for listing or for
  calling, is a registered read-only tool without a feature flag, exposed for that operation, and in one
  of the requested groups when groups were requested.
\<close>

theorem read_only_profile_safe:
  assumes wf: "catalog_wf cat" and reg: "register_standard_profiles groups cat = (Inr (), cat')"
  shows "catalog_profile cat' READ_ONLY_PROFILE_KEY = Some (standard_read_only groups)
    \<and> catalog_profile cat' OPERATOR_PROFILE_KEY = Some operator_default
    \<and> (tid_allowed (decision_for_profile (catalog_inventory cat') n operation (standard_read_only groups)) \<longrightarrow>
         (\<exists>e \<in> set (cat_entries cat).
            ent_name e = trim n \<and> cap_read_only (ent_capability e) \<and> cap_feature_flag (ent_capability e) = None
            \<and> exposure_allows (cap_exposure (ent_capability e)) operation
            \<and> (groups = [] \<or> cap_group (ent_capability e) \<in> Some ` trim ` set groups)))"
proof -
  note ok = register_standard_profiles_ok [OF reg]
  have wf': "catalog_wf cat'" using register_standard_profiles_wf [OF wf, of groups] reg by simp
  have key: "prof_key (standard_read_only groups) = READ_ONLY_PROFILE_KEY" "prof_key operator_default = OPERATOR_PROFILE_KEY"
    by (simp_all add: standard_read_only_def read_only_default_def operator_default_def)
  have found: "catalog_profile cat' READ_ONLY_PROFILE_KEY = Some (standard_read_only groups)"
    "catalog_profile cat' OPERATOR_PROFILE_KEY = Some operator_default"
    using registered_profile_found [OF wf', of "standard_read_only groups"]
      registered_profile_found [OF wf', of operator_default] ok(1) key by simp_all
  have pol: "pol_read_only_only (prof_policy (standard_read_only groups))"
    "pol_enabled_feature_flags (prof_policy (standard_read_only groups)) = {}"
    "\<not> pol_include_unregistered (prof_policy (standard_read_only groups))"
    by (simp_all add: standard_read_only_def read_only_default_def policy_strict_read_only_def policy_strict_def
        policy_default_def policy_with_read_only_only_def policy_with_allowed_groups_def)
  have allowed_groups: "groups = [] \<or> pol_allowed_groups (prof_policy (standard_read_only groups)) = Some (trim ` set groups)"
    using ok(3) by (auto simp: standard_read_only_def policy_with_allowed_groups_def trimmed_set_def list_all_iff image_image)
  have "\<exists>e \<in> set (cat_entries cat).
      ent_name e = trim n \<and> cap_read_only (ent_capability e) \<and> cap_feature_flag (ent_capability e) = None
      \<and> exposure_allows (cap_exposure (ent_capability e)) operation
      \<and> (groups = [] \<or> cap_group (ent_capability e) \<in> Some ` trim ` set groups)"
    if allowed: "tid_allowed (decision_for_profile (catalog_inventory cat') n operation (standard_read_only groups))"
  proof -
    obtain c where c: "map_of (inv_entries (catalog_inventory cat')) (trim n) = Some c"
      and none: "denial_reason_for (prof_policy (standard_read_only groups)) c operation = None"
      using allowed pol(3)
      by (auto simp: decision_for_profile_def decision_inner_def Let_def tid_denied_def split: if_splits option.splits)
    obtain e where e: "e \<in> set (cat_entries cat)" "ent_name e = trim n" "c = ent_capability e"
      using c map_of_SomeD [OF c] by (auto simp: catalog_inventory_entries [OF wf'] ok(2))
    have "cap_read_only c" "cap_feature_flag c = None" "exposure_allows (cap_exposure c) operation"
      using none pol by (auto simp: denial_reason_for_def split: if_splits option.splits)
    moreover have "groups = [] \<or> cap_group c \<in> Some ` trim ` set groups"
      using none allowed_groups by (auto simp: denial_reason_for_def split: if_splits option.splits)
    ultimately show ?thesis using e by auto
  qed
  then show ?thesis using found by blast
qed

theorem read_only_profile_safe_witness:
  "\<exists>cat'. register_standard_profiles ['' ads ''] demo_catalog = (Inr (), cat')
    \<and> catalog_profile cat' READ_ONLY_PROFILE_KEY = Some (standard_read_only ['' ads ''])
    \<and> tid_allowed (decision_for_profile (catalog_inventory cat') ''ads.list'' Op_Call (standard_read_only ['' ads '']))
    \<and> (\<exists>e \<in> set (cat_entries demo_catalog). ent_name e = ''ads.list'' \<and> cap_read_only (ent_capability e))"
proof -
  have ok: "fst (register_standard_profiles ['' ads ''] demo_catalog) = Inr ()" by code_simp
  then obtain cat' where reg: "register_standard_profiles ['' ads ''] demo_catalog = (Inr (), cat')"
    by (cases "register_standard_profiles ['' ads ''] demo_catalog") auto
  have "tid_allowed (decision_for_profile (catalog_inventory (snd (register_standard_profiles ['' ads ''] demo_catalog)))
      ''ads.list'' Op_Call (standard_read_only ['' ads '']))" by code_simp
  then have allowed: "tid_allowed (decision_for_profile (catalog_inventory cat') ''ads.list'' Op_Call (standard_read_only ['' ads '']))"
    by (simp only: reg snd_conv)
  have "trim ''ads.list'' = ''ads.list''" by code_simp
  then show ?thesis
    using read_only_profile_safe [OF demo_catalog_wf reg, of "''ads.list''" Op_Call] allowed reg by auto
qed

end
