(* ===== verification/Tool_Search.thy ===== *)
theory Tool_Search
  imports Tool_Inventory "HOL-Library.Product_Lexorder"
begin

text \<open>
  The tool inventory of \<open>tool_inventory.rs\<close> (crate \<open>mcp-toolkit-core\<close>), second half: plain search and
  ranked search with negative intent.  A query is split into lower-case words; words after a negation
  marker exclude tools.  Splitting at bytes outside ASCII gives extra empty pieces only, which have no
  variants.  Scores are \<open>usize\<close> and \<open>u64\<close> in the source and natural numbers here: a score is at most
  64 times the number of tools times the number of query concepts.
\<close>

section \<open>Limits and word lists\<close>

definition RANKED_SEARCH_DEFAULT_LIMIT :: nat where "RANKED_SEARCH_DEFAULT_LIMIT = 20"
definition RANKED_SEARCH_MAX_LIMIT :: nat where "RANKED_SEARCH_MAX_LIMIT = 100"
definition RANKED_SEARCH_MAX_QUERY_CHARS :: nat where "RANKED_SEARCH_MAX_QUERY_CHARS = 1024"
definition RANKED_SEARCH_MAX_QUERY_TERMS :: nat where "RANKED_SEARCH_MAX_QUERY_TERMS = 32"
definition RANKED_SEARCH_MAX_EXCLUDED_TERMS :: nat where "RANKED_SEARCH_MAX_EXCLUDED_TERMS = 16"
definition RANKED_SEARCH_MAX_IGNORED_TERMS :: nat where "RANKED_SEARCH_MAX_IGNORED_TERMS = 16"
definition RANKED_SEARCH_MAX_GROUP_CHARS :: nat where "RANKED_SEARCH_MAX_GROUP_CHARS = 128"
definition RANKED_SEARCH_MAX_DESCRIPTION_CHARS :: nat where "RANKED_SEARCH_MAX_DESCRIPTION_CHARS = 512"
definition RANKED_SEARCH_MAX_KEYWORDS :: nat where "RANKED_SEARCH_MAX_KEYWORDS = 32"
definition RANKED_SEARCH_MAX_KEYWORD_CHARS :: nat where "RANKED_SEARCH_MAX_KEYWORD_CHARS = 128"
definition RANKED_SEARCH_MAX_ACTION_LEXEMES_TOTAL :: nat where "RANKED_SEARCH_MAX_ACTION_LEXEMES_TOTAL = 256"
definition COMPACT_SEARCH_MAX_TOOL_NAME_CHARS :: nat where "COMPACT_SEARCH_MAX_TOOL_NAME_CHARS = 256"

definition is_search_negation_marker :: "rstr \<Rightarrow> bool" where
  "is_search_negation_marker term \<longleftrightarrow> term \<in> set [
      ''avoid'', ''except'', ''exclude'', ''excluding'', ''never'', ''no'', ''not'', ''without'']"

definition is_search_negation_continuation :: "rstr \<Rightarrow> bool" where
  "is_search_negation_continuation term \<longleftrightarrow> term \<in> set [
      ''and'', ''nor'', ''or'']"

definition is_search_negation_contraction :: "rstr \<Rightarrow> bool" where
  "is_search_negation_contraction term \<longleftrightarrow> term \<in> set [
      ''arent'', ''cannot'', ''cant'', ''couldnt'', ''didnt'', ''doesnt'', ''dont'', ''hadnt'',
      ''hasnt'', ''havent'', ''aint'', ''isnt'', ''mustnt'', ''neednt'', ''shouldnt'', ''shant'',
      ''wasnt'', ''werent'', ''wont'', ''wouldnt'']"

definition is_search_negation_contraction_stem :: "rstr \<Rightarrow> bool" where
  "is_search_negation_contraction_stem term \<longleftrightarrow> term \<in> set [
      ''aren'', ''can'', ''couldn'', ''didn'', ''doesn'', ''don'', ''hadn'', ''hasn'', ''haven'',
      ''ain'', ''isn'', ''mustn'', ''needn'', ''shouldn'', ''shan'', ''wasn'', ''weren'', ''won'',
      ''wouldn'']"

definition is_search_negation_filler :: "rstr \<Rightarrow> bool" where
  "is_search_negation_filler term \<longleftrightarrow> term \<in> set [
      ''call'', ''accidentally'', ''actually'', ''any'', ''calling'', ''choose'', ''choosing'',
      ''invoke'', ''invoking'', ''ever'', ''select'', ''selecting'', ''tool'', ''tools'', ''use'',
      ''using'']"

definition is_search_stop_word :: "rstr \<Rightarrow> bool" where
  "is_search_stop_word term \<longleftrightarrow> term \<in> set [
      ''a'', ''an'', ''and'', ''are'', ''be'', ''by'', ''can'', ''could'', ''do'', ''does'',
      ''for'', ''from'', ''have'', ''how'', ''i'', ''in'', ''is'', ''it'', ''me'', ''my'', ''of'',
      ''on'', ''only'', ''or'', ''please'', ''should'', ''show'', ''that'', ''the'', ''this'',
      ''to'', ''want'', ''we'', ''would'', ''with'', ''you'', ''your'']"

definition default_search_action_lexemes :: "rstr set" where
  "default_search_action_lexemes = set [
      ''add'', ''apply'', ''archive'', ''call'', ''close'', ''create'', ''deactivate'', ''delete'',
      ''destroy'', ''dispatch'', ''drop'', ''execute'', ''fetch'', ''find'', ''get'', ''ingest'',
      ''inspect'', ''invoke'', ''launch'', ''list'', ''mutate'', ''open'', ''plan'', ''preview'',
      ''publish'', ''purge'', ''push'', ''query'', ''read'', ''refresh'', ''remove'', ''rename'',
      ''retarget'', ''rotate'', ''run'', ''search'', ''select'', ''send'', ''start'', ''stop'',
      ''traffic'', ''unpublish'', ''update'', ''write'']"

definition explicit_singulars :: "(rstr \<times> rstr list) list" where
  "explicit_singulars =
     [(''ads'', [''ad'']),
      (''aliases'', [''alias'']),
      (''analyses'', [''analysis'']),
      (''apis'', [''api'']),
      (''axes'', [''axis'', ''axe'']),
      (''buses'', [''bus'']),
      (''campaigns'', [''campaign'']),
      (''canvases'', [''canvas'']),
      (''capabilities'', [''capability'']),
      (''categories'', [''category'']),
      (''cookies'', [''cookie'']),
      (''creatives'', [''creative'']),
      (''dependencies'', [''dependency'']),
      (''entries'', [''entry'']),
      (''groups'', [''group'']),
      (''ids'', [''id'']),
      (''indices'', [''index'']),
      (''items'', [''item'']),
      (''jobs'', [''job'']),
      (''keys'', [''key'']),
      (''logs'', [''log'']),
      (''matrices'', [''matrix'']),
      (''movies'', [''movie'']),
      (''networks'', [''network'']),
      (''orders'', [''order'']),
      (''pages'', [''page'']),
      (''placements'', [''placement'']),
      (''policies'', [''policy'']),
      (''processes'', [''process'']),
      (''queries'', [''query'']),
      (''reports'', [''report'']),
      (''repositories'', [''repository'']),
      (''results'', [''result'']),
      (''schemas'', [''schema'']),
      (''searches'', [''search'']),
      (''sessions'', [''session'']),
      (''sizes'', [''size'']),
      (''statuses'', [''status'']),
      (''strategies'', [''strategy'']),
      (''tables'', [''table'']),
      (''tools'', [''tool'']),
      (''uis'', [''ui'']),
      (''units'', [''unit'']),
      (''urls'', [''url''])]"

definition singular_search_tokens :: "rstr \<Rightarrow> rstr list" where
  "singular_search_tokens token =
     (case map_of explicit_singulars token of Some singulars \<Rightarrow> singulars | None \<Rightarrow> [])"

section \<open>Tokens\<close>

definition not_alphanumeric :: "char \<Rightarrow> bool" where
  "not_alphanumeric c \<longleftrightarrow> \<not> is_ascii_alphanumeric c"

text \<open>The loops that push what is not contained yet.\<close>

fun push_missing :: "'a list \<Rightarrow> 'a list \<Rightarrow> 'a list" where
  "push_missing acc [] = acc"
| "push_missing acc (v # vs) = push_missing (if v \<in> set acc then acc else acc @ [v]) vs"

definition search_token_variants :: "rstr \<Rightarrow> rstr list" where
  "search_token_variants raw =
     (let token = to_ascii_lowercase (trim raw) in
      if token = [] then []
      else push_missing [token] (filter (\<lambda>singular. singular \<noteq> token) (singular_search_tokens token)))"

definition tokenize_search_text :: "rstr \<Rightarrow> rstr list" where
  "tokenize_search_text v = concat (map search_token_variants (split_where not_alphanumeric v))"

definition strip_suffix :: "rstr \<Rightarrow> rstr \<Rightarrow> rstr option" where
  "strip_suffix p s = (if suffix p s then Some (take (length s - length p) s) else None)"

definition strip_doubled_final_character :: "rstr \<Rightarrow> rstr option" where
  "strip_doubled_final_character v =
     (case rev (utf8_chars v) of
        l # m # rest \<Rightarrow> if m = l then Some (concat (rev (m # rest))) else None
      | _ \<Rightarrow> None)"

text \<open>The candidates after the suffixes \<open>ing\<close> and \<open>ed\<close>, which the source writes twice.\<close>

definition inflected_candidates :: "rstr \<Rightarrow> rstr list" where
  "inflected_candidates base =
     [base, base @ ''e'']
     @ (if suffix ''ck'' base then [butlast base] else [])
     @ (case strip_doubled_final_character base of Some shortened \<Rightarrow> [shortened] | None \<Rightarrow> [])"

definition action_candidates :: "rstr \<Rightarrow> rstr list" where
  "action_candidates source =
     (case opt_filter (\<lambda>base. length base \<ge> 2) (strip_suffix ''ies'' source) of
        Some base \<Rightarrow> [base @ ''y'']
      | None \<Rightarrow>
          (case opt_filter (\<lambda>base. length base \<ge> 3 \<and> \<not> suffix ''s'' base) (strip_suffix ''s'' source) of
             Some base \<Rightarrow> [base] | None \<Rightarrow> [])
          @ (case opt_filter (\<lambda>base. length base \<ge> 3) (strip_suffix ''es'' source) of
               Some base \<Rightarrow> [base] | None \<Rightarrow> []))
     @ (case opt_filter (\<lambda>base. length base \<ge> 3) (strip_suffix ''ing'' source) of
          Some base \<Rightarrow> inflected_candidates base | None \<Rightarrow> [])
     @ (case opt_filter (\<lambda>base. length base \<ge> 2) (strip_suffix ''ied'' source) of
          Some base \<Rightarrow> [base @ ''y'']
        | None \<Rightarrow>
            (case opt_filter (\<lambda>base. length base \<ge> 3) (strip_suffix ''ed'' source) of
               Some base \<Rightarrow> inflected_candidates base | None \<Rightarrow> []))"

definition add_negative_action_variants :: "rstr \<Rightarrow> rstr list \<Rightarrow> rstr set \<Rightarrow> rstr list" where
  "add_negative_action_variants source variants action_lexemes =
     push_missing variants (filter (\<lambda>candidate. candidate \<in> action_lexemes) (action_candidates source))"

section \<open>Normalised queries\<close>

record ranked_query_concept =
  qc_source :: rstr
  qc_variants :: "rstr list"

record normalized_ranked_query =
  nrq_positive_concepts :: "ranked_query_concept list"
  nrq_excluded_concepts :: "ranked_query_concept list"
  nrq_ignored_terms :: "rstr list"
  nrq_positive_terms_truncated :: bool
  nrq_excluded_terms_truncated :: bool
  nrq_ignored_terms_truncated :: bool
  nrq_negative_scope :: bool
  nrq_negative_scope_has_exclusion :: bool

fun merge_concept :: "rstr list \<Rightarrow> ranked_query_concept list \<Rightarrow> ranked_query_concept list option" where
  "merge_concept variants [] = None"
| "merge_concept variants (existing # rest) =
     (if list_ex (\<lambda>variant. variant \<in> set variants) (qc_variants existing)
      then Some (existing\<lparr>qc_variants := push_missing (qc_variants existing) variants\<rparr> # rest)
      else map_option (Cons existing) (merge_concept variants rest))"

definition push_query_concept ::
  "ranked_query_concept list \<Rightarrow> rstr \<Rightarrow> rstr list \<Rightarrow> nat \<Rightarrow> ranked_query_concept list \<times> bool" where
  "push_query_concept concepts source variants max_concepts =
     (case merge_concept variants concepts of
        Some concepts' \<Rightarrow> (concepts', False)
      | None \<Rightarrow> if length concepts \<ge> max_concepts then (concepts, True)
                else (concepts @ [\<lparr>qc_source = source, qc_variants = variants\<rparr>], False))"

definition push_bounded_unique :: "rstr list \<Rightarrow> rstr \<Rightarrow> nat \<Rightarrow> rstr list \<times> bool" where
  "push_bounded_unique terms term max_terms =
     (if term \<in> set terms then (terms, False)
      else if length terms \<ge> max_terms then (terms, True)
      else (terms @ [term], False))"

definition query_ignore :: "rstr \<Rightarrow> normalized_ranked_query \<Rightarrow> normalized_ranked_query" where
  "query_ignore raw st =
     (case push_bounded_unique (nrq_ignored_terms st) raw RANKED_SEARCH_MAX_IGNORED_TERMS of (terms, truncated) \<Rightarrow>
        st\<lparr>nrq_ignored_terms := terms, nrq_ignored_terms_truncated := nrq_ignored_terms_truncated st \<or> truncated\<rparr>)"

definition names_action :: "rstr set \<Rightarrow> rstr \<Rightarrow> bool" where
  "names_action action_lexemes raw =
     list_ex (\<lambda>variant. variant \<in> action_lexemes)
       (add_negative_action_variants raw (search_token_variants raw) action_lexemes)"

text \<open>One round of the loop of \<open>normalize_ranked_query\<close>, after contractions.\<close>

definition ranked_query_word :: "rstr set \<Rightarrow> rstr \<Rightarrow> normalized_ranked_query \<Rightarrow> normalized_ranked_query" where
  "ranked_query_word action_lexemes raw st =
     (if raw = [] then st
      else if is_search_negation_marker raw
      then (query_ignore raw st)\<lparr>nrq_negative_scope := True, nrq_negative_scope_has_exclusion := False\<rparr>
      else if nrq_negative_scope st \<and> is_search_negation_continuation raw then query_ignore raw st
      else if nrq_negative_scope st \<and> is_search_negation_filler raw \<and> \<not> names_action action_lexemes raw
      then query_ignore raw st
      else if is_search_stop_word raw then query_ignore raw st
      else
        let variants = search_token_variants raw in
        if variants = [] then st
        else if nrq_negative_scope st
        then (case push_query_concept (nrq_excluded_concepts st) raw
                     (add_negative_action_variants raw variants action_lexemes) RANKED_SEARCH_MAX_EXCLUDED_TERMS of
                (concepts, truncated) \<Rightarrow>
                  st\<lparr>nrq_excluded_concepts := concepts,
                     nrq_excluded_terms_truncated := nrq_excluded_terms_truncated st \<or> truncated,
                     nrq_negative_scope_has_exclusion := True\<rparr>)
        else (case push_query_concept (nrq_positive_concepts st) raw variants RANKED_SEARCH_MAX_QUERY_TERMS of
                (concepts, truncated) \<Rightarrow>
                  st\<lparr>nrq_positive_concepts := concepts,
                     nrq_positive_terms_truncated := nrq_positive_terms_truncated st \<or> truncated\<rparr>))"

function ranked_query_loop :: "rstr set \<Rightarrow> rstr list \<Rightarrow> normalized_ranked_query \<Rightarrow> normalized_ranked_query" where
  "ranked_query_loop action_lexemes [] st = st"
| "ranked_query_loop action_lexemes (raw # words) st =
     (if is_search_negation_contraction_stem raw \<and> words \<noteq> [] \<and> hd words = ''t''
      then ranked_query_loop action_lexemes (tl words) (ranked_query_word action_lexemes ''not'' st)
      else if is_search_negation_contraction raw
      then ranked_query_loop action_lexemes words (ranked_query_word action_lexemes ''not'' st)
      else ranked_query_loop action_lexemes words (ranked_query_word action_lexemes raw st))"
  by pat_completeness auto
termination
  by (relation "measure (\<lambda>(l, words, st). length words)") auto

definition empty_query :: normalized_ranked_query where
  "empty_query =
     \<lparr>nrq_positive_concepts = [], nrq_excluded_concepts = [], nrq_ignored_terms = [],
      nrq_positive_terms_truncated = False, nrq_excluded_terms_truncated = False,
      nrq_ignored_terms_truncated = False, nrq_negative_scope = False, nrq_negative_scope_has_exclusion = False\<rparr>"

definition query_words :: "rstr \<Rightarrow> rstr list" where
  "query_words query =
     map to_ascii_lowercase (filter (\<lambda>word. word \<noteq> []) (map trim (split_where not_alphanumeric query)))"

definition normalize_ranked_query :: "rstr \<Rightarrow> rstr set \<Rightarrow> normalized_ranked_query" where
  "normalize_ranked_query query action_lexemes = ranked_query_loop action_lexemes (query_words query) empty_query"

definition dangling_negation :: "normalized_ranked_query \<Rightarrow> bool" where
  "dangling_negation q \<longleftrightarrow> nrq_negative_scope q \<and> \<not> nrq_negative_scope_has_exclusion q"

section \<open>Searching\<close>

record tool_search_filter =
  flt_query :: "rstr option"
  flt_group :: "rstr option"
  flt_read_only :: "bool option"
  flt_limit :: "nat option"

definition filter_default :: tool_search_filter where
  "filter_default = \<lparr>flt_query = None, flt_group = None, flt_read_only = None, flt_limit = None\<rparr>"

record tool_search_result =
  res_name :: rstr
  res_group :: "rstr option"
  res_read_only :: bool
  res_description :: "rstr option"
  res_keywords :: "rstr list"
  res_risk_posture :: "posture option"

record tool_search_match_summary =
  sum_total_matches :: nat
  sum_returned_count :: nat
  sum_result_limit :: nat
  sum_truncated :: bool
  sum_truncation_reasons :: "rstr list"
  sum_normalized_query_terms :: "rstr list"
  sum_excluded_query_terms :: "rstr list"
  sum_ignored_query_terms :: "rstr list"

record tool_search_response =
  rsp_operation :: rstr
  rsp_query :: "rstr option"
  rsp_group :: "rstr option"
  rsp_read_only :: "bool option"
  rsp_results :: "tool_search_result list"
  rsp_schemas :: "json option"
  rsp_metadata_label :: "rstr option"

record ranked_tool_search_response =
  rts_response :: tool_search_response
  rts_match_summary :: tool_search_match_summary

definition find_tools ::
  "rstr option \<Rightarrow> rstr option \<Rightarrow> bool option \<Rightarrow> tool_search_result list \<Rightarrow> tool_search_response" where
  "find_tools query group_label read_only results =
     \<lparr>rsp_operation = ''find_tools'', rsp_query = query, rsp_group = group_label, rsp_read_only = read_only,
      rsp_results = results, rsp_schemas = None, rsp_metadata_label = None\<rparr>"

definition search_haystack :: "tool_capability \<Rightarrow> rstr" where
  "search_haystack c =
     to_ascii_lowercase (cap_name c)
     @ (case cap_group c of Some label \<Rightarrow> '' '' @ to_ascii_lowercase label | None \<Rightarrow> [])
     @ (case cap_discovery c of
          Some d \<Rightarrow> '' '' @ to_ascii_lowercase (disc_description d) @ concat (map (\<lambda>k. '' '' @ k) (disc_keywords d))
        | None \<Rightarrow> [])"

definition matches_query :: "tool_capability \<Rightarrow> rstr list \<Rightarrow> bool" where
  "matches_query c terms \<longleftrightarrow> terms = [] \<or> list_all (\<lambda>term. contains_str term (search_haystack c)) terms"

definition search_result_of :: "tool_capability \<Rightarrow> tool_search_result" where
  "search_result_of c =
     \<lparr>res_name = cap_name c, res_group = cap_group c, res_read_only = cap_read_only c,
      res_description = map_option disc_description (cap_discovery c),
      res_keywords = (case cap_discovery c of Some d \<Rightarrow> disc_keywords d | None \<Rightarrow> []),
      res_risk_posture = cap_risk_posture c\<rparr>"

definition search_query_terms :: "rstr option \<Rightarrow> rstr list" where
  "search_query_terms query =
     filter (\<lambda>term. term \<noteq> [])
       (map to_ascii_lowercase (split_whitespace (case query of Some q \<Rightarrow> q | None \<Rightarrow> [])))"

definition inventory_search ::
  "tool_inventory \<Rightarrow> tool_search_filter \<Rightarrow> tool_operation \<Rightarrow> tool_inventory_policy \<Rightarrow> tool_search_result list" where
  "inventory_search store flt operation p =
     (let terms = search_query_terms (flt_query flt);
          wanted = trimmed_non_empty (flt_group flt);
          results = map search_result_of
            (filter (\<lambda>c. matches_query c terms)
              (filter (\<lambda>c. case flt_read_only flt of None \<Rightarrow> True | Some read_only \<Rightarrow> cap_read_only c = read_only)
                (filter (\<lambda>c. case wanted of None \<Rightarrow> True | Some label \<Rightarrow> cap_group c = Some label)
                  (filter (\<lambda>c. allows_capability p c operation) (capabilities store)))))
      in case flt_limit flt of Some limit \<Rightarrow> take limit results | None \<Rightarrow> results)"

section \<open>Ranked documents\<close>

record ranked_capability_document =
  doc_capability :: tool_capability
  doc_name_terms :: "rstr list"
  doc_group_terms :: "rstr list"
  doc_description_terms :: "rstr list"
  doc_keyword_terms :: "rstr list"
  doc_exclusion_terms :: "rstr set"
  doc_metadata_truncated :: bool
  doc_name_selectable :: bool

text \<open>The keyword loop shared by \<open>RankedCapabilityDocument::new\<close> and \<open>to_ranked_search_result\<close>.\<close>

definition bounded_keywords :: "rstr list \<Rightarrow> rstr list \<times> bool" where
  "bounded_keywords keywords =
     (let bounded = map (\<lambda>k. truncate_search_text_at_token_boundary k RANKED_SEARCH_MAX_KEYWORD_CHARS)
            (take RANKED_SEARCH_MAX_KEYWORDS keywords)
      in (map fst bounded, length keywords > RANKED_SEARCH_MAX_KEYWORDS \<or> list_ex snd bounded))"

definition document_new :: "tool_capability \<Rightarrow> ranked_capability_document" where
  "document_new c =
     (case truncate_search_text_at_token_boundary (cap_name c) COMPACT_SEARCH_MAX_TOOL_NAME_CHARS of
        (name, name_truncated) \<Rightarrow>
      case (case cap_group c of
              None \<Rightarrow> ([], False)
            | Some label \<Rightarrow> truncate_search_text_at_token_boundary label RANKED_SEARCH_MAX_GROUP_CHARS) of
        (label, group_truncated) \<Rightarrow>
      case (case cap_discovery c of
              None \<Rightarrow> ([], [], False)
            | Some d \<Rightarrow>
                (case truncate_search_text_at_token_boundary (disc_description d) RANKED_SEARCH_MAX_DESCRIPTION_CHARS of
                   (description, description_truncated) \<Rightarrow>
                 case bounded_keywords (disc_keywords d) of (keywords, keywords_truncated) \<Rightarrow>
                   (tokenize_search_text description,
                    push_missing [] (concat (map tokenize_search_text keywords)),
                    description_truncated \<or> keywords_truncated))) of
        (description_terms, keyword_terms, discovery_truncated) \<Rightarrow>
          \<lparr>doc_capability = c, doc_name_terms = tokenize_search_text name,
           doc_group_terms = tokenize_search_text label, doc_description_terms = description_terms,
           doc_keyword_terms = keyword_terms, doc_exclusion_terms = {},
           doc_metadata_truncated =
             cap_action_lexemes_truncated c \<or> name_truncated \<or> group_truncated \<or> discovery_truncated,
           doc_name_selectable = (\<not> name_truncated \<and> name \<noteq> [])\<rparr>)"

definition document_terms :: "ranked_capability_document \<Rightarrow> rstr list" where
  "document_terms d = doc_name_terms d @ doc_group_terms d @ doc_description_terms d @ doc_keyword_terms d"

definition build_exclusion_terms :: "rstr set \<Rightarrow> ranked_capability_document \<Rightarrow> ranked_capability_document" where
  "build_exclusion_terms action_lexemes d =
     d\<lparr>doc_exclusion_terms := doc_exclusion_terms d \<union>
         set (concat (map (\<lambda>term. add_negative_action_variants term (search_token_variants term) action_lexemes)
                          (document_terms d)))\<rparr>"

definition token_field_score :: "rstr \<Rightarrow> rstr list \<Rightarrow> nat \<Rightarrow> nat" where
  "token_field_score query_term field_terms exact_score = (if query_term \<in> set field_terms then exact_score else 0)"

definition query_term_score :: "ranked_capability_document \<Rightarrow> rstr \<Rightarrow> nat" where
  "query_term_score d term =
     max (max (max (token_field_score term (doc_name_terms d) 64) (token_field_score term (doc_group_terms d) 24))
              (token_field_score term (doc_keyword_terms d) 36))
         (token_field_score term (doc_description_terms d) 12)"

definition query_concept_score :: "ranked_capability_document \<Rightarrow> ranked_query_concept \<Rightarrow> nat" where
  "query_concept_score d concept = foldl max 0 (map (query_term_score d) (qc_variants concept))"

definition matches_excluded_concept :: "ranked_capability_document \<Rightarrow> ranked_query_concept \<Rightarrow> bool" where
  "matches_excluded_concept d concept = list_ex (\<lambda>variant. variant \<in> doc_exclusion_terms d) (qc_variants concept)"

fun operation_class_rank :: "operation_class \<Rightarrow> nat" where
  "operation_class_rank ReadOp = 0"
| "operation_class_rank SensitiveRead = 1"
| "operation_class_rank NoMutationProof = 2"
| "operation_class_rank Preview = 3"
| "operation_class_rank GuardedApply = 4"
| "operation_class_rank Mutating = 5"
| "operation_class_rank SendAdjacent = 6"
| "operation_class_rank Destructive = 7"

definition capability_safety_rank :: "tool_capability \<Rightarrow> nat" where
  "capability_safety_rank c =
     (case cap_risk_posture c of
        None \<Rightarrow> if cap_read_only c then 0 else 5
      | Some p \<Rightarrow> operation_class_rank (operation_class p))"

definition to_ranked_search_result :: "tool_capability \<Rightarrow> tool_search_result \<times> bool" where
  "to_ranked_search_result c =
     (let group_text = map_option (\<lambda>label. truncate_search_text label RANKED_SEARCH_MAX_GROUP_CHARS) (cap_group c);
          description_text = map_option (\<lambda>d. truncate_search_text_at_token_boundary (disc_description d)
            RANKED_SEARCH_MAX_DESCRIPTION_CHARS) (cap_discovery c);
          keyword_text = (case cap_discovery c of Some d \<Rightarrow> bounded_keywords (disc_keywords d) | None \<Rightarrow> ([], False))
      in (\<lparr>res_name = cap_name c, res_group = map_option fst group_text, res_read_only = cap_read_only c,
           res_description = opt_filter (\<lambda>text. text \<noteq> []) (map_option fst description_text),
           res_keywords = push_missing [] (filter (\<lambda>k. k \<noteq> []) (fst keyword_text)),
           res_risk_posture = cap_risk_posture c\<rparr>,
          cap_action_lexemes_truncated c \<or> (case group_text of Some (_, truncated) \<Rightarrow> truncated | None \<Rightarrow> False)
          \<or> (case description_text of Some (_, truncated) \<Rightarrow> truncated | None \<Rightarrow> False) \<or> snd keyword_text))"

section \<open>Ranked search\<close>

definition push_unique_reason :: "rstr list \<Rightarrow> rstr \<Rightarrow> rstr list" where
  "push_unique_reason reasons reason = (if reason \<in> set reasons then reasons else reasons @ [reason])"

definition reason_if :: "bool \<Rightarrow> rstr \<Rightarrow> rstr list \<Rightarrow> rstr list" where
  "reason_if b reason reasons = (if b then push_unique_reason reasons reason else reasons)"

text \<open>The labelled loop that collects action lexemes until the bound is reached.\<close>

fun collect_action_lexemes :: "rstr list \<Rightarrow> rstr set \<Rightarrow> rstr set \<times> bool" where
  "collect_action_lexemes [] acc = (acc, False)"
| "collect_action_lexemes (lexeme # rest) acc =
     (if card acc = RANKED_SEARCH_MAX_ACTION_LEXEMES_TOTAL \<and> lexeme \<notin> acc then (acc, True)
      else collect_action_lexemes rest (insert lexeme acc))"

definition document_lexemes :: "ranked_capability_document list \<Rightarrow> rstr list" where
  "document_lexemes docs = concat (map (\<lambda>d. sorted_set (cap_action_lexemes (doc_capability d))) docs)"

definition concept_frequency :: "ranked_capability_document list \<Rightarrow> ranked_query_concept \<Rightarrow> nat" where
  "concept_frequency docs concept = length (filter (\<lambda>d. query_concept_score d concept > 0) docs)"

definition document_score ::
  "ranked_capability_document list \<Rightarrow> ranked_query_concept list \<Rightarrow> ranked_capability_document \<Rightarrow> nat \<times> nat" where
  "document_score docs concepts d =
     foldl (\<lambda>(score, matched) concept.
              let field_score = query_concept_score d concept in
              if field_score = 0 then (score, matched)
              else (score + field_score * max ((length docs + 1) div (concept_frequency docs concept + 1)) 1, matched + 1))
           (0, 0) concepts"

type_synonym ranked_document = "nat \<times> nat \<times> nat \<times> ranked_capability_document"

definition rank_document ::
  "bool \<Rightarrow> bool \<Rightarrow> normalized_ranked_query \<Rightarrow> ranked_capability_document list \<Rightarrow> ranked_capability_document
     \<Rightarrow> ranked_document option" where
  "rank_document fail_closed browse q docs d =
     (if fail_closed then None
      else if browse then Some (0, 0, capability_safety_rank (doc_capability d), d)
      else if nrq_positive_concepts q = [] \<or> list_ex (matches_excluded_concept d) (nrq_excluded_concepts q) then None
      else case document_score docs (nrq_positive_concepts q) d of (score, matched) \<Rightarrow>
        if score > 0 then Some (score, matched, capability_safety_rank (doc_capability d), d) else None)"

definition browse_key :: "ranked_document \<Rightarrow> nat \<times> rstr" where
  "browse_key r = (case r of (_, _, safety, d) \<Rightarrow> (safety, cap_name (doc_capability d)))"

definition relevance_key :: "ranked_document \<Rightarrow> int \<times> int \<times> nat \<times> rstr" where
  "relevance_key r = (case r of (score, matched, safety, d) \<Rightarrow>
     (- int score, - int matched, safety, cap_name (doc_capability d)))"

definition ranked_visible ::
  "tool_inventory \<Rightarrow> tool_search_filter \<Rightarrow> tool_operation \<Rightarrow> tool_inventory_policy \<Rightarrow> rstr option \<Rightarrow> bool
     \<Rightarrow> tool_capability list" where
  "ranked_visible store flt operation p wanted group_input_truncated =
     filter (\<lambda>c. case flt_read_only flt of None \<Rightarrow> True | Some read_only \<Rightarrow> cap_read_only c = read_only)
       (filter (\<lambda>c. \<not> group_input_truncated
                     \<and> (case wanted of None \<Rightarrow> True | Some label \<Rightarrow> cap_group c = Some label))
         (filter (\<lambda>c. allows_capability p c operation) (capabilities store)))"

definition bounded_input :: "nat \<Rightarrow> rstr option \<Rightarrow> rstr option \<times> bool" where
  "bounded_input max_chars input =
     (case input of
        None \<Rightarrow> (None, False)
      | Some text \<Rightarrow> (case truncate_search_text text max_chars of (bounded, truncated) \<Rightarrow> (Some bounded, truncated)))"

text \<open>The reasons in the order in which the source pushes them.\<close>

definition search_truncation_reasons ::
  "bool \<Rightarrow> bool \<Rightarrow> bool \<Rightarrow> normalized_ranked_query \<Rightarrow> bool \<Rightarrow> bool \<Rightarrow> bool \<Rightarrow> rstr list" where
  "search_truncation_reasons query_input limit_clamped group_input q metadata limited result_metadata =
     reason_if result_metadata ''result_metadata''
    (reason_if limited ''result_limit''
    (reason_if metadata ''result_metadata''
    (reason_if (dangling_negation q) ''query_intent_ambiguous''
    (reason_if (nrq_ignored_terms_truncated q) ''ignored_query_terms''
    (reason_if (nrq_excluded_terms_truncated q) ''excluded_query_terms''
    (reason_if (nrq_positive_terms_truncated q) ''normalized_query_terms''
    (reason_if group_input ''group_input''
    (reason_if limit_clamped ''result_limit_clamped''
    (reason_if query_input ''query_input'' [])))))))))"

text \<open>
  \<open>search_ranked\<close> in three steps: the bounded inputs with the indexed documents and the normalised query,
  the ranked matches, and the response.
\<close>

record ranked_plan =
  rp_query :: "rstr option"
  rp_query_truncated :: bool
  rp_group :: "rstr option"
  rp_group_truncated :: bool
  rp_normalized :: normalized_ranked_query
  rp_metadata_truncated :: bool
  rp_documents :: "ranked_capability_document list"

definition plan_search ::
  "tool_inventory \<Rightarrow> tool_search_filter \<Rightarrow> tool_operation \<Rightarrow> tool_inventory_policy \<Rightarrow> ranked_plan" where
  "plan_search store flt operation p =
     (case bounded_input RANKED_SEARCH_MAX_QUERY_CHARS (flt_query flt) of (bounded_query, query_input_truncated) \<Rightarrow>
      case bounded_input RANKED_SEARCH_MAX_GROUP_CHARS (flt_group flt) of (group_text, group_input_truncated) \<Rightarrow>
      let bounded_group = trimmed_non_empty group_text;
          found = map document_new (ranked_visible store flt operation p bounded_group group_input_truncated)
      in
      case collect_action_lexemes (document_lexemes found) default_search_action_lexemes of
        (action_lexemes, action_lexemes_truncated) \<Rightarrow>
      let docs = map (build_exclusion_terms action_lexemes) found
      in \<lparr>rp_query = bounded_query, rp_query_truncated = query_input_truncated,
          rp_group = bounded_group, rp_group_truncated = group_input_truncated,
          rp_normalized =
            normalize_ranked_query (case bounded_query of Some query \<Rightarrow> query | None \<Rightarrow> []) action_lexemes,
          rp_metadata_truncated = (action_lexemes_truncated \<or> list_ex doc_metadata_truncated docs),
          rp_documents = docs\<rparr>)"

definition plan_browse :: "ranked_plan \<Rightarrow> bool" where
  "plan_browse plan \<longleftrightarrow>
     \<not> rp_query_truncated plan \<and> (case rp_query plan of None \<Rightarrow> True | Some query \<Rightarrow> is_blank query)"

definition plan_fail_closed :: "ranked_plan \<Rightarrow> bool" where
  "plan_fail_closed plan \<longleftrightarrow>
     rp_query_truncated plan \<or> nrq_excluded_terms_truncated (rp_normalized plan) \<or> dangling_negation (rp_normalized plan)
     \<or> (rp_metadata_truncated plan \<and> nrq_excluded_concepts (rp_normalized plan) \<noteq> [])"

definition plan_matches :: "ranked_plan \<Rightarrow> ranked_document list" where
  "plan_matches plan =
     (let docs = filter doc_name_selectable (rp_documents plan) in
      List.map_filter (rank_document (plan_fail_closed plan) (plan_browse plan) (rp_normalized plan) docs) docs)"

definition plan_ranked :: "ranked_plan \<Rightarrow> ranked_document list" where
  "plan_ranked plan =
     (if plan_browse plan then sort_key browse_key (plan_matches plan) else sort_key relevance_key (plan_matches plan))"

definition requested_limit :: "tool_search_filter \<Rightarrow> nat" where
  "requested_limit flt = (case flt_limit flt of Some limit \<Rightarrow> limit | None \<Rightarrow> RANKED_SEARCH_DEFAULT_LIMIT)"

definition search_ranked ::
  "tool_inventory \<Rightarrow> tool_search_filter \<Rightarrow> tool_operation \<Rightarrow> tool_inventory_policy \<Rightarrow> ranked_tool_search_response" where
  "search_ranked store flt operation p =
     (let plan = plan_search store flt operation p;
          q = rp_normalized plan;
          result_limit = min (requested_limit flt) RANKED_SEARCH_MAX_LIMIT;
          ranked = plan_ranked plan;
          outcome = map (\<lambda>(_, _, _, d). to_ranked_search_result (doc_capability d)) (take result_limit ranked);
          reasons = search_truncation_reasons (rp_query_truncated plan) (requested_limit flt > RANKED_SEARCH_MAX_LIMIT)
            (rp_group_truncated plan) q (rp_metadata_truncated plan) (length outcome < length ranked) (list_ex snd outcome)
      in \<lparr>rts_response = find_tools (rp_query plan) (rp_group plan) (flt_read_only flt) (map fst outcome),
          rts_match_summary =
            \<lparr>sum_total_matches = length ranked, sum_returned_count = length outcome,
             sum_result_limit = result_limit, sum_truncated = (reasons \<noteq> []), sum_truncation_reasons = reasons,
             sum_normalized_query_terms = map qc_source (nrq_positive_concepts q),
             sum_excluded_query_terms = map qc_source (nrq_excluded_concepts q),
             sum_ignored_query_terms = nrq_ignored_terms q\<rparr>\<rparr>)"

section \<open>Searching a catalog\<close>

definition response_with_schemas :: "json option \<Rightarrow> tool_search_response \<Rightarrow> tool_search_response" where
  "response_with_schemas schemas r = r\<lparr>rsp_schemas := schemas\<rparr>"

definition response_with_metadata_label :: "rstr \<Rightarrow> tool_search_response \<Rightarrow> tool_search_response" where
  "response_with_metadata_label label r = r\<lparr>rsp_metadata_label := Some label\<rparr>"

definition search_response ::
  "tool_catalog \<Rightarrow> tool_search_filter \<Rightarrow> tool_operation \<Rightarrow> tool_inventory_policy \<Rightarrow> tool_search_response" where
  "search_response cat flt operation p =
     (let results = inventory_search (catalog_inventory cat) flt operation p;
          schemas = schemas_by_tool_names cat (map res_name results)
      in response_with_schemas (Some schemas)
           (find_tools (flt_query flt) (flt_group flt) (flt_read_only flt) results))"

definition search_response_for_profile ::
  "tool_catalog \<Rightarrow> tool_search_filter \<Rightarrow> tool_operation \<Rightarrow> tool_catalog_profile \<Rightarrow> tool_search_response" where
  "search_response_for_profile cat flt operation profile = search_response cat flt operation (prof_policy profile)"

definition ranked_search_response ::
  "tool_catalog \<Rightarrow> tool_search_filter \<Rightarrow> tool_operation \<Rightarrow> tool_inventory_policy \<Rightarrow> ranked_tool_search_response" where
  "ranked_search_response cat flt operation p =
     (let r = search_ranked (catalog_inventory cat) flt operation p;
          schemas = schemas_by_tool_names cat (map res_name (rsp_results (rts_response r)))
      in r\<lparr>rts_response := response_with_schemas (Some schemas) (rts_response r)\<rparr>)"

definition ranked_search_response_for_profile ::
  "tool_catalog \<Rightarrow> tool_search_filter \<Rightarrow> tool_operation \<Rightarrow> tool_catalog_profile \<Rightarrow> ranked_tool_search_response" where
  "ranked_search_response_for_profile cat flt operation profile =
     ranked_search_response cat flt operation (prof_policy profile)"

section \<open>Tokens are lower-case words\<close>

definition plain_token :: "rstr \<Rightarrow> bool" where
  "plain_token t \<longleftrightarrow> t \<noteq> [] \<and> list_all (\<lambda>c. is_ascii_digit c \<or> is_ascii_lower c) t"

lemma plain_token_id: "plain_token t \<Longrightarrow> to_ascii_lowercase (trim t) = t"
proof -
  assume t: "plain_token t"
  have visible: "is_visible_ascii c" if "c \<in> set t" for c
    using t that by (auto simp: plain_token_def list_all_iff is_visible_ascii_def is_ascii_digit_def is_ascii_lower_def)
  have "t \<noteq> []" using t by (simp add: plain_token_def)
  then have "trim t = t" using visible by (intro trim_visible) simp_all
  moreover have "ascii_lower c = c" if "c \<in> set t" for c
    using t that by (auto simp: plain_token_def list_all_iff ascii_lower_def is_ascii_upper_def is_ascii_digit_def
        is_ascii_lower_def)
  ultimately show ?thesis by (simp add: to_ascii_lowercase_def map_idI)
qed

lemma set_push_missing [simp]: "set (push_missing acc vs) = set acc \<union> set vs"
  by (induction vs arbitrary: acc) auto

lemma push_missing_distinct: "distinct acc \<Longrightarrow> distinct (push_missing acc vs)"
  by (induction vs arbitrary: acc) auto

lemma explicit_singulars_plain: "list_all (\<lambda>(plural, singulars). list_all plain_token singulars) explicit_singulars"
  by code_simp

lemma singular_plain: "s \<in> set (singular_search_tokens t) \<Longrightarrow> plain_token s"
proof (cases "map_of explicit_singulars t")
  case (Some singulars)
  moreover assume "s \<in> set (singular_search_tokens t)"
  ultimately show ?thesis
    using explicit_singulars_plain map_of_SomeD [OF Some] by (auto simp: singular_search_tokens_def list_all_iff)
qed (simp add: singular_search_tokens_def)

lemma lower_alphanumeric: "is_ascii_alphanumeric c \<Longrightarrow> is_ascii_digit (ascii_lower c) \<or> is_ascii_lower (ascii_lower c)"
  by (auto simp: rstr_defs byte_ascii_lower)

lemma alphanumeric_token:
  assumes "raw \<noteq> []" and "\<forall>c\<in>set raw. is_ascii_alphanumeric c"
  shows "plain_token (to_ascii_lowercase (trim raw))"
proof -
  have "is_visible_ascii c" if "c \<in> set raw" for c
    using assms(2) that by (auto simp: rstr_defs is_visible_ascii_def)
  then have "trim raw = raw" using assms(1) by (intro trim_visible) simp_all
  then show ?thesis using assms by (auto simp: plain_token_def to_ascii_lowercase_def list_all_iff lower_alphanumeric)
qed

lemma variants_plain:
  assumes "\<forall>c\<in>set raw. is_ascii_alphanumeric c" and "t \<in> set (search_token_variants raw)"
  shows "plain_token t"
proof -
  have "raw \<noteq> []" using assms(2) by (auto simp: search_token_variants_def to_ascii_lowercase_def)
  then have "plain_token (to_ascii_lowercase (trim raw))" using assms(1) by (intro alphanumeric_token)
  then show ?thesis
    using assms(2) by (auto simp: search_token_variants_def Let_def singular_plain split: if_splits)
qed

lemma split_where_pieces: "piece \<in> set (split_where P s) \<Longrightarrow> c \<in> set piece \<Longrightarrow> \<not> P c"
proof (induction P s rule: split_where.induct)
  case (1 P s)
  show ?case
  proof (cases "dropWhile (\<lambda>c. \<not> P c) s")
    case Nil
    have "split_where P s = [takeWhile (\<lambda>c. \<not> P c) s]" by (subst split_where.simps) (simp only: Nil list.case)
    then show ?thesis using 1(2,3) by (auto dest: set_takeWhileD)
  next
    case (Cons d rest)
    have "split_where P s = takeWhile (\<lambda>c. \<not> P c) s # split_where P rest"
      by (subst split_where.simps) (simp only: Cons list.case)
    then show ?thesis using 1(1) [OF Cons] 1(2,3) by (auto dest: set_takeWhileD)
  qed
qed

lemma tokenize_plain: "t \<in> set (tokenize_search_text v) \<Longrightarrow> plain_token t"
proof -
  assume "t \<in> set (tokenize_search_text v)"
  then obtain piece where "piece \<in> set (split_where not_alphanumeric v)" "t \<in> set (search_token_variants piece)"
    by (auto simp: tokenize_search_text_def)
  then show ?thesis using split_where_pieces [of piece not_alphanumeric v] by (intro variants_plain) (auto simp: not_alphanumeric_def)
qed

lemma query_words_plain: "w \<in> set (query_words query) \<Longrightarrow> plain_token w"
proof -
  assume "w \<in> set (query_words query)"
  then obtain piece where piece: "piece \<in> set (split_where not_alphanumeric query)" "trim piece \<noteq> []"
    "w = to_ascii_lowercase (trim piece)"
    by (auto simp: query_words_def)
  then have "piece \<noteq> []" "\<forall>c\<in>set piece. is_ascii_alphanumeric c"
    using split_where_pieces [OF piece(1)] by (auto simp: not_alphanumeric_def)
  then show "plain_token w" unfolding piece(3) by (rule alphanumeric_token)
qed

lemma variants_self: "plain_token t \<Longrightarrow> t \<in> set (search_token_variants t)"
  by (simp add: search_token_variants_def plain_token_id Let_def) (simp add: plain_token_def)

text \<open>All the forms under which a word is compared with excluded words.\<close>

definition action_variants :: "rstr set \<Rightarrow> rstr \<Rightarrow> rstr set" where
  "action_variants lexemes t = set (add_negative_action_variants t (search_token_variants t) lexemes)"

lemma action_variants_alt:
  "action_variants lexemes t = set (search_token_variants t) \<union> (set (action_candidates t) \<inter> lexemes)"
  by (auto simp: action_variants_def add_negative_action_variants_def)

lemma action_variants_mono: "lexemes \<subseteq> lexemes' \<Longrightarrow> action_variants lexemes t \<subseteq> action_variants lexemes' t"
  by (auto simp: action_variants_alt)

section \<open>The words of a query\<close>

text \<open>The words with contractions replaced, as the loop reads them.\<close>

function contract_words :: "rstr list \<Rightarrow> rstr list" where
  "contract_words [] = []"
| "contract_words (raw # words) =
     (if is_search_negation_contraction_stem raw \<and> words \<noteq> [] \<and> hd words = ''t'' then ''not'' # contract_words (tl words)
      else if is_search_negation_contraction raw then ''not'' # contract_words words
      else raw # contract_words words)"
  by pat_completeness auto
termination
  by (relation "measure length") auto

lemma ranked_query_loop_fold:
  "ranked_query_loop lexemes words st = fold (ranked_query_word lexemes) (contract_words words) st"
  by (induction lexemes words st rule: ranked_query_loop.induct) auto

lemma contract_words_plain: "\<forall>w\<in>set words. plain_token w \<Longrightarrow> w \<in> set (contract_words words) \<Longrightarrow> plain_token w"
proof (induction words arbitrary: w rule: contract_words.induct)
  case (2 raw words)
  have "plain_token ''not''" by code_simp
  then show ?case using 2 by (auto split: if_splits dest: list.set_sel(2))
qed simp

text \<open>
  The words that a query negates: those after its first negation marker, except markers, connectives,
  filler and stop words.
\<close>

definition negated_words :: "rstr \<Rightarrow> rstr list" where
  "negated_words query =
     filter (\<lambda>w. \<not> is_search_negation_marker w \<and> \<not> is_search_negation_continuation w
                \<and> \<not> is_search_negation_filler w \<and> \<not> is_search_stop_word w)
       (dropWhile (\<lambda>w. \<not> is_search_negation_marker w) (contract_words (query_words query)))"

definition excluded_by :: "normalized_ranked_query \<Rightarrow> rstr set \<Rightarrow> bool" where
  "excluded_by q vs \<longleftrightarrow>
     nrq_excluded_terms_truncated q \<or> (\<exists>concept \<in> set (nrq_excluded_concepts q). vs \<subseteq> set (qc_variants concept))"

lemma merge_concept_Some:
  "merge_concept vs cs = Some cs' \<Longrightarrow>
     (\<exists>c' \<in> set cs'. set vs \<subseteq> set (qc_variants c')) \<and> (\<forall>c \<in> set cs. \<exists>c' \<in> set cs'. set (qc_variants c) \<subseteq> set (qc_variants c'))"
proof (induction cs arbitrary: cs')
  case (Cons c cs)
  show ?case
  proof (cases "list_ex (\<lambda>v. v \<in> set vs) (qc_variants c)")
    case True
    then have "cs' = c\<lparr>qc_variants := push_missing (qc_variants c) vs\<rparr> # cs" using Cons.prems by simp
    then show ?thesis by auto
  next
    case False
    then obtain cs1 where "merge_concept vs cs = Some cs1" "cs' = c # cs1" using Cons.prems by auto
    then show ?thesis using Cons.IH [of cs1] by auto
  qed
qed simp

lemma push_query_concept_covers:
  assumes "push_query_concept cs source vs bound = (cs', truncated)"
  shows "truncated \<or> (\<exists>c' \<in> set cs'. set vs \<subseteq> set (qc_variants c'))"
    and "\<forall>c \<in> set cs. \<exists>c' \<in> set cs'. set (qc_variants c) \<subseteq> set (qc_variants c')"
  using assms merge_concept_Some [of vs cs]
  by (auto simp: push_query_concept_def split: option.splits if_splits)

lemma push_query_concept_keeps:
  "push_query_concept cs source us bound = (cs', truncated) \<Longrightarrow> concept \<in> set cs \<Longrightarrow> vs \<subseteq> set (qc_variants concept)
     \<Longrightarrow> \<exists>c' \<in> set cs'. vs \<subseteq> set (qc_variants c')"
  using push_query_concept_covers(2) by (metis subset_trans)

lemma query_ignore_frame [simp]:
  "nrq_positive_concepts (query_ignore raw st) = nrq_positive_concepts st"
  "nrq_excluded_concepts (query_ignore raw st) = nrq_excluded_concepts st"
  "nrq_excluded_terms_truncated (query_ignore raw st) = nrq_excluded_terms_truncated st"
  "nrq_positive_terms_truncated (query_ignore raw st) = nrq_positive_terms_truncated st"
  "nrq_negative_scope (query_ignore raw st) = nrq_negative_scope st"
  "nrq_negative_scope_has_exclusion (query_ignore raw st) = nrq_negative_scope_has_exclusion st"
  by (simp_all add: query_ignore_def split: prod.split)

lemma ranked_query_word_scope:
  "nrq_negative_scope (ranked_query_word lexemes w st) \<longleftrightarrow> nrq_negative_scope st \<or> w \<noteq> [] \<and> is_search_negation_marker w"
  by (simp add: ranked_query_word_def Let_def split: prod.split)

lemma ranked_query_word_positive:
  "nrq_negative_scope st \<Longrightarrow> nrq_positive_concepts (ranked_query_word lexemes w st) = nrq_positive_concepts st"
  by (simp add: ranked_query_word_def Let_def split: prod.split)

lemma ranked_query_word_keeps:
  "excluded_by st vs \<Longrightarrow> excluded_by (ranked_query_word lexemes w st) vs"
  unfolding excluded_by_def ranked_query_word_def Let_def
  by (auto split: prod.split dest: push_query_concept_keeps)

lemma ranked_query_word_excludes:
  assumes "nrq_negative_scope st" and "plain_token w" and "\<not> is_search_negation_marker w"
    and "\<not> is_search_negation_continuation w" and "\<not> is_search_negation_filler w" and "\<not> is_search_stop_word w"
  shows "excluded_by (ranked_query_word lexemes w st) (action_variants lexemes w)"
proof -
  have w: "w \<noteq> []" "search_token_variants w \<noteq> []"
    using assms(2) variants_self [OF assms(2)] by (auto simp: plain_token_def)
  obtain cs t where push: "push_query_concept (nrq_excluded_concepts st) w
      (add_negative_action_variants w (search_token_variants w) lexemes) RANKED_SEARCH_MAX_EXCLUDED_TERMS = (cs, t)"
    by fastforce
  show ?thesis
    using assms w push push_query_concept_covers(1) [OF push]
    by (auto simp: ranked_query_word_def excluded_by_def action_variants_def)
qed

lemma fold_keeps: "excluded_by st vs \<Longrightarrow> excluded_by (fold (ranked_query_word lexemes) ws st) vs"
  by (induction ws arbitrary: st) (auto intro: ranked_query_word_keeps)

lemma fold_scope:
  "nrq_negative_scope st \<Longrightarrow>
     nrq_negative_scope (fold (ranked_query_word lexemes) ws st)
     \<and> nrq_positive_concepts (fold (ranked_query_word lexemes) ws st) = nrq_positive_concepts st"
  by (induction ws arbitrary: st) (simp_all add: ranked_query_word_scope ranked_query_word_positive)

lemma negated_word_excluded:
  assumes "w \<in> set (negated_words query)"
  shows "excluded_by (normalize_ranked_query query lexemes) (action_variants lexemes w)"
proof -
  let ?ws = "contract_words (query_words query)"
  obtain pre rest where ws: "?ws = pre @ rest" and rest: "rest = dropWhile (\<lambda>w. \<not> is_search_negation_marker w) ?ws"
    by (metis takeWhile_dropWhile_id)
  have w: "w \<in> set rest" and content: "\<not> is_search_negation_marker w" "\<not> is_search_negation_continuation w"
      "\<not> is_search_negation_filler w" "\<not> is_search_stop_word w"
    using assms by (auto simp: negated_words_def rest)
  have "rest \<noteq> []" using w by auto
  then have marker: "is_search_negation_marker (hd rest)"
    using hd_dropWhile [of "\<lambda>w. \<not> is_search_negation_marker w" ?ws] by (simp only: rest [symmetric]) simp
  obtain mid post where split: "rest = hd rest # mid @ w # post"
    using w content(1) marker by (cases rest) (auto simp: in_set_conv_decomp)
  have plain: "plain_token v" if "v \<in> set ?ws" for v
    using contract_words_plain [OF _ that] query_words_plain by blast
  have "hd rest \<in> set ?ws" "w \<in> set ?ws" unfolding ws using w by (auto intro: list.set_sel(1))
  then have hd: "hd rest \<noteq> []" and pw: "plain_token w" using plain by (auto simp: plain_token_def)
  define st where "st = fold (ranked_query_word lexemes) mid
      (ranked_query_word lexemes (hd rest) (fold (ranked_query_word lexemes) pre empty_query))"
  have "nrq_negative_scope st"
    unfolding st_def using fold_scope [of "ranked_query_word lexemes (hd rest) (fold (ranked_query_word lexemes) pre empty_query)"]
      marker hd by (simp add: ranked_query_word_scope)
  then have "excluded_by (ranked_query_word lexemes w st) (action_variants lexemes w)"
    using ranked_query_word_excludes pw content by blast
  moreover have "normalize_ranked_query query lexemes = fold (ranked_query_word lexemes) post (ranked_query_word lexemes w st)"
    unfolding normalize_ranked_query_def ranked_query_loop_fold ws st_def by (subst split) simp
  ultimately show ?thesis by (simp add: fold_keeps)
qed

section \<open>Documents that were not cut\<close>

definition capability_terms :: "tool_capability \<Rightarrow> rstr set" where
  "capability_terms c =
     set (tokenize_search_text (cap_name c))
     \<union> (case cap_group c of Some label \<Rightarrow> set (tokenize_search_text label) | None \<Rightarrow> {})
     \<union> (case cap_discovery c of
          Some d \<Rightarrow> set (tokenize_search_text (disc_description d))
                    \<union> (\<Union>k \<in> set (disc_keywords d). set (tokenize_search_text k))
        | None \<Rightarrow> {})"

lemma truncate_search_text_whole: "truncate_search_text v n = (b, False) \<Longrightarrow> b = v"
proof -
  assume "truncate_search_text v n = (b, False)"
  then have "b = concat (take n (utf8_chars v))" "drop n (utf8_chars v) = []"
    by (auto simp: truncate_search_text_def)
  then have "b = concat (take n (utf8_chars v) @ drop n (utf8_chars v))" by simp
  then show ?thesis by (simp only: append_take_drop_id concat_utf8_chars)
qed

lemma truncate_at_boundary_whole: "truncate_search_text_at_token_boundary v n = (b, False) \<Longrightarrow> b = v"
proof -
  assume "truncate_search_text_at_token_boundary v n = (b, False)"
  then have "truncate_search_text v n = (b, False)"
    by (auto simp: truncate_search_text_at_token_boundary_def truncate_search_text_def Let_def split: if_splits)
  then show ?thesis by (rule truncate_search_text_whole)
qed

lemma bounded_keywords_whole: "bounded_keywords ks = (ks', False) \<Longrightarrow> ks' = ks"
proof -
  let ?f = "\<lambda>k. truncate_search_text_at_token_boundary k RANKED_SEARCH_MAX_KEYWORD_CHARS"
  assume b: "bounded_keywords ks = (ks', False)"
  then have "take RANKED_SEARCH_MAX_KEYWORDS ks = ks" by (simp add: bounded_keywords_def Let_def)
  then have ks': "ks' = map (fst \<circ> ?f) ks" and cut: "\<forall>k \<in> set ks. \<not> snd (?f k)"
    using b by (auto simp: bounded_keywords_def Let_def list_ex_iff)
  have "fst (?f k) = k" if "k \<in> set ks" for k
    using truncate_at_boundary_whole [of k RANKED_SEARCH_MAX_KEYWORD_CHARS "fst (?f k)"] cut that
    by (cases "?f k") auto
  then show "ks' = ks" unfolding ks' by (simp add: map_idI)
qed

lemma document_new_capability [simp]: "doc_capability (document_new c) = c"
  by (simp add: document_new_def split: prod.split)

lemma document_new_exclusions [simp]: "doc_exclusion_terms (document_new c) = {}"
  by (simp add: document_new_def split: prod.split)

lemma build_exclusion_terms_frame [simp]:
  "doc_capability (build_exclusion_terms l d) = doc_capability d"
  "doc_metadata_truncated (build_exclusion_terms l d) = doc_metadata_truncated d"
  "doc_name_selectable (build_exclusion_terms l d) = doc_name_selectable d"
  by (simp_all add: build_exclusion_terms_def)

lemma document_whole:
  assumes "\<not> doc_metadata_truncated (document_new c)"
  shows "set (document_terms (document_new c)) = capability_terms c"
proof -
  obtain name nt where name: "truncate_search_text_at_token_boundary (cap_name c) COMPACT_SEARCH_MAX_TOOL_NAME_CHARS = (name, nt)"
    by fastforce
  obtain label gt where label: "(case cap_group c of None \<Rightarrow> ([], False)
      | Some label \<Rightarrow> truncate_search_text_at_token_boundary label RANKED_SEARCH_MAX_GROUP_CHARS) = (label, gt)" by fastforce
  have cut: "\<not> nt" "\<not> gt" using assms name label by (auto simp: document_new_def split: prod.splits)
  have "name = cap_name c" using name cut(1) by (auto dest: truncate_at_boundary_whole)
  moreover have "set (tokenize_search_text label) = (case cap_group c of Some l \<Rightarrow> set (tokenize_search_text l) | None \<Rightarrow> {})"
  proof (cases "cap_group c")
    case None
    have "tokenize_search_text [] = []" by code_simp
    then show ?thesis using label None by simp
  next
    case (Some l)
    then show ?thesis using label cut(2) by (auto dest: truncate_at_boundary_whole)
  qed
  moreover have "set (doc_description_terms (document_new c)) \<union> set (doc_keyword_terms (document_new c)) =
      (case cap_discovery c of
          Some d \<Rightarrow> set (tokenize_search_text (disc_description d)) \<union> (\<Union>k \<in> set (disc_keywords d). set (tokenize_search_text k))
        | None \<Rightarrow> {})"
  proof (cases "cap_discovery c")
    case None
    then show ?thesis by (simp add: document_new_def split: prod.split)
  next
    case (Some d)
    obtain b t where b: "truncate_search_text_at_token_boundary (disc_description d) RANKED_SEARCH_MAX_DESCRIPTION_CHARS = (b, t)"
      by fastforce
    obtain ks kt where ks: "bounded_keywords (disc_keywords d) = (ks, kt)" by fastforce
    have "\<not> t" "\<not> kt" using assms b ks Some name label by (auto simp: document_new_def)
    then have "b = disc_description d" "ks = disc_keywords d"
      using b ks by (auto dest: truncate_at_boundary_whole bounded_keywords_whole)
    then show ?thesis using b ks Some name label by (simp add: document_new_def)
  qed
  ultimately show ?thesis
    using name label by (auto simp: document_terms_def capability_terms_def document_new_def split: prod.splits)
qed

lemma exclusion_terms_of_new:
  "doc_exclusion_terms (build_exclusion_terms l (document_new c)) = (\<Union>t \<in> set (document_terms (document_new c)). action_variants l t)"
  by (auto simp: build_exclusion_terms_def action_variants_def)

lemma collect_extends: "collect_action_lexemes ls acc = (acc', t) \<Longrightarrow> acc \<subseteq> acc'"
  by (induction ls arbitrary: acc) (auto split: if_splits)

section \<open>What ranked search returns\<close>

lemma map_filter_member: "y \<in> set (List.map_filter f xs) \<Longrightarrow> \<exists>x \<in> set xs. f x = Some y"
  by (simp add: set_map_filter_option)

lemma search_ranked_results:
  "rsp_results (rts_response (search_ranked store flt operation p)) =
     map (\<lambda>x. fst (to_ranked_search_result (doc_capability (snd (snd (snd x))))))
       (take (min (requested_limit flt) RANKED_SEARCH_MAX_LIMIT) (plan_ranked (plan_search store flt operation p)))"
  by (simp add: search_ranked_def Let_def find_tools_def comp_def case_prod_beta)

lemma set_plan_ranked [simp]: "set (plan_ranked plan) = set (plan_matches plan)"
  by (simp add: plan_ranked_def)

lemma rank_document_Some:
  assumes "rank_document fc browse q docs d = Some x"
  shows "snd (snd (snd x)) = d" and "\<not> fc" and "browse \<or> \<not> list_ex (matches_excluded_concept d) (nrq_excluded_concepts q)"
  using assms by (auto simp: rank_document_def split: if_splits prod.splits)

lemma plan_match:
  assumes "x \<in> set (plan_matches plan)"
  shows "snd (snd (snd x)) \<in> set (rp_documents plan)" and "\<not> plan_fail_closed plan"
    and "plan_browse plan \<or> \<not> list_ex (matches_excluded_concept (snd (snd (snd x)))) (nrq_excluded_concepts (rp_normalized plan))"
proof -
  obtain d where d: "d \<in> set (rp_documents plan)" and rank: "rank_document (plan_fail_closed plan) (plan_browse plan)
      (rp_normalized plan) (filter doc_name_selectable (rp_documents plan)) d = Some x"
    using assms map_filter_member [of x] by (fastforce simp: plan_matches_def Let_def)
  show "snd (snd (snd x)) \<in> set (rp_documents plan)" "\<not> plan_fail_closed plan"
    "plan_browse plan \<or> \<not> list_ex (matches_excluded_concept (snd (snd (snd x)))) (nrq_excluded_concepts (rp_normalized plan))"
    using rank_document_Some [OF rank] d by simp_all
qed

lemma search_ranked_member:
  assumes bq: "bounded_input RANKED_SEARCH_MAX_QUERY_CHARS (flt_query flt) = (bounded_query, query_truncated)"
    and bg: "bounded_input RANKED_SEARCH_MAX_GROUP_CHARS (flt_group flt) = (group_text, group_truncated)"
    and lx: "collect_action_lexemes (document_lexemes (map document_new
        (ranked_visible store flt operation p (trimmed_non_empty group_text) group_truncated)))
        default_search_action_lexemes = (lexemes, lexemes_truncated)"
    and q: "q = normalize_ranked_query (case bounded_query of Some query \<Rightarrow> query | None \<Rightarrow> []) lexemes"
    and r: "r \<in> set (rsp_results (rts_response (search_ranked store flt operation p)))"
  obtains c where "c \<in> set (ranked_visible store flt operation p (trimmed_non_empty group_text) group_truncated)"
    and "r = fst (to_ranked_search_result c)"
    and "\<not> query_truncated" and "\<not> nrq_excluded_terms_truncated q" and "\<not> dangling_negation q"
    and "nrq_excluded_concepts q \<noteq> [] \<longrightarrow> \<not> doc_metadata_truncated (document_new c)"
    and "(case bounded_query of None \<Rightarrow> True | Some query \<Rightarrow> is_blank query)
      \<or> \<not> list_ex (matches_excluded_concept (build_exclusion_terms lexemes (document_new c))) (nrq_excluded_concepts q)"
proof -
  let ?visible = "ranked_visible store flt operation p (trimmed_non_empty group_text) group_truncated"
  let ?docs = "map (build_exclusion_terms lexemes) (map document_new ?visible)"
  have plan: "plan_search store flt operation p =
      \<lparr>rp_query = bounded_query, rp_query_truncated = query_truncated, rp_group = trimmed_non_empty group_text,
       rp_group_truncated = group_truncated, rp_normalized = q,
       rp_metadata_truncated = (lexemes_truncated \<or> list_ex doc_metadata_truncated ?docs), rp_documents = ?docs\<rparr>"
    unfolding plan_search_def bq bg prod.case Let_def lx q ..
  obtain x where x: "x \<in> set (plan_matches (plan_search store flt operation p))"
    and rx: "r = fst (to_ranked_search_result (doc_capability (snd (snd (snd x)))))"
    using r in_set_takeD unfolding search_ranked_results by fastforce
  note m = plan_match [OF x, unfolded plan plan_fail_closed_def plan_browse_def ranked_plan.simps]
  obtain c where c: "c \<in> set ?visible" "snd (snd (snd x)) = build_exclusion_terms lexemes (document_new c)"
    using m(1) by auto
  show ?thesis
  proof (rule that)
    show "c \<in> set ?visible" by (rule c(1))
    show "r = fst (to_ranked_search_result c)" using rx c(2) by simp
    show "nrq_excluded_concepts q \<noteq> [] \<longrightarrow> \<not> doc_metadata_truncated (document_new c)"
      using m(2) c(1) by (auto simp: list_ex_iff)
    show "(case bounded_query of None \<Rightarrow> True | Some query \<Rightarrow> is_blank query)
        \<or> \<not> list_ex (matches_excluded_concept (build_exclusion_terms lexemes (document_new c))) (nrq_excluded_concepts q)"
      using m(3) c(2) by auto
  qed (use m(2) in simp_all)
qed

lemma to_ranked_name [simp]: "res_name (fst (to_ranked_search_result c)) = cap_name c"
  by (simp add: to_ranked_search_result_def Let_def)

lemma ranked_visible_capability:
  "c \<in> set (ranked_visible store flt operation p wanted too_long) \<Longrightarrow> c \<in> set (capabilities store) \<and> allows_capability p c operation"
  by (simp add: ranked_visible_def)

subsection \<open>Blank queries\<close>

lemma strip_all_keeps:
  "c \<in> set s \<Longrightarrow> \<forall>q \<in> set ps. c \<notin> set q \<Longrightarrow> c \<in> set (strip_all ps s)"
proof (induction ps s rule: strip_all.induct)
  case (1 ps s)
  show ?case
  proof (cases "strip_one ps s")
    case None
    then show ?thesis using 1 by (simp add: strip_all.simps [of ps s])
  next
    case (Some r)
    obtain q where "q \<in> set ps" "s = q @ r" using strip_one_Some [OF Some] by auto
    then have "c \<in> set r" using 1 by auto
    then show ?thesis using 1 Some by (simp add: strip_all.simps [of ps s])
  qed
qed

lemma ws_not_alphanumeric: "list_all (list_all not_alphanumeric) ws_seqs"
  by code_simp

lemma blank_no_alphanumeric: "is_blank s \<Longrightarrow> c \<in> set s \<Longrightarrow> not_alphanumeric c"
proof (rule ccontr)
  assume blank: "is_blank s" and c: "c \<in> set s" and alnum: "\<not> not_alphanumeric c"
  have out: "\<forall>q \<in> set ws_seqs. c \<notin> set q" "\<forall>q \<in> set (map rev ws_seqs). c \<notin> set q"
    using ws_not_alphanumeric alnum by (auto simp: list_all_iff)
  have "c \<in> set (trim_start s)" unfolding trim_start_def by (rule strip_all_keeps [OF c out(1)])
  then have "c \<in> set (strip_all (map rev ws_seqs) (rev (trim_start s)))" using out(2) by (intro strip_all_keeps) simp_all
  then have "c \<in> set (trim s)" by (simp add: trim_def trim_end_def)
  then show False using blank by simp
qed

lemma split_where_subset: "piece \<in> set (split_where P s) \<Longrightarrow> set piece \<subseteq> set s"
proof (induction P s rule: split_where.induct)
  case (1 P s)
  show ?case
  proof (cases "dropWhile (\<lambda>c. \<not> P c) s")
    case Nil
    have "split_where P s = [takeWhile (\<lambda>c. \<not> P c) s]" by (subst split_where.simps) (simp only: Nil list.case)
    then show ?thesis using 1(2) by (auto dest: set_takeWhileD)
  next
    case (Cons d rest)
    have "split_where P s = takeWhile (\<lambda>c. \<not> P c) s # split_where P rest"
      by (subst split_where.simps) (simp only: Cons list.case)
    moreover have "set rest \<subseteq> set s" using Cons set_dropWhileD [of _ "\<lambda>c. \<not> P c" s] by (metis set_subset_Cons subsetD subsetI)
    ultimately show ?thesis using 1(1) [OF Cons] 1(2) by (auto dest: set_takeWhileD)
  qed
qed

lemma blank_query_no_words: "is_blank query \<Longrightarrow> query_words query = []"
proof -
  assume blank: "is_blank query"
  have empty: "piece = []" if piece: "piece \<in> set (split_where not_alphanumeric query)" for piece
  proof (cases piece)
    case (Cons c cs)
    then have "c \<in> set query" "\<not> not_alphanumeric c"
      using split_where_subset [OF piece] split_where_pieces [OF piece] by auto
    then show ?thesis using blank_no_alphanumeric [OF blank] by blast
  qed
  have "is_blank piece" if "piece \<in> set (split_where not_alphanumeric query)" for piece
    using empty [OF that] by simp
  then show ?thesis by (simp add: query_words_def filter_empty_conv)
qed

lemma negated_words_not_blank: "w \<in> set (negated_words query) \<Longrightarrow> \<not> is_blank query"
  using blank_query_no_words [of query] by (auto simp: negated_words_def)

section \<open>Properties of the search\<close>

text \<open>
  C16: Negative intent is honoured on the whole metadata of a tool: when a query contains a word after a
  negation marker (\<open>not\<close>, \<open>without\<close>, a contraction such as \<open>don't\<close>, ...), no tool that ranked search
  returns has that word in its name, group, description or keywords, and no two inflected forms of an
  action meet either.  This holds for the metadata as registered, not for the part that is indexed:
  a query whose exclusions could be hidden by a truncation returns nothing.
\<close>

theorem negated_words_never_returned:
  assumes wf: "inventory_wf store" and query: "flt_query flt = Some query"
    and w: "w \<in> set (negated_words query)"
    and r: "r \<in> set (rsp_results (rts_response (search_ranked store flt operation p)))"
    and c: "map_of (inv_entries store) (res_name r) = Some c"
  shows "action_variants default_search_action_lexemes w
    \<inter> (\<Union>t \<in> capability_terms c. action_variants default_search_action_lexemes t) = {}"
proof -
  obtain bounded_query query_truncated where bq:
    "bounded_input RANKED_SEARCH_MAX_QUERY_CHARS (flt_query flt) = (bounded_query, query_truncated)" by fastforce
  obtain group_text group_truncated where bg:
    "bounded_input RANKED_SEARCH_MAX_GROUP_CHARS (flt_group flt) = (group_text, group_truncated)" by fastforce
  obtain lexemes lexemes_truncated where lx: "collect_action_lexemes (document_lexemes (map document_new
      (ranked_visible store flt operation p (trimmed_non_empty group_text) group_truncated)))
      default_search_action_lexemes = (lexemes, lexemes_truncated)" by fastforce
  define q where "q = normalize_ranked_query (case bounded_query of Some query \<Rightarrow> query | None \<Rightarrow> []) lexemes"
  obtain c' where c': "c' \<in> set (ranked_visible store flt operation p (trimmed_non_empty group_text) group_truncated)"
      "r = fst (to_ranked_search_result c')" "\<not> query_truncated" "\<not> nrq_excluded_terms_truncated q"
      "nrq_excluded_concepts q \<noteq> [] \<longrightarrow> \<not> doc_metadata_truncated (document_new c')"
      "(case bounded_query of None \<Rightarrow> True | Some query \<Rightarrow> is_blank query)
        \<or> \<not> list_ex (matches_excluded_concept (build_exclusion_terms lexemes (document_new c'))) (nrq_excluded_concepts q)"
    by (rule search_ranked_member [OF bq bg lx q_def r])
  have eq: "c' = c"
    using ranked_visible_capability [OF c'(1)] c by (simp add: inventory_lookup_iff [OF wf] c'(2))
  have whole: "bounded_query = Some query"
    using bq c'(3) query
    by (auto simp: bounded_input_def split: prod.splits dest: truncate_search_text_whole)
  have "excluded_by q (action_variants lexemes w)"
    using negated_word_excluded [OF w, of lexemes] by (simp add: q_def whole)
  then obtain concept where concept: "concept \<in> set (nrq_excluded_concepts q)"
      "action_variants lexemes w \<subseteq> set (qc_variants concept)"
    using c'(4) by (auto simp: excluded_by_def)
  then have terms: "set (document_terms (document_new c)) = capability_terms c"
    using c'(5) eq by (intro document_whole) auto
  have "\<not> matches_excluded_concept (build_exclusion_terms lexemes (document_new c)) concept"
    using c'(6) concept(1) negated_words_not_blank [OF w] eq by (auto simp: whole list_ex_iff)
  then have "set (qc_variants concept) \<inter> (\<Union>t \<in> capability_terms c. action_variants lexemes t) = {}"
    by (auto simp: matches_excluded_concept_def list_ex_iff exclusion_terms_of_new terms)
  moreover have "action_variants default_search_action_lexemes t \<subseteq> action_variants lexemes t" for t
    by (rule action_variants_mono [OF collect_extends [OF lx]])
  ultimately show ?thesis using concept(2) by blast
qed

lemma capability_terms_words: "t \<in> capability_terms c \<Longrightarrow> plain_token t"
  by (auto simp: capability_terms_def tokenize_plain split: option.splits)

lemma reason_if_set: "set (reason_if b reason reasons) = {x. x \<in> set reasons \<or> b \<and> x = reason}"
  by (auto simp: reason_if_def push_unique_reason_def)

lemma search_truncation_reasons_mem:
  "limited \<Longrightarrow> ''result_limit'' \<in> set (search_truncation_reasons a b c q d limited e)"
  "a \<Longrightarrow> ''query_input'' \<in> set (search_truncation_reasons a b c q d limited e)"
  "c \<Longrightarrow> ''group_input'' \<in> set (search_truncation_reasons a b c q d limited e)"
  "dangling_negation q \<Longrightarrow> ''query_intent_ambiguous'' \<in> set (search_truncation_reasons a b c q d limited e)"
  by (simp_all add: search_truncation_reasons_def reason_if_set)

lemma ranked_documents:
  "map (snd \<circ> snd \<circ> snd) (List.map_filter (rank_document fc browse q docs) ds)
     = filter (\<lambda>d. rank_document fc browse q docs d \<noteq> None) ds"
  by (induction ds) (auto simp: List.map_filter_simps dest: rank_document_Some(1) split: option.splits)

lemma plan_ranked_names:
  assumes wf: "inventory_wf store"
  shows "distinct (map (\<lambda>x. cap_name (doc_capability (snd (snd (snd x))))) (plan_ranked (plan_search store flt operation p)))"
proof -
  let ?name = "\<lambda>d. cap_name (doc_capability d)"
  let ?plan = "plan_search store flt operation p"
  let ?docs = "filter doc_name_selectable (rp_documents ?plan)"
  have "map ?name (rp_documents ?plan) = map cap_name (ranked_visible store flt operation p (rp_group ?plan) (rp_group_truncated ?plan))"
    by (simp add: plan_search_def Let_def split: prod.split)
  moreover have "distinct (map cap_name (ranked_visible store flt operation p (rp_group ?plan) (rp_group_truncated ?plan)))"
    using capabilities_sorted [OF wf] unfolding ranked_visible_def
    by (intro distinct_map_filter) (simp add: strict_sorted_iff)
  ultimately have "distinct (map ?name (rp_documents ?plan))" by (simp only:)
  then have "distinct (map ?name (map (snd \<circ> snd \<circ> snd) (plan_matches ?plan)))"
    unfolding plan_matches_def Let_def ranked_documents by (intro distinct_map_filter)
  then have "distinct (map (\<lambda>x. ?name (snd (snd (snd x)))) (plan_matches ?plan))" by (simp add: comp_def)
  then show ?thesis by (simp only: plan_ranked_def distinct_map distinct_sort set_sort if_split) simp
qed

text \<open>
  C17: Ranked search stays inside the policy: every returned tool is registered, allowed by the decision
  for the operation, in the requested group and of the requested read-only kind; the tools are distinct,
  there are no more than the limit of 100, and the summary counts them and says so when matches are
  left out.
\<close>

theorem ranked_search_confined:
  assumes wf: "inventory_wf store" and answer: "search_ranked store flt operation p = answer"
  shows "(\<forall>r \<in> set (rsp_results (rts_response answer)).
      (\<exists>c. map_of (inv_entries store) (res_name r) = Some c
         \<and> is_allowed store (res_name r) operation p
         \<and> (\<forall>g. flt_group flt = Some g \<longrightarrow> is_blank g \<or> cap_group c = Some (trim g))
         \<and> (\<forall>b. flt_read_only flt = Some b \<longrightarrow> cap_read_only c = b)))
    \<and> distinct (map res_name (rsp_results (rts_response answer)))
    \<and> length (rsp_results (rts_response answer))
        = min (sum_total_matches (rts_match_summary answer)) (sum_result_limit (rts_match_summary answer))
    \<and> sum_result_limit (rts_match_summary answer) \<le> 100
    \<and> sum_returned_count (rts_match_summary answer) = length (rsp_results (rts_response answer))
    \<and> (length (rsp_results (rts_response answer)) < sum_total_matches (rts_match_summary answer) \<longrightarrow>
       ''result_limit'' \<in> set (sum_truncation_reasons (rts_match_summary answer)))"
proof -
  have each: "\<exists>c. map_of (inv_entries store) (res_name r) = Some c \<and> is_allowed store (res_name r) operation p
      \<and> (\<forall>g. flt_group flt = Some g \<longrightarrow> is_blank g \<or> cap_group c = Some (trim g))
      \<and> (\<forall>b. flt_read_only flt = Some b \<longrightarrow> cap_read_only c = b)"
    if r: "r \<in> set (rsp_results (rts_response answer))" for r
  proof -
    obtain bounded_query query_truncated where bq:
      "bounded_input RANKED_SEARCH_MAX_QUERY_CHARS (flt_query flt) = (bounded_query, query_truncated)" by fastforce
    obtain group_text group_truncated where bg:
      "bounded_input RANKED_SEARCH_MAX_GROUP_CHARS (flt_group flt) = (group_text, group_truncated)" by fastforce
    obtain lexemes lexemes_truncated where lx: "collect_action_lexemes (document_lexemes (map document_new
        (ranked_visible store flt operation p (trimmed_non_empty group_text) group_truncated)))
        default_search_action_lexemes = (lexemes, lexemes_truncated)" by fastforce
    obtain c where c: "c \<in> set (ranked_visible store flt operation p (trimmed_non_empty group_text) group_truncated)"
        "r = fst (to_ranked_search_result c)"
      by (rule search_ranked_member [OF bq bg lx refl r [folded answer]])
    note visible = ranked_visible_capability [OF c(1)]
    then have found: "map_of (inv_entries store) (res_name r) = Some c"
      by (simp add: inventory_lookup_iff [OF wf] c(2))
    moreover have "is_allowed store (res_name r) operation p"
      using decision_registered [OF wf found] visible by (simp add: is_allowed_def inventory_decision_def)
    moreover have "is_blank g \<or> cap_group c = Some (trim g)" if g: "flt_group flt = Some g" for g
    proof -
      have "group_text = Some g"
        using bg c(1) by (auto simp: bounded_input_def g ranked_visible_def split: prod.splits dest: truncate_search_text_whole)
      then show ?thesis
        using c(1) by (auto simp: ranked_visible_def trimmed_non_empty_def opt_filter_def split: if_splits)
    qed
    moreover have "cap_read_only c = b" if "flt_read_only flt = Some b" for b
      using c(1) that by (simp add: ranked_visible_def)
    ultimately show ?thesis by blast
  qed
  have names: "distinct (map res_name (rsp_results (rts_response answer)))"
    using distinct_take [OF plan_ranked_names [OF wf, of flt operation p], of "min (requested_limit flt) RANKED_SEARCH_MAX_LIMIT"]
    unfolding answer [symmetric] search_ranked_results by (simp add: comp_def take_map)
  have reason: "''result_limit'' \<in> set (sum_truncation_reasons (rts_match_summary answer))"
    if "length (rsp_results (rts_response answer)) < sum_total_matches (rts_match_summary answer)"
    using that unfolding answer [symmetric]
    by (simp add: search_ranked_def Let_def find_tools_def search_truncation_reasons_mem(1))
  show ?thesis
    using each names reason
    by (auto simp: answer [symmetric] search_ranked_def Let_def find_tools_def RANKED_SEARCH_MAX_LIMIT_def)
qed

text \<open>A query whose last negation marker is followed by connectives and stop words only.\<close>

definition ends_in_negation :: "rstr \<Rightarrow> bool" where
  "ends_in_negation query \<longleftrightarrow>
     (case dropWhile (\<lambda>w. is_search_negation_continuation w \<or> is_search_stop_word w)
             (rev (contract_words (query_words query))) of
        [] \<Rightarrow> False | m # _ \<Rightarrow> is_search_negation_marker m)"

lemma stop_word_not_marker: "is_search_stop_word w \<Longrightarrow> \<not> is_search_negation_marker w"
  unfolding is_search_stop_word_def is_search_negation_marker_def by auto

lemma continuation_not_marker: "is_search_negation_continuation w \<Longrightarrow> \<not> is_search_negation_marker w"
  unfolding is_search_negation_continuation_def is_search_negation_marker_def by auto

lemma ignored_word_keeps_dangling:
  "dangling_negation st \<Longrightarrow> is_search_negation_continuation w \<or> is_search_stop_word w
     \<Longrightarrow> dangling_negation (ranked_query_word lexemes w st)"
  using stop_word_not_marker [of w] continuation_not_marker [of w]
  by (auto simp: dangling_negation_def ranked_query_word_def Let_def)

lemma fold_keeps_dangling:
  "dangling_negation st \<Longrightarrow> \<forall>w \<in> set ws. is_search_negation_continuation w \<or> is_search_stop_word w
     \<Longrightarrow> dangling_negation (fold (ranked_query_word lexemes) ws st)"
  by (induction ws arbitrary: st) (auto intro: ignored_word_keeps_dangling)

lemma ends_in_negation_dangling:
  assumes "ends_in_negation query"
  shows "dangling_negation (normalize_ranked_query query lexemes)"
proof -
  let ?P = "\<lambda>w. is_search_negation_continuation w \<or> is_search_stop_word w"
  let ?ws = "contract_words (query_words query)"
  obtain m rest where m: "dropWhile ?P (rev ?ws) = m # rest" "is_search_negation_marker m"
    using assms by (auto simp: ends_in_negation_def split: list.splits)
  have "rev ?ws = takeWhile ?P (rev ?ws) @ m # rest" by (metis m(1) takeWhile_dropWhile_id)
  then have ws: "?ws = rev rest @ m # rev (takeWhile ?P (rev ?ws))"
    by (metis append.assoc append_Cons append_Nil rev.simps(2) rev_append rev_rev_ident)
  have "m \<in> set ?ws" by (subst ws) simp
  then have "m \<noteq> []" using contract_words_plain [of "query_words query" m] query_words_plain by (auto simp: plain_token_def)
  then have "dangling_negation (ranked_query_word lexemes m (fold (ranked_query_word lexemes) (rev rest) empty_query))"
    using m(2) by (simp add: dangling_negation_def ranked_query_word_def)
  then have "dangling_negation (fold (ranked_query_word lexemes) (rev (takeWhile ?P (rev ?ws)))
      (ranked_query_word lexemes m (fold (ranked_query_word lexemes) (rev rest) empty_query)))"
    by (rule fold_keeps_dangling) (auto dest: set_takeWhileD)
  then show ?thesis unfolding normalize_ranked_query_def ranked_query_loop_fold by (subst ws) simp
qed


text \<open>
  Plain search and the profile contract describe the same surface: an unfiltered search under a
  profile's policy lists exactly the contract's tools in the contract's order, and every filtered
  search lists a part of them in that order.
\<close>

theorem search_agrees_with_contract:
  assumes wf: "inventory_wf store"
  shows "map res_name (inventory_search store filter_default operation (prof_policy profile))
      = con_tool_names (catalog_contract store profile operation)
    \<and> subseq (map res_name (inventory_search store flt operation (prof_policy profile)))
        (con_tool_names (catalog_contract store profile operation))"
proof
  let ?v = "filter (\<lambda>c. allows_capability (prof_policy profile) c operation) (capabilities store)"
  have name [simp]: "res_name \<circ> search_result_of = cap_name" by (simp add: search_result_of_def comp_def)
  have "search_query_terms None = []" by code_simp
  then show "map res_name (inventory_search store filter_default operation (prof_policy profile))
      = con_tool_names (catalog_contract store profile operation)"
    unfolding contract_names [OF wf]
    by (simp add: inventory_search_def filter_default_def matches_query_def trimmed_non_empty_def opt_filter_def Let_def)
  have part: "subseq (map cap_name (filter (\<lambda>x. A x \<and> B x) cs)) (map cap_name (filter A cs))" for A B cs
    using subseq_map [OF subseq_filter_left [of B "filter A cs"], of cap_name] by simp
  have "subseq (take n xs) xs" for n and xs :: "rstr list" by (rule prefix_imp_subseq [OF take_is_prefix])
  then have cut: "subseq (take n (map cap_name (filter (\<lambda>x. A x \<and> B x) cs))) (map cap_name (filter A cs))" for n A B cs
    using part subseq_order.order_trans by blast
  show "subseq (map res_name (inventory_search store flt operation (prof_policy profile)))
      (con_tool_names (catalog_contract store profile operation))"
    unfolding contract_names [OF wf] inventory_search_def Let_def
    by (cases "flt_limit flt") (simp_all add: part cut take_map [symmetric] conj_assoc)
qed

text \<open>Values for the witnesses.\<close>

definition plan_tools :: "tool_capability list" where
  "plan_tools = [capability_new ''plan.apply'', cap_with_read_only True (capability_new ''plan.view'')]"

definition plan_store :: tool_inventory where
  "plan_store = (case from_capabilities plan_tools of Inr store \<Rightarrow> store | Inl _ \<Rightarrow> inventory_new)"

definition plan_filter :: "rstr \<Rightarrow> tool_search_filter" where
  "plan_filter query = filter_default\<lparr>flt_query := Some query, flt_group := Some []\<rparr>"

lemma plan_store_wf: "inventory_wf plan_store"
proof -
  have "inventory_wf store'" if "register_capabilities cs store = Inr store'" "inventory_wf store" for cs store store'
    using that by (induction cs arbitrary: store) (auto intro: inventory_register_wf)
  then show ?thesis by (auto simp: plan_store_def from_capabilities_def split: sum.split)
qed

lemma plan_answer:
  "map res_name (rsp_results (rts_response (search_ranked plan_store (plan_filter ''plan not applying'') Op_List policy_strict)))
     = [''plan.view'']"
  by code_simp

lemma map_singleton: "map f xs = [y] \<Longrightarrow> \<exists>x. xs = [x] \<and> f x = y"
  by (cases xs) auto

theorem negated_words_never_returned_witness:
  "\<exists>r c. r \<in> set (rsp_results (rts_response (search_ranked plan_store (plan_filter ''plan not applying'') Op_List policy_strict)))
     \<and> map_of (inv_entries plan_store) (res_name r) = Some c
     \<and> action_variants default_search_action_lexemes ''applying''
         \<inter> (\<Union>t \<in> capability_terms c. action_variants default_search_action_lexemes t) = {}"
proof -
  obtain r where r: "r \<in> set (rsp_results (rts_response (search_ranked plan_store (plan_filter ''plan not applying'') Op_List policy_strict)))"
    "res_name r = ''plan.view''"
    using map_singleton [OF plan_answer] by (metis list.set_intros(1))
  have "map_of (inv_entries plan_store) ''plan.view'' \<noteq> None" by code_simp
  then obtain c where c: "map_of (inv_entries plan_store) (res_name r) = Some c" using r(2) by auto
  have w: "''applying'' \<in> set (negated_words ''plan not applying'')" by code_simp
  have "flt_query (plan_filter ''plan not applying'') = Some ''plan not applying''" by (simp add: plan_filter_def)
  then show ?thesis using negated_words_never_returned [OF plan_store_wf _ w r(1) c] r(1) c by blast
qed

theorem ranked_search_confined_witness:
  "is_allowed plan_store ''plan.view'' Op_List policy_strict
   \<and> sum_returned_count (rts_match_summary (search_ranked plan_store (plan_filter ''plan not applying'') Op_List policy_strict)) = 1"
proof -
  let ?answer = "search_ranked plan_store (plan_filter ''plan not applying'') Op_List policy_strict"
  obtain r where r: "rsp_results (rts_response ?answer) = [r]" "res_name r = ''plan.view''"
    using map_singleton [OF plan_answer] by blast
  note facts = ranked_search_confined [OF plan_store_wf refl, of "plan_filter ''plan not applying''" Op_List policy_strict]
  have "is_allowed plan_store (res_name r) Op_List policy_strict" using facts r(1) by auto
  moreover have "sum_returned_count (rts_match_summary ?answer) = 1" using facts r(1) by simp
  ultimately show ?thesis unfolding r(2) by blast
qed


theorem search_agrees_with_contract_witness:
  "map res_name (inventory_search plan_store filter_default Op_Call (prof_policy read_only_default)) = [''plan.view'']
   \<and> subseq (map res_name (inventory_search plan_store (plan_filter ''x'') Op_Call (prof_policy read_only_default))) [''plan.view'']"
proof -
  have names: "con_tool_names (catalog_contract plan_store read_only_default Op_Call) = [''plan.view'']" by code_simp
  show ?thesis
    using search_agrees_with_contract [OF plan_store_wf, of Op_Call read_only_default "plan_filter ''x''"]
    unfolding names by blast
qed

end
