(* ===== verification/Openai_Search.thy ===== *)
theory Openai_Search
  imports Tool_Inventory
begin

text \<open>
  The builders of \<open>openai_tool_search.rs\<close> (crate \<open>mcp-toolkit-core\<close>): configuration fragments for
  clients that search tools, and the metadata of deferred-loading responses.  \<open>with_member\<close> is insertion
  into a JSON object; a value that is not an object is left alone, as the code's patterns do.
\<close>

definition with_member :: "rstr \<Rightarrow> json \<Rightarrow> json \<Rightarrow> json" where
  "with_member key v j = (case j of JObject m \<Rightarrow> JObject (AList.update key v m) | _ \<Rightarrow> j)"

definition member :: "rstr \<Rightarrow> json \<Rightarrow> json option" where
  "member key j = (case j of JObject m \<Rightarrow> map_of m key | _ \<Rightarrow> None)"

definition OPENAI_TOOL_SEARCH_TYPE :: rstr where "OPENAI_TOOL_SEARCH_TYPE = ''tool_search''"
definition OPENAI_MCP_TOOL_TYPE :: rstr where "OPENAI_MCP_TOOL_TYPE = ''mcp''"

definition HOSTED_TOOL_SEARCH_METADATA :: rstr where
  "HOSTED_TOOL_SEARCH_METADATA = ''Use OpenAI hosted tool_search by adding {'' @ [CHR 0x22] @ ''type'' @ [CHR 0x22] @ '':'' @ [CHR 0x22] @ ''tool_search'' @ [CHR 0x22] @ ''} to the Responses tools array and setting defer_loading=true on this MCP server definition.''"

definition CLIENT_EXECUTED_TOOL_SEARCH_METADATA :: rstr where
  "CLIENT_EXECUTED_TOOL_SEARCH_METADATA = ''Use client-executed tool search when tool discovery depends on application, project, tenant, or other runtime state that is not practical to declare up front.''"

definition LOCAL_SEARCH_SCOPE_METADATA :: rstr where
  "LOCAL_SEARCH_SCOPE_METADATA = ''Local search results are helpers for non-hosted clients and manual allowed_tools narrowing; hosted OpenAI tool_search does not automatically call local search tools.''"

section \<open>Capabilities\<close>

record model_compatibility =
  mc_minimum_model :: rstr
  mc_recommended_model :: "rstr option"

record search_capabilities =
  sc_model_compatibility :: "model_compatibility option"

definition capabilities_with_model :: "rstr \<Rightarrow> rstr option \<Rightarrow> search_capabilities \<Rightarrow> search_capabilities" where
  "capabilities_with_model minimum recommended c =
     c\<lparr>sc_model_compatibility := Some \<lparr>mc_minimum_model = minimum, mc_recommended_model = recommended\<rparr>\<rparr>"

definition defer_loading_member :: "rstr \<times> json" where
  "defer_loading_member = (''mcp_tool'', JObject [(''defer_loading'', JBool True)])"

definition tool_search_entry :: json where
  "tool_search_entry = JObject [(''type'', JString OPENAI_TOOL_SEARCH_TYPE)]"

definition capabilities_to_value :: "search_capabilities \<Rightarrow> json" where
  "capabilities_to_value c =
     (let v = JObject
            [(''hosted_tool_search'', JString HOSTED_TOOL_SEARCH_METADATA),
             (''client_executed_tool_search'', JString CLIENT_EXECUTED_TOOL_SEARCH_METADATA),
             (''local_search_scope'', JString LOCAL_SEARCH_SCOPE_METADATA),
             (''find_tools_scope'', JString LOCAL_SEARCH_SCOPE_METADATA),
             defer_loading_member,
             (''tool_search'', tool_search_entry)]
      in case sc_model_compatibility c of
           None \<Rightarrow> v
         | Some m \<Rightarrow>
             let v' = (if mc_minimum_model m = [] then v
                       else with_member ''minimum_model'' (JString (mc_minimum_model m)) v)
             in (case mc_recommended_model m of
                   None \<Rightarrow> v'
                 | Some recommended \<Rightarrow>
                     if recommended = [] then v' else with_member ''recommended_model'' (JString recommended) v'))"

section \<open>Server definitions and approval overrides\<close>

record mcp_server_tool =
  mst_server_label :: rstr
  mst_server_description :: rstr
  mst_server_url :: rstr
  mst_defer_loading :: bool

definition mcp_server_tool_new :: "rstr \<Rightarrow> rstr \<Rightarrow> rstr \<Rightarrow> mcp_server_tool" where
  "mcp_server_tool_new label description url =
     \<lparr>mst_server_label = label, mst_server_description = description, mst_server_url = url, mst_defer_loading = True\<rparr>"

definition with_defer_loading :: "bool \<Rightarrow> mcp_server_tool \<Rightarrow> mcp_server_tool" where
  "with_defer_loading b t = t\<lparr>mst_defer_loading := b\<rparr>"

definition mcp_server_tool_to_value :: "mcp_server_tool \<Rightarrow> json" where
  "mcp_server_tool_to_value t =
     JObject
       [(''type'', JString OPENAI_MCP_TOOL_TYPE),
        (''server_label'', JString (mst_server_label t)),
        (''server_description'', JString (mst_server_description t)),
        (''server_url'', JString (mst_server_url t)),
        (''defer_loading'', JBool (mst_defer_loading t))]"

record approval_override =
  ao_tool_names :: "rstr list"

definition approval_override_new :: "rstr list \<Rightarrow> approval_override option" where
  "approval_override_new tool_names =
     (let names = sort_dedup (filter (\<lambda>n. n \<noteq> []) (map trim tool_names)) in
      if names = [] then None else Some \<lparr>ao_tool_names = names\<rparr>)"

definition to_require_approval_value :: "approval_override \<Rightarrow> json" where
  "to_require_approval_value reviewed = JObject [(''never'', JObject [(''tool_names'', strings_value (ao_tool_names reviewed))])]"

definition override_to_documentation_value :: "approval_override \<Rightarrow> json" where
  "override_to_documentation_value reviewed = JObject [(''require_approval'', to_require_approval_value reviewed)]"

definition with_approval :: "approval_override option \<Rightarrow> json \<Rightarrow> json" where
  "with_approval reviewed mcp_tool =
     (case reviewed of None \<Rightarrow> mcp_tool | Some x \<Rightarrow> with_member ''require_approval'' (to_require_approval_value x) mcp_tool)"

record tool_search_config =
  tsc_model :: rstr
  tsc_minimum_model :: rstr
  tsc_mcp_tool :: mcp_server_tool
  tsc_override :: "approval_override option"
  tsc_notes :: "rstr list"

definition tool_search_config_new :: "mcp_server_tool \<Rightarrow> tool_search_config" where
  "tool_search_config_new t =
     \<lparr>tsc_model = ''gpt-5.5'', tsc_minimum_model = ''gpt-5.4'', tsc_mcp_tool = t, tsc_override = None, tsc_notes = []\<rparr>"

definition config_with_override :: "approval_override \<Rightarrow> tool_search_config \<Rightarrow> tool_search_config" where
  "config_with_override reviewed c = c\<lparr>tsc_override := Some reviewed\<rparr>"

definition config_with_model :: "rstr \<Rightarrow> tool_search_config \<Rightarrow> tool_search_config" where
  "config_with_model model c = c\<lparr>tsc_model := model\<rparr>"

definition config_with_minimum_model :: "rstr \<Rightarrow> tool_search_config \<Rightarrow> tool_search_config" where
  "config_with_minimum_model model c = c\<lparr>tsc_minimum_model := model\<rparr>"

definition config_with_notes :: "rstr list \<Rightarrow> tool_search_config \<Rightarrow> tool_search_config" where
  "config_with_notes notes c = c\<lparr>tsc_notes := tsc_notes c @ notes\<rparr>"

definition request_value_with_approval_mode :: "tool_search_config \<Rightarrow> bool \<Rightarrow> json" where
  "request_value_with_approval_mode c include_approval_override =
     (let mcp_tool = with_approval (if include_approval_override then tsc_override c else None)
            (mcp_server_tool_to_value (tsc_mcp_tool c))
      in JObject [(''model'', JString (tsc_model c)), (''tools'', JArray [mcp_tool, tool_search_entry])])"

definition config_to_request_value :: "tool_search_config \<Rightarrow> json" where
  "config_to_request_value c = request_value_with_approval_mode c True"

definition config_to_documentation_value :: "tool_search_config \<Rightarrow> json" where
  "config_to_documentation_value c =
     (let v = with_member ''model_compatibility_status'' (JString ''historical'')
            (with_member ''minimum_model_for_tool_search'' (JString (tsc_minimum_model c))
              (request_value_with_approval_mode c False));
          v' = (case tsc_override c of
                  None \<Rightarrow> v
                | Some reviewed \<Rightarrow> with_member ''optional_trusted_read_only_approval_override'' (override_to_documentation_value reviewed) v)
      in if tsc_notes c = [] then v' else with_member ''notes'' (strings_value (tsc_notes c)) v')"

record tool_search_request =
  tsr_model :: rstr
  tsr_mcp_tool :: mcp_server_tool
  tsr_override :: "approval_override option"

definition tool_search_request_new :: "rstr \<Rightarrow> mcp_server_tool \<Rightarrow> tool_search_request" where
  "tool_search_request_new model t = \<lparr>tsr_model = model, tsr_mcp_tool = t, tsr_override = None\<rparr>"

definition request_with_override :: "approval_override \<Rightarrow> tool_search_request \<Rightarrow> tool_search_request" where
  "request_with_override reviewed r = r\<lparr>tsr_override := Some reviewed\<rparr>"

definition request_to_value :: "tool_search_request \<Rightarrow> json" where
  "request_to_value r =
     JObject
       [(''model'', JString (tsr_model r)),
        (''tools'', JArray [with_approval (tsr_override r) (mcp_server_tool_to_value (tsr_mcp_tool r)), tool_search_entry])]"

section \<open>Deferred-loading metadata\<close>

record deferred_loading_metadata =
  dlm_hosted :: rstr
  dlm_client_executed :: rstr
  dlm_minimum_model :: rstr
  dlm_recommended_model :: rstr
  dlm_local_scope :: rstr

definition deferred_loading_default :: deferred_loading_metadata where
  "deferred_loading_default =
     \<lparr>dlm_hosted = HOSTED_TOOL_SEARCH_METADATA, dlm_client_executed = CLIENT_EXECUTED_TOOL_SEARCH_METADATA,
      dlm_minimum_model = [], dlm_recommended_model = [], dlm_local_scope = LOCAL_SEARCH_SCOPE_METADATA\<rparr>"

definition metadata_with_model :: "rstr \<Rightarrow> rstr option \<Rightarrow> deferred_loading_metadata \<Rightarrow> deferred_loading_metadata" where
  "metadata_with_model minimum recommended m =
     m\<lparr>dlm_minimum_model := minimum, dlm_recommended_model := (case recommended of Some r \<Rightarrow> r | None \<Rightarrow> [])\<rparr>"

definition deferred_loading_to_value :: "rstr option \<Rightarrow> deferred_loading_metadata \<Rightarrow> json" where
  "deferred_loading_to_value metadata_label m =
     (let v = JObject
            [(''hosted_tool_search'', JString (dlm_hosted m)),
             (''client_executed_tool_search'', JString (dlm_client_executed m)),
             (''local_search_scope'', JString (dlm_local_scope m)),
             (''find_tools_scope'', JString (dlm_local_scope m)),
             defer_loading_member,
             (''tool_search'', tool_search_entry),
             (''metadata_label'', opt_value JString metadata_label)];
          v' = (if dlm_minimum_model m = [] then v else with_member ''minimum_model'' (JString (dlm_minimum_model m)) v)
      in if dlm_recommended_model m = [] then v'
         else with_member ''recommended_model'' (JString (dlm_recommended_model m)) v')"

section \<open>Approval is never widened silently\<close>

text \<open>The approval member of the MCP tool of a request fragment.\<close>

definition request_approval :: "json \<Rightarrow> json option" where
  "request_approval request =
     (case member ''tools'' request of
        Some (JArray (mcp_tool # _)) \<Rightarrow> member ''require_approval'' mcp_tool
      | _ \<Rightarrow> None)"

lemma member_with_member [simp]:
  "member k (with_member k' v (JObject m)) = (if k = k' then Some v else member k (JObject m))"
  by (simp add: member_def with_member_def update_conv')

lemma with_approval_member:
  "member ''require_approval'' (with_approval reviewed (mcp_server_tool_to_value t)) = map_option to_require_approval_value reviewed"
  by (cases reviewed) (simp_all add: with_approval_def mcp_server_tool_to_value_def, simp add: member_def)

text \<open>
  An MCP tool definition waives approval only when a reviewed override was supplied, and then for exactly
  its names; an override holds the non-blank names, trimmed, strictly sorted, and there is at least one.
\<close>

lemma approval_only_reviewed:
  "request_approval (config_to_request_value c) = map_option to_require_approval_value (tsc_override c)"
  "request_approval (request_to_value r) = map_option to_require_approval_value (tsr_override r)"
  "request_approval (config_to_documentation_value c) = None"
  "approval_override_new names = Some reviewed \<Longrightarrow>
     set (ao_tool_names reviewed) = trim ` set names - {[]} \<and> sorted_wrt (<) (ao_tool_names reviewed) \<and> ao_tool_names reviewed \<noteq> []"
proof -
  have m: "member ''tools'' (JObject [(''model'', a), (''tools'', JArray (x # xs))]) = Some (JArray (x # xs))" for a x xs
    by (simp add: member_def)
  show "request_approval (config_to_request_value c) = map_option to_require_approval_value (tsc_override c)"
    by (simp add: request_approval_def config_to_request_value_def request_value_with_approval_mode_def m with_approval_member)
  show "request_approval (request_to_value r) = map_option to_require_approval_value (tsr_override r)"
    by (simp add: request_approval_def request_to_value_def m with_approval_member)
  have keep: "member ''tools'' (with_member k v j) = member ''tools'' j" if "k \<noteq> ''tools''" for k v j
    using that by (cases j) (simp_all add: member_def with_member_def update_conv')
  have "member ''tools'' (config_to_documentation_value c) = member ''tools'' (request_value_with_approval_mode c False)"
    by (simp add: config_to_documentation_value_def Let_def keep split: option.split)
  then show "request_approval (config_to_documentation_value c) = None"
    by (simp add: request_approval_def request_value_with_approval_mode_def m with_approval_member)
  show "approval_override_new names = Some reviewed \<Longrightarrow>
     set (ao_tool_names reviewed) = trim ` set names - {[]} \<and> sorted_wrt (<) (ao_tool_names reviewed) \<and> ao_tool_names reviewed \<noteq> []"
    using sort_dedup_sorted by (auto simp: approval_override_new_def Let_def split: if_splits)
qed

end
