(* ===== verification/Search_Response.thy ===== *)
theory Search_Response
  imports Tool_Search Openai_Search
begin

text \<open>
  The responses of tool search in \<open>tool_inventory.rs\<close> (crate \<open>mcp-toolkit-core\<close>): their JSON shapes and
  the compact forms that stay within 32 KiB.  The JSON writer \<open>serde_json::to_vec\<close> is a parameter.  The
  four loops of the \<open>to_compact_value\<close> methods are functions of their own; the locale
  \<open>compact_response\<close> states what they share.
\<close>

section \<open>Limits\<close>

definition RANKED_SEARCH_COMPACT_MAX_BYTES :: nat where "RANKED_SEARCH_COMPACT_MAX_BYTES = 32 * 1024"
definition COMPACT_SEARCH_MAX_RESULTS :: nat where "COMPACT_SEARCH_MAX_RESULTS = 100"
definition COMPACT_SEARCH_MAX_OPERATION_CHARS :: nat where "COMPACT_SEARCH_MAX_OPERATION_CHARS = 64"
definition COMPACT_SEARCH_MAX_SUMMARY_REASONS :: nat where "COMPACT_SEARCH_MAX_SUMMARY_REASONS = 16"
definition COMPACT_SEARCH_MAX_SUMMARY_REASON_CHARS :: nat where "COMPACT_SEARCH_MAX_SUMMARY_REASON_CHARS = 64"
definition COMPACT_OPENAI_MAX_COMPANION_TOOLS :: nat where "COMPACT_OPENAI_MAX_COMPANION_TOOLS = 100"
definition COMPACT_OPENAI_MAX_EXTRA_RESULTS :: nat where "COMPACT_OPENAI_MAX_EXTRA_RESULTS = 32"
definition COMPACT_OPENAI_MAX_EXTRA_RESULT_NODES :: nat where "COMPACT_OPENAI_MAX_EXTRA_RESULT_NODES = 256"
definition COMPACT_OPENAI_MAX_EXTRA_RESULT_TEXT_CHARS :: nat where "COMPACT_OPENAI_MAX_EXTRA_RESULT_TEXT_CHARS = 4096"

type_synonym json_writer = "json \<Rightarrow> (rstr, rstr) result"

definition compact_fits :: "json_writer \<Rightarrow> json \<Rightarrow> bool" where
  "compact_fits to_vec v =
     (case to_vec v of Inr bytes \<Rightarrow> length bytes \<le> RANKED_SEARCH_COMPACT_MAX_BYTES | Inl _ \<Rightarrow> False)"

section \<open>Full responses\<close>

definition tool_search_result_value :: "tool_search_result \<Rightarrow> json" where
  "tool_search_result_value r =
     JObject
       [(''type'', JString ''tool''), (''name'', JString (res_name r)),
        (''group'', opt_value JString (res_group r)), (''read_only'', JBool (res_read_only r)),
        (''description'', opt_value JString (res_description r)), (''keywords'', strings_value (res_keywords r)),
        (''risk_posture'', opt_value posture_value (res_risk_posture r))]"

definition openai_allowed_tools :: "tool_search_response \<Rightarrow> rstr list" where
  "openai_allowed_tools r = sort_dedup (map res_name (rsp_results r))"

definition response_to_value :: "tool_search_response \<Rightarrow> json" where
  "response_to_value r =
     JObject
       [(''operation'', JString (rsp_operation r)), (''query'', opt_value JString (rsp_query r)),
        (''group'', opt_value JString (rsp_group r)), (''read_only'', opt_value JBool (rsp_read_only r)),
        (''results'', JArray (map tool_search_result_value (rsp_results r))),
        (''openai_allowed_tools'', strings_value (openai_allowed_tools r)),
        (''schemas'', opt_value (\<lambda>v. v) (rsp_schemas r)),
        (''openai_deferred_loading'', deferred_loading_to_value (rsp_metadata_label r) deferred_loading_default)]"

definition match_summary_to_value :: "tool_search_match_summary \<Rightarrow> json" where
  "match_summary_to_value s =
     JObject
       [(''total_matches'', count_value (sum_total_matches s)),
        (''returned_count'', count_value (sum_returned_count s)),
        (''result_limit'', count_value (sum_result_limit s)),
        (''truncated'', JBool (sum_truncated s)),
        (''truncation_reasons'', strings_value (sum_truncation_reasons s)),
        (''normalized_query_terms'', strings_value (sum_normalized_query_terms s)),
        (''excluded_query_terms'', strings_value (sum_excluded_query_terms s)),
        (''ignored_query_terms'', strings_value (sum_ignored_query_terms s))]"

definition with_match_summary :: "tool_search_match_summary \<Rightarrow> json \<Rightarrow> json" where
  "with_match_summary s v = with_member ''match_summary'' (match_summary_to_value s) v"

definition ranked_to_value :: "ranked_tool_search_response \<Rightarrow> json" where
  "ranked_to_value r = with_match_summary (rts_match_summary r) (response_to_value (rts_response r))"

record openai_tool_search_response =
  oai_response :: tool_search_response
  oai_companion_allowed_tools :: "rstr list"
  oai_extra_results :: "json list"
  oai_metadata :: deferred_loading_metadata

definition openai_from_response :: "tool_search_response \<Rightarrow> openai_tool_search_response" where
  "openai_from_response r =
     \<lparr>oai_response = r, oai_companion_allowed_tools = [], oai_extra_results = [], oai_metadata = deferred_loading_default\<rparr>"

definition with_companion_allowed_tools ::
  "rstr list \<Rightarrow> openai_tool_search_response \<Rightarrow> openai_tool_search_response" where
  "with_companion_allowed_tools names r =
     r\<lparr>oai_companion_allowed_tools := oai_companion_allowed_tools r @ filter (\<lambda>n. n \<noteq> []) (map trim names)\<rparr>"

definition with_extra_results :: "json list \<Rightarrow> openai_tool_search_response \<Rightarrow> openai_tool_search_response" where
  "with_extra_results results r = r\<lparr>oai_extra_results := oai_extra_results r @ results\<rparr>"

definition with_openai_metadata ::
  "deferred_loading_metadata \<Rightarrow> openai_tool_search_response \<Rightarrow> openai_tool_search_response" where
  "with_openai_metadata m r = r\<lparr>oai_metadata := m\<rparr>"

definition openai_response_allowed_tools :: "openai_tool_search_response \<Rightarrow> rstr list" where
  "openai_response_allowed_tools r = sort_dedup (openai_allowed_tools (oai_response r) @ oai_companion_allowed_tools r)"

definition openai_to_value :: "openai_tool_search_response \<Rightarrow> json" where
  "openai_to_value r =
     (let b = oai_response r in
      JObject
        [(''operation'', JString (rsp_operation b)), (''query'', opt_value JString (rsp_query b)),
         (''group'', opt_value JString (rsp_group b)), (''read_only'', opt_value JBool (rsp_read_only b)),
         (''results'', JArray (map tool_search_result_value (rsp_results b) @ oai_extra_results r)),
         (''openai_allowed_tools'', strings_value (openai_response_allowed_tools r)),
         (''schemas'', opt_value (\<lambda>v. v) (rsp_schemas b)),
         (''openai_deferred_loading'', deferred_loading_to_value (rsp_metadata_label b) (oai_metadata r))])"

record ranked_openai_tool_search_response =
  roa_response :: openai_tool_search_response
  roa_match_summary :: tool_search_match_summary

definition into_openai_response :: "ranked_tool_search_response \<Rightarrow> ranked_openai_tool_search_response" where
  "into_openai_response r =
     \<lparr>roa_response = openai_from_response (rts_response r), roa_match_summary = rts_match_summary r\<rparr>"

definition ranked_openai_on_response ::
  "(openai_tool_search_response \<Rightarrow> openai_tool_search_response) \<Rightarrow> ranked_openai_tool_search_response
     \<Rightarrow> ranked_openai_tool_search_response" where
  "ranked_openai_on_response f r = r\<lparr>roa_response := f (roa_response r)\<rparr>"

definition ranked_openai_to_value :: "ranked_openai_tool_search_response \<Rightarrow> json" where
  "ranked_openai_to_value r = with_match_summary (roa_match_summary r) (openai_to_value (roa_response r))"

section \<open>Bounded projections\<close>

definition bounded_optional_search_text :: "rstr option \<Rightarrow> nat \<Rightarrow> rstr option \<times> bool" where
  "bounded_optional_search_text v max_chars =
     (case v of
        None \<Rightarrow> (None, False)
      | Some text \<Rightarrow> (case truncate_search_text text max_chars of (bounded, truncated) \<Rightarrow> (Some bounded, truncated)))"

definition compact_search_result :: "tool_search_result \<Rightarrow> (tool_search_result \<times> bool) option" where
  "compact_search_result r =
     (case truncate_search_text (res_name r) COMPACT_SEARCH_MAX_TOOL_NAME_CHARS of (name, name_truncated) \<Rightarrow>
      if name = [] \<or> name_truncated then None
      else
        case bounded_optional_search_text (res_group r) RANKED_SEARCH_MAX_GROUP_CHARS of (label, group_truncated) \<Rightarrow>
        case bounded_keywords (res_keywords r) of (keywords, keywords_truncated) \<Rightarrow>
        let description = map_option (\<lambda>d. truncate_search_text_at_token_boundary d RANKED_SEARCH_MAX_DESCRIPTION_CHARS)
              (res_description r)
        in Some (\<lparr>res_name = name, res_group = label, res_read_only = res_read_only r,
                  res_description = opt_filter (\<lambda>d. d \<noteq> []) (map_option fst description),
                  res_keywords = push_missing [] (filter (\<lambda>k. k \<noteq> []) keywords),
                  res_risk_posture = res_risk_posture r\<rparr>,
                 group_truncated \<or> (case description of Some (_, truncated) \<Rightarrow> truncated | None \<Rightarrow> False)
                 \<or> keywords_truncated))"

fun compact_results :: "tool_search_result list \<Rightarrow> tool_search_result list \<times> bool" where
  "compact_results [] = ([], False)"
| "compact_results (r # rest) =
     (case compact_search_result r of
        None \<Rightarrow> ([], True)
      | Some (r', truncated) \<Rightarrow> (case compact_results rest of (rs, later) \<Rightarrow> (r' # rs, truncated \<or> later)))"

record compact_tool_search_projection =
  cpj_response :: tool_search_response
  cpj_source_count :: nat
  cpj_truncated :: bool
  cpj_truncation_reasons :: "rstr list"

definition compact_projection :: "tool_search_response \<Rightarrow> compact_tool_search_projection" where
  "compact_projection r =
     (case truncate_search_text (rsp_operation r) COMPACT_SEARCH_MAX_OPERATION_CHARS of (operation, operation_truncated) \<Rightarrow>
      case bounded_optional_search_text (rsp_query r) RANKED_SEARCH_MAX_QUERY_CHARS of (query, query_truncated) \<Rightarrow>
      case bounded_optional_search_text (rsp_group r) RANKED_SEARCH_MAX_GROUP_CHARS of (label, group_truncated) \<Rightarrow>
      case compact_results (take COMPACT_SEARCH_MAX_RESULTS (rsp_results r)) of (results, result_metadata_truncated) \<Rightarrow>
      let truncated = (operation_truncated \<or> query_truncated \<or> group_truncated);
          result_limit_truncated = (length (rsp_results r) > COMPACT_SEARCH_MAX_RESULTS)
      in \<lparr>cpj_response =
            \<lparr>rsp_operation = operation, rsp_query = query, rsp_group = label, rsp_read_only = rsp_read_only r,
             rsp_results = results, rsp_schemas = None, rsp_metadata_label = None\<rparr>,
          cpj_source_count = length (rsp_results r),
          cpj_truncated = (truncated \<or> result_metadata_truncated \<or> result_limit_truncated),
          cpj_truncation_reasons =
            reason_if result_limit_truncated ''result_limit''
              (reason_if result_metadata_truncated ''result_metadata''
                (reason_if truncated ''input_metadata'' []))\<rparr>)"

definition compact_value_from_bounded_fields :: "tool_search_response \<Rightarrow> json" where
  "compact_value_from_bounded_fields r =
     JObject
       [(''operation'', JString (rsp_operation r)), (''query'', opt_value JString (rsp_query r)),
        (''group'', opt_value JString (rsp_group r)), (''read_only'', opt_value JBool (rsp_read_only r)),
        (''results'', JArray (map tool_search_result_value (rsp_results r))),
        (''openai_allowed_tools'', strings_value (openai_allowed_tools r))]"

definition with_compact_summary :: "compact_tool_search_projection \<Rightarrow> json" where
  "with_compact_summary p =
     with_member ''compact_summary''
       (JObject
          [(''source_count'', count_value (cpj_source_count p)),
           (''returned_count'', count_value (length (rsp_results (cpj_response p)))),
           (''truncated'', JBool (cpj_truncated p)),
           (''truncation_reasons'', strings_value (cpj_truncation_reasons p))])
       (compact_value_from_bounded_fields (cpj_response p))"

definition drop_diagnostics :: "tool_search_response \<Rightarrow> tool_search_response" where
  "drop_diagnostics r = r\<lparr>rsp_query := None, rsp_group := None\<rparr>"

definition pop_result :: "tool_search_response \<Rightarrow> tool_search_response" where
  "pop_result r = r\<lparr>rsp_results := butlast (rsp_results r)\<rparr>"

section \<open>The compact response\<close>

definition mark_projection :: "compact_tool_search_projection \<Rightarrow> compact_tool_search_projection" where
  "mark_projection p =
     p\<lparr>cpj_truncated := True,
       cpj_truncation_reasons := push_unique_reason (cpj_truncation_reasons p) ''compact_response_bytes''\<rparr>"

function response_compact_loop :: "json_writer \<Rightarrow> bool \<Rightarrow> compact_tool_search_projection \<Rightarrow> json" where
  "response_compact_loop to_vec diagnostics_compacted p =
     (let v = with_compact_summary p in
      if compact_fits to_vec v then v
      else
        let p' = mark_projection p in
        if \<not> diagnostics_compacted
        then response_compact_loop to_vec True (p'\<lparr>cpj_response := drop_diagnostics (cpj_response p')\<rparr>)
        else if rsp_results (cpj_response p') = [] then with_compact_summary p'
        else response_compact_loop to_vec True (p'\<lparr>cpj_response := pop_result (cpj_response p')\<rparr>))"
  by pat_completeness auto
termination
  by (relation "measure (\<lambda>(to_vec, diag, p). (if diag then 0 else 1) + length (rsp_results (cpj_response p)))")
     (auto simp: mark_projection_def drop_diagnostics_def pop_result_def length_greater_0_conv)

declare response_compact_loop.simps [simp del]

definition response_to_compact_value :: "json_writer \<Rightarrow> tool_search_response \<Rightarrow> json" where
  "response_to_compact_value to_vec r = response_compact_loop to_vec False (compact_projection r)"

section \<open>The compact ranked response\<close>

fun bounded_strings :: "nat \<Rightarrow> rstr list \<Rightarrow> rstr list \<Rightarrow> rstr list \<times> bool" where
  "bounded_strings max_chars acc [] = (acc, False)"
| "bounded_strings max_chars acc (v # vs) =
     (case truncate_search_text v max_chars of (bounded, truncated) \<Rightarrow>
      case bounded_strings max_chars (if bounded \<in> set acc then acc else acc @ [bounded]) vs of (xs, later) \<Rightarrow>
        (xs, truncated \<or> later))"

definition bounded_search_string_list :: "rstr list \<Rightarrow> nat \<Rightarrow> nat \<Rightarrow> rstr list \<times> bool" where
  "bounded_search_string_list vs max_items max_chars =
     (case bounded_strings max_chars [] (take max_items vs) of (bounded, truncated) \<Rightarrow>
        (bounded, length vs > max_items \<or> truncated))"

definition compact_match_summary :: "tool_search_match_summary \<Rightarrow> tool_search_match_summary \<times> bool" where
  "compact_match_summary s =
     (case bounded_search_string_list (sum_truncation_reasons s) COMPACT_SEARCH_MAX_SUMMARY_REASONS
             COMPACT_SEARCH_MAX_SUMMARY_REASON_CHARS of (reasons, reasons_truncated) \<Rightarrow>
      case bounded_search_string_list (sum_normalized_query_terms s) RANKED_SEARCH_MAX_QUERY_TERMS
             RANKED_SEARCH_MAX_KEYWORD_CHARS of (normalized, normalized_truncated) \<Rightarrow>
      case bounded_search_string_list (sum_excluded_query_terms s) RANKED_SEARCH_MAX_EXCLUDED_TERMS
             RANKED_SEARCH_MAX_KEYWORD_CHARS of (excluded, excluded_truncated) \<Rightarrow>
      case bounded_search_string_list (sum_ignored_query_terms s) RANKED_SEARCH_MAX_IGNORED_TERMS
             RANKED_SEARCH_MAX_KEYWORD_CHARS of (ignored, ignored_truncated) \<Rightarrow>
      let compacted = (reasons_truncated \<or> normalized_truncated \<or> excluded_truncated \<or> ignored_truncated)
      in (s\<lparr>sum_truncated := sum_truncated s \<or> compacted,
            sum_truncation_reasons := reason_if compacted ''compact_response_bytes'' reasons,
            sum_normalized_query_terms := normalized, sum_excluded_query_terms := excluded,
            sum_ignored_query_terms := ignored\<rparr>, compacted))"

definition mark_summary :: "tool_search_match_summary \<Rightarrow> tool_search_match_summary" where
  "mark_summary s =
     s\<lparr>sum_truncated := True,
       sum_truncation_reasons := push_unique_reason (sum_truncation_reasons s) ''compact_response_bytes''\<rparr>"

definition clear_query_terms :: "tool_search_match_summary \<Rightarrow> tool_search_match_summary" where
  "clear_query_terms s =
     s\<lparr>sum_normalized_query_terms := [], sum_excluded_query_terms := [], sum_ignored_query_terms := []\<rparr>"

type_synonym ranked_compact = "tool_search_response \<times> tool_search_match_summary"

definition ranked_compact_value :: "ranked_compact \<Rightarrow> json" where
  "ranked_compact_value rs = with_match_summary (snd rs) (compact_value_from_bounded_fields (fst rs))"

function ranked_compact_loop :: "json_writer \<Rightarrow> bool \<Rightarrow> ranked_compact \<Rightarrow> json" where
  "ranked_compact_loop to_vec diagnostics_compacted (r, s) =
     (let v = ranked_compact_value (r, s) in
      if compact_fits to_vec v then v
      else
        let s' = mark_summary s in
        if \<not> diagnostics_compacted
        then ranked_compact_loop to_vec True (drop_diagnostics r, clear_query_terms s')
        else if rsp_results r = []
        then ranked_compact_value (r, s'\<lparr>sum_returned_count := 0,
               sum_truncation_reasons := [''compact_response_bytes'']\<rparr>)
        else ranked_compact_loop to_vec True
               (pop_result r, s'\<lparr>sum_returned_count := length (rsp_results (pop_result r))\<rparr>))"
  by pat_completeness auto
termination
  by (relation "measure (\<lambda>(to_vec, diag, (r, s)). (if diag then 0 else 1) + length (rsp_results r))")
     (auto simp: drop_diagnostics_def pop_result_def length_greater_0_conv)

declare ranked_compact_loop.simps [simp del]

definition ranked_compact_start :: "ranked_tool_search_response \<Rightarrow> ranked_compact" where
  "ranked_compact_start r =
     (let projection = compact_projection (rts_response r); response = cpj_response projection in
      case compact_match_summary (rts_match_summary r) of (s, summary_truncated) \<Rightarrow>
        (response,
         (if cpj_truncated projection \<or> summary_truncated then mark_summary s else s)
           \<lparr>sum_returned_count := length (rsp_results response)\<rparr>))"

definition ranked_to_compact_value :: "json_writer \<Rightarrow> ranked_tool_search_response \<Rightarrow> json" where
  "ranked_to_compact_value to_vec r = ranked_compact_loop to_vec False (ranked_compact_start r)"

section \<open>The compact responses for OpenAI clients\<close>

fun visit :: "json \<Rightarrow> nat \<times> nat \<Rightarrow> (nat \<times> nat) option"
and visit_items :: "json list \<Rightarrow> nat \<times> nat \<Rightarrow> (nat \<times> nat) option"
and visit_members :: "(rstr \<times> json) list \<Rightarrow> nat \<times> nat \<Rightarrow> (nat \<times> nat) option" where
  "visit v (nodes, text_chars) =
     (if nodes + 1 > COMPACT_OPENAI_MAX_EXTRA_RESULT_NODES then None
      else case v of
        JString s \<Rightarrow>
          let chars = text_chars + min (length (utf8_chars s)) (COMPACT_OPENAI_MAX_EXTRA_RESULT_TEXT_CHARS + 1)
          in if chars \<le> COMPACT_OPENAI_MAX_EXTRA_RESULT_TEXT_CHARS then Some (nodes + 1, chars) else None
      | JArray vs \<Rightarrow> visit_items vs (nodes + 1, text_chars)
      | JObject m \<Rightarrow> visit_members m (nodes + 1, text_chars)
      | _ \<Rightarrow> Some (nodes + 1, text_chars))"
| "visit_items [] counters = Some counters"
| "visit_items (v # vs) counters =
     (case visit v counters of None \<Rightarrow> None | Some counters' \<Rightarrow> visit_items vs counters')"
| "visit_members [] counters = Some counters"
| "visit_members ((key, v) # m) counters =
     (let chars = snd counters + min (length (utf8_chars key)) (COMPACT_OPENAI_MAX_EXTRA_RESULT_TEXT_CHARS + 1) in
      if chars \<le> COMPACT_OPENAI_MAX_EXTRA_RESULT_TEXT_CHARS
      then (case visit v (fst counters, chars) of None \<Rightarrow> None | Some counters' \<Rightarrow> visit_members m counters')
      else None)"

definition compact_extra_result_fits :: "json \<Rightarrow> bool" where
  "compact_extra_result_fits v \<longleftrightarrow> visit v (0, 0) \<noteq> None"

record compact_openai_search_projection =
  cop_response :: tool_search_response
  cop_source_count :: nat
  cop_inventory_truncated :: bool
  cop_companion_source_count :: nat
  cop_companion_allowed_tools :: "rstr list"
  cop_extra_source_count :: nat
  cop_extra_results :: "json list"
  cop_truncated :: bool
  cop_truncation_reasons :: "rstr list"

text \<open>The loop over companion names: bounded, trimmed, without repetitions.\<close>

fun companion_names :: "rstr list \<Rightarrow> rstr list \<Rightarrow> rstr list \<times> bool" where
  "companion_names acc [] = (acc, False)"
| "companion_names acc (raw # rest) =
     (case truncate_search_text raw COMPACT_SEARCH_MAX_TOOL_NAME_CHARS of (bounded, truncated) \<Rightarrow>
      let name = trim bounded in
      case companion_names (if name \<noteq> [] \<and> \<not> truncated \<and> name \<notin> set acc then acc @ [name] else acc) rest of
        (names, later) \<Rightarrow> (names, truncated \<or> name = [] \<or> later))"

definition openai_compact_projection :: "openai_tool_search_response \<Rightarrow> compact_openai_search_projection" where
  "openai_compact_projection r =
     (let base = compact_projection (oai_response r);
          companion_limit_truncated = (length (oai_companion_allowed_tools r) > COMPACT_OPENAI_MAX_COMPANION_TOOLS);
          candidates = take COMPACT_OPENAI_MAX_EXTRA_RESULTS (oai_extra_results r);
          extra = takeWhile compact_extra_result_fits candidates;
          extra_metadata_truncated = (extra \<noteq> candidates);
          extra_limit_truncated = (length (oai_extra_results r) > COMPACT_OPENAI_MAX_EXTRA_RESULTS)
      in case companion_names [] (take COMPACT_OPENAI_MAX_COMPANION_TOOLS (oai_companion_allowed_tools r)) of
           (companions, companion_metadata_truncated) \<Rightarrow>
         \<lparr>cop_response = cpj_response base, cop_source_count = cpj_source_count base,
          cop_inventory_truncated =
            list_ex (\<lambda>reason. reason \<in> {''result_metadata'', ''result_limit''}) (cpj_truncation_reasons base),
          cop_companion_source_count = length (oai_companion_allowed_tools r),
          cop_companion_allowed_tools = sort companions,
          cop_extra_source_count = length (oai_extra_results r), cop_extra_results = extra,
          cop_truncated = (cpj_truncated base \<or> companion_metadata_truncated \<or> companion_limit_truncated
            \<or> extra_metadata_truncated \<or> extra_limit_truncated),
          cop_truncation_reasons =
            reason_if extra_limit_truncated ''extra_result_limit''
           (reason_if extra_metadata_truncated ''extra_result_metadata''
           (reason_if companion_limit_truncated ''companion_tool_limit''
           (reason_if companion_metadata_truncated ''companion_tool_metadata'' (cpj_truncation_reasons base))))\<rparr>)"

definition projection_allowed_tools :: "compact_openai_search_projection \<Rightarrow> rstr list" where
  "projection_allowed_tools p = sort_dedup (openai_allowed_tools (cop_response p) @ cop_companion_allowed_tools p)"

definition projection_to_value :: "compact_openai_search_projection \<Rightarrow> json" where
  "projection_to_value p =
     (let b = cop_response p in
      JObject
        [(''operation'', JString (rsp_operation b)), (''query'', opt_value JString (rsp_query b)),
         (''group'', opt_value JString (rsp_group b)), (''read_only'', opt_value JBool (rsp_read_only b)),
         (''results'', JArray (map tool_search_result_value (rsp_results b) @ cop_extra_results p)),
         (''openai_allowed_tools'', strings_value (projection_allowed_tools p)),
         (''compact_summary'', JObject
            [(''source_count'', count_value (cop_source_count p)),
             (''returned_count'', count_value (length (rsp_results b))),
             (''companion_source_count'', count_value (cop_companion_source_count p)),
             (''companion_returned_count'', count_value (length (cop_companion_allowed_tools p))),
             (''extra_source_count'', count_value (cop_extra_source_count p)),
             (''extra_returned_count'', count_value (length (cop_extra_results p))),
             (''truncated'', JBool (cop_truncated p)),
             (''truncation_reasons'', strings_value (cop_truncation_reasons p))])])"

definition shrink_auxiliary_payload :: "compact_openai_search_projection \<Rightarrow> compact_openai_search_projection option" where
  "shrink_auxiliary_payload p =
     (if cop_extra_results p \<noteq> [] then Some (p\<lparr>cop_extra_results := butlast (cop_extra_results p)\<rparr>)
      else if cop_companion_allowed_tools p \<noteq> []
      then Some (p\<lparr>cop_companion_allowed_tools := butlast (cop_companion_allowed_tools p)\<rparr>)
      else None)"

definition shrink_inventory_result :: "compact_openai_search_projection \<Rightarrow> compact_openai_search_projection option" where
  "shrink_inventory_result p =
     (if rsp_results (cop_response p) \<noteq> [] then Some (p\<lparr>cop_response := pop_result (cop_response p)\<rparr>) else None)"

definition mark_openai :: "compact_openai_search_projection \<Rightarrow> compact_openai_search_projection" where
  "mark_openai p =
     p\<lparr>cop_truncated := True,
       cop_truncation_reasons := push_unique_reason (cop_truncation_reasons p) ''compact_response_bytes''\<rparr>"

definition openai_weight :: "compact_openai_search_projection \<Rightarrow> nat" where
  "openai_weight p =
     length (cop_extra_results p) + length (cop_companion_allowed_tools p) + length (rsp_results (cop_response p))"

lemma shrink_weight:
  "shrink_auxiliary_payload p = Some p' \<Longrightarrow> openai_weight p' < openai_weight p"
  "shrink_inventory_result p = Some p' \<Longrightarrow> openai_weight p' < openai_weight p"
  by (auto simp: shrink_auxiliary_payload_def shrink_inventory_result_def openai_weight_def pop_result_def split: if_splits)

lemma mark_openai_weight [simp]: "openai_weight (mark_openai p) = openai_weight p"
  by (simp add: openai_weight_def mark_openai_def)

lemma diagnostics_weight [simp]:
  "openai_weight (p\<lparr>cop_response := drop_diagnostics (cop_response p)\<rparr>) = openai_weight p"
  by (simp add: openai_weight_def drop_diagnostics_def)

function openai_compact_loop :: "json_writer \<Rightarrow> bool \<Rightarrow> compact_openai_search_projection \<Rightarrow> json" where
  "openai_compact_loop to_vec diagnostics_compacted p =
     (let v = projection_to_value p in
      if compact_fits to_vec v then v
      else
        let p' = mark_openai p in
        if \<not> diagnostics_compacted
        then openai_compact_loop to_vec True (p'\<lparr>cop_response := drop_diagnostics (cop_response p')\<rparr>)
        else case shrink_auxiliary_payload p' of
               Some p'' \<Rightarrow> openai_compact_loop to_vec True p''
             | None \<Rightarrow> (case shrink_inventory_result p' of
                          Some p'' \<Rightarrow> openai_compact_loop to_vec True p''
                        | None \<Rightarrow> projection_to_value p'))"
  by pat_completeness auto
termination
  by (relation "measure (\<lambda>(to_vec, diag, p). (if diag then 0 else 1) + openai_weight p)")
     (auto dest!: shrink_weight)

declare openai_compact_loop.simps [simp del]

definition openai_to_compact_value :: "json_writer \<Rightarrow> openai_tool_search_response \<Rightarrow> json" where
  "openai_to_compact_value to_vec r = openai_compact_loop to_vec False (openai_compact_projection r)"

type_synonym ranked_openai_compact = "compact_openai_search_projection \<times> tool_search_match_summary"

definition ranked_openai_compact_value :: "ranked_openai_compact \<Rightarrow> json" where
  "ranked_openai_compact_value ps = with_match_summary (snd ps) (projection_to_value (fst ps))"

definition strip_summary :: "tool_search_match_summary \<Rightarrow> tool_search_match_summary" where
  "strip_summary s =
     (if sum_normalized_query_terms s \<noteq> [] \<or> sum_excluded_query_terms s \<noteq> [] \<or> sum_ignored_query_terms s \<noteq> []
      then mark_summary (clear_query_terms s) else clear_query_terms s)"

function ranked_openai_compact_loop :: "json_writer \<Rightarrow> bool \<Rightarrow> ranked_openai_compact \<Rightarrow> json" where
  "ranked_openai_compact_loop to_vec diagnostics_compacted (p, s0) =
     (let s = s0\<lparr>sum_returned_count := length (rsp_results (cop_response p))\<rparr>;
          v = ranked_openai_compact_value (p, s)
      in
      if compact_fits to_vec v then v
      else
        let p' = mark_openai p in
        if \<not> diagnostics_compacted
        then ranked_openai_compact_loop to_vec True
               (p'\<lparr>cop_response := drop_diagnostics (cop_response p')\<rparr>, strip_summary s)
        else case shrink_auxiliary_payload p' of
               Some p'' \<Rightarrow> ranked_openai_compact_loop to_vec True (p'', s)
             | None \<Rightarrow> (case shrink_inventory_result p' of
                          Some p'' \<Rightarrow> ranked_openai_compact_loop to_vec True (p'', mark_summary s)
                        | None \<Rightarrow> ranked_openai_compact_value (p', s\<lparr>sum_returned_count := 0\<rparr>)))"
  by pat_completeness auto
termination
  by (relation "measure (\<lambda>(to_vec, diag, (p, s)). (if diag then 0 else 1) + openai_weight p)")
     (auto dest!: shrink_weight)

declare ranked_openai_compact_loop.simps [simp del]

definition ranked_openai_to_compact_value :: "json_writer \<Rightarrow> ranked_openai_tool_search_response \<Rightarrow> json" where
  "ranked_openai_to_compact_value to_vec r =
     (let projection = openai_compact_projection (roa_response r) in
      case compact_match_summary (roa_match_summary r) of (s, summary_truncated) \<Rightarrow>
        ranked_openai_compact_loop to_vec False
          (projection, if cop_inventory_truncated projection \<or> summary_truncated then mark_summary s else s))"

end
