(* ===== verification/Compact_Search.thy ===== *)
theory Compact_Search
  imports Search_Response "HOL-Library.Sublist"
begin

text \<open>
  What the compact responses of tool search guarantee.  A bound on the size of compact JSON, the
  invariants of the bounded projections, the locale \<open>compact_response\<close> that carries the argument for
  the four compaction loops, and its interpretations on them: each answer fits in 32 KiB, lists a prefix of
  the ranked results and says when something is missing.
\<close>

section \<open>The size of JSON text\<close>

text \<open>
  An upper bound on compact JSON text: a character takes at most six bytes (an escape \<open>\u00XX\<close>), a member
  or an element brings one separator.  \<open>compact_writer\<close> is what the code relies on from the JSON writer:
  it succeeds and stays within the bound.
\<close>

fun json_bound :: "json \<Rightarrow> nat"
and items_bound :: "json list \<Rightarrow> nat"
and members_bound :: "(rstr \<times> json) list \<Rightarrow> nat" where
  "json_bound v =
     (case v of
        JNull \<Rightarrow> 4
      | JBool _ \<Rightarrow> 5
      | JNumber (PosInt n) \<Rightarrow> length (show_nat n)
      | JNumber (NegInt i) \<Rightarrow> 1 + length (show_nat (nat (- i)))
      | JNumber (Float s) \<Rightarrow> length s
      | JString s \<Rightarrow> 2 + 6 * length (utf8_chars s)
      | JArray vs \<Rightarrow> 2 + items_bound vs
      | JObject m \<Rightarrow> 2 + members_bound m)"
| "items_bound [] = 0"
| "items_bound (v # vs) = json_bound v + 1 + items_bound vs"
| "members_bound [] = 0"
| "members_bound ((key, v) # m) = 4 + 6 * length key + json_bound v + members_bound m"

declare json_bound.simps [simp del]

lemma json_bound_simps [simp]:
  "json_bound JNull = 4" "json_bound (JBool b) = 5" "json_bound (JString s) = 2 + 6 * length (utf8_chars s)"
  "json_bound (JArray vs) = 2 + items_bound vs" "json_bound (JObject m) = 2 + members_bound m"
  by (simp_all add: json_bound.simps)

definition compact_writer :: "json_writer \<Rightarrow> bool" where
  "compact_writer to_vec \<longleftrightarrow> (\<forall>v. \<exists>bytes. to_vec v = Inr bytes \<and> length bytes \<le> json_bound v)"

definition compact_small :: "json \<Rightarrow> bool" where
  "compact_small v \<longleftrightarrow> json_bound v \<le> RANKED_SEARCH_COMPACT_MAX_BYTES"

lemma compact_writer_fits: "compact_writer to_vec \<Longrightarrow> compact_small v \<Longrightarrow> compact_fits to_vec v"
  unfolding compact_writer_def compact_small_def compact_fits_def
  by (metis (mono_tags, lifting) le_trans old.sum.simps(6))

lemma length_show_nat: "n < 10 ^ k \<Longrightarrow> 0 < k \<Longrightarrow> length (show_nat n) \<le> k"
proof (induction n arbitrary: k rule: show_nat.induct)
  case (1 n)
  show ?case
  proof (cases "n < 10")
    case True
    then show ?thesis using 1 by (simp add: show_nat.simps [of n])
  next
    case False
    then obtain j where k: "k = Suc j" "0 < j" using 1(2,3) by (cases k; cases "k - 1") auto
    then have "n div 10 < 10 ^ j" using 1(2) by (simp add: less_mult_imp_div_less mult.commute)
    then show ?thesis using 1(1) [OF False, of j] k False by (simp add: show_nat.simps [of n])
  qed
qed

lemma count_bound: "n \<le> u64_max \<Longrightarrow> json_bound (count_value n) \<le> 20"
  using length_show_nat [of n 20] by (simp add: count_value_def json_bound.simps)

lemma takeWhile_then:
  "rest = [] \<or> \<not> P (hd rest) \<Longrightarrow>
     takeWhile P (takeWhile P xs @ rest) = takeWhile P xs \<and> dropWhile P (takeWhile P xs @ rest) = rest"
proof (induction xs)
  case Nil
  then show ?case by (cases rest) auto
qed (cases rest; auto)

lemma utf8_chars_take: "utf8_chars (concat (take n (utf8_chars v))) = take n (utf8_chars v)"
proof (induction v arbitrary: n rule: utf8_chars.induct)
  case (2 b bs)
  define cont :: "char \<Rightarrow> bool" where "cont = (\<lambda>c. 0x80 \<le> byte c \<and> byte c < 0xC0)"
  note chars = utf8_chars.simps(2) [folded cont_def]
  have hd_rest: "concat (take m (utf8_chars ds)) = [] \<or> hd (concat (take m (utf8_chars ds))) = hd ds" if "ds \<noteq> []" for m ds
    using that by (cases ds; cases m) (simp_all only: chars take_Suc_Cons concat.simps append_Cons list.sel take_0 simp_thms)
  show ?case
  proof (cases n)
    case (Suc m)
    let ?rest = "concat (take m (utf8_chars (dropWhile cont bs)))"
    have "?rest = [] \<or> \<not> cont (hd ?rest)"
    proof (cases "dropWhile cont bs = []")
      case True
      then show ?thesis by (simp only: utf8_chars.simps(1) take_Nil concat.simps simp_thms)
    next
      case False
      then show ?thesis using hd_rest [OF False, of m] hd_dropWhile [OF False] by metis
    qed
    then have split: "takeWhile cont (takeWhile cont bs @ ?rest) = takeWhile cont bs"
      "dropWhile cont (takeWhile cont bs @ ?rest) = ?rest"
      using takeWhile_then by blast+
    show ?thesis using 2 [of m, folded cont_def] Suc by (simp only: chars take_Suc_Cons concat.simps append_Cons split)
  qed simp
qed simp

lemma truncated_chars: "truncate_search_text v n = (b, t) \<Longrightarrow> length (utf8_chars b) \<le> n"
  by (auto simp: truncate_search_text_def utf8_chars_take)

lemma utf8_chars_le: "length (utf8_chars s) \<le> length s"
proof (induction s rule: utf8_chars.induct)
  case (2 b bs)
  then show ?case
    using length_dropWhile_le [of "\<lambda>c. 0x80 \<le> byte c \<and> byte c < 0xC0" bs]
    by (simp only: utf8_chars.simps list.size)
qed simp

lemma members_bound_append [simp]: "members_bound (m @ m') = members_bound m + members_bound m'"
  by (induction m) auto

section \<open>Reasons\<close>

definition reasons_ok :: "nat \<Rightarrow> rstr list \<Rightarrow> bool" where
  "reasons_ok n rs \<longleftrightarrow>
     distinct rs \<and> length (filter (\<lambda>r. r \<noteq> ''compact_response_bytes'') rs) \<le> n
     \<and> (\<forall>r \<in> set rs. length (utf8_chars r) \<le> 64)"

lemma bytes_reason_chars [simp]: "length (utf8_chars ''compact_response_bytes'') \<le> 64"
  using utf8_chars_le [of "''compact_response_bytes''"] by simp

lemma reasons_ok_push [simp]: "reasons_ok n rs \<Longrightarrow> reasons_ok n (push_unique_reason rs ''compact_response_bytes'')"
  by (auto simp: reasons_ok_def push_unique_reason_def)

lemma reasons_ok_bytes [simp]: "reasons_ok n rs \<Longrightarrow> reasons_ok n (reason_if b ''compact_response_bytes'' rs)"
  by (simp add: reason_if_def)

lemma reasons_ok_if: "reasons_ok n rs \<Longrightarrow> length r \<le> 64 \<Longrightarrow> reasons_ok (Suc n) (reason_if b r rs)"
  using utf8_chars_le [of r] by (auto simp: reasons_ok_def reason_if_def push_unique_reason_def)

lemma distinct_filter_length: "distinct rs \<Longrightarrow> length rs \<le> Suc (length (filter (\<lambda>r. r \<noteq> x) rs))"
proof (induction rs)
  case (Cons r rs)
  have "filter (\<lambda>r. r \<noteq> x) rs = rs" if "x \<notin> set rs" using that by (intro filter_True) auto
  then show ?case using Cons by auto
qed simp

lemma strings_bound:
  "\<forall>r \<in> set rs. length (utf8_chars r) \<le> k \<Longrightarrow> json_bound (strings_value rs) \<le> 2 + length rs * (3 + 6 * k)"
  unfolding strings_value_def by (induction rs) auto

lemma reasons_bound: "reasons_ok n rs \<Longrightarrow> json_bound (strings_value rs) \<le> 2 + Suc n * 387"
proof -
  assume ok: "reasons_ok n rs"
  then have "length rs \<le> Suc n"
    using distinct_filter_length [of rs "''compact_response_bytes''"] by (auto simp: reasons_ok_def)
  then have "length rs * 387 \<le> Suc n * 387" by (rule mult_le_mono1)
  moreover have "json_bound (strings_value rs) \<le> 2 + length rs * (3 + 6 * 64)"
    using ok by (intro strings_bound) (simp add: reasons_ok_def)
  ultimately show ?thesis by simp
qed

lemma bounded_strings_ok:
  "distinct acc \<Longrightarrow> \<forall>r \<in> set acc. length (utf8_chars r) \<le> k \<Longrightarrow> bounded_strings k acc vs = (xs, t) \<Longrightarrow>
     distinct xs \<and> length xs \<le> length acc + length vs \<and> (\<forall>r \<in> set xs. length (utf8_chars r) \<le> k)"
proof (induction vs arbitrary: acc xs t)
  case (Cons v vs)
  obtain b c where b: "truncate_search_text v k = (b, c)" by fastforce
  define acc' where "acc' = (if b \<in> set acc then acc else acc @ [b])"
  obtain ys u where ys: "bounded_strings k acc' vs = (ys, u)" by fastforce
  have xs: "xs = ys" using Cons.prems(3) b ys by (simp add: acc'_def)
  have ok: "distinct acc'" "\<forall>r \<in> set acc'. length (utf8_chars r) \<le> k" and len: "length acc' \<le> Suc (length acc)"
    using Cons.prems(1,2) truncated_chars [OF b] by (auto simp: acc'_def)
  have "distinct ys \<and> length ys \<le> length acc' + length vs \<and> (\<forall>r \<in> set ys. length (utf8_chars r) \<le> k)"
    by (rule Cons.IH [OF ok ys])
  then show ?case using len by (simp add: xs)
qed simp

lemma compact_match_summary_ok:
  assumes "compact_match_summary s = (s', t)"
  shows "reasons_ok 16 (sum_truncation_reasons s')" and "sum_total_matches s' = sum_total_matches s"
    and "sum_result_limit s' = sum_result_limit s" and "sum_truncated s \<longrightarrow> sum_truncated s'"
proof -
  obtain rs u where rs: "bounded_strings COMPACT_SEARCH_MAX_SUMMARY_REASON_CHARS []
      (take COMPACT_SEARCH_MAX_SUMMARY_REASONS (sum_truncation_reasons s)) = (rs, u)" by fastforce
  have "distinct rs \<and> length rs \<le> 16 \<and> (\<forall>r \<in> set rs. length (utf8_chars r) \<le> 64)"
    using bounded_strings_ok [OF _ _ rs] by (auto simp: COMPACT_SEARCH_MAX_SUMMARY_REASON_CHARS_def COMPACT_SEARCH_MAX_SUMMARY_REASONS_def)
  then have "reasons_ok 16 rs" by (auto simp: reasons_ok_def intro: le_trans [OF length_filter_le])
  then show "reasons_ok 16 (sum_truncation_reasons s')" "sum_total_matches s' = sum_total_matches s"
    "sum_result_limit s' = sum_result_limit s" "sum_truncated s \<longrightarrow> sum_truncated s'"
    using assms rs by (auto simp: compact_match_summary_def bounded_search_string_list_def Let_def split: prod.splits)
qed

section \<open>What the compact loops share\<close>

text \<open>
  A compaction loop returns the first rendering that fits.  It first drops diagnostics, then removes
  one item per round.  \<open>kept\<close> relates a state to a shortened one, \<open>good\<close> is an invariant of the states and
  \<open>bare\<close> holds once the diagnostics are gone; a bare state with nothing left to remove is small.
\<close>

locale compact_response =
  fixes fits :: "json \<Rightarrow> bool"
    and render :: "'p \<Rightarrow> json"
    and strip :: "'p \<Rightarrow> 'p"
    and shrink :: "'p \<Rightarrow> 'p option"
    and finish :: "'p \<Rightarrow> json"
    and run :: "bool \<Rightarrow> 'p \<Rightarrow> json"
    and weight :: "'p \<Rightarrow> nat"
    and kept :: "'p \<Rightarrow> 'p \<Rightarrow> bool"
    and good :: "'p \<Rightarrow> bool"
    and bare :: "'p \<Rightarrow> bool"
  assumes run_eq: "run diag p =
      (if fits (render p) then render p
       else if \<not> diag then run True (strip p)
       else case shrink p of Some p' \<Rightarrow> run True p' | None \<Rightarrow> finish p)"
    and strip_ok: "good p \<Longrightarrow> good (strip p) \<and> bare (strip p) \<and> kept p (strip p)"
    and shrink_ok: "shrink p = Some p' \<Longrightarrow> good p \<Longrightarrow> good p' \<and> weight p' < weight p \<and> (bare p \<longrightarrow> bare p') \<and> kept p p'"
    and exhausted: "shrink p = None \<Longrightarrow> good p \<Longrightarrow> bare p \<Longrightarrow> compact_small (render p)"
    and kept_refl: "kept p p"
    and kept_trans: "kept p q \<Longrightarrow> kept q r \<Longrightarrow> kept p r"
begin

lemma run_bare:
  "good p \<Longrightarrow> bare p \<Longrightarrow>
     \<exists>q. kept p q \<and> good q \<and> (run True p = render q \<and> fits (render q) \<or> compact_small (render q) \<and> \<not> fits (render q))"
proof (induction "weight p" arbitrary: p rule: less_induct)
  case less
  show ?case
  proof (cases "fits (render p)")
    case True
    then have "run True p = render p" by (subst run_eq) simp
    then show ?thesis using True less.prems kept_refl by blast
  next
    case False
    show ?thesis
    proof (cases "shrink p")
      case None
      then show ?thesis using False less.prems exhausted kept_refl by blast
    next
      case (Some p')
      then have step: "run True p = run True p'" using False by (subst run_eq) simp
      have ok: "good p'" "weight p' < weight p" "bare p'" "kept p p'" using shrink_ok [OF Some] less.prems by auto
      show ?thesis using less.hyps [OF ok(2,1,3)] kept_trans [OF ok(4)] unfolding step by blast
    qed
  qed
qed

lemma run_start:
  "good p \<Longrightarrow>
     \<exists>q. kept p q \<and> good q \<and> (run False p = render q \<and> fits (render q) \<or> compact_small (render q) \<and> \<not> fits (render q))"
proof (cases "fits (render p)")
  case True
  then have "run False p = render p" by (subst run_eq) simp
  moreover assume "good p"
  ultimately show ?thesis using True kept_refl by blast
next
  case False
  assume "good p"
  then have ok: "good (strip p)" "bare (strip p)" "kept p (strip p)" using strip_ok by auto
  have step: "run False p = run True (strip p)" using False by (subst run_eq) simp
  show ?thesis using run_bare [OF ok(1,2)] kept_trans [OF ok(3)] unfolding step by blast
qed

text \<open>When small values fit, the answer fits.\<close>

lemma run_fits:
  assumes "\<And>v. compact_small v \<Longrightarrow> fits v" and "good p"
  shows "\<exists>q. kept p q \<and> good q \<and> run False p = render q \<and> fits (render q)"
  using run_start [OF assms(2)] assms(1) by blast

end

subsection \<open>Invariants of the bounded responses\<close>

definition operation_ok :: "tool_search_response \<Rightarrow> bool" where
  "operation_ok r \<longleftrightarrow> length (utf8_chars (rsp_operation r)) \<le> 64"

definition diagnostics_dropped :: "tool_search_response \<Rightarrow> bool" where
  "diagnostics_dropped r \<longleftrightarrow> rsp_query r = None \<and> rsp_group r = None"

text \<open>The response \<open>r'\<close> lists a prefix of the results of \<open>r\<close>, and is marked when something is missing.\<close>

definition shortened :: "tool_search_response \<Rightarrow> bool \<Rightarrow> tool_search_response \<Rightarrow> bool \<Rightarrow> bool" where
  "shortened r truncated r' truncated' \<longleftrightarrow>
     prefix (rsp_results r') (rsp_results r) \<and> (truncated \<longrightarrow> truncated') \<and> (rsp_results r' = rsp_results r \<or> truncated')"

lemma operation_ok_frame [simp]:
  "operation_ok (drop_diagnostics r) = operation_ok r" "operation_ok (pop_result r) = operation_ok r"
  "diagnostics_dropped (drop_diagnostics r)" "diagnostics_dropped (pop_result r) = diagnostics_dropped r"
  "rsp_results (drop_diagnostics r) = rsp_results r" "rsp_results (pop_result r) = butlast (rsp_results r)"
  by (simp_all add: operation_ok_def drop_diagnostics_def pop_result_def diagnostics_dropped_def)

lemma shortened_refl [simp]: "shortened r t r t" "shortened r t r True"
  by (simp_all add: shortened_def)

lemma shortened_trans: "shortened r t r1 t1 \<Longrightarrow> shortened r1 t1 r2 t2 \<Longrightarrow> shortened r t r2 t2"
  by (auto simp: shortened_def dest: prefix_order.trans)

lemma shortened_steps [simp]: "shortened r t (drop_diagnostics r) True" "shortened r t (pop_result r) True"
  by (simp_all add: shortened_def prefixeq_butlast)

lemma sort_dedup_empty [simp]: "sort_dedup [] = []"
  by (simp add: sort_dedup_def)

lemma with_member_bound: "json_bound (with_member k v j) \<le> json_bound j + (4 + 6 * length k) + json_bound v"
proof (cases j)
  case (JObject m)
  have "members_bound (AList.update k v m) \<le> members_bound m + (4 + 6 * length k) + json_bound v"
    by (induction m) auto
  then show ?thesis by (simp add: with_member_def JObject)
qed (simp_all add: with_member_def)

lemma bare_response_bound:
  assumes "operation_ok r" and "diagnostics_dropped r" and "rsp_results r = []"
  shows "json_bound (compact_value_from_bounded_fields r) \<le> 1000"
proof -
  have "json_bound (opt_value JBool (rsp_read_only r)) \<le> 5" by (cases "rsp_read_only r") (simp_all add: opt_value_def)
  then show ?thesis
    using assms by (simp add: compact_value_from_bounded_fields_def operation_ok_def diagnostics_dropped_def
        opt_value_def [of JString] openai_allowed_tools_def strings_value_def)
qed

lemma match_summary_bound:
  assumes "reasons_ok 16 (sum_truncation_reasons s)" and "sum_total_matches s \<le> u64_max"
    and "sum_returned_count s \<le> u64_max" and "sum_result_limit s \<le> u64_max"
    and "sum_normalized_query_terms s = []" and "sum_excluded_query_terms s = []" and "sum_ignored_query_terms s = []"
  shows "json_bound (match_summary_to_value s) \<le> 8000"
  using reasons_bound [OF assms(1)] count_bound [OF assms(2)] count_bound [OF assms(3)] count_bound [OF assms(4)] assms(5-7)
  by (simp add: match_summary_to_value_def strings_value_def [of "[]"])

interpretation plain_compact: compact_response "compact_fits to_vec" with_compact_summary
  "\<lambda>p. (mark_projection p)\<lparr>cpj_response := drop_diagnostics (cpj_response p)\<rparr>"
  "\<lambda>p. if rsp_results (cpj_response p) = [] then None
       else Some ((mark_projection p)\<lparr>cpj_response := pop_result (cpj_response p)\<rparr>)"
  "\<lambda>p. with_compact_summary (mark_projection p)"
  "response_compact_loop to_vec"
  "\<lambda>p. length (rsp_results (cpj_response p))"
  "\<lambda>p q. shortened (cpj_response p) (cpj_truncated p) (cpj_response q) (cpj_truncated q) \<and> cpj_source_count q = cpj_source_count p"
  "\<lambda>p. operation_ok (cpj_response p) \<and> reasons_ok 3 (cpj_truncation_reasons p) \<and> cpj_source_count p \<le> u64_max"
  "\<lambda>p. diagnostics_dropped (cpj_response p)"
  for to_vec
proof unfold_locales
  fix diag p
  show "response_compact_loop to_vec diag p =
      (if compact_fits to_vec (with_compact_summary p) then with_compact_summary p
       else if \<not> diag then response_compact_loop to_vec True ((mark_projection p)\<lparr>cpj_response := drop_diagnostics (cpj_response p)\<rparr>)
       else case if rsp_results (cpj_response p) = [] then None
                 else Some ((mark_projection p)\<lparr>cpj_response := pop_result (cpj_response p)\<rparr>) of
              Some p' \<Rightarrow> response_compact_loop to_vec True p' | None \<Rightarrow> with_compact_summary (mark_projection p))"
    by (subst response_compact_loop.simps) (simp add: Let_def mark_projection_def)
next
  fix p :: compact_tool_search_projection
  assume "(if rsp_results (cpj_response p) = [] then None
      else Some ((mark_projection p)\<lparr>cpj_response := pop_result (cpj_response p)\<rparr>)) = None"
    and good: "operation_ok (cpj_response p) \<and> reasons_ok 3 (cpj_truncation_reasons p) \<and> cpj_source_count p \<le> u64_max"
    and bare: "diagnostics_dropped (cpj_response p)"
  then have "rsp_results (cpj_response p) = []" by (simp split: if_splits)
  moreover define summary where "summary = JObject
      [(''source_count'', count_value (cpj_source_count p)),
       (''returned_count'', count_value (length (rsp_results (cpj_response p)))),
       (''truncated'', JBool (cpj_truncated p)), (''truncation_reasons'', strings_value (cpj_truncation_reasons p))]"
  ultimately have "json_bound summary \<le> 3000" "json_bound (compact_value_from_bounded_fields (cpj_response p)) \<le> 1000"
    using reasons_bound [of 3 "cpj_truncation_reasons p"] count_bound [of "cpj_source_count p"] count_bound [of 0]
      good bare_response_bound [of "cpj_response p"] bare by simp_all
  then show "compact_small (with_compact_summary p)"
    using with_member_bound [of "''compact_summary''" summary "compact_value_from_bounded_fields (cpj_response p)"]
    unfolding with_compact_summary_def summary_def [symmetric] compact_small_def RANKED_SEARCH_COMPACT_MAX_BYTES_def
    by simp
qed (auto simp: mark_projection_def shortened_def prefixeq_butlast split: if_splits dest: prefix_order.trans)

lemma summary_frame [simp]:
  "sum_total_matches (mark_summary s) = sum_total_matches s" "sum_result_limit (mark_summary s) = sum_result_limit s"
  "sum_returned_count (mark_summary s) = sum_returned_count s" "sum_truncated (mark_summary s)"
  "sum_total_matches (clear_query_terms s) = sum_total_matches s" "sum_result_limit (clear_query_terms s) = sum_result_limit s"
  "sum_returned_count (clear_query_terms s) = sum_returned_count s" "sum_truncated (clear_query_terms s) = sum_truncated s"
  "sum_truncation_reasons (clear_query_terms s) = sum_truncation_reasons s"
  "sum_truncation_reasons (mark_summary s) = push_unique_reason (sum_truncation_reasons s) ''compact_response_bytes''"
  by (simp_all add: mark_summary_def clear_query_terms_def)

definition query_terms_cleared :: "tool_search_match_summary \<Rightarrow> bool" where
  "query_terms_cleared s \<longleftrightarrow>
     sum_normalized_query_terms s = [] \<and> sum_excluded_query_terms s = [] \<and> sum_ignored_query_terms s = []"

lemma query_terms_cleared_frame [simp]:
  "query_terms_cleared (clear_query_terms s)" "query_terms_cleared (mark_summary s) = query_terms_cleared s"
  "query_terms_cleared (s\<lparr>sum_returned_count := n\<rparr>) = query_terms_cleared s"
  by (simp_all add: query_terms_cleared_def clear_query_terms_def mark_summary_def)

definition match_summary_ok :: "tool_search_match_summary \<Rightarrow> bool" where
  "match_summary_ok s \<longleftrightarrow>
     reasons_ok 16 (sum_truncation_reasons s) \<and> sum_total_matches s \<le> u64_max \<and> sum_result_limit s \<le> u64_max"

lemma match_summary_ok_frame [simp]:
  "match_summary_ok s \<Longrightarrow> match_summary_ok (mark_summary s)" "match_summary_ok (clear_query_terms s) = match_summary_ok s"
  "match_summary_ok (s\<lparr>sum_returned_count := n\<rparr>) = match_summary_ok s"
  by (simp_all add: match_summary_ok_def)

lemma bare_summary_bound:
  "match_summary_ok s \<Longrightarrow> query_terms_cleared s \<Longrightarrow> sum_returned_count s = 0 \<Longrightarrow> json_bound (match_summary_to_value s) \<le> 8000"
  by (rule match_summary_bound) (simp_all add: match_summary_ok_def query_terms_cleared_def)

text \<open>Two summaries of the same search.\<close>

definition same_search :: "tool_search_match_summary \<Rightarrow> tool_search_match_summary \<Rightarrow> bool" where
  "same_search s s' \<longleftrightarrow> sum_total_matches s' = sum_total_matches s \<and> sum_result_limit s' = sum_result_limit s"

interpretation ranked_compact: compact_response "compact_fits to_vec" ranked_compact_value
  "\<lambda>p. (drop_diagnostics (fst p), clear_query_terms (mark_summary (snd p)))"
  "\<lambda>p. if rsp_results (fst p) = [] then None
       else Some (pop_result (fst p), (mark_summary (snd p))\<lparr>sum_returned_count := length (rsp_results (pop_result (fst p)))\<rparr>)"
  "\<lambda>p. ranked_compact_value (fst p, (mark_summary (snd p))\<lparr>sum_returned_count := 0,
       sum_truncation_reasons := [''compact_response_bytes'']\<rparr>)"
  "ranked_compact_loop to_vec"
  "\<lambda>p. length (rsp_results (fst p))"
  "\<lambda>p q. shortened (fst p) (sum_truncated (snd p)) (fst q) (sum_truncated (snd q)) \<and> same_search (snd p) (snd q)"
  "\<lambda>p. operation_ok (fst p) \<and> match_summary_ok (snd p) \<and> sum_returned_count (snd p) = length (rsp_results (fst p))"
  "\<lambda>p. diagnostics_dropped (fst p) \<and> query_terms_cleared (snd p)"
  for to_vec
proof unfold_locales
  fix diag and p :: ranked_compact
  show "ranked_compact_loop to_vec diag p =
      (if compact_fits to_vec (ranked_compact_value p) then ranked_compact_value p
       else if \<not> diag then ranked_compact_loop to_vec True (drop_diagnostics (fst p), clear_query_terms (mark_summary (snd p)))
       else case if rsp_results (fst p) = [] then None
                 else Some (pop_result (fst p), (mark_summary (snd p))\<lparr>sum_returned_count := length (rsp_results (pop_result (fst p)))\<rparr>) of
              Some p' \<Rightarrow> ranked_compact_loop to_vec True p'
            | None \<Rightarrow> ranked_compact_value (fst p, (mark_summary (snd p))\<lparr>sum_returned_count := 0,
                sum_truncation_reasons := [''compact_response_bytes'']\<rparr>))"
    using ranked_compact_loop.simps [of to_vec diag "fst p" "snd p"] by (simp add: Let_def)
next
  fix p :: ranked_compact
  assume "(if rsp_results (fst p) = [] then None
      else Some (pop_result (fst p), (mark_summary (snd p))\<lparr>sum_returned_count := length (rsp_results (pop_result (fst p)))\<rparr>)) = None"
    and good: "operation_ok (fst p) \<and> match_summary_ok (snd p) \<and> sum_returned_count (snd p) = length (rsp_results (fst p))"
    and bare: "diagnostics_dropped (fst p) \<and> query_terms_cleared (snd p)"
  then have "rsp_results (fst p) = []" by (simp split: if_splits)
  then have "json_bound (match_summary_to_value (snd p)) \<le> 8000" "json_bound (compact_value_from_bounded_fields (fst p)) \<le> 1000"
    using good bare bare_summary_bound bare_response_bound by simp_all
  then show "compact_small (ranked_compact_value p)"
    using with_member_bound [of "''match_summary''" "match_summary_to_value (snd p)" "compact_value_from_bounded_fields (fst p)"]
    unfolding ranked_compact_value_def with_match_summary_def compact_small_def RANKED_SEARCH_COMPACT_MAX_BYTES_def by simp
qed (auto simp: shortened_def same_search_def prefixeq_butlast split: if_splits dest: prefix_order.trans)

text \<open>The states of the two loops for OpenAI clients.\<close>

definition openai_kept :: "compact_openai_search_projection \<Rightarrow> compact_openai_search_projection \<Rightarrow> bool" where
  "openai_kept p q \<longleftrightarrow>
     shortened (cop_response p) (cop_truncated p) (cop_response q) (cop_truncated q)
     \<and> prefix (cop_extra_results q) (cop_extra_results p)
     \<and> prefix (cop_companion_allowed_tools q) (cop_companion_allowed_tools p)
     \<and> (cop_extra_results q = cop_extra_results p \<and> cop_companion_allowed_tools q = cop_companion_allowed_tools p \<or> cop_truncated q)
     \<and> cop_source_count q = cop_source_count p"

definition openai_ok :: "compact_openai_search_projection \<Rightarrow> bool" where
  "openai_ok p \<longleftrightarrow>
     operation_ok (cop_response p) \<and> reasons_ok 7 (cop_truncation_reasons p) \<and> cop_source_count p \<le> u64_max
     \<and> cop_companion_source_count p \<le> u64_max \<and> cop_extra_source_count p \<le> u64_max"

definition openai_shrink :: "compact_openai_search_projection \<Rightarrow> compact_openai_search_projection option" where
  "openai_shrink p =
     (case shrink_auxiliary_payload p of Some q \<Rightarrow> Some q | None \<Rightarrow> shrink_inventory_result p)"

lemma openai_kept_refl [simp]: "openai_kept p p"
  by (simp add: openai_kept_def)

lemma openai_kept_trans: "openai_kept p q \<Longrightarrow> openai_kept q r \<Longrightarrow> openai_kept p r"
  by (auto simp: openai_kept_def shortened_def dest: prefix_order.trans)

lemma openai_strip:
  "openai_ok p \<Longrightarrow>
     openai_ok ((mark_openai p)\<lparr>cop_response := drop_diagnostics (cop_response p)\<rparr>)
     \<and> diagnostics_dropped (cop_response ((mark_openai p)\<lparr>cop_response := drop_diagnostics (cop_response p)\<rparr>))
     \<and> openai_kept p ((mark_openai p)\<lparr>cop_response := drop_diagnostics (cop_response p)\<rparr>)"
  by (simp add: openai_ok_def openai_kept_def mark_openai_def)

lemma openai_shrink_ok:
  assumes "openai_shrink (mark_openai p) = Some q" and "openai_ok p"
  shows "openai_ok q \<and> openai_weight q < openai_weight p
    \<and> (diagnostics_dropped (cop_response p) \<longrightarrow> diagnostics_dropped (cop_response q)) \<and> openai_kept p q"
proof -
  have "openai_weight q < openai_weight p"
    using assms(1) shrink_weight [of "mark_openai p" q] by (auto simp: openai_shrink_def split: option.splits)
  moreover have "openai_ok q" "diagnostics_dropped (cop_response p) \<longrightarrow> diagnostics_dropped (cop_response q)" "openai_kept p q"
    using assms
    by (auto simp: openai_shrink_def shrink_auxiliary_payload_def shrink_inventory_result_def mark_openai_def openai_ok_def
        openai_kept_def prefixeq_butlast split: option.splits if_splits)
  ultimately show ?thesis by blast
qed

lemma openai_exhausted:
  "openai_shrink (mark_openai p) = None \<longleftrightarrow>
     cop_extra_results p = [] \<and> cop_companion_allowed_tools p = [] \<and> rsp_results (cop_response p) = []"
  by (auto simp: openai_shrink_def shrink_auxiliary_payload_def shrink_inventory_result_def mark_openai_def split: option.splits if_splits)

lemma bare_projection_bound:
  assumes none: "openai_shrink (mark_openai p) = None" and ok: "openai_ok p" and bare: "diagnostics_dropped (cop_response p)"
  shows "json_bound (projection_to_value p) \<le> 8000"
proof -
  have "json_bound (opt_value JBool (rsp_read_only (cop_response p))) \<le> 5"
    by (cases "rsp_read_only (cop_response p)") (simp_all add: opt_value_def)
  moreover have "length (utf8_chars (rsp_operation (cop_response p))) \<le> 64" using ok by (simp add: openai_ok_def operation_ok_def)
  moreover have "json_bound (strings_value (cop_truncation_reasons p)) \<le> 2 + Suc 7 * 387"
    using ok by (intro reasons_bound) (simp add: openai_ok_def)
  moreover have "json_bound (count_value (cop_source_count p)) \<le> 20" "json_bound (count_value (cop_companion_source_count p)) \<le> 20"
    "json_bound (count_value (cop_extra_source_count p)) \<le> 20" "json_bound (count_value 0) \<le> 20"
    using ok by (auto simp: openai_ok_def intro!: count_bound)
  ultimately show ?thesis
    using none bare unfolding openai_exhausted
    by (simp add: projection_to_value_def Let_def diagnostics_dropped_def opt_value_def [of JString] projection_allowed_tools_def
        openai_allowed_tools_def strings_value_def [of "[]"])
qed

interpretation openai_compact: compact_response "compact_fits to_vec" projection_to_value
  "\<lambda>p. (mark_openai p)\<lparr>cop_response := drop_diagnostics (cop_response p)\<rparr>"
  "\<lambda>p. openai_shrink (mark_openai p)"
  "\<lambda>p. projection_to_value (mark_openai p)"
  "openai_compact_loop to_vec" openai_weight openai_kept openai_ok
  "\<lambda>p. diagnostics_dropped (cop_response p)"
  for to_vec
proof unfold_locales
  fix diag p
  show "openai_compact_loop to_vec diag p =
      (if compact_fits to_vec (projection_to_value p) then projection_to_value p
       else if \<not> diag then openai_compact_loop to_vec True ((mark_openai p)\<lparr>cop_response := drop_diagnostics (cop_response p)\<rparr>)
       else case openai_shrink (mark_openai p) of
              Some p' \<Rightarrow> openai_compact_loop to_vec True p' | None \<Rightarrow> projection_to_value (mark_openai p))"
  proof -
    have "cop_response (mark_openai p) = cop_response p" by (simp add: mark_openai_def)
    then show ?thesis by (subst openai_compact_loop.simps) (simp add: Let_def openai_shrink_def split: option.split)
  qed
next
  fix p assume "openai_shrink (mark_openai p) = None" "openai_ok p" "diagnostics_dropped (cop_response p)"
  then show "compact_small (projection_to_value p)"
    using bare_projection_bound [of p] by (simp add: compact_small_def RANKED_SEARCH_COMPACT_MAX_BYTES_def)
qed (simp_all add: openai_strip openai_shrink_ok, blast intro: openai_kept_trans)

definition returned_now :: "ranked_openai_compact \<Rightarrow> tool_search_match_summary" where
  "returned_now ps = (snd ps)\<lparr>sum_returned_count := length (rsp_results (cop_response (fst ps)))\<rparr>"

lemma returned_now_frame [simp]:
  "sum_returned_count (returned_now ps) = length (rsp_results (cop_response (fst ps)))"
  "sum_truncated (returned_now ps) = sum_truncated (snd ps)" "match_summary_ok (returned_now ps) = match_summary_ok (snd ps)"
  "query_terms_cleared (returned_now ps) = query_terms_cleared (snd ps)"
  "same_search s (returned_now ps) = same_search s (snd ps)"
  by (simp_all add: returned_now_def same_search_def)

lemma strip_summary_frame [simp]:
  "match_summary_ok s \<Longrightarrow> match_summary_ok (strip_summary s)" "query_terms_cleared (strip_summary s)"
  "same_search s' (strip_summary s) = same_search s' s" "sum_truncated s \<Longrightarrow> sum_truncated (strip_summary s)"
  by (simp_all add: strip_summary_def same_search_def)

lemma same_search_frame [simp]:
  "same_search s s" "same_search s' (mark_summary s) = same_search s' s"
  by (simp_all add: same_search_def)

definition ranked_openai_shrink :: "ranked_openai_compact \<Rightarrow> ranked_openai_compact option" where
  "ranked_openai_shrink ps =
     (case shrink_auxiliary_payload (mark_openai (fst ps)) of
        Some q \<Rightarrow> Some (q, returned_now ps)
      | None \<Rightarrow> map_option (\<lambda>q. (q, mark_summary (returned_now ps))) (shrink_inventory_result (mark_openai (fst ps))))"

definition ranked_openai_kept :: "ranked_openai_compact \<Rightarrow> ranked_openai_compact \<Rightarrow> bool" where
  "ranked_openai_kept ps qs \<longleftrightarrow>
     openai_kept (fst ps) (fst qs) \<and> same_search (snd ps) (snd qs)
     \<and> shortened (cop_response (fst ps)) (sum_truncated (snd ps)) (cop_response (fst qs)) (sum_truncated (snd qs))"

lemma ranked_openai_kept_trans: "ranked_openai_kept p q \<Longrightarrow> ranked_openai_kept q r \<Longrightarrow> ranked_openai_kept p r"
  unfolding ranked_openai_kept_def by (auto simp: same_search_def intro: openai_kept_trans shortened_trans)

lemma ranked_openai_shrinks:
  "ranked_openai_shrink ps = Some qs \<Longrightarrow> openai_shrink (mark_openai (fst ps)) = Some (fst qs)"
  "ranked_openai_shrink ps = None \<longleftrightarrow> openai_shrink (mark_openai (fst ps)) = None"
  by (auto simp: ranked_openai_shrink_def openai_shrink_def split: option.splits)

lemma ranked_openai_shrink_summary:
  "ranked_openai_shrink ps = Some qs \<Longrightarrow>
     (snd qs = returned_now ps \<and> rsp_results (cop_response (fst qs)) = rsp_results (cop_response (fst ps)))
     \<or> (snd qs = mark_summary (returned_now ps)
        \<and> rsp_results (cop_response (fst qs)) = butlast (rsp_results (cop_response (fst ps))))"
  by (auto simp: ranked_openai_shrink_def shrink_auxiliary_payload_def shrink_inventory_result_def mark_openai_def
      split: option.splits if_splits)

lemma ranked_openai_shrink_ok:
  assumes shrink: "ranked_openai_shrink ps = Some qs" and ok: "openai_ok (fst ps)" "match_summary_ok (snd ps)"
  shows "openai_ok (fst qs) \<and> match_summary_ok (snd qs)" and "openai_weight (fst qs) < openai_weight (fst ps)"
    and "diagnostics_dropped (cop_response (fst ps)) \<and> query_terms_cleared (snd ps) \<longrightarrow>
         diagnostics_dropped (cop_response (fst qs)) \<and> query_terms_cleared (snd qs)"
    and "ranked_openai_kept ps qs"
  using openai_shrink_ok [OF ranked_openai_shrinks(1) [OF shrink] ok(1)] ranked_openai_shrink_summary [OF shrink] ok(2)
  by (auto simp: ranked_openai_kept_def shortened_def prefixeq_butlast)

definition ranked_openai_strip :: "ranked_openai_compact \<Rightarrow> ranked_openai_compact" where
  "ranked_openai_strip ps =
     ((mark_openai (fst ps))\<lparr>cop_response := drop_diagnostics (cop_response (fst ps))\<rparr>, strip_summary (returned_now ps))"

lemma ranked_openai_strip_ok:
  assumes "openai_ok (fst ps)" "match_summary_ok (snd ps)"
  shows "openai_ok (fst (ranked_openai_strip ps))" "match_summary_ok (snd (ranked_openai_strip ps))"
    "diagnostics_dropped (cop_response (fst (ranked_openai_strip ps)))" "query_terms_cleared (snd (ranked_openai_strip ps))"
    "ranked_openai_kept ps (ranked_openai_strip ps)"
proof -
  define strip where "strip = (mark_openai (fst ps))\<lparr>cop_response := drop_diagnostics (cop_response (fst ps))\<rparr>"
  have strip: "openai_ok strip" "diagnostics_dropped (cop_response strip)" "openai_kept (fst ps) strip"
    using openai_strip [OF assms(1)] unfolding strip_def by blast+
  have results: "rsp_results (cop_response strip) = rsp_results (cop_response (fst ps))" by (simp add: strip_def)
  have state: "ranked_openai_strip ps = (strip, strip_summary (returned_now ps))" by (simp add: ranked_openai_strip_def strip_def)
  show "openai_ok (fst (ranked_openai_strip ps))" "match_summary_ok (snd (ranked_openai_strip ps))"
    "diagnostics_dropped (cop_response (fst (ranked_openai_strip ps)))" "query_terms_cleared (snd (ranked_openai_strip ps))"
    "ranked_openai_kept ps (ranked_openai_strip ps)"
    unfolding state using strip results assms(2) by (simp_all add: ranked_openai_kept_def shortened_def)
qed

interpretation ranked_openai_compact: compact_response "compact_fits to_vec"
  "\<lambda>ps. ranked_openai_compact_value (fst ps, returned_now ps)"
  ranked_openai_strip
  ranked_openai_shrink
  "\<lambda>ps. ranked_openai_compact_value (mark_openai (fst ps), (returned_now ps)\<lparr>sum_returned_count := 0\<rparr>)"
  "ranked_openai_compact_loop to_vec" "\<lambda>ps. openai_weight (fst ps)" ranked_openai_kept
  "\<lambda>ps. openai_ok (fst ps) \<and> match_summary_ok (snd ps)"
  "\<lambda>ps. diagnostics_dropped (cop_response (fst ps)) \<and> query_terms_cleared (snd ps)"
  for to_vec
proof unfold_locales
  fix diag and ps :: ranked_openai_compact
  have "cop_response (mark_openai (fst ps)) = cop_response (fst ps)" by (simp add: mark_openai_def)
  then show "ranked_openai_compact_loop to_vec diag ps =
      (if compact_fits to_vec (ranked_openai_compact_value (fst ps, returned_now ps))
       then ranked_openai_compact_value (fst ps, returned_now ps)
       else if \<not> diag
       then ranked_openai_compact_loop to_vec True
              (ranked_openai_strip ps)
       else case ranked_openai_shrink ps of
              Some ps' \<Rightarrow> ranked_openai_compact_loop to_vec True ps'
            | None \<Rightarrow> ranked_openai_compact_value (mark_openai (fst ps), (returned_now ps)\<lparr>sum_returned_count := 0\<rparr>))"
    using ranked_openai_compact_loop.simps [of to_vec diag "fst ps" "snd ps"]
    by (simp add: Let_def ranked_openai_shrink_def ranked_openai_strip_def returned_now_def split: option.split)
next
  fix ps :: ranked_openai_compact
  assume none: "ranked_openai_shrink ps = None" and good: "openai_ok (fst ps) \<and> match_summary_ok (snd ps)"
    and bare: "diagnostics_dropped (cop_response (fst ps)) \<and> query_terms_cleared (snd ps)"
  have none': "openai_shrink (mark_openai (fst ps)) = None" using none ranked_openai_shrinks(2) by blast
  then have "rsp_results (cop_response (fst ps)) = []" by (simp add: openai_exhausted)
  then have "json_bound (match_summary_to_value (returned_now ps)) \<le> 8000" using good bare by (intro bare_summary_bound) simp_all
  moreover have "json_bound (projection_to_value (fst ps)) \<le> 8000" using none' good bare by (intro bare_projection_bound) simp_all
  ultimately show "compact_small (ranked_openai_compact_value (fst ps, returned_now ps))"
    using with_member_bound [of "''match_summary''" "match_summary_to_value (returned_now ps)" "projection_to_value (fst ps)"]
    unfolding ranked_openai_compact_value_def with_match_summary_def compact_small_def RANKED_SEARCH_COMPACT_MAX_BYTES_def by simp
qed (simp_all add: ranked_openai_strip_ok ranked_openai_shrink_ok, simp add: ranked_openai_kept_def, blast intro: ranked_openai_kept_trans)

section \<open>What the projections start from\<close>

lemma not_truncated: "truncate_search_text v n = (b, False) \<Longrightarrow> b = v"
  by (auto simp: truncate_search_text_def)

lemma compact_search_result_name: "compact_search_result r = Some (r', t) \<Longrightarrow> res_name r' = res_name r"
  by (auto simp: compact_search_result_def Let_def dest: not_truncated split: prod.splits if_splits)

lemma compact_results_names:
  "compact_results rs = (rs', t) \<Longrightarrow>
     prefix (map res_name rs') (map res_name rs) \<and> (length rs' < length rs \<longrightarrow> t)"
proof (induction rs arbitrary: rs' t)
  case (Cons r rs)
  show ?case
  proof (cases "compact_search_result r")
    case None
    then show ?thesis using Cons.prems by auto
  next
    case (Some res)
    obtain r' u where res: "res = (r', u)" by fastforce
    obtain ys v where ys: "compact_results rs = (ys, v)" by fastforce
    show ?thesis
      using Cons.prems Cons.IH [OF ys] compact_search_result_name [of r r' u] Some res ys by auto
  qed
qed simp

text \<open>The bounded projection lists a prefix of the source's tool names and is marked when it is a proper one.\<close>

definition names_cut :: "tool_search_response \<Rightarrow> tool_search_response \<Rightarrow> bool \<Rightarrow> bool" where
  "names_cut r q truncated \<longleftrightarrow>
     prefix (map res_name (rsp_results q)) (map res_name (rsp_results r))
     \<and> (length (rsp_results q) < length (rsp_results r) \<longrightarrow> truncated)"

lemma names_cut_shortened: "names_cut r q t \<Longrightarrow> shortened q t q' t' \<Longrightarrow> names_cut r q' t'"
  unfolding names_cut_def shortened_def
  by (metis map_mono_prefix prefix_order.trans)

lemma compact_projection_start:
  fixes r
  defines "p \<equiv> compact_projection r"
  shows "operation_ok (cpj_response p)" and "reasons_ok 3 (cpj_truncation_reasons p)"
    and "cpj_source_count p = length (rsp_results r)" and "names_cut r (cpj_response p) (cpj_truncated p)"
    and "length (rsp_results (cpj_response p)) < length (rsp_results r) \<Longrightarrow>
         list_ex (\<lambda>reason. reason \<in> {''result_metadata'', ''result_limit''}) (cpj_truncation_reasons p)"
proof -
  obtain op a where op: "truncate_search_text (rsp_operation r) COMPACT_SEARCH_MAX_OPERATION_CHARS = (op, a)" by fastforce
  obtain q b where q: "bounded_optional_search_text (rsp_query r) RANKED_SEARCH_MAX_QUERY_CHARS = (q, b)" by fastforce
  obtain g c where g: "bounded_optional_search_text (rsp_group r) RANKED_SEARCH_MAX_GROUP_CHARS = (g, c)" by fastforce
  obtain rs t where rs: "compact_results (take COMPACT_SEARCH_MAX_RESULTS (rsp_results r)) = (rs, t)" by fastforce
  define cut where "cut = (length (rsp_results r) > COMPACT_SEARCH_MAX_RESULTS)"
  define early where "early = (a \<or> b \<or> c)"
  have p: "rsp_operation (cpj_response p) = op" "rsp_results (cpj_response p) = rs"
    "cpj_truncated p = (early \<or> t \<or> cut)" "cpj_source_count p = length (rsp_results r)"
    "cpj_truncation_reasons p =
       reason_if cut ''result_limit'' (reason_if t ''result_metadata'' (reason_if early ''input_metadata'' []))"
    unfolding p_def compact_projection_def using op q g rs by (simp_all add: Let_def cut_def early_def)
  show "cpj_source_count p = length (rsp_results r)" by (rule p)
  show "operation_ok (cpj_response p)"
    using truncated_chars [OF op] p(1) by (simp add: operation_ok_def COMPACT_SEARCH_MAX_OPERATION_CHARS_def)
  have "reasons_ok (Suc (Suc (Suc 0))) (cpj_truncation_reasons p)"
    unfolding p(5) by (intro reasons_ok_if) (simp_all add: reasons_ok_def)
  then show "reasons_ok 3 (cpj_truncation_reasons p)" by (simp add: numeral_3_eq_3)
  note names = compact_results_names [OF rs]
  have short: "length rs < length (rsp_results r) \<Longrightarrow> t \<or> cut" using names unfolding cut_def by auto
  have "prefix (map res_name rs) (map res_name (rsp_results r))"
    using names take_is_prefix prefix_order.trans map_mono_prefix by blast
  then show "names_cut r (cpj_response p) (cpj_truncated p)" using short by (auto simp: names_cut_def p)
  show "list_ex (\<lambda>reason. reason \<in> {''result_metadata'', ''result_limit''}) (cpj_truncation_reasons p)"
    if "length (rsp_results (cpj_response p)) < length (rsp_results r)"
    using short that unfolding p(5) by (auto simp: p(2) list_ex_iff reason_if_def push_unique_reason_def)
qed

lemma companion_names_sub:
  "companion_names acc raws = (names, t) \<Longrightarrow> set names \<subseteq> set acc \<union> trim ` set raws"
proof (induction raws arbitrary: acc names t)
  case (Cons raw raws)
  obtain b c where b: "truncate_search_text raw COMPACT_SEARCH_MAX_TOOL_NAME_CHARS = (b, c)" by fastforce
  define acc' where "acc' = (if trim b \<noteq> [] \<and> \<not> c \<and> trim b \<notin> set acc then acc @ [trim b] else acc)"
  obtain ys u where ys: "companion_names acc' raws = (ys, u)" by fastforce
  have "names = ys" using Cons.prems b ys by (simp add: Let_def acc'_def)
  moreover have "set acc' \<subseteq> set acc \<union> {trim raw}" using not_truncated [of raw COMPACT_SEARCH_MAX_TOOL_NAME_CHARS b] b
    by (cases c) (auto simp: acc'_def)
  ultimately show ?case using Cons.IH [OF ys] by auto
qed simp

text \<open>What the projection for OpenAI clients keeps of its source.\<close>

definition openai_source :: "openai_tool_search_response \<Rightarrow> compact_openai_search_projection \<Rightarrow> bool" where
  "openai_source r p \<longleftrightarrow>
     names_cut (oai_response r) (cop_response p) (cop_truncated p)
     \<and> prefix (cop_extra_results p) (oai_extra_results r)
     \<and> (\<forall>v \<in> set (cop_extra_results p). compact_extra_result_fits v)
     \<and> (length (cop_extra_results p) < length (oai_extra_results r) \<longrightarrow> cop_truncated p)
     \<and> set (cop_companion_allowed_tools p) \<subseteq> trim ` set (oai_companion_allowed_tools r)"

lemma openai_source_kept: "openai_source r p \<Longrightarrow> openai_kept p q \<Longrightarrow> openai_source r q"
proof -
  assume source: "openai_source r p" and kept: "openai_kept p q"
  have "set (cop_extra_results q) \<subseteq> set (cop_extra_results p)"
    "set (cop_companion_allowed_tools q) \<subseteq> set (cop_companion_allowed_tools p)"
    using kept set_mono_prefix unfolding openai_kept_def by blast+
  moreover have "names_cut (oai_response r) (cop_response q) (cop_truncated q)"
    using source kept names_cut_shortened unfolding openai_source_def openai_kept_def by blast
  moreover have "prefix (cop_extra_results q) (oai_extra_results r)"
    using source kept prefix_order.trans unfolding openai_source_def openai_kept_def by blast
  moreover have "length (cop_extra_results q) < length (oai_extra_results r) \<longrightarrow> cop_truncated q"
    using source kept unfolding openai_source_def openai_kept_def shortened_def by metis
  ultimately show ?thesis using source unfolding openai_source_def by blast
qed

lemma takeWhile_take_prefix: "prefix (takeWhile P (take n xs)) xs"
  using takeWhile_is_prefix take_is_prefix prefix_order.trans by blast

lemma openai_projection_start:
  assumes counts: "length (rsp_results (oai_response r)) \<le> u64_max" "length (oai_companion_allowed_tools r) \<le> u64_max"
    "length (oai_extra_results r) \<le> u64_max"
  defines "p \<equiv> openai_compact_projection r"
  shows "openai_ok p" and "openai_source r p"
    and "length (rsp_results (cop_response p)) < length (rsp_results (oai_response r)) \<Longrightarrow> cop_inventory_truncated p"
proof -
  let ?base = "compact_projection (oai_response r)"
  obtain names t where names: "companion_names [] (take COMPACT_OPENAI_MAX_COMPANION_TOOLS (oai_companion_allowed_tools r)) = (names, t)"
    by fastforce
  define candidates where "candidates = take COMPACT_OPENAI_MAX_EXTRA_RESULTS (oai_extra_results r)"
  define extra where "extra = takeWhile compact_extra_result_fits candidates"
  define a where "a = (length (oai_companion_allowed_tools r) > COMPACT_OPENAI_MAX_COMPANION_TOOLS)"
  define b where "b = (length (oai_extra_results r) > COMPACT_OPENAI_MAX_EXTRA_RESULTS)"
  have p: "cop_response p = cpj_response ?base" "cop_source_count p = cpj_source_count ?base"
    "cop_companion_source_count p = length (oai_companion_allowed_tools r)" "cop_companion_allowed_tools p = sort names"
    "cop_extra_source_count p = length (oai_extra_results r)" "cop_extra_results p = extra"
    "cop_truncated p = (cpj_truncated ?base \<or> t \<or> a \<or> extra \<noteq> candidates \<or> b)"
    "cop_truncation_reasons p = reason_if b ''extra_result_limit'' (reason_if (extra \<noteq> candidates) ''extra_result_metadata''
       (reason_if a ''companion_tool_limit'' (reason_if t ''companion_tool_metadata'' (cpj_truncation_reasons ?base))))"
    "cop_inventory_truncated p \<longleftrightarrow>
       list_ex (\<lambda>reason. reason \<in> {''result_metadata'', ''result_limit''}) (cpj_truncation_reasons ?base)"
    unfolding p_def openai_compact_projection_def using names
    by (simp_all add: Let_def candidates_def extra_def a_def b_def del: takeWhile_eq_all_conv)
  note base = compact_projection_start [of "oai_response r"]
  have "reasons_ok (Suc (Suc (Suc (Suc 3)))) (cop_truncation_reasons p)"
    unfolding p(8) by (intro reasons_ok_if base(2)) simp_all
  then show "openai_ok p" using base(1,3) counts by (simp add: openai_ok_def p)
  have fits: "compact_extra_result_fits v" if "v \<in> set extra" for v using that set_takeWhileD unfolding extra_def by fast
  have cut: "extra \<noteq> candidates \<or> b" if "length extra < length (oai_extra_results r)"
    using that unfolding b_def candidates_def by auto
  have "set names \<subseteq> trim ` set (oai_companion_allowed_tools r)"
    using companion_names_sub [OF names] by (auto dest: in_set_takeD)
  moreover have "names_cut (oai_response r) (cpj_response ?base) (cop_truncated p)"
    using base(4) unfolding names_cut_def p(7) by blast
  moreover have "prefix extra (oai_extra_results r)" unfolding extra_def candidates_def by (rule takeWhile_take_prefix)
  ultimately show "openai_source r p" using fits cut unfolding openai_source_def p by auto
  show "cop_inventory_truncated p" if "length (rsp_results (cop_response p)) < length (rsp_results (oai_response r))"
    using base(5) that unfolding p by blast
qed

section \<open>The size of extra results\<close>

text \<open>The number of JSON values in a value, itself included, and the characters of its strings and keys.\<close>

fun json_nodes :: "json \<Rightarrow> nat" where
  "json_nodes (JArray vs) = 1 + sum_list (map json_nodes vs)"
| "json_nodes (JObject m) = 1 + sum_list (map (\<lambda>(k, v). json_nodes v) m)"
| "json_nodes _ = 1"

fun json_text_chars :: "json \<Rightarrow> nat" where
  "json_text_chars (JString s) = length (utf8_chars s)"
| "json_text_chars (JArray vs) = sum_list (map json_text_chars vs)"
| "json_text_chars (JObject m) = sum_list (map (\<lambda>(k, v). length (utf8_chars k) + json_text_chars v) m)"
| "json_text_chars _ = 0"

text \<open>Adding \<open>(a, b)\<close> to counters that are within the limits.\<close>

definition within_limits :: "nat \<times> nat \<Rightarrow> nat \<Rightarrow> nat \<Rightarrow> (nat \<times> nat) option" where
  "within_limits counters a b =
     (if fst counters + a \<le> COMPACT_OPENAI_MAX_EXTRA_RESULT_NODES
         \<and> snd counters + b \<le> COMPACT_OPENAI_MAX_EXTRA_RESULT_TEXT_CHARS
      then Some (fst counters + a, snd counters + b) else None)"

lemma within_limits_simps [simp]:
  "fst c \<le> COMPACT_OPENAI_MAX_EXTRA_RESULT_NODES \<Longrightarrow> snd c \<le> COMPACT_OPENAI_MAX_EXTRA_RESULT_TEXT_CHARS \<Longrightarrow>
     within_limits c 0 0 = Some c"
  by (simp add: within_limits_def)

lemma within_limits_then:
  "(case within_limits c a b of None \<Rightarrow> None | Some c' \<Rightarrow> within_limits c' a' b') = within_limits c (a + a') (b + b')"
  by (auto simp: within_limits_def)

lemma within_limits_Some:
  "within_limits c a b = Some c' \<Longrightarrow>
     fst c' \<le> COMPACT_OPENAI_MAX_EXTRA_RESULT_NODES \<and> snd c' \<le> COMPACT_OPENAI_MAX_EXTRA_RESULT_TEXT_CHARS"
  by (auto simp: within_limits_def split: if_splits)

lemma visit_counts:
  "fst c \<le> COMPACT_OPENAI_MAX_EXTRA_RESULT_NODES \<Longrightarrow> snd c \<le> COMPACT_OPENAI_MAX_EXTRA_RESULT_TEXT_CHARS \<Longrightarrow>
     visit v c = within_limits c (json_nodes v) (json_text_chars v)"
  "fst c \<le> COMPACT_OPENAI_MAX_EXTRA_RESULT_NODES \<Longrightarrow> snd c \<le> COMPACT_OPENAI_MAX_EXTRA_RESULT_TEXT_CHARS \<Longrightarrow>
     visit_items vs c = within_limits c (sum_list (map json_nodes vs)) (sum_list (map json_text_chars vs))"
  "fst c \<le> COMPACT_OPENAI_MAX_EXTRA_RESULT_NODES \<Longrightarrow> snd c \<le> COMPACT_OPENAI_MAX_EXTRA_RESULT_TEXT_CHARS \<Longrightarrow>
     visit_members m c = within_limits c (sum_list (map (\<lambda>(k, v). json_nodes v) m))
       (sum_list (map (\<lambda>(k, v). length (utf8_chars k) + json_text_chars v) m))"
proof (induction v c and vs c and m c rule: visit_visit_items_visit_members.induct)
  case (1 v nodes text_chars)
  show ?case
  proof (cases "nodes + 1 > COMPACT_OPENAI_MAX_EXTRA_RESULT_NODES")
    case True
    then show ?thesis by (cases v) (simp_all add: within_limits_def)
  next
    case False
    note IH = 1(1,2) [OF False]
    show ?thesis
    proof (cases v)
      case (JArray vs)
      show ?thesis using IH(1) [OF JArray] 1(3,4) False JArray by (simp add: within_limits_def)
    next
      case (JObject m)
      show ?thesis using IH(2) [OF JObject] 1(3,4) False JObject by (simp add: within_limits_def)
    qed (use 1(3,4) False in \<open>auto simp: within_limits_def Let_def\<close>)
  qed
next
  case (3 v vs c)
  define a b where "a = sum_list (map json_nodes vs)" and "b = sum_list (map json_text_chars vs)"
  have rest: "visit_items vs c' = within_limits c' a b" if "within_limits c (json_nodes v) (json_text_chars v) = Some c'" for c'
    unfolding a_def b_def using 3(2) [of c'] 3(1) [OF 3(3,4)] within_limits_Some [OF that] that by simp
  have "visit_items (v # vs) c =
      (case within_limits c (json_nodes v) (json_text_chars v) of None \<Rightarrow> None | Some c' \<Rightarrow> within_limits c' a b)"
    using 3(1) [OF 3(3,4)] rest by (simp split: option.split)
  then show ?case by (simp add: within_limits_then a_def b_def)
next
  case (5 key v m c)
  define k where "k = length (utf8_chars key)"
  define a b where "a = sum_list (map (\<lambda>(k, v). json_nodes v) m)"
    and "b = sum_list (map (\<lambda>(k, v). length (utf8_chars k) + json_text_chars v) m)"
  show ?case
  proof (cases "snd c + k \<le> COMPACT_OPENAI_MAX_EXTRA_RESULT_TEXT_CHARS")
    case False
    then show ?thesis by (auto simp: Let_def k_def within_limits_def)
  next
    case True
    then have chars: "snd c + min k (COMPACT_OPENAI_MAX_EXTRA_RESULT_TEXT_CHARS + 1) = snd c + k" by simp
    define c1 where "c1 = (fst c, snd c + k)"
    have first: "visit v c1 = within_limits c1 (json_nodes v) (json_text_chars v)"
      using 5(1) [OF refl] 5(3,4) True chars by (simp add: k_def c1_def)
    have rest: "visit_members m c' = within_limits c' a b" if "within_limits c1 (json_nodes v) (json_text_chars v) = Some c'" for c'
      unfolding a_def b_def
      using 5(2) [OF refl, of c'] first True chars within_limits_Some [OF that] that by (simp add: k_def c1_def)
    have "visit_members ((key, v) # m) c =
        (case within_limits c1 (json_nodes v) (json_text_chars v) of None \<Rightarrow> None | Some c' \<Rightarrow> within_limits c' a b)"
      using first rest True chars by (simp add: Let_def k_def c1_def split: option.split)
    also have "\<dots> = within_limits c (json_nodes v + a) (k + json_text_chars v + b)"
      using True by (simp add: within_limits_then) (simp add: within_limits_def c1_def)
    finally show ?thesis by (simp add: a_def b_def k_def)
  qed
qed simp_all

text \<open>
  C25: The walk that admits an extra result for an OpenAI client, with its early exits and its capped
  character counts, accepts exactly the values with at most 256 JSON nodes whose strings and keys have at most
  4096 characters together.
\<close>

theorem extra_result_fits_exact:
  "compact_extra_result_fits v \<longleftrightarrow> json_nodes v \<le> 256 \<and> json_text_chars v \<le> 4096"
  using visit_counts(1) [of "(0, 0)" v]
  by (simp add: compact_extra_result_fits_def within_limits_def COMPACT_OPENAI_MAX_EXTRA_RESULT_NODES_def
      COMPACT_OPENAI_MAX_EXTRA_RESULT_TEXT_CHARS_def)

section \<open>The compact responses\<close>

lemma fits_bytes:
  "compact_fits to_vec v \<Longrightarrow> \<exists>bytes. to_vec v = Inr bytes \<and> length bytes \<le> 32 * 1024"
  by (auto simp: compact_fits_def RANKED_SEARCH_COMPACT_MAX_BYTES_def split: sum.splits)

text \<open>
  C23: The compact form of a ranked search answer fits in 32 KiB whatever the answer holds, lists a prefix of
  the ranked tools, counts exactly the tools it lists, keeps the number of matches and the limit of the search,
  and is marked as truncated whenever the answer was or a tool is left out.
\<close>

theorem compact_ranked_answer:
  assumes writer: "compact_writer to_vec"
    and counts: "sum_total_matches (rts_match_summary r) \<le> u64_max" "sum_result_limit (rts_match_summary r) \<le> u64_max"
  shows "\<exists>q s bytes. ranked_to_compact_value to_vec r = ranked_compact_value (q, s)
    \<and> to_vec (ranked_to_compact_value to_vec r) = Inr bytes \<and> length bytes \<le> 32 * 1024
    \<and> prefix (map res_name (rsp_results q)) (map res_name (rsp_results (rts_response r)))
    \<and> sum_returned_count s = length (rsp_results q)
    \<and> sum_total_matches s = sum_total_matches (rts_match_summary r)
    \<and> sum_result_limit s = sum_result_limit (rts_match_summary r)
    \<and> (sum_truncated (rts_match_summary r) \<or> length (rsp_results q) < length (rsp_results (rts_response r)) \<longrightarrow> sum_truncated s)"
proof -
  let ?p = "compact_projection (rts_response r)"
  obtain s0 t where s0: "compact_match_summary (rts_match_summary r) = (s0, t)" by fastforce
  define s1 where "s1 = (if cpj_truncated ?p \<or> t then mark_summary s0 else s0)"
  define start where "start = (cpj_response ?p, s1\<lparr>sum_returned_count := length (rsp_results (cpj_response ?p))\<rparr>)"
  have start: "ranked_to_compact_value to_vec r = ranked_compact_loop to_vec False start"
    by (simp add: ranked_to_compact_value_def ranked_compact_start_def s0 s1_def start_def Let_def)
  note summary = compact_match_summary_ok [OF s0] and projection = compact_projection_start [of "rts_response r"]
  have "match_summary_ok s0" using summary counts by (simp add: match_summary_ok_def)
  then have s1: "match_summary_ok s1" "same_search (rts_match_summary r) s1"
    "sum_truncated (rts_match_summary r) \<or> cpj_truncated ?p \<longrightarrow> sum_truncated s1"
    using summary by (auto simp: s1_def same_search_def)
  obtain q s where kept: "shortened (cpj_response ?p) (sum_truncated s1) q (sum_truncated s)" "same_search s1 s"
    and count: "sum_returned_count s = length (rsp_results q)"
    and run: "ranked_compact_loop to_vec False start = ranked_compact_value (q, s)" "compact_fits to_vec (ranked_compact_value (q, s))"
    using ranked_compact.run_fits [of to_vec start] compact_writer_fits [OF writer] projection(1) s1(1)
    by (auto simp: start_def same_search_def)
  have "names_cut (rts_response r) (cpj_response ?p) (sum_truncated s1)" using projection(4) s1(3) by (auto simp: names_cut_def)
  then have "names_cut (rts_response r) q (sum_truncated s)" using kept(1) by (rule names_cut_shortened)
  moreover have "sum_truncated (rts_match_summary r) \<longrightarrow> sum_truncated s" using kept(1) s1(3) by (auto simp: shortened_def)
  ultimately show ?thesis
    using run fits_bytes [OF run(2)] count kept(2) s1(2) unfolding start names_cut_def same_search_def by auto
qed

text \<open>The same bound for answers without a ranking.\<close>

lemma compact_plain_answer:
  assumes "compact_writer to_vec" and "length (rsp_results r) \<le> u64_max"
  shows "\<exists>q. response_to_compact_value to_vec r = with_compact_summary q \<and> compact_fits to_vec (with_compact_summary q)
    \<and> names_cut r (cpj_response q) (cpj_truncated q) \<and> cpj_source_count q = length (rsp_results r)"
  using plain_compact.run_fits [of to_vec "compact_projection r"] compact_writer_fits [OF assms(1)] assms(2)
    compact_projection_start [of r] names_cut_shortened
  unfolding response_to_compact_value_def by fastforce

lemma compact_plain_openai_answer:
  assumes "compact_writer to_vec" and "length (rsp_results (oai_response r)) \<le> u64_max"
    and "length (oai_companion_allowed_tools r) \<le> u64_max" and "length (oai_extra_results r) \<le> u64_max"
  shows "\<exists>q. openai_to_compact_value to_vec r = projection_to_value q \<and> compact_fits to_vec (projection_to_value q)
    \<and> openai_source r q"
  using openai_compact.run_fits [of to_vec "openai_compact_projection r"] compact_writer_fits [OF assms(1)]
    openai_projection_start [OF assms(2-4)] openai_source_kept
  unfolding openai_to_compact_value_def by blast


section \<open>A writer of compact JSON\<close>

text \<open>A writer with the shape of \<open>serde_json::to_vec\<close>, on which the results above are shown to apply.\<close>

definition json_char :: "rstr \<Rightarrow> rstr" where
  "json_char ch =
     (case ch of
        [c] \<Rightarrow>
          if byte c = 34 \<or> byte c = 92 then [char_of (92 :: nat), c]
          else if byte c < 32
          then char_of (92 :: nat) # ''u00'' @ [char_of (48 + byte c div 16),
                 char_of (if byte c mod 16 < 10 then 48 + byte c mod 16 else 87 + byte c mod 16)]
          else ch
      | _ \<Rightarrow> take 4 ch)"

definition json_quoted :: "rstr \<Rightarrow> rstr" where
  "json_quoted s = char_of (34 :: nat) # concat (map json_char (utf8_chars s)) @ [char_of (34 :: nat)]"

fun json_number_text :: "json_number \<Rightarrow> rstr" where
  "json_number_text (PosInt n) = show_nat n"
| "json_number_text (NegInt i) = ''-'' @ show_nat (nat (- i))"
| "json_number_text (Float s) = s"

fun json_text :: "json \<Rightarrow> rstr" where
  "json_text JNull = ''null''"
| "json_text (JBool b) = (if b then ''true'' else ''false'')"
| "json_text (JNumber n) = json_number_text n"
| "json_text (JString s) = json_quoted s"
| "json_text (JArray vs) = ''['' @ butlast (concat (map (\<lambda>v. json_text v @ '','') vs)) @ '']''"
| "json_text (JObject m) = char_of (123 :: nat) #
     butlast (concat (map (\<lambda>(key, v). json_quoted key @ '':'' @ json_text v @ '','') m)) @ [char_of (125 :: nat)]"

lemma json_quoted_length: "length (json_quoted s) \<le> 2 + 6 * length (utf8_chars s)"
proof -
  have "length (json_char ch) \<le> 6" for ch by (auto simp: json_char_def min_def split: list.split)
  then have "length (concat (map json_char cs)) \<le> 6 * length cs" for cs by (induction cs) (auto intro: add_mono)
  then show ?thesis by (simp add: json_quoted_def)
qed

lemma json_quoted_key_length: "length (json_quoted key) \<le> 2 + 6 * length key"
  using json_quoted_length [of key] utf8_chars_le [of key] by simp

lemma json_text_length: "length (json_text v) \<le> json_bound v"
proof (induction v rule: json_text.induct)
  case (3 n)
  show ?case by (cases n) (simp_all add: json_bound.simps)
next
  case (4 s)
  then show ?case using json_quoted_length by simp
next
  case (5 vs)
  then have "length (concat (map (\<lambda>v. json_text v @ '','') vs)) \<le> items_bound vs" by (induction vs) fastforce+
  then show ?case by simp
next
  case (6 m)
  then have "length (concat (map (\<lambda>(key, v). json_quoted key @ '':'' @ json_text v @ '','') m)) \<le> members_bound m"
  proof (induction m)
    case (Cons e m)
    obtain key v where e: "e = (key, v)" by fastforce
    have "length (json_text v) \<le> json_bound v" by (rule Cons.prems [of e]) (simp_all add: e)
    moreover have "length (concat (map (\<lambda>(key, v). json_quoted key @ '':'' @ json_text v @ '','') m)) \<le> members_bound m"
      by (rule Cons.IH) (use Cons.prems in auto)
    ultimately show ?case using json_quoted_key_length [of key] by (simp add: e)
  qed simp
  then show ?case by simp
qed simp_all

lemma json_text_writer: "compact_writer (\<lambda>v. Inr (json_text v))"
  using json_text_length by (simp add: compact_writer_def)

definition demo_result :: "rstr \<Rightarrow> tool_search_result" where
  "demo_result name =
     \<lparr>res_name = name, res_group = None, res_read_only = True, res_description = None, res_keywords = [], res_risk_posture = None\<rparr>"

definition demo_answer :: ranked_tool_search_response where
  "demo_answer =
     \<lparr>rts_response = \<lparr>rsp_operation = ''list'', rsp_query = None, rsp_group = None, rsp_read_only = None,
        rsp_results = [demo_result ''a'', demo_result ''b''], rsp_schemas = None, rsp_metadata_label = None\<rparr>,
      rts_match_summary = \<lparr>sum_total_matches = 3, sum_returned_count = 2, sum_result_limit = 2, sum_truncated = True,
        sum_truncation_reasons = [''result_limit''], sum_normalized_query_terms = [], sum_excluded_query_terms = [],
        sum_ignored_query_terms = []\<rparr>\<rparr>"

lemma compact_ranked_answer_witness:
  "\<exists>q s. ranked_to_compact_value (\<lambda>v. Inr (json_text v)) demo_answer = ranked_compact_value (q, s)
     \<and> sum_total_matches s = 3 \<and> sum_truncated s \<and> prefix (map res_name (rsp_results q)) [''a'', ''b'']"
  using compact_ranked_answer [OF json_text_writer, of demo_answer] by (auto simp: demo_answer_def demo_result_def)


end
