(* ===== verification/Spec2Isabelle.thy ===== *)
theory Spec2Isabelle
  imports Embed Sql_Policy Session_Manager Task_Properties Task_History Pagination Scoped_Cursor
    Canonical_Json Guarded_Action Scratchpad_Sql Control_Plane Kernel_Adapters Capability_Guard Compact_Search
begin

text \<open>
  Verification of the MCP toolkit for Rust (repository mcp-toolkit-rs).  The toolkit is a workspace of crates from
  which servers of the Model Context Protocol are built.  The parts modelled here are those that decide: policy,
  authentication, authorisation in front of an application, sessions and their event store, tasks, the tool catalog
  and its search, pagination and the small contracts of the core crate.  All paths below are under \<open>src/crates\<close>, without the prefix \<open>mcp-toolkit-\<close>.

  \<^bold>\<open>How the program is modelled.\<close>  A Rust string is its list of UTF-8 bytes; a structure is a record, an enumeration a
  datatype with the source's variants, a \<open>Result\<close> the sum type \<open>result\<close> with the error on the left.  A method with a
  mutable receiver returns the new state.  Hash maps are association lists with distinct keys; where their iteration order
  matters it is a parameter.  Clock readings are arguments of the operations, one per call of the clock.  What is shared
  by reference (authenticators, task bindings, the atomic state of a request witness) lives in a list and is referred to by
  position.  Concurrency is a list of atomic steps in any order: the units are the critical sections and the atomic
  operations of the source.  Third-party code is a parameter: the regular-expression, URL, JWT and HTTP client crates,
  SHA-256, JSON printing, the RMCP session and task managers, the DPoP verifier and the SPARK evaluators.  Loops are
  structural recursions or functions with a termination proof, so no fuel is used; the one unbounded client loop
  (\<open>collect_paginated_list\<close>) is bounded by its own limits in the source.

  \<^bold>\<open>Shared vocabulary.\<close>  \<open>Prelude\<close>: strings, trimming, splitting, decimal numbers, wrap-around casts, and the locale
  \<open>invariant_machine\<close>, which lifts an invariant of the steps to every run; it is interpreted by the event store, the
  session manager, the task system, the cursor store, the request witnesses, the capability guard and the tool catalog.
  \<open>Json\<close>: JSON values.  \<open>Ordered_Text\<close>: sorted lists of strings without repetitions, binary search and splitting.

  \<^bold>\<open>Policy core\<close> (\<open>policy-core\<close>).  \<open>Policy_Decision\<close> has the decision envelope, its wire form and three small gates, and the
  locale \<open>decision_gate\<close>, the contract that every gate is shown to meet.  \<open>Http_Path\<close> (\<open>http_path.rs\<close>,
  \<open>http_headers.rs\<close>) shows that an accepted path means the same before and after decoding.  \<open>Claims\<close> (\<open>claims.rs\<close>) and
  \<open>Embed\<close> (\<open>embed.rs\<close>) characterise when claims and requests are allowed, and that the route table picks the longest prefix.
  \<open>Sql_Lexer\<close> and \<open>Sql_Policy\<close> (\<open>sql_read_only.rs\<close>) characterise the restricted-SQL classifier, show that literals do not
  influence it, and exhibit statements it should refuse; \<open>Scratchpad_Sql\<close> (\<open>scratchpad/sql_safety.rs\<close>) does the same
  for the checks built on top of it, with the locale \<open>masking_lexer\<close> shared by both lexers.

  \<^bold>\<open>Policy runtime\<close> (\<open>policy-runtime\<close>, \<open>policy-kernel-adapters\<close>).  \<open>Policy_Authority\<close> (\<open>policy_authority.rs\<close>,
  \<open>route_scope.rs\<close>): decisions with provenance; a required evaluator cannot be bypassed and provenance requirements accept
  exactly what they name.  \<open>Kernel_Adapters\<close> (\<open>lib.rs\<close>): the gateway and data-access decisions, what an allow implies, and two
  gaps in the scope table.  \<open>Capability_Guard\<close> (\<open>capability_guard.rs\<close>): the cache is bounded, a reported success is recent
  and not withdrawn, and refreshes are single-flighted.  \<open>Http_Policy\<close> (\<open>http_policy.rs\<close>): the gate consumes the witness of
  the auth surface and asks the authority; the composition theorem says that surface and gate make one decision.
  \<open>Control_Plane\<close> (\<open>auth_control_plane.rs\<close>): the envelope, the HTTP mapper and exactly which mapped requests are allowed.

  \<^bold>\<open>Authentication\<close> (\<open>auth\<close>, and \<open>http/oauth.rs\<close>).  \<open>Auth_Headers\<close> (\<open>error.rs\<close>, \<open>bearer.rs\<close>, \<open>dpop.rs\<close>): strict header
  parsers.  \<open>Auth_Claims\<close> (\<open>claims.rs\<close>, \<open>config.rs\<close>, \<open>context.rs\<close>): claims, configuration and contexts.  \<open>Jti_Replay\<close>
  (\<open>replay.rs\<close>): the replay cache, through the locale \<open>replay_store\<close>.  \<open>Auth_Providers\<close> (\<open>providers/\<close>): introspection, key sets and
  delegation.  \<open>Authenticator\<close> (\<open>authenticator.rs\<close>): contexts are supported by the token, replays are refused, proofs are bound to
  the token.  \<open>Auth_Challenge\<close> (\<open>challenge.rs\<close>): challenges are read back exactly.  \<open>Issuer_Registry\<close> (\<open>surface.rs\<close>,
  \<open>oauth.rs\<close>): registration and routing by resolved segments.  \<open>Auth_Surface\<close> (\<open>surface.rs\<close>): the middleware; everything it
  forwards is mediated, and a witness is used at most once, while its request runs, and only as it was issued.

  \<^bold>\<open>Sessions\<close> (\<open>http/session.rs\<close>).  \<open>Event_Store\<close>: retention bounds, isolation and replay.  \<open>Session_Manager\<close>: bounded
  sessions, the idle sweep and its race, and stream counting under every interleaving.

  \<^bold>\<open>Tasks\<close> (\<open>tasks\<close>).  \<open>Task_Authority\<close> and \<open>Task_Observer\<close> (\<open>authority.rs\<close>) have the operations, \<open>Task_System\<close> the machine of
  interleaved threads with its invariant, \<open>Task_Properties\<close> what follows: capacity, isolation, ownership, shutdown, and the
  observer's completeness and rate limit.  \<open>Task_History\<close> (\<open>history.rs\<close>, \<open>lifecycle.rs\<close>): bounded history per principal.

  \<^bold>\<open>Core contracts\<close> (\<open>core\<close>).  \<open>Pagination\<close>: a drain ends and returns the whole list or nothing.  \<open>Scoped_Cursor\<close>:
  continuations live exactly until they expire.  \<open>Canonical_Json\<close>: the canonical form decides equality up to key order.
  \<open>Guarded_Action\<close>: the runtime gate and plan identifiers.

  \<^bold>\<open>Tool catalog and search\<close> (\<open>core/tool_inventory.rs\<close>, \<open>core/openai_tool_search.rs\<close>).  \<open>Tool_Inventory\<close>: capabilities,
  policies, decisions, profiles, contracts and the catalog, which refines the inventory; registration accepts exactly
  valid declarations, a contract tells the truth about the decisions, and the read-only profile is safe.
  \<open>Tool_Search\<close>: query normalisation, plain and ranked search; a ranked answer stays inside the policy, honours
  negated words and fails closed.  \<open>Openai_Search\<close>: the request fragments for OpenAI clients, whose approval is widened only
  for reviewed read-only tools.  \<open>Search_Response\<close>: the full and the compact responses.  \<open>Compact_Search\<close>: the locale
  \<open>compact_response\<close>, interpreted by the four compaction loops, from which each compact response fits in 32 KiB, lists a
  prefix of the results and says when something is missing.  The JSON writer is assumed to be compact
  (\<open>compact_writer\<close>): at most six bytes for a character and one separator for an element or a member.

  \<^bold>\<open>This theory\<close> composes the parts: \<open>protected_application\<close> follows a request from its raw headers and path through the
  surface, the authenticator, the gate, the control plane and the embedded kernel to an arbitrary application.

  \<^bold>\<open>Bounds.\<close>  Integers are natural numbers or integers with the wrap-around written out where a cast can overflow (the
  retention time and the numbering of events in \<open>Event_Store\<close>, the \<open>u64\<close> lengths of the digest in \<open>Auth_Surface\<close>).
  Comment depths of the lexers are natural numbers, since they cannot reach the width of their type on an input that fits
  in memory.  Time is counted in milliseconds, seconds or nanoseconds as the component does.

  \<^bold>\<open>Not modelled.\<close>  The SQLite event store and its cipher, the process supervisor, the PostgreSQL pool, private artifacts and
  the scratchpad database are calls of the operating system or a driver.  The foreign policy library is loaded and called
  through C.  Axum and RMCP handlers, transports, tracing and metrics exporters, and the command line generate or move data
  and decide nothing that is not decided in the parts above.  Outbound OAuth and DPoP clients, discovery validation,
  tool schema rewriting, event preparation, opaque tokens, redaction and provenance admission have logic of their own that is
  not part of this development yet.  Debug events, failure observers and wake-ups of waiting threads are left out of the
  modelled parts, as are poisoned locks, except in the capability guard, where the error is part of the interface.
\<close>

section \<open>From the HTTP request to the application\<close>

definition control_plane_gate :: "boundary \<Rightarrow> cp_authority \<Rightarrow> cp_http_mapper \<Rightarrow> nat \<Rightarrow> cp_input policy_gate" where
  "control_plane_gate lim a m k =
     \<lparr>pg_authority = cp_evaluate lim a, pg_mapper = map_request m, pg_deny_response = json_deny_response,
      pg_authenticator = k\<rparr>"


definition demo_protected ::
  "nat \<Rightarrow> (unit, policy_authority_decision http_reply) result \<times> (unit, unit) surface_world" where
  "demo_protected status =
     surface_call (\<lambda>x. x) (\<lambda>_. True) demo_env (demo_clock 10) demo_registry
       (policy_call (\<lambda>x. x)
          (control_plane_gate fallback_boundary (cp_authority_new (kernel_of [OptDefaultScopes ''a'' ''b''])) http_mapper_default 0)
          (\<lambda>req w. (Inr \<lparr>reply_status = status, reply_headers = [], reply_body = EmptyBody, reply_decision = None\<rparr>, w)))
       (demo_http_request ''/mcp/tools'') demo_world"


end
